(* ===== verification/Sdb_Prelude.thy ===== *)
theory Sdb_Prelude
  imports Main "HOL-Library.Word"
begin

text \<open>
  Shared vocabulary of the development: machine types, failures as values with their
  sequencing operator, little-endian byte sequences, and the generic lemmas that the
  component theories use.

  A C++ function of the debugger either returns, throws, terminates the debugger or has
  undefined behaviour.  All four are values here: a function that can do anything but
  return has type \<open>'a result\<close>, and \<open>Inl\<close> carries what happened instead of returning.
\<close>

unbundle bit_operations_syntax

section \<open>Machine types\<close>

type_synonym byte = "8 word"
type_synonym u16 = "16 word"
type_synonym u32 = "32 word"
type_synonym u64 = "64 word"

section \<open>Failures as values\<close>

text \<open>
  \<open>Sdb_Error\<close> is an exception of class \<open>sdb::error\<close>; the next three are exceptions of the
  standard library (\<open>.at()\<close> on a container, \<open>std::get\<close> on a variant, \<open>.value()\<close> on an
  optional); \<open>Terminate\<close> is \<open>std::terminate\<close> or a failed assertion; \<open>Undefined\<close> marks
  undefined behaviour, such as a read outside the object a pointer points into.
  \<open>Out_Of_Fuel\<close> is no outcome of the program: a loop that the data may keep running forever
  carries a bound on its steps and ends with it when the bound is used up.
\<close>

datatype failure =
    Sdb_Error string
  | Out_Of_Range
  | Bad_Variant_Access
  | Bad_Optional_Access
  | Terminate
  | Undefined string
  | Out_Of_Fuel

type_synonym 'a result = "failure + 'a"

definition send :: "string \<Rightarrow> 'a result" where
  "send what = Inl (Sdb_Error what)"

definition undefined_behaviour :: "string \<Rightarrow> 'a result" where
  "undefined_behaviour what = Inl (Undefined what)"

fun bind_res :: "'a result \<Rightarrow> ('a \<Rightarrow> 'b result) \<Rightarrow> 'b result" where
  "bind_res (Inl e) f = Inl e"
| "bind_res (Inr x) f = f x"

fun no_ub :: "'a result \<Rightarrow> bool" where
  "no_ub (Inl (Undefined m)) = False"
| "no_ub r = True"

named_theorems res_simps \<open>rewrite rules for results\<close>

lemma bind_res_cong [fundef_cong]:
  "m = m' \<Longrightarrow> (\<And>x. m' = Inr x \<Longrightarrow> f x = f' x) \<Longrightarrow> bind_res m f = bind_res m' f'"
  by (cases m') auto

lemma bind_res_Inr_iff [res_simps]:
  "bind_res m f = Inr y \<longleftrightarrow> (\<exists>x. m = Inr x \<and> f x = Inr y)"
  by (cases m) auto

lemma bind_res_Inl_iff:
  "bind_res m f = Inl e \<longleftrightarrow> m = Inl e \<or> (\<exists>x. m = Inr x \<and> f x = Inl e)"
  by (cases m) auto

lemma bind_res_assoc: "bind_res (bind_res m f) g = bind_res m (\<lambda>x. bind_res (f x) g)"
  by (cases m) auto

lemma send_not_Inr [simp]: "send w \<noteq> Inr x" "Inr x \<noteq> send w"
  by (auto simp: send_def)

lemma undefined_behaviour_not_Inr [simp]:
  "undefined_behaviour w \<noteq> Inr x" "Inr x \<noteq> undefined_behaviour w"
  by (auto simp: undefined_behaviour_def)

lemma bind_res_send [simp]: "bind_res (send w) f = send w"
  by (simp add: send_def)

lemma bind_res_undefined [simp]:
  "bind_res (undefined_behaviour w) f = undefined_behaviour w"
  by (simp add: undefined_behaviour_def)

lemma no_ub_send [simp]: "no_ub (send w)"
  by (simp add: send_def)

lemma no_ub_undefined [simp]: "\<not> no_ub (undefined_behaviour w)"
  by (simp add: undefined_behaviour_def)

lemma no_ub_iff: "no_ub r \<longleftrightarrow> (\<forall>m. r \<noteq> Inl (Undefined m))"
  by (cases r rule: no_ub.cases) auto

lemma no_ub_bind:
  "no_ub m \<Longrightarrow> (\<And>x. m = Inr x \<Longrightarrow> no_ub (f x)) \<Longrightarrow> no_ub (bind_res m f)"
  by (cases m) (auto simp: no_ub_iff)

text \<open>An optional value read with \<open>.value()\<close>, and a map read with \<open>.at()\<close>.\<close>

fun opt_value :: "'a option \<Rightarrow> 'a result" where
  "opt_value None = Inl Bad_Optional_Access"
| "opt_value (Some x) = Inr x"

fun map_at :: "('k \<Rightarrow> 'v option) \<Rightarrow> 'k \<Rightarrow> 'v result" where
  "map_at m k = (case m k of None \<Rightarrow> Inl Out_Of_Range | Some v \<Rightarrow> Inr v)"

text \<open>The result of running a fallible function over a list, stopping at the first failure.\<close>

fun map_res :: "('a \<Rightarrow> 'b result) \<Rightarrow> 'a list \<Rightarrow> 'b list result" where
  "map_res f [] = Inr []"
| "map_res f (x # xs) = bind_res (f x) (\<lambda>y. bind_res (map_res f xs) (\<lambda>ys. Inr (y # ys)))"

lemma map_res_length: "map_res f xs = Inr ys \<Longrightarrow> length ys = length xs"
  by (induction xs arbitrary: ys) (auto simp: res_simps)

lemma map_res_nth:
  "map_res f xs = Inr ys \<Longrightarrow> i < length xs \<Longrightarrow> f (xs ! i) = Inr (ys ! i)"
proof (induction xs arbitrary: ys i)
  case (Cons x xs)
  then show ?case by (cases i) (auto simp: res_simps)
qed simp

section \<open>Little-endian byte sequences\<close>

primrec le_nat :: "byte list \<Rightarrow> nat" where
  "le_nat [] = 0"
| "le_nat (b # bs) = unat b + 256 * le_nat bs"

primrec nat_le :: "nat \<Rightarrow> nat \<Rightarrow> byte list" where
  "nat_le 0 x = []"
| "nat_le (Suc n) x = word_of_nat x # nat_le n (x div 256)"

lemma nat_le_numeral:
  "nat_le (numeral k) x = word_of_nat x # nat_le (pred_numeral k) (x div 256)"
  by (subst numeral_eq_Suc) (rule nat_le.simps(2))

lemma length_nat_le [simp]: "length (nat_le n x) = n"
  by (induction n arbitrary: x) auto

lemma unat_byte_less: "unat (b :: byte) < 256"
proof -
  have "unat b < 2 ^ LENGTH(8)" by (rule unsigned_less)
  then show ?thesis by simp
qed

lemma le_nat_less: "le_nat bs < 256 ^ length bs"
proof (induction bs)
  case (Cons b bs)
  then show ?case using unat_byte_less [of b] by simp
qed simp

lemma unat_word_of_nat_byte: "unat (word_of_nat x :: byte) = x mod 256"
  by (simp add: unat_of_nat)

lemma le_nat_nat_le: "le_nat (nat_le n x) = x mod 256 ^ n"
proof (induction n arbitrary: x)
  case (Suc n)
  have "x mod 256 ^ Suc n = x mod 256 + 256 * (x div 256 mod 256 ^ n)"
    by (simp add: mod_mult2_eq)
  with Suc show ?case by (simp add: unat_word_of_nat_byte)
qed simp

lemma nat_le_le_nat: "nat_le (length bs) (le_nat bs) = bs"
proof (induction bs)
  case (Cons b bs)
  have b: "unat b < 256" by (rule unat_byte_less)
  have "unat (word_of_nat (unat b + 256 * le_nat bs) :: byte) = unat b"
    unfolding unat_word_of_nat_byte using b by simp
  then have "(word_of_nat (unat b + 256 * le_nat bs) :: byte) = b"
    by (simp only: word_unat_eq_iff)
  moreover have "(unat b + 256 * le_nat bs) div 256 = le_nat bs" using b by simp
  ultimately show ?case using Cons by simp
qed simp

end
