(* ===== verification/Dwarf_Constants.thy ===== *)
theory Dwarf_Constants
  imports Sdb_Prelude
begin

text \<open>
  The enumerators of \<^verbatim>\<open>include/libsdb/detail/dwarf.h\<close> that the debugger uses, at the width
  of the values they are compared with: tags, attributes, forms and encodings are read as
  LEB128 numbers into 64-bit values, opcodes and pointer encodings are single bytes.
\<close>

section \<open>Tags\<close>

abbreviation (input) DW_TAG_array_type :: u64 where "DW_TAG_array_type \<equiv> 0x01"

abbreviation (input) DW_TAG_class_type :: u64 where "DW_TAG_class_type \<equiv> 0x02"

abbreviation (input) DW_TAG_enumeration_type :: u64 where "DW_TAG_enumeration_type \<equiv> 0x04"

abbreviation (input) DW_TAG_formal_parameter :: u64 where "DW_TAG_formal_parameter \<equiv> 0x05"

abbreviation (input) DW_TAG_member :: u64 where "DW_TAG_member \<equiv> 0x0d"

abbreviation (input) DW_TAG_pointer_type :: u64 where "DW_TAG_pointer_type \<equiv> 0x0f"

abbreviation (input) DW_TAG_reference_type :: u64 where "DW_TAG_reference_type \<equiv> 0x10"

abbreviation (input) DW_TAG_structure_type :: u64 where "DW_TAG_structure_type \<equiv> 0x13"

abbreviation (input) DW_TAG_subroutine_type :: u64 where "DW_TAG_subroutine_type \<equiv> 0x15"

abbreviation (input) DW_TAG_typedef :: u64 where "DW_TAG_typedef \<equiv> 0x16"

abbreviation (input) DW_TAG_union_type :: u64 where "DW_TAG_union_type \<equiv> 0x17"

abbreviation (input) DW_TAG_inheritance :: u64 where "DW_TAG_inheritance \<equiv> 0x1c"

abbreviation (input) DW_TAG_inlined_subroutine :: u64 where "DW_TAG_inlined_subroutine \<equiv> 0x1d"

abbreviation (input) DW_TAG_ptr_to_member_type :: u64 where "DW_TAG_ptr_to_member_type \<equiv> 0x1f"

abbreviation (input) DW_TAG_subrange_type :: u64 where "DW_TAG_subrange_type \<equiv> 0x21"

abbreviation (input) DW_TAG_base_type :: u64 where "DW_TAG_base_type \<equiv> 0x24"

abbreviation (input) DW_TAG_const_type :: u64 where "DW_TAG_const_type \<equiv> 0x26"

abbreviation (input) DW_TAG_subprogram :: u64 where "DW_TAG_subprogram \<equiv> 0x2e"

abbreviation (input) DW_TAG_variable :: u64 where "DW_TAG_variable \<equiv> 0x34"

abbreviation (input) DW_TAG_volatile_type :: u64 where "DW_TAG_volatile_type \<equiv> 0x35"

abbreviation (input) DW_TAG_rvalue_reference_type :: u64 where "DW_TAG_rvalue_reference_type \<equiv> 0x42"

section \<open>Attributes\<close>

abbreviation (input) DW_AT_location :: u64 where "DW_AT_location \<equiv> 0x02"

abbreviation (input) DW_AT_name :: u64 where "DW_AT_name \<equiv> 0x03"

abbreviation (input) DW_AT_byte_size :: u64 where "DW_AT_byte_size \<equiv> 0x0b"

abbreviation (input) DW_AT_bit_offset :: u64 where "DW_AT_bit_offset \<equiv> 0x0c"

abbreviation (input) DW_AT_bit_size :: u64 where "DW_AT_bit_size \<equiv> 0x0d"

abbreviation (input) DW_AT_stmt_list :: u64 where "DW_AT_stmt_list \<equiv> 0x10"

abbreviation (input) DW_AT_low_pc :: u64 where "DW_AT_low_pc \<equiv> 0x11"

abbreviation (input) DW_AT_high_pc :: u64 where "DW_AT_high_pc \<equiv> 0x12"

abbreviation (input) DW_AT_comp_dir :: u64 where "DW_AT_comp_dir \<equiv> 0x1b"

abbreviation (input) DW_AT_upper_bound :: u64 where "DW_AT_upper_bound \<equiv> 0x2f"

abbreviation (input) DW_AT_abstract_origin :: u64 where "DW_AT_abstract_origin \<equiv> 0x31"

abbreviation (input) DW_AT_data_member_location :: u64 where "DW_AT_data_member_location \<equiv> 0x38"

abbreviation (input) DW_AT_decl_file :: u64 where "DW_AT_decl_file \<equiv> 0x3a"

abbreviation (input) DW_AT_decl_line :: u64 where "DW_AT_decl_line \<equiv> 0x3b"

abbreviation (input) DW_AT_encoding :: u64 where "DW_AT_encoding \<equiv> 0x3e"

abbreviation (input) DW_AT_frame_base :: u64 where "DW_AT_frame_base \<equiv> 0x40"

abbreviation (input) DW_AT_specification :: u64 where "DW_AT_specification \<equiv> 0x47"

abbreviation (input) DW_AT_type :: u64 where "DW_AT_type \<equiv> 0x49"

abbreviation (input) DW_AT_virtuality :: u64 where "DW_AT_virtuality \<equiv> 0x4c"

abbreviation (input) DW_AT_ranges :: u64 where "DW_AT_ranges \<equiv> 0x55"

abbreviation (input) DW_AT_call_file :: u64 where "DW_AT_call_file \<equiv> 0x58"

abbreviation (input) DW_AT_call_line :: u64 where "DW_AT_call_line \<equiv> 0x59"

abbreviation (input) DW_AT_object_pointer :: u64 where "DW_AT_object_pointer \<equiv> 0x64"

abbreviation (input) DW_AT_data_bit_offset :: u64 where "DW_AT_data_bit_offset \<equiv> 0x6b"

abbreviation (input) DW_AT_defaulted :: u64 where "DW_AT_defaulted \<equiv> 0x8b"

section \<open>Defaulted codes\<close>

abbreviation (input) DW_DEFAULTED_in_class :: u64 where "DW_DEFAULTED_in_class \<equiv> 0x01"

section \<open>Attribute forms\<close>

abbreviation (input) DW_FORM_addr :: u64 where "DW_FORM_addr \<equiv> 0x01"

abbreviation (input) DW_FORM_block2 :: u64 where "DW_FORM_block2 \<equiv> 0x03"

abbreviation (input) DW_FORM_block4 :: u64 where "DW_FORM_block4 \<equiv> 0x04"

abbreviation (input) DW_FORM_data2 :: u64 where "DW_FORM_data2 \<equiv> 0x05"

abbreviation (input) DW_FORM_data4 :: u64 where "DW_FORM_data4 \<equiv> 0x06"

abbreviation (input) DW_FORM_data8 :: u64 where "DW_FORM_data8 \<equiv> 0x07"

abbreviation (input) DW_FORM_string :: u64 where "DW_FORM_string \<equiv> 0x08"

abbreviation (input) DW_FORM_block :: u64 where "DW_FORM_block \<equiv> 0x09"

abbreviation (input) DW_FORM_block1 :: u64 where "DW_FORM_block1 \<equiv> 0x0a"

abbreviation (input) DW_FORM_data1 :: u64 where "DW_FORM_data1 \<equiv> 0x0b"

abbreviation (input) DW_FORM_flag :: u64 where "DW_FORM_flag \<equiv> 0x0c"

abbreviation (input) DW_FORM_sdata :: u64 where "DW_FORM_sdata \<equiv> 0x0d"

abbreviation (input) DW_FORM_strp :: u64 where "DW_FORM_strp \<equiv> 0x0e"

abbreviation (input) DW_FORM_udata :: u64 where "DW_FORM_udata \<equiv> 0x0f"

abbreviation (input) DW_FORM_ref_addr :: u64 where "DW_FORM_ref_addr \<equiv> 0x10"

abbreviation (input) DW_FORM_ref1 :: u64 where "DW_FORM_ref1 \<equiv> 0x11"

abbreviation (input) DW_FORM_ref2 :: u64 where "DW_FORM_ref2 \<equiv> 0x12"

abbreviation (input) DW_FORM_ref4 :: u64 where "DW_FORM_ref4 \<equiv> 0x13"

abbreviation (input) DW_FORM_ref8 :: u64 where "DW_FORM_ref8 \<equiv> 0x14"

abbreviation (input) DW_FORM_ref_udata :: u64 where "DW_FORM_ref_udata \<equiv> 0x15"

abbreviation (input) DW_FORM_indirect :: u64 where "DW_FORM_indirect \<equiv> 0x16"

abbreviation (input) DW_FORM_sec_offset :: u64 where "DW_FORM_sec_offset \<equiv> 0x17"

abbreviation (input) DW_FORM_exprloc :: u64 where "DW_FORM_exprloc \<equiv> 0x18"

abbreviation (input) DW_FORM_flag_present :: u64 where "DW_FORM_flag_present \<equiv> 0x19"

section \<open>Expression opcodes\<close>

abbreviation (input) DW_OP_addr :: byte where "DW_OP_addr \<equiv> 0x03"

abbreviation (input) DW_OP_deref :: byte where "DW_OP_deref \<equiv> 0x06"

abbreviation (input) DW_OP_const1u :: byte where "DW_OP_const1u \<equiv> 0x08"

abbreviation (input) DW_OP_const1s :: byte where "DW_OP_const1s \<equiv> 0x09"

abbreviation (input) DW_OP_const2u :: byte where "DW_OP_const2u \<equiv> 0x0a"

abbreviation (input) DW_OP_const2s :: byte where "DW_OP_const2s \<equiv> 0x0b"

abbreviation (input) DW_OP_const4u :: byte where "DW_OP_const4u \<equiv> 0x0c"

abbreviation (input) DW_OP_const4s :: byte where "DW_OP_const4s \<equiv> 0x0d"

abbreviation (input) DW_OP_const8u :: byte where "DW_OP_const8u \<equiv> 0x0e"

abbreviation (input) DW_OP_const8s :: byte where "DW_OP_const8s \<equiv> 0x0f"

abbreviation (input) DW_OP_constu :: byte where "DW_OP_constu \<equiv> 0x10"

abbreviation (input) DW_OP_consts :: byte where "DW_OP_consts \<equiv> 0x11"

abbreviation (input) DW_OP_dup :: byte where "DW_OP_dup \<equiv> 0x12"

abbreviation (input) DW_OP_drop :: byte where "DW_OP_drop \<equiv> 0x13"

abbreviation (input) DW_OP_over :: byte where "DW_OP_over \<equiv> 0x14"

abbreviation (input) DW_OP_pick :: byte where "DW_OP_pick \<equiv> 0x15"

abbreviation (input) DW_OP_swap :: byte where "DW_OP_swap \<equiv> 0x16"

abbreviation (input) DW_OP_rot :: byte where "DW_OP_rot \<equiv> 0x17"

abbreviation (input) DW_OP_xderef :: byte where "DW_OP_xderef \<equiv> 0x18"

abbreviation (input) DW_OP_abs :: byte where "DW_OP_abs \<equiv> 0x19"

abbreviation (input) DW_OP_and :: byte where "DW_OP_and \<equiv> 0x1a"

abbreviation (input) DW_OP_div :: byte where "DW_OP_div \<equiv> 0x1b"

abbreviation (input) DW_OP_minus :: byte where "DW_OP_minus \<equiv> 0x1c"

abbreviation (input) DW_OP_mod :: byte where "DW_OP_mod \<equiv> 0x1d"

abbreviation (input) DW_OP_mul :: byte where "DW_OP_mul \<equiv> 0x1e"

abbreviation (input) DW_OP_neg :: byte where "DW_OP_neg \<equiv> 0x1f"

abbreviation (input) DW_OP_not :: byte where "DW_OP_not \<equiv> 0x20"

abbreviation (input) DW_OP_or :: byte where "DW_OP_or \<equiv> 0x21"

abbreviation (input) DW_OP_plus :: byte where "DW_OP_plus \<equiv> 0x22"

abbreviation (input) DW_OP_plus_uconst :: byte where "DW_OP_plus_uconst \<equiv> 0x23"

abbreviation (input) DW_OP_shl :: byte where "DW_OP_shl \<equiv> 0x24"

abbreviation (input) DW_OP_shr :: byte where "DW_OP_shr \<equiv> 0x25"

abbreviation (input) DW_OP_shra :: byte where "DW_OP_shra \<equiv> 0x26"

abbreviation (input) DW_OP_xor :: byte where "DW_OP_xor \<equiv> 0x27"

abbreviation (input) DW_OP_skip :: byte where "DW_OP_skip \<equiv> 0x2f"

abbreviation (input) DW_OP_bra :: byte where "DW_OP_bra \<equiv> 0x28"

abbreviation (input) DW_OP_eq :: byte where "DW_OP_eq \<equiv> 0x29"

abbreviation (input) DW_OP_ge :: byte where "DW_OP_ge \<equiv> 0x2a"

abbreviation (input) DW_OP_gt :: byte where "DW_OP_gt \<equiv> 0x2b"

abbreviation (input) DW_OP_le :: byte where "DW_OP_le \<equiv> 0x2c"

abbreviation (input) DW_OP_lt :: byte where "DW_OP_lt \<equiv> 0x2d"

abbreviation (input) DW_OP_ne :: byte where "DW_OP_ne \<equiv> 0x2e"

abbreviation (input) DW_OP_lit0 :: byte where "DW_OP_lit0 \<equiv> 0x30"

abbreviation (input) DW_OP_lit31 :: byte where "DW_OP_lit31 \<equiv> 0x4f"

abbreviation (input) DW_OP_reg0 :: byte where "DW_OP_reg0 \<equiv> 0x50"

abbreviation (input) DW_OP_reg31 :: byte where "DW_OP_reg31 \<equiv> 0x6f"

abbreviation (input) DW_OP_breg0 :: byte where "DW_OP_breg0 \<equiv> 0x70"

abbreviation (input) DW_OP_breg31 :: byte where "DW_OP_breg31 \<equiv> 0x8f"

abbreviation (input) DW_OP_regx :: byte where "DW_OP_regx \<equiv> 0x90"

abbreviation (input) DW_OP_fbreg :: byte where "DW_OP_fbreg \<equiv> 0x91"

abbreviation (input) DW_OP_bregx :: byte where "DW_OP_bregx \<equiv> 0x92"

abbreviation (input) DW_OP_piece :: byte where "DW_OP_piece \<equiv> 0x93"

abbreviation (input) DW_OP_deref_size :: byte where "DW_OP_deref_size \<equiv> 0x94"

abbreviation (input) DW_OP_xderef_size :: byte where "DW_OP_xderef_size \<equiv> 0x95"

abbreviation (input) DW_OP_nop :: byte where "DW_OP_nop \<equiv> 0x96"

abbreviation (input) DW_OP_push_object_address :: byte where "DW_OP_push_object_address \<equiv> 0x97"

abbreviation (input) DW_OP_call2 :: byte where "DW_OP_call2 \<equiv> 0x98"

abbreviation (input) DW_OP_call4 :: byte where "DW_OP_call4 \<equiv> 0x99"

abbreviation (input) DW_OP_call_ref :: byte where "DW_OP_call_ref \<equiv> 0x9a"

abbreviation (input) DW_OP_form_tls_address :: byte where "DW_OP_form_tls_address \<equiv> 0x9b"

abbreviation (input) DW_OP_call_frame_cfa :: byte where "DW_OP_call_frame_cfa \<equiv> 0x9c"

abbreviation (input) DW_OP_bit_piece :: byte where "DW_OP_bit_piece \<equiv> 0x9d"

abbreviation (input) DW_OP_implicit_value :: byte where "DW_OP_implicit_value \<equiv> 0x9e"

abbreviation (input) DW_OP_stack_value :: byte where "DW_OP_stack_value \<equiv> 0x9f"

section \<open>Base-type encodings\<close>

abbreviation (input) DW_ATE_boolean :: u64 where "DW_ATE_boolean \<equiv> 0x02"

abbreviation (input) DW_ATE_float :: u64 where "DW_ATE_float \<equiv> 0x04"

abbreviation (input) DW_ATE_signed :: u64 where "DW_ATE_signed \<equiv> 0x05"

abbreviation (input) DW_ATE_signed_char :: u64 where "DW_ATE_signed_char \<equiv> 0x06"

abbreviation (input) DW_ATE_unsigned :: u64 where "DW_ATE_unsigned \<equiv> 0x07"

abbreviation (input) DW_ATE_unsigned_char :: u64 where "DW_ATE_unsigned_char \<equiv> 0x08"

abbreviation (input) DW_ATE_UTF :: u64 where "DW_ATE_UTF \<equiv> 0x10"

section \<open>Virtuality codes\<close>

abbreviation (input) DW_VIRTUALITY_none :: u64 where "DW_VIRTUALITY_none \<equiv> 0x00"

section \<open>Standard line-number opcodes\<close>

abbreviation (input) DW_LNS_copy :: byte where "DW_LNS_copy \<equiv> 0x01"

abbreviation (input) DW_LNS_advance_pc :: byte where "DW_LNS_advance_pc \<equiv> 0x02"

abbreviation (input) DW_LNS_advance_line :: byte where "DW_LNS_advance_line \<equiv> 0x03"

abbreviation (input) DW_LNS_set_file :: byte where "DW_LNS_set_file \<equiv> 0x04"

abbreviation (input) DW_LNS_set_column :: byte where "DW_LNS_set_column \<equiv> 0x05"

abbreviation (input) DW_LNS_negate_stmt :: byte where "DW_LNS_negate_stmt \<equiv> 0x06"

abbreviation (input) DW_LNS_set_basic_block :: byte where "DW_LNS_set_basic_block \<equiv> 0x07"

abbreviation (input) DW_LNS_const_add_pc :: byte where "DW_LNS_const_add_pc \<equiv> 0x08"

abbreviation (input) DW_LNS_fixed_advance_pc :: byte where "DW_LNS_fixed_advance_pc \<equiv> 0x09"

abbreviation (input) DW_LNS_set_prologue_end :: byte where "DW_LNS_set_prologue_end \<equiv> 0x0a"

abbreviation (input) DW_LNS_set_epilogue_begin :: byte where "DW_LNS_set_epilogue_begin \<equiv> 0x0b"

abbreviation (input) DW_LNS_set_isa :: byte where "DW_LNS_set_isa \<equiv> 0x0c"

section \<open>Extended line-number opcodes\<close>

abbreviation (input) DW_LNE_end_sequence :: byte where "DW_LNE_end_sequence \<equiv> 0x01"

abbreviation (input) DW_LNE_set_address :: byte where "DW_LNE_set_address \<equiv> 0x02"

abbreviation (input) DW_LNE_define_file :: byte where "DW_LNE_define_file \<equiv> 0x03"

abbreviation (input) DW_LNE_set_discriminator :: byte where "DW_LNE_set_discriminator \<equiv> 0x04"

section \<open>Call-frame opcodes\<close>

abbreviation (input) DW_CFA_advance_loc :: byte where "DW_CFA_advance_loc \<equiv> 0x40"

abbreviation (input) DW_CFA_offset :: byte where "DW_CFA_offset \<equiv> 0x80"

abbreviation (input) DW_CFA_restore :: byte where "DW_CFA_restore \<equiv> 0xc0"

abbreviation (input) DW_CFA_set_loc :: byte where "DW_CFA_set_loc \<equiv> 0x01"

abbreviation (input) DW_CFA_advance_loc1 :: byte where "DW_CFA_advance_loc1 \<equiv> 0x02"

abbreviation (input) DW_CFA_advance_loc2 :: byte where "DW_CFA_advance_loc2 \<equiv> 0x03"

abbreviation (input) DW_CFA_advance_loc4 :: byte where "DW_CFA_advance_loc4 \<equiv> 0x04"

abbreviation (input) DW_CFA_offset_extended :: byte where "DW_CFA_offset_extended \<equiv> 0x05"

abbreviation (input) DW_CFA_restore_extended :: byte where "DW_CFA_restore_extended \<equiv> 0x06"

abbreviation (input) DW_CFA_undefined :: byte where "DW_CFA_undefined \<equiv> 0x07"

abbreviation (input) DW_CFA_same_value :: byte where "DW_CFA_same_value \<equiv> 0x08"

abbreviation (input) DW_CFA_register :: byte where "DW_CFA_register \<equiv> 0x09"

abbreviation (input) DW_CFA_remember_state :: byte where "DW_CFA_remember_state \<equiv> 0x0a"

abbreviation (input) DW_CFA_restore_state :: byte where "DW_CFA_restore_state \<equiv> 0x0b"

abbreviation (input) DW_CFA_def_cfa :: byte where "DW_CFA_def_cfa \<equiv> 0x0c"

abbreviation (input) DW_CFA_def_cfa_register :: byte where "DW_CFA_def_cfa_register \<equiv> 0x0d"

abbreviation (input) DW_CFA_def_cfa_offset :: byte where "DW_CFA_def_cfa_offset \<equiv> 0x0e"

abbreviation (input) DW_CFA_def_cfa_expression :: byte where "DW_CFA_def_cfa_expression \<equiv> 0x0f"

abbreviation (input) DW_CFA_expression :: byte where "DW_CFA_expression \<equiv> 0x10"

abbreviation (input) DW_CFA_offset_extended_sf :: byte where "DW_CFA_offset_extended_sf \<equiv> 0x11"

abbreviation (input) DW_CFA_def_cfa_sf :: byte where "DW_CFA_def_cfa_sf \<equiv> 0x12"

abbreviation (input) DW_CFA_def_cfa_offset_sf :: byte where "DW_CFA_def_cfa_offset_sf \<equiv> 0x13"

abbreviation (input) DW_CFA_val_offset :: byte where "DW_CFA_val_offset \<equiv> 0x14"

abbreviation (input) DW_CFA_val_offset_sf :: byte where "DW_CFA_val_offset_sf \<equiv> 0x15"

abbreviation (input) DW_CFA_val_expression :: byte where "DW_CFA_val_expression \<equiv> 0x16"

section \<open>Pointer encodings\<close>

abbreviation (input) DW_EH_PE_absptr :: byte where "DW_EH_PE_absptr \<equiv> 0x00"

abbreviation (input) DW_EH_PE_uleb128 :: byte where "DW_EH_PE_uleb128 \<equiv> 0x01"

abbreviation (input) DW_EH_PE_udata2 :: byte where "DW_EH_PE_udata2 \<equiv> 0x02"

abbreviation (input) DW_EH_PE_udata4 :: byte where "DW_EH_PE_udata4 \<equiv> 0x03"

abbreviation (input) DW_EH_PE_udata8 :: byte where "DW_EH_PE_udata8 \<equiv> 0x04"

abbreviation (input) DW_EH_PE_sleb128 :: byte where "DW_EH_PE_sleb128 \<equiv> 0x09"

abbreviation (input) DW_EH_PE_sdata2 :: byte where "DW_EH_PE_sdata2 \<equiv> 0x0a"

abbreviation (input) DW_EH_PE_sdata4 :: byte where "DW_EH_PE_sdata4 \<equiv> 0x0b"

abbreviation (input) DW_EH_PE_sdata8 :: byte where "DW_EH_PE_sdata8 \<equiv> 0x0c"

abbreviation (input) DW_EH_PE_pcrel :: byte where "DW_EH_PE_pcrel \<equiv> 0x10"

abbreviation (input) DW_EH_PE_textrel :: byte where "DW_EH_PE_textrel \<equiv> 0x20"

abbreviation (input) DW_EH_PE_datarel :: byte where "DW_EH_PE_datarel \<equiv> 0x30"

abbreviation (input) DW_EH_PE_funcrel :: byte where "DW_EH_PE_funcrel \<equiv> 0x40"

end
