(* ===== verification/Cursor.thy ===== *)
theory Cursor
  imports Dwarf_Constants
begin

text \<open>
  The cursor of \<^verbatim>\<open>src/src/dwarf.cpp\<close> (class \<open>cursor\<close>), with the span type of
  \<^verbatim>\<open>include/libsdb/types.hpp\<close> and \<open>from_bytes\<close> of \<^verbatim>\<open>include/libsdb/bit.hpp\<close>.

  All the bytes that DWARF code looks at live in one object, the vector \<open>storage_\<close> of class
  \<open>elf\<close>.  A pointer into it is the 64-bit offset from its first byte (\<open>None\<close> is the null
  pointer), pointer arithmetic wraps at 64 bits, and a read that is not inside the storage is
  undefined behaviour.  Every operation therefore takes the storage \<open>img\<close> as its first
  argument.
\<close>

section \<open>Pointers, spans and reads\<close>

type_synonym ptr = "u64 option"

record span =
  sp_data :: ptr
  sp_size :: u64

definition span_of_ptrs :: "u64 \<Rightarrow> u64 \<Rightarrow> span" where
  "span_of_ptrs d e = \<lparr>sp_data = Some d, sp_size = e - d\<rparr>"

definition null_span :: span where
  "null_span = \<lparr>sp_data = None, sp_size = 0\<rparr>"

definition span_end :: "span \<Rightarrow> ptr" where
  "span_end s = map_option (\<lambda>d. d + sp_size s) (sp_data s)"

definition read_bytes :: "byte list \<Rightarrow> u64 \<Rightarrow> nat \<Rightarrow> byte list result" where
  "read_bytes img p n =
     (if unat p + n \<le> length img \<and> unat p + n < 2 ^ 64
      then Inr (take n (drop (unat p) img))
      else undefined_behaviour ''read outside the storage'')"

definition from_bytes :: "byte list \<Rightarrow> 'a :: len word" where
  "from_bytes bs = word_of_nat (le_nat bs)"

section \<open>The cursor\<close>

record cursor =
  cur_data :: span
  cur_pos :: ptr

definition cursor_of :: "span \<Rightarrow> cursor" where
  "cursor_of s = \<lparr>cur_data = s, cur_pos = sp_data s\<rparr>"

text \<open>The distance \<open>data_.end() - pos_\<close> as the code uses it, converted to \<open>size_t\<close>.\<close>

definition cur_left :: "cursor \<Rightarrow> u64 \<Rightarrow> u64" where
  "cur_left c p = (case span_end (cur_data c) of Some e \<Rightarrow> e | None \<Rightarrow> 0) - p"

definition cur_advance :: "u64 \<Rightarrow> cursor \<Rightarrow> cursor result" where
  "cur_advance n c =
     (case cur_pos c of
        None \<Rightarrow> send ''Truncated DWARF data''
      | Some p \<Rightarrow> if n > cur_left c p then send ''Truncated DWARF data''
                  else Inr (c\<lparr>cur_pos := Some (p + n)\<rparr>))"

definition cur_finished :: "cursor \<Rightarrow> bool" where
  "cur_finished c =
     (case span_end (cur_data c) of
        None \<Rightarrow> True
      | Some e \<Rightarrow> (case cur_pos c of None \<Rightarrow> False | Some p \<Rightarrow> p \<ge> e))"

definition fixed_bytes :: "nat \<Rightarrow> byte list \<Rightarrow> cursor \<Rightarrow> (byte list \<times> cursor) result" where
  "fixed_bytes n img c =
     (case cur_pos c of
        None \<Rightarrow> send ''Truncated DWARF integer''
      | Some p \<Rightarrow>
          if word_of_nat n > cur_left c p then send ''Truncated DWARF integer''
          else bind_res (read_bytes img p n) (\<lambda>bs.
               Inr (bs, c\<lparr>cur_pos := Some (p + word_of_nat n)\<rparr>)))"

definition fixed_int :: "byte list \<Rightarrow> cursor \<Rightarrow> ('a :: len word \<times> cursor) result" where
  "fixed_int img c =
     bind_res (fixed_bytes (LENGTH('a) div 8) img c) (\<lambda>(bs, c'). Inr (from_bytes bs, c'))"

definition cur_u8 :: "byte list \<Rightarrow> cursor \<Rightarrow> (byte \<times> cursor) result" where
  "cur_u8 = fixed_int"

definition cur_u16 :: "byte list \<Rightarrow> cursor \<Rightarrow> (u16 \<times> cursor) result" where
  "cur_u16 = fixed_int"

definition cur_u32 :: "byte list \<Rightarrow> cursor \<Rightarrow> (u32 \<times> cursor) result" where
  "cur_u32 = fixed_int"

definition cur_u64 :: "byte list \<Rightarrow> cursor \<Rightarrow> (u64 \<times> cursor) result" where
  "cur_u64 = fixed_int"

text \<open>
  The signed readers return the same bits; the value is the two's complement reading
  \<open>sint\<close>, and where the code converts it to 64 bits the model sign-extends with \<open>scast\<close>.
\<close>

definition cur_s8 :: "byte list \<Rightarrow> cursor \<Rightarrow> (byte \<times> cursor) result" where
  "cur_s8 = fixed_int"

definition cur_s16 :: "byte list \<Rightarrow> cursor \<Rightarrow> (u16 \<times> cursor) result" where
  "cur_s16 = fixed_int"

definition cur_s32 :: "byte list \<Rightarrow> cursor \<Rightarrow> (u32 \<times> cursor) result" where
  "cur_s32 = fixed_int"

definition cur_s64 :: "byte list \<Rightarrow> cursor \<Rightarrow> (u64 \<times> cursor) result" where
  "cur_s64 = fixed_int"

text \<open>\<open>std::find(pos_, data_.end(), 0)\<close>: it compares with the end pointer before each read.\<close>

function find_zero :: "byte list \<Rightarrow> u64 \<Rightarrow> u64 \<Rightarrow> (byte list \<times> u64) result" where
  "find_zero img e p =
     (if p = e then Inr ([], p)
      else bind_res (read_bytes img p 1) (\<lambda>bs.
             if bs = [0] then Inr ([], p)
             else bind_res (find_zero img e (p + 1)) (\<lambda>(cs, q). Inr (bs @ cs, q))))"
  by pat_completeness auto
termination
proof (relation "measure (\<lambda>(img, e, p). length img - unat p)")
  fix img e p bs
  assume "p \<noteq> e" "read_bytes img p 1 = Inr bs"
  then have "unat p < length img" "unat p + 1 < 2 ^ 64"
    by (auto simp: read_bytes_def split: if_splits)
  moreover from this have "unat (p + 1) = unat p + 1"
    by (simp add: unat_plus_if')
  ultimately show "((img, e, p + 1), img, e, p) \<in> measure (\<lambda>(img, e, p). length img - unat p)"
    by simp
qed simp

declare find_zero.simps [simp del]

definition chars_of :: "byte list \<Rightarrow> string" where
  "chars_of bs = map (\<lambda>b. char_of (unat b)) bs"

definition cur_string :: "byte list \<Rightarrow> cursor \<Rightarrow> (string \<times> cursor) result" where
  "cur_string img c =
     (case cur_pos c of
        None \<Rightarrow> (if span_end (cur_data c) = None then send ''Unterminated DWARF string''
                 else undefined_behaviour ''read through a null pointer'')
      | Some p \<Rightarrow>
          (case span_end (cur_data c) of
             None \<Rightarrow> undefined_behaviour ''read outside the storage''
           | Some e \<Rightarrow>
               bind_res (find_zero img e p) (\<lambda>(cs, q).
               if q = e then send ''Unterminated DWARF string''
               else Inr (chars_of cs, c\<lparr>cur_pos := Some (q + 1)\<rparr>))))"

section \<open>LEB128 numbers\<close>

text \<open>
  The loop that \<open>uleb128\<close> and \<open>sleb128\<close> share; it returns the accumulated value, the final
  shift and the last byte.  The shift test at the head bounds it to ten bytes.
\<close>

function leb128_loop ::
  "byte list \<Rightarrow> nat \<Rightarrow> u64 \<Rightarrow> cursor \<Rightarrow> (u64 \<times> nat \<times> byte \<times> cursor) result" where
  "leb128_loop img shift res c =
     (if shift \<ge> 64 then send ''Invalid DWARF LEB128''
      else bind_res (cur_u8 img c) (\<lambda>(b, c').
             let res' = res OR push_bit shift (ucast (b AND 0x7f));
                 shift' = shift + 7
             in if b AND 0x80 \<noteq> 0 then leb128_loop img shift' res' c'
                else Inr (res', shift', b, c')))"
  by pat_completeness auto
termination
  by (relation "measure (\<lambda>(img, shift, res, c). 64 - shift)") auto

declare leb128_loop.simps [simp del]

definition cur_uleb128 :: "byte list \<Rightarrow> cursor \<Rightarrow> (u64 \<times> cursor) result" where
  "cur_uleb128 img c =
     bind_res (leb128_loop img 0 0 c) (\<lambda>(res, shift, b, c'). Inr (res, c'))"

definition cur_sleb128 :: "byte list \<Rightarrow> cursor \<Rightarrow> (u64 \<times> cursor) result" where
  "cur_sleb128 img c =
     bind_res (leb128_loop img 0 0 c) (\<lambda>(res, shift, b, c').
     Inr (if shift < 64 \<and> b AND 0x40 \<noteq> 0 then res OR push_bit shift (- 1) else res, c'))"


section \<open>Skipping an attribute\<close>

text \<open>
  \<open>skip_form\<close> follows a form code without decoding the value.  Its additions to \<open>pos_\<close> are
  not checked against the end of the span.  It calls itself only for \<open>DW_FORM_indirect\<close>,
  after reading at least one byte, which is what its termination rests on.
\<close>

definition bump :: "u64 \<Rightarrow> cursor \<Rightarrow> cursor result" where
  "bump n c =
     (case cur_pos c of
        None \<Rightarrow> undefined_behaviour ''arithmetic on a null pointer''
      | Some p \<Rightarrow> Inr (c\<lparr>cur_pos := Some (p + n)\<rparr>))"

lemma cur_u8_progress:
  assumes "cur_u8 img c = Inr (b, c')"
  shows "\<exists>p. cur_pos c = Some p \<and> c' = c\<lparr>cur_pos := Some (p + 1)\<rparr> \<and>
             unat p < length img \<and> unat (p + 1) = unat p + 1"
  using assms
  by (auto simp: cur_u8_def fixed_int_def fixed_bytes_def read_bytes_def res_simps unat_plus_if'
      split: option.splits if_splits)

lemma leb128_loop_progress:
  assumes "leb128_loop img shift res c = Inr (r, k, b, c')"
  shows "\<exists>p q. cur_pos c = Some p \<and> cur_pos c' = Some q \<and> unat p < unat q \<and> unat p < length img"
  using assms
proof (induction img shift res c rule: leb128_loop.induct)
  case (1 img shift res c)
  from "1.prems" obtain x c1 where u: "cur_u8 img c = Inr (x, c1)" and sh: "\<not> 64 \<le> shift"
    by (subst (asm) leb128_loop.simps) (auto simp: res_simps split: if_splits)
  obtain p where p: "cur_pos c = Some p" "cur_pos c1 = Some (p + 1)" "unat p < length img"
      "unat (p + 1) = unat p + 1"
    using cur_u8_progress [OF u] by auto
  show ?case
  proof (cases "x AND 0x80 \<noteq> 0")
    case True
    with "1.prems" u sh have "leb128_loop img (shift + 7)
        (res OR push_bit shift (ucast (x AND 0x7f))) c1 = Inr (r, k, b, c')"
      by (subst (asm) leb128_loop.simps) simp
    then obtain p' q where "cur_pos c1 = Some p'" "cur_pos c' = Some q" "unat p' < unat q"
      using "1.IH" [OF sh u refl refl refl True] by blast
    with p show ?thesis by auto
  next
    case False
    with "1.prems" u sh have "c' = c1" by (subst (asm) leb128_loop.simps) simp
    with p show ?thesis by auto
  qed
qed

lemma cur_uleb128_progress:
  assumes "cur_uleb128 img c = Inr (r, c')"
  shows "\<exists>p q. cur_pos c = Some p \<and> cur_pos c' = Some q \<and> unat p < unat q \<and> unat p < length img"
  using assms by (auto simp: cur_uleb128_def res_simps dest: leb128_loop_progress)

text \<open>The measure of every loop that reads on: the bytes of the storage at or after the cursor.\<close>

definition cur_measure :: "byte list \<Rightarrow> cursor \<Rightarrow> nat" where
  "cur_measure img c = (case cur_pos c of None \<Rightarrow> 0 | Some p \<Rightarrow> length img - unat p)"

lemma cur_uleb128_measure:
  "cur_uleb128 img c = Inr (r, c') \<Longrightarrow> cur_measure img c' < cur_measure img c"
  by (auto simp: cur_measure_def dest!: cur_uleb128_progress)

lemma fixed_bytes_progress:
  assumes "fixed_bytes n img c = Inr (bs, c')" "0 < n"
  shows "\<exists>p. cur_pos c = Some p \<and> c' = c\<lparr>cur_pos := Some (p + word_of_nat n)\<rparr> \<and>
             unat p < length img \<and> unat (p + word_of_nat n) = unat p + n"
proof -
  obtain p where p: "cur_pos c = Some p" "c' = c\<lparr>cur_pos := Some (p + word_of_nat n)\<rparr>"
      "unat p + n \<le> length img" "unat p + n < 2 ^ 64"
    using assms(1)
    by (auto simp: fixed_bytes_def read_bytes_def res_simps split: option.splits if_splits)
  then have "unat (p + word_of_nat n) = unat p + n"
    by (simp add: unat_plus_if' unat_of_nat)
  with p assms(2) show ?thesis by auto
qed

lemma fixed_int_measure:
  assumes "fixed_int img c = Inr (w :: 'a :: len word, c')" "8 \<le> LENGTH('a)"
  shows "cur_measure img c' < cur_measure img c"
  using assms fixed_bytes_progress [of "LENGTH('a) div 8" img c _ c']
  by (fastforce simp: fixed_int_def res_simps cur_measure_def)

lemma cur_int_measure:
  "cur_u8 img c = Inr (b, c') \<Longrightarrow> cur_measure img c' < cur_measure img c"
  "cur_u64 img c = Inr (w, c') \<Longrightarrow> cur_measure img c' < cur_measure img c"
  using fixed_int_measure by (fastforce simp: cur_u8_def cur_u64_def)+

lemmas cur_measures = cur_uleb128_measure cur_int_measure

function skip_string :: "byte list \<Rightarrow> cursor \<Rightarrow> cursor result" where
  "skip_string img c =
     (case cur_pos c of
        None \<Rightarrow> if cur_finished c then bump 1 c
                else undefined_behaviour ''read through a null pointer''
      | Some p \<Rightarrow>
          if cur_finished c then bump 1 c
          else bind_res (read_bytes img p 1) (\<lambda>bs.
                 if bs \<noteq> [0] then skip_string img (c\<lparr>cur_pos := Some (p + 1)\<rparr>)
                 else bump 1 c))"
  by pat_completeness auto
termination
  by (relation "measure (\<lambda>(img, c). case cur_pos c of None \<Rightarrow> 0 | Some p \<Rightarrow> length img - unat p)")
    (auto simp: read_bytes_def unat_plus_if' split: if_splits)

declare skip_string.simps [simp del]

function skip_form :: "byte list \<Rightarrow> u64 \<Rightarrow> cursor \<Rightarrow> cursor result" where
  "skip_form img form c =
     (if form = DW_FORM_flag_present then Inr c
      else if form \<in> {DW_FORM_data1, DW_FORM_ref1, DW_FORM_flag} then bump 1 c
      else if form \<in> {DW_FORM_data2, DW_FORM_ref2} then bump 2 c
      else if form \<in> {DW_FORM_data4, DW_FORM_ref4, DW_FORM_ref_addr, DW_FORM_sec_offset,
                      DW_FORM_strp} then bump 4 c
      else if form \<in> {DW_FORM_data8, DW_FORM_addr} then bump 8 c
      else if form = DW_FORM_sdata then bind_res (cur_sleb128 img c) (\<lambda>(_, c'). Inr c')
      else if form \<in> {DW_FORM_udata, DW_FORM_ref_udata}
        then bind_res (cur_uleb128 img c) (\<lambda>(_, c'). Inr c')
      else if form = DW_FORM_block1 then bind_res (cur_u8 img c) (\<lambda>(n, c'). bump (ucast n) c')
      else if form = DW_FORM_block2 then bind_res (cur_u16 img c) (\<lambda>(n, c'). bump (ucast n) c')
      else if form = DW_FORM_block4 then bind_res (cur_u32 img c) (\<lambda>(n, c'). bump (ucast n) c')
      else if form \<in> {DW_FORM_block, DW_FORM_exprloc}
        then bind_res (cur_uleb128 img c) (\<lambda>(n, c'). bump n c')
      else if form = DW_FORM_string then skip_string img c
      else if form = DW_FORM_indirect
        then bind_res (cur_uleb128 img c) (\<lambda>(form', c'). skip_form img form' c')
      else send ''Unrecognized DWARF form'')"
  by pat_completeness auto
termination
  by (relation "measure (\<lambda>(img, form, c).
        case cur_pos c of None \<Rightarrow> 0 | Some p \<Rightarrow> length img - unat p)")
    (auto dest!: cur_uleb128_progress)

declare skip_form.simps [simp del]

end
