(* ===== verification/Cursor_Laws.thy ===== *)
theory Cursor_Laws
  imports Cursor
begin

text \<open>
  What the cursor promises to the parsers built on it.  The abstraction is the list of bytes
  left to read, \<open>cur_rest\<close>; a cursor is well formed when its position lies in its span and
  the span in the storage.  The interface \<open>byte_source\<close> states the contract of the fixed-width
  reads over that list and is interpreted on \<open>fixed_bytes\<close>; LEB128 numbers, strings and
  skipped attributes are then characterised by the bytes they consume.
\<close>

section \<open>What is left to read\<close>

definition cur_wf :: "byte list \<Rightarrow> cursor \<Rightarrow> bool" where
  "cur_wf img c =
     (length img < 2 ^ 64 \<and>
      (case cur_pos c of
         None \<Rightarrow> span_end (cur_data c) = None
       | Some p \<Rightarrow> (case span_end (cur_data c) of
                      None \<Rightarrow> False
                    | Some e \<Rightarrow> p \<le> e \<and> unat e \<le> length img)))"

definition cur_rest :: "byte list \<Rightarrow> cursor \<Rightarrow> byte list" where
  "cur_rest img c =
     (case cur_pos c of
        None \<Rightarrow> []
      | Some p \<Rightarrow> (case span_end (cur_data c) of
                     None \<Rightarrow> []
                   | Some e \<Rightarrow> take (unat e - unat p) (drop (unat p) img)))"

lemma cur_wf_cases:
  assumes "cur_wf img c"
  obtains (null) "cur_pos c = None" "span_end (cur_data c) = None" "cur_rest img c = []"
  | (inside) p e where "cur_pos c = Some p" "span_end (cur_data c) = Some e" "p \<le> e"
      "unat e \<le> length img" "length img < 2 ^ 64"
      "cur_rest img c = take (unat e - unat p) (drop (unat p) img)"
      "length (cur_rest img c) = unat e - unat p" "cur_left c p = e - p"
      "unat (e - p) = unat e - unat p" "unat p \<le> unat e"
proof (cases "cur_pos c")
  case None
  with assms show ?thesis by (intro null) (auto simp: cur_wf_def cur_rest_def)
next
  case (Some p)
  with assms obtain e where e: "span_end (cur_data c) = Some e" "p \<le> e" "unat e \<le> length img"
      "length img < 2 ^ 64"
    by (auto simp: cur_wf_def split: option.splits)
  with Some show ?thesis
    by (intro inside [of p e]) (auto simp: cur_rest_def cur_left_def unat_sub word_le_nat_alt)
qed

lemma fixed_bytes_ok:
  assumes "cur_wf img c" "0 < n" "n \<le> length (cur_rest img c)"
  shows "\<exists>c'. fixed_bytes n img c = Inr (take n (cur_rest img c), c') \<and> cur_wf img c' \<and>
              cur_rest img c' = drop n (cur_rest img c) \<and> cur_data c' = cur_data c"
  using assms(1)
proof (cases rule: cur_wf_cases)
  case null
  with assms show ?thesis by simp
next
  case (inside p e)
  have n: "unat p + n \<le> unat e" "unat e < 2 ^ 64" 
    using assms(3) inside by auto
  then have n64: "unat (word_of_nat n :: u64) = n" by (simp add: unat_of_nat)
  then have pn: "unat (p + word_of_nat n) = unat p + n"
    using n inside by (simp add: unat_plus_if')
  have "\<not> word_of_nat n > cur_left c p"
    using n64 inside n by (simp add: word_less_nat_alt)
  moreover have "read_bytes img p n = Inr (take n (cur_rest img c))"
    using inside n assms(3) by (simp add: read_bytes_def min_def)
  ultimately have "fixed_bytes n img c =
      Inr (take n (cur_rest img c), c\<lparr>cur_pos := Some (p + word_of_nat n)\<rparr>)"
    using inside by (simp add: fixed_bytes_def)
  moreover have "cur_wf img (c\<lparr>cur_pos := Some (p + word_of_nat n)\<rparr>)"
    using inside n pn by (simp add: cur_wf_def word_le_nat_alt)
  moreover have "cur_rest img (c\<lparr>cur_pos := Some (p + word_of_nat n)\<rparr>) = drop n (cur_rest img c)"
    using inside n pn by (simp add: cur_rest_def drop_take add.commute)
  ultimately show ?thesis by auto
qed

lemma fixed_bytes_short:
  assumes "cur_wf img c" "n < 2 ^ 64" "length (cur_rest img c) < n"
  shows "fixed_bytes n img c = send ''Truncated DWARF integer''"
  using assms(1)
proof (cases rule: cur_wf_cases)
  case null
  then show ?thesis by (simp add: fixed_bytes_def)
next
  case (inside p e)
  have "unat (word_of_nat n :: u64) = n" using assms(2) by (simp add: unat_of_nat)
  then have "word_of_nat n > cur_left c p" 
    using inside assms(3) by (simp add: word_less_nat_alt)
  then show ?thesis using inside by (simp add: fixed_bytes_def)
qed

section \<open>The contract of fixed-width reads\<close>

locale byte_source =
  fixes read :: "nat \<Rightarrow> 'c \<Rightarrow> (byte list \<times> 'c) result"
    and left :: "'c \<Rightarrow> byte list"
    and ok :: "'c \<Rightarrow> bool"
    and limit :: nat
  assumes read_ok: "ok c \<Longrightarrow> 0 < n \<Longrightarrow> n \<le> length (left c) \<Longrightarrow>
      \<exists>c'. read n c = Inr (take n (left c), c') \<and> ok c' \<and> left c' = drop n (left c)"
    and read_short: "ok c \<Longrightarrow> n < limit \<Longrightarrow> length (left c) < n \<Longrightarrow> \<exists>w. read n c = send w"
begin

lemma read_append:
  assumes "ok c" "left c = xs @ ys" "xs \<noteq> []"
  shows "\<exists>c'. read (length xs) c = Inr (xs, c') \<and> ok c' \<and> left c' = ys"
  using read_ok [OF assms(1), of "length xs"] assms(2,3) by auto

lemma read_success:
  assumes "ok c" "0 < n" "n < limit" "read n c = Inr (bs, c')"
  shows "left c = bs @ left c' \<and> length bs = n \<and> ok c'"
proof -
  have "n \<le> length (left c)"
    using read_short [OF assms(1,3)] assms(4) by (cases "n \<le> length (left c)") auto
  with read_ok [OF assms(1,2)] assms(4) show ?thesis by auto
qed

lemma read_no_ub:
  assumes "ok c" "0 < n" "n < limit"
  shows "no_ub (read n c)"
proof (cases "n \<le> length (left c)")
  case True
  with read_ok [OF assms(1,2)] show ?thesis by auto
next
  case False
  with read_short [OF assms(1,3)] show ?thesis by auto
qed

end

interpretation cur: byte_source "\<lambda>n. fixed_bytes n img" "cur_rest img" "cur_wf img" "2 ^ 64" for img
proof unfold_locales
  fix c n
  assume "cur_wf img c" "0 < n" "n \<le> length (cur_rest img c)"
  then show "\<exists>c'. fixed_bytes n img c = Inr (take n (cur_rest img c), c') \<and> cur_wf img c' \<and>
      cur_rest img c' = drop n (cur_rest img c)"
    using fixed_bytes_ok by blast
next
  fix c n
  assume "cur_wf img c" "n < 2 ^ 64" "length (cur_rest img c) < n"
  then show "\<exists>w. fixed_bytes n img c = send w" using fixed_bytes_short by blast
qed

lemma fixed_int_append:
  assumes "cur_wf img c" "cur_rest img c = xs @ ys" "length xs = LENGTH('a) div 8" "8 \<le> LENGTH('a)"
  shows "\<exists>c'. fixed_int img c = Inr (from_bytes xs :: 'a :: len word, c') \<and> cur_wf img c' \<and>
              cur_rest img c' = ys"
proof -
  have "xs \<noteq> []" using assms(3,4) by auto
  from cur.read_append [OF assms(1,2) this] assms(3) show ?thesis
    by (auto simp: fixed_int_def)
qed

lemma cur_u8_Cons:
  assumes "cur_wf img c" "cur_rest img c = b # bs"
  shows "\<exists>c'. cur_u8 img c = Inr (b, c') \<and> cur_wf img c' \<and> cur_rest img c' = bs"
  using fixed_int_append [where 'a = 8, OF assms(1), of "[b]" bs] assms(2)
  by (simp add: cur_u8_def from_bytes_def)

lemma cur_u8_Nil:
  assumes "cur_wf img c" "cur_rest img c = []"
  shows "cur_u8 img c = send ''Truncated DWARF integer''"
  using fixed_bytes_short [OF assms(1), of 1] assms(2) by (simp add: cur_u8_def fixed_int_def)

section \<open>LEB128 numbers\<close>

text \<open>
  A LEB128 number is a group of bytes of which all but the last have bit 7 set; its value is
  that of its seven-bit digits, least significant first, and a signed number is negative when
  bit 6 of the last byte is set.
\<close>

fun leb_group :: "byte list \<Rightarrow> bool" where
  "leb_group [] = False"
| "leb_group [b] = (b AND 0x80 = 0)"
| "leb_group (b # bs) = (b AND 0x80 \<noteq> 0 \<and> leb_group bs)"

primrec leb_nat :: "byte list \<Rightarrow> nat" where
  "leb_nat [] = 0"
| "leb_nat (b # bs) = unat (b AND 0x7f) + 128 * leb_nat bs"

definition leb_int :: "byte list \<Rightarrow> int" where
  "leb_int bs = int (leb_nat bs) - (if last bs AND 0x40 \<noteq> 0 then 2 ^ (7 * length bs) else 0)"

lemma byte_7f: "(0x7f :: byte) = mask 7"
  by (simp add: mask_eq_exp_minus_1)

lemma leb_step_bits:
  fixes res :: u64 and b :: byte
  assumes "\<forall>i \<ge> shift. \<not> bit res i"
  shows "res OR push_bit shift (ucast (b AND 0x7f)) = res + push_bit shift (ucast (b AND 0x7f))"
    and "\<forall>i \<ge> shift + 7. \<not> bit (res OR push_bit shift (ucast (b AND 0x7f))) i"
proof -
  show "res OR push_bit shift (ucast (b AND 0x7f)) = res + push_bit shift (ucast (b AND 0x7f))"
    by (rule disjunctive_add [symmetric]) (use assms in \<open>auto simp: bit_simps not_le\<close>)
  show "\<forall>i \<ge> shift + 7. \<not> bit (res OR push_bit shift (ucast (b AND 0x7f))) i"
    unfolding byte_7f using assms by (auto simp: bit_simps)
qed

lemma push_bit_leb_step:
  "push_bit shift (word_of_nat (unat (b AND 0x7f) + 128 * n) :: u64) =
   push_bit shift (ucast (b AND 0x7f :: byte)) + push_bit (shift + 7) (word_of_nat n)"
  by (simp add: push_bit_eq_mult power_add algebra_simps unsigned_of_nat unsigned_ucast_eq)

lemma leb128_loop_group:
  assumes "cur_wf img c" "cur_rest img c = g @ ys" "leb_group g"
    "shift + 7 * length g < 71" "\<forall>i \<ge> shift. \<not> bit res i"
  shows "\<exists>c'. leb128_loop img shift res c =
           Inr (res + push_bit shift (word_of_nat (leb_nat g)), shift + 7 * length g, last g, c') \<and>
           cur_wf img c' \<and> cur_rest img c' = ys"
  using assms
proof (induction g arbitrary: shift res c rule: leb_group.induct)
  case 1
  then show ?case by simp
next
  case (2 b)
  obtain c' where "cur_u8 img c = Inr (b, c')" "cur_wf img c'" "cur_rest img c' = ys"
    using cur_u8_Cons [OF 2(1), of b ys] 2(2) by auto
  with 2 leb_step_bits(1) [OF 2(5)] push_bit_leb_step [of shift b 0] show ?case
    by (subst leb128_loop.simps) (auto simp: Let_def)
next
  case (3 b b' bs)
  let ?g = "b' # bs"
  let ?res = "res OR push_bit shift (ucast (b AND 0x7f))"
  obtain c1 where c1: "cur_u8 img c = Inr (b, c1)" "cur_wf img c1" "cur_rest img c1 = ?g @ ys"
    using cur_u8_Cons [OF "3.prems"(1), of b "?g @ ys"] "3.prems"(2) by auto
  have "\<exists>c'. leb128_loop img (shift + 7) ?res c1 =
      Inr (?res + push_bit (shift + 7) (word_of_nat (leb_nat ?g)), shift + 7 + 7 * length ?g,
           last ?g, c') \<and> cur_wf img c' \<and> cur_rest img c' = ys"
    using "3.prems" c1 leb_step_bits(2) [OF "3.prems"(5), of b] by (intro "3.IH") auto
  with c1 "3.prems" leb_step_bits(1) [OF "3.prems"(5), of b]
    push_bit_leb_step [of shift b "leb_nat ?g"]
  show ?case
    by (subst leb128_loop.simps) (auto simp: Let_def algebra_simps)
qed

lemma uleb128_group:
  assumes "cur_wf img c" "cur_rest img c = g @ ys" "leb_group g" "length g \<le> 10"
  shows "\<exists>c'. cur_uleb128 img c = Inr (word_of_nat (leb_nat g), c') \<and> cur_wf img c' \<and>
              cur_rest img c' = ys"
  using leb128_loop_group [OF assms(1-3), of 0 0] assms(4) by (auto simp: cur_uleb128_def)


lemma unat_and_7f: "unat (b AND 0x7f :: byte) = unat b mod 128"
proof -
  have "unat (take_bit 7 b) = take_bit 7 (unat b)" by (simp only: unsigned_take_bit_eq)
  then show ?thesis unfolding byte_7f take_bit_eq_mask [symmetric] by (simp add: take_bit_eq_mod)
qed

lemma leb_nat_less: "leb_nat g < 128 ^ length g"
proof (induction g)
  case (Cons b g)
  have "unat (b AND 0x7f) < 128" by (simp add: unat_and_7f)
  with Cons show ?case by simp
qed simp

lemma word_or_high_ones:
  fixes w :: u64
  assumes "\<forall>i \<ge> k. \<not> bit w i"
  shows "w OR push_bit k (- 1) = w - 2 ^ k"
proof -
  have "w OR push_bit k (- 1) = w + push_bit k (- 1)"
    by (rule disjunctive_add [symmetric]) (use assms in \<open>auto simp: bit_simps not_le\<close>)
  then show ?thesis by (simp add: push_bit_eq_mult)
qed

lemma word_of_nat_high_bits:
  assumes "n < 2 ^ k" shows "\<forall>i \<ge> k. \<not> bit (word_of_nat n :: u64) i"
proof (intro allI impI)
  fix i assume "k \<le> i"
  then have "n < 2 ^ i" using assms by (meson less_le_trans one_le_numeral power_increasing)
  then have "\<not> bit n i" by (simp add: bit_iff_odd)
  then show "\<not> bit (word_of_nat n :: u64) i" by (simp only: bit_of_nat_iff simp_thms)
qed

lemma sleb128_group:
  assumes "cur_wf img c" "cur_rest img c = g @ ys" "leb_group g" "length g \<le> 10"
  shows "\<exists>c'. cur_sleb128 img c = Inr (word_of_int (leb_int g), c') \<and> cur_wf img c' \<and>
              cur_rest img c' = ys"
proof -
  obtain c' where c': "leb128_loop img 0 0 c =
      Inr (word_of_nat (leb_nat g), 7 * length g, last g, c')"
    "cur_wf img c'" "cur_rest img c' = ys"
    using leb128_loop_group [OF assms(1-3), of 0 0] assms(4) by auto
  have high: "\<forall>i \<ge> 7 * length g. \<not> bit (word_of_nat (leb_nat g) :: u64) i"
    using leb_nat_less [of g] by (intro word_of_nat_high_bits) (simp add: power_mult)
  have wrap: "(2 :: u64) ^ (7 * length g) = 0" if "\<not> 7 * length g < 64"
    using that by (simp add: not_less)
  show ?thesis
    using c' wrap word_or_high_ones [OF high]
    by (auto simp: cur_sleb128_def leb_int_def)
qed

section \<open>Encoders\<close>

text \<open>
  Reference encoders (DWARF 4 appendix C), and the facts that make them inverse to the
  decoding: the encoding is one group, has the encoded value, and fits ten bytes.
\<close>

fun uleb_encode :: "nat \<Rightarrow> byte list" where
  "uleb_encode n =
     (if n < 128 then [word_of_nat n] else word_of_nat (128 + n mod 128) # uleb_encode (n div 128))"

declare uleb_encode.simps [simp del]

function sleb_encode :: "int \<Rightarrow> byte list" where
  "sleb_encode v =
     (if -64 \<le> v \<and> v < 64 then [word_of_int (v mod 128)]
      else word_of_int (128 + v mod 128) # sleb_encode (v div 128))"
  by pat_completeness auto
termination
  by (relation "measure (\<lambda>v. nat \<bar>v\<bar>)") auto

declare sleb_encode.simps [simp del]

lemma odd_div_below_twice:
  assumes "n < 2 * k" shows "odd (n div k) \<longleftrightarrow> k \<le> (n :: nat)"
  using assms by (cases "k \<le> n") (auto simp: le_div_geq)

lemma cont_byte:
  assumes "n < 128"
  shows "(word_of_nat (128 + n) :: byte) AND 0x80 \<noteq> 0" "unat ((word_of_nat (128 + n) :: byte) AND 0x7f) = n"
    "(word_of_nat n :: byte) AND 0x80 = 0" "unat ((word_of_nat n :: byte) AND 0x7f) = n"
proof -
  have u: "unat (word_of_nat (128 + n) :: byte) = 128 + n" "unat (word_of_nat n :: byte) = n"
    unfolding unat_word_of_nat_byte using assms by auto
  have b7: "bit (w :: byte) 7 \<longleftrightarrow> 128 \<le> unat w" for w
  proof -
    have "bit w 7 \<longleftrightarrow> bit (unat w) 7" by (simp add: bit_unsigned_iff)
    also have "\<dots> \<longleftrightarrow> odd (unat w div 128)" by (simp add: bit_iff_odd)
    also have "\<dots> \<longleftrightarrow> 128 \<le> unat w" using unat_byte_less [of w] by (intro odd_div_below_twice) simp
    finally show ?thesis .
  qed
  have and80: "w AND 0x80 = 0 \<longleftrightarrow> \<not> bit w 7" for w :: byte
  proof -
    have "(0x80 :: byte) = 2 ^ 7" by simp
    then show ?thesis using and_exp_eq_0_iff_not_bit [of w 7] by simp
  qed
  show "(word_of_nat (128 + n) :: byte) AND 0x80 \<noteq> 0" unfolding and80 b7 u by simp
  show "(word_of_nat n :: byte) AND 0x80 = 0" unfolding and80 b7 u using assms by simp
  show "unat ((word_of_nat (128 + n) :: byte) AND 0x7f) = n" unfolding unat_and_7f u using assms by simp
  show "unat ((word_of_nat n :: byte) AND 0x7f) = n" unfolding unat_and_7f u using assms by simp
qed

lemma uleb_encode_nonempty [simp]: "uleb_encode n \<noteq> []"
  by (subst uleb_encode.simps) simp

lemma leb_group_Cons: "g \<noteq> [] \<Longrightarrow> leb_group (b # g) \<longleftrightarrow> b AND 0x80 \<noteq> 0 \<and> leb_group g"
  by (cases g) auto

lemma uleb_encode_group: "leb_group (uleb_encode n) \<and> leb_nat (uleb_encode n) = n"
proof (induction n rule: uleb_encode.induct)
  case (1 n)
  show ?case
  proof (cases "n < 128")
    case True
    then show ?thesis by (subst (1 2) uleb_encode.simps) (simp add: cont_byte del: of_nat_add)
  next
    case False
    with 1 cont_byte [of "n mod 128"] show ?thesis
      by (subst (1 2) uleb_encode.simps) (simp add: leb_group_Cons del: of_nat_add)
  qed
qed

lemma uleb_encode_length: "n < 128 ^ k \<Longrightarrow> 0 < k \<Longrightarrow> length (uleb_encode n) \<le> k"
proof (induction k arbitrary: n)
  case (Suc k)
  show ?case
  proof (cases "n < 128")
    case True
    then show ?thesis by (subst uleb_encode.simps) simp
  next
    case False
    then have k: "0 < k" using Suc.prems by (cases k) auto
    have "n div 128 < 128 ^ k" using Suc.prems by (simp add: less_mult_imp_div_less mult.commute)
    then have "length (uleb_encode (n div 128)) \<le> k" using Suc.IH k by blast
    with False show ?thesis by (subst uleb_encode.simps) simp
  qed
qed simp

lemma sleb_encode_nonempty [simp]: "sleb_encode v \<noteq> []"
  by (subst sleb_encode.simps) simp

lemma sign_byte:
  assumes "0 \<le> m" "m < 128"
  shows "(word_of_int m :: byte) AND 0x80 = 0" "unat ((word_of_int m :: byte) AND 0x7f) = nat m"
    "(word_of_int (128 + m) :: byte) AND 0x80 \<noteq> 0" 
    "unat ((word_of_int (128 + m) :: byte) AND 0x7f) = nat m"
    "(word_of_int m :: byte) AND 0x40 \<noteq> 0 \<longleftrightarrow> 64 \<le> m"
proof -
  define n where "n = nat m"
  have n: "n < 128" "m = int n" using assms by (auto simp: n_def)
  have w: "(word_of_int m :: byte) = word_of_nat n" "(word_of_int (128 + m) :: byte) = word_of_nat (128 + n)"
    using n by simp_all
  show "(word_of_int m :: byte) AND 0x80 = 0" "unat ((word_of_int m :: byte) AND 0x7f) = nat m"
    "(word_of_int (128 + m) :: byte) AND 0x80 \<noteq> 0" 
    "unat ((word_of_int (128 + m) :: byte) AND 0x7f) = nat m"
    unfolding w using cont_byte [OF n(1)] n(2) by simp_all
  have u: "unat (word_of_nat n :: byte) = n" unfolding unat_word_of_nat_byte using n by simp
  have "(0x40 :: byte) = 2 ^ 6" by simp
  then have "(word_of_nat n :: byte) AND 0x40 \<noteq> 0 \<longleftrightarrow> bit (word_of_nat n :: byte) 6"
    using and_exp_eq_0_iff_not_bit [of "word_of_nat n :: byte" 6] by simp
  also have "\<dots> \<longleftrightarrow> bit (unat (word_of_nat n :: byte)) 6" by (simp add: bit_unsigned_iff)
  also have "\<dots> \<longleftrightarrow> odd (n div 64)" unfolding u by (simp add: bit_iff_odd)
  also have "\<dots> \<longleftrightarrow> 64 \<le> m" using n odd_div_below_twice [of n 64] by simp
  finally show "(word_of_int m :: byte) AND 0x40 \<noteq> 0 \<longleftrightarrow> 64 \<le> m" using w by simp
qed

lemma sleb_encode_group: "leb_group (sleb_encode v) \<and> leb_int (sleb_encode v) = v"
proof (induction v rule: sleb_encode.induct)
  case (1 v)
  have m: "0 \<le> v mod 128" "v mod 128 < 128" by auto
  show ?case
  proof (cases "-64 \<le> v \<and> v < 64")
    case True
    then have s: "sleb_encode v = [word_of_int (v mod 128)]" by (subst sleb_encode.simps) simp
    have "v mod 128 = (if v < 0 then v + 128 else v)"
      using True mod_pos_pos_trivial [of v 128] mod_pos_pos_trivial [of "v + 128" 128] by auto
    then have "v mod 128 - (if 64 \<le> v mod 128 then 128 else 0) = v" using True by auto
    then show ?thesis unfolding s using sign_byte [OF m]
      by (auto simp: leb_int_def split: if_splits)
  next
    case False
    then have s: "sleb_encode v = word_of_int (128 + v mod 128) # sleb_encode (v div 128)"
      by (subst sleb_encode.simps) simp
    from 1 False have IH: "leb_group (sleb_encode (v div 128))" "leb_int (sleb_encode (v div 128)) = v div 128"
      by auto
    have "leb_int (sleb_encode v) = v mod 128 + 128 * leb_int (sleb_encode (v div 128))"
      unfolding s using sign_byte [OF m] by (simp add: leb_int_def algebra_simps power_add del: of_int_add)
    with IH show ?thesis using sign_byte [OF m] by (simp add: s leb_group_Cons del: of_int_add)
  qed
qed

lemma sleb_encode_length:
  "- (64 * 128 ^ k) \<le> v \<Longrightarrow> v < 64 * 128 ^ k \<Longrightarrow> length (sleb_encode v) \<le> Suc k"
proof (induction k arbitrary: v)
  case 0
  then show ?case by (subst sleb_encode.simps) simp
next
  case (Suc k)
  show ?case
  proof (cases "-64 \<le> v \<and> v < 64")
    case True
    then show ?thesis by (subst sleb_encode.simps) simp
  next
    case False
    have "- (64 * 128 ^ k) \<le> v div 128" "v div 128 < 64 * 128 ^ k"
      using Suc.prems mult_div_mod_eq [of 128 v] pos_mod_bound [of 128 v] pos_mod_sign [of 128 v]
      by simp_all
    then have "length (sleb_encode (v div 128)) \<le> Suc k" by (rule Suc.IH)
    with False show ?thesis by (subst sleb_encode.simps) simp
  qed
qed

section \<open>Strings\<close>

lemma bump_ok:
  assumes "cur_wf img c" "n \<le> length (cur_rest img c)" "cur_pos c \<noteq> None"
  shows "\<exists>c'. bump (word_of_nat n) c = Inr c' \<and> cur_wf img c' \<and> cur_pos c' \<noteq> None \<and>
              cur_rest img c' = drop n (cur_rest img c)"
  using assms(1)
proof (cases rule: cur_wf_cases)
  case null
  with assms(3) show ?thesis by simp
next
  case (inside p e)
  have n: "unat p + n \<le> unat e" "unat e < 2 ^ 64" using assms(2) inside by auto
  then have "unat (p + word_of_nat n) = unat p + n"
    using inside by (simp add: unat_plus_if' unat_of_nat)
  with inside n show ?thesis
    by (simp add: bump_def cur_wf_def cur_rest_def word_le_nat_alt drop_take add.commute)
qed

lemma cur_rest_ConsD: "cur_rest img c = b # bs \<Longrightarrow> cur_pos c \<noteq> None"
  by (auto simp: cur_rest_def split: option.splits)

lemma find_zero_Cons:
  assumes "unat e \<le> length img" "length img < 2 ^ 64"
    "take (unat e - unat p) (drop (unat p) img) = cs @ 0 # ys" "0 \<notin> set cs" "p \<le> e"
  shows "find_zero img e p = Inr (cs, p + word_of_nat (length cs)) \<and> unat p + length cs < unat e"
  using assms
proof (induction cs arbitrary: p)
  case Nil
  have "p \<noteq> e" using Nil by auto
  have lt: "unat p < unat e"  using Nil by (metis append_Nil list.distinct(1) not_less take_0 diff_is_0_eq')
  have "img ! unat p = 0" 
    using Nil lt by (cases "drop (unat p) img") (auto simp: take_Cons' nth_via_drop split: if_splits)
  then have "read_bytes img p 1 = Inr [0]"
    using Nil lt by (simp add: read_bytes_def take_Suc_conv_app_nth hd_drop_conv_nth take_Suc)
  then show ?case using \<open>p \<noteq> e\<close> lt by (subst find_zero.simps) simp
next
  case (Cons a cs)
  have lt: "unat p < unat e" using Cons.prems by (metis append_Cons list.distinct(1) not_less take_0 diff_is_0_eq')
  then have pe: "p \<noteq> e" by auto
  have p1: "unat (p + 1) = unat p + 1" using lt Cons.prems(1,2) by (simp add: unat_plus_if')
  have dr: "drop (unat p) img = img ! unat p # drop (unat (p + 1)) img"
    using lt Cons.prems(1) unfolding p1 by (simp add: Cons_nth_drop_Suc)
  have a: "img ! unat p = a" "take (unat e - unat (p + 1)) (drop (unat (p + 1)) img) = cs @ 0 # ys"
    using Cons.prems(3) lt p1 unfolding dr by (auto simp: take_Cons' split: if_splits)
  have r: "read_bytes img p 1 = Inr [a]"
    using lt Cons.prems(1,2) dr a(1) by (simp add: read_bytes_def)
  have le: "p + 1 \<le> e" using lt p1 by (simp add: word_le_nat_alt)
  have "find_zero img e (p + 1) = Inr (cs, p + 1 + word_of_nat (length cs)) \<and> unat (p + 1) + length cs < unat e"
    using Cons.IH [OF Cons.prems(1,2) a(2) _ le] Cons.prems(4) by simp
  then show ?case using pe r Cons.prems(4) p1
    by (subst find_zero.simps) (simp add: algebra_simps)
qed

lemma cur_string_ok:
  assumes "cur_wf img c" "cur_rest img c = cs @ 0 # ys" "0 \<notin> set cs"
  shows "\<exists>c'. cur_string img c = Inr (chars_of cs, c') \<and> cur_wf img c' \<and> cur_rest img c' = ys"
  using assms(1)
proof (cases rule: cur_wf_cases)
  case null
  with assms show ?thesis by simp
next
  case (inside p e)
  then have fz: "find_zero img e p = Inr (cs, p + word_of_nat (length cs))" "unat p + length cs < unat e"
    using find_zero_Cons [OF inside(4,5) _ assms(3) inside(3), of ys] assms(2) by auto
  have u: "unat (p + word_of_nat (length cs)) = unat p + length cs" 
    "unat (p + word_of_nat (length cs) + 1) = unat p + length cs + 1"
    using fz(2) inside by (simp_all add: unat_plus_if' unat_of_nat)
  have "p + word_of_nat (length cs) \<noteq> e" using fz(2) u(1) by auto
  then have "cur_string img c = Inr (chars_of cs, c\<lparr>cur_pos := Some (p + word_of_nat (length cs) + 1)\<rparr>)"
    using inside fz by (simp add: cur_string_def)
  moreover have "cur_wf img (c\<lparr>cur_pos := Some (p + word_of_nat (length cs) + 1)\<rparr>)"
    using inside fz(2) u by (simp add: cur_wf_def word_le_nat_alt)
  moreover have "cur_rest img (c\<lparr>cur_pos := Some (p + word_of_nat (length cs) + 1)\<rparr>) = ys"
  proof -
    have "cur_rest img (c\<lparr>cur_pos := Some (p + word_of_nat (length cs) + 1)\<rparr>) =
        drop (Suc (length cs)) (cur_rest img c)"
      using inside u(2) by (simp add: cur_rest_def drop_take add.commute)
    then show ?thesis using assms(2) by simp
  qed
  ultimately show ?thesis by blast
qed

lemma cur_peek:
  assumes "cur_wf img c" "cur_rest img c = b # bs"
  shows "\<exists>p. cur_pos c = Some p \<and> \<not> cur_finished c \<and> read_bytes img p 1 = Inr [b] \<and>
             bump 1 c = Inr (c\<lparr>cur_pos := Some (p + 1)\<rparr>) \<and>
             cur_wf img (c\<lparr>cur_pos := Some (p + 1)\<rparr>) \<and> cur_rest img (c\<lparr>cur_pos := Some (p + 1)\<rparr>) = bs"
  using assms(1)
proof (cases rule: cur_wf_cases)
  case null
  with assms show ?thesis by simp
next
  case (inside p e)
  have lt: "unat p < unat e" using inside(7) assms(2) by simp
  then have "\<not> cur_finished c" using inside by (simp add: cur_finished_def word_le_nat_alt)
  moreover have "read_bytes img p 1 = Inr [b]"
  proof -
    have "take 1 (drop (unat p) img) = take 1 (cur_rest img c)" using inside(6) lt by simp
    then show ?thesis using assms(2) lt inside by (simp add: read_bytes_def)
  qed
  moreover obtain c' where "bump (word_of_nat 1) c = Inr c'" "cur_wf img c'"
      "cur_rest img c' = drop 1 (cur_rest img c)"
    using bump_ok [OF assms(1), of 1] assms(2) inside(1) by auto
  ultimately show ?thesis using inside(1) assms(2) by (auto simp: bump_def)
qed

lemma skip_string_ok:
  assumes "cur_wf img c" "cur_rest img c = cs @ 0 # ys" "0 \<notin> set cs"
  shows "\<exists>c'. skip_string img c = Inr c' \<and> cur_wf img c' \<and> cur_rest img c' = ys"
  using assms
proof (induction cs arbitrary: c)
  case Nil
  obtain p where "cur_pos c = Some p" "\<not> cur_finished c" "read_bytes img p 1 = Inr [0]"
      "bump 1 c = Inr (c\<lparr>cur_pos := Some (p + 1)\<rparr>)" "cur_wf img (c\<lparr>cur_pos := Some (p + 1)\<rparr>)"
      "cur_rest img (c\<lparr>cur_pos := Some (p + 1)\<rparr>) = ys"
    using cur_peek [OF Nil(1), of 0 ys] Nil(2) by auto
  then show ?case by (subst skip_string.simps) simp
next
  case (Cons a cs)
  obtain p where p: "cur_pos c = Some p" "\<not> cur_finished c" "read_bytes img p 1 = Inr [a]"
      "cur_wf img (c\<lparr>cur_pos := Some (p + 1)\<rparr>)"
      "cur_rest img (c\<lparr>cur_pos := Some (p + 1)\<rparr>) = cs @ 0 # ys"
    using cur_peek [OF Cons.prems(1), of a "cs @ 0 # ys"] Cons.prems(2) by auto
  with Cons.IH [OF p(4,5)] Cons.prems(3) show ?case by (subst skip_string.simps) simp
qed

section \<open>Skipping exactly one attribute value\<close>

text \<open>
  The encodings of DWARF 4 section 7.5.4: the byte strings that a value of a given form
  occupies.
\<close>

definition form_size :: "u64 \<Rightarrow> nat option" where
  "form_size form =
     (if form = DW_FORM_flag_present then Some 0
      else if form \<in> {DW_FORM_data1, DW_FORM_ref1, DW_FORM_flag} then Some 1
      else if form \<in> {DW_FORM_data2, DW_FORM_ref2} then Some 2
      else if form \<in> {DW_FORM_data4, DW_FORM_ref4, DW_FORM_ref_addr, DW_FORM_sec_offset,
                      DW_FORM_strp} then Some 4
      else if form \<in> {DW_FORM_data8, DW_FORM_addr} then Some 8
      else None)"

inductive form_enc :: "u64 \<Rightarrow> byte list \<Rightarrow> bool" where
  fixed: "form_size form = Some (length bs) \<Longrightarrow> form_enc form bs"
| leb: "form \<in> {DW_FORM_sdata, DW_FORM_udata, DW_FORM_ref_udata} \<Longrightarrow> leb_group g \<Longrightarrow>
    length g \<le> 10 \<Longrightarrow> form_enc form g"
| block1: "length bs = unat (n :: byte) \<Longrightarrow> form_enc DW_FORM_block1 (n # bs)"
| block2: "length ns = 2 \<Longrightarrow> length bs = le_nat ns \<Longrightarrow> form_enc DW_FORM_block2 (ns @ bs)"
| block4: "length ns = 4 \<Longrightarrow> length bs = le_nat ns \<Longrightarrow> form_enc DW_FORM_block4 (ns @ bs)"
| block: "form \<in> {DW_FORM_block, DW_FORM_exprloc} \<Longrightarrow> leb_group g \<Longrightarrow> length g \<le> 10 \<Longrightarrow>
    length bs = leb_nat g \<Longrightarrow> form_enc form (g @ bs)"
| string: "0 \<notin> set cs \<Longrightarrow> form_enc DW_FORM_string (cs @ [0])"
| indirect: "leb_group g \<Longrightarrow> length g \<le> 10 \<Longrightarrow> form_enc (word_of_nat (leb_nat g)) bs \<Longrightarrow>
    form_enc DW_FORM_indirect (g @ bs)"

lemma cur_posI: "cur_wf img c \<Longrightarrow> cur_pos c = None \<longleftrightarrow> span_end (cur_data c) = None"
  by (auto simp: cur_wf_def split: option.splits)

lemma fixed_int_append':
  assumes "cur_wf img c" "cur_rest img c = xs @ ys" "length xs = LENGTH('a) div 8" "8 \<le> LENGTH('a)"
  shows "\<exists>c'. fixed_int img c = Inr (from_bytes xs :: 'a :: len word, c') \<and> cur_wf img c' \<and>
              cur_rest img c' = ys \<and> cur_pos c' \<noteq> None"
proof -
  have "xs \<noteq> []" using assms(3,4) by auto
  then obtain c' where c': "fixed_bytes (length xs) img c = Inr (xs, c')" "cur_wf img c'"
      "cur_rest img c' = ys"
    using cur.read_append [OF assms(1,2)] by auto
  moreover have "cur_pos c' \<noteq> None"
    using c'(1) by (auto simp: fixed_bytes_def res_simps split: option.splits if_splits)
  ultimately show ?thesis using assms(3) by (auto simp: fixed_int_def)
qed

lemma bump_append:
  assumes "cur_wf img c" "cur_pos c \<noteq> None" "cur_rest img c = xs @ ys" "w = word_of_nat (length xs)"
  shows "\<exists>c'. bump w c = Inr c' \<and> cur_wf img c' \<and> cur_rest img c' = ys"
  using bump_ok [OF assms(1), of "length xs"] assms(2-4) by auto

lemma skip_form_fixed:
  assumes "form_size form = Some n"
  shows "skip_form img form c = (if n = 0 then Inr c else bump (word_of_nat n) c)"
proof -
  have "form \<in> {DW_FORM_flag_present} \<and> n = 0 \<or>
      form \<in> {DW_FORM_data1, DW_FORM_ref1, DW_FORM_flag} \<and> n = 1 \<or>
      form \<in> {DW_FORM_data2, DW_FORM_ref2} \<and> n = 2 \<or>
      form \<in> {DW_FORM_data4, DW_FORM_ref4, DW_FORM_ref_addr, DW_FORM_sec_offset, DW_FORM_strp} \<and> n = 4 \<or>
      form \<in> {DW_FORM_data8, DW_FORM_addr} \<and> n = 8"
    using assms unfolding form_size_def by (simp split: if_splits)
  then show ?thesis
    by (elim disjE conjE insertE emptyE; hypsubst; subst skip_form.simps; simp)
qed

lemma skip_form_exact:
  assumes "form_enc form enc" "cur_wf img c" "cur_pos c \<noteq> None" "cur_rest img c = enc @ ys"
  shows "\<exists>c'. skip_form img form c = Inr c' \<and> cur_wf img c' \<and> cur_rest img c' = ys"
  using assms
proof (induction arbitrary: c rule: form_enc.induct)
  case (fixed form bs)
  with bump_append [OF fixed(2,3,4)] skip_form_fixed [OF fixed(1)] show ?case by simp
next
  case (leb form g)
  with uleb128_group [OF leb(4,6)] sleb128_group [OF leb(4,6)] show ?case
    by (subst skip_form.simps) auto
next
  case (block1 bs n)
  obtain c' where c': "cur_u8 img c = Inr (n, c')" "cur_wf img c'" "cur_rest img c' = bs @ ys" "cur_pos c' \<noteq> None"
    using fixed_int_append' [where 'a = 8, OF block1(2), of "[n]" "bs @ ys"] block1
    by (auto simp: cur_u8_def from_bytes_def)
  with bump_append [OF c'(2,4,3), of "ucast n"] block1(1) show ?case
    by (subst skip_form.simps) (auto simp: unsigned_of_nat)
next
  case (block2 ns bs)
  obtain c' where c': "cur_u16 img c = Inr (from_bytes ns, c')" "cur_wf img c'" "cur_rest img c' = bs @ ys" "cur_pos c' \<noteq> None"
    using fixed_int_append' [where 'a = 16, OF block2(3), of ns "bs @ ys"] block2
    by (auto simp: cur_u16_def)
  have "ucast (from_bytes ns :: u16) = (word_of_nat (length bs) :: u64)"
    using block2(1,2) le_nat_less [of ns] by (simp add: from_bytes_def unsigned_of_nat take_bit_nat_eq_self)
  with bump_append [OF c'(2,4,3)] c'(1) show ?case by (subst skip_form.simps) simp
next
  case (block4 ns bs)
  obtain c' where c': "cur_u32 img c = Inr (from_bytes ns, c')" "cur_wf img c'"
      "cur_rest img c' = bs @ ys" "cur_pos c' \<noteq> None"
    using fixed_int_append' [where 'a = 32, OF block4(3), of ns "bs @ ys"] block4
    by (auto simp: cur_u32_def)
  have "ucast (from_bytes ns :: u32) = (word_of_nat (length bs) :: u64)"
    using block4(1,2) le_nat_less [of ns] by (simp add: from_bytes_def unsigned_of_nat take_bit_nat_eq_self)
  with bump_append [OF c'(2,4,3)] c'(1) show ?case by (subst skip_form.simps) simp
next
  case (block form g bs)
  obtain c' where c': "cur_uleb128 img c = Inr (word_of_nat (leb_nat g), c')" "cur_wf img c'"
      "cur_rest img c' = bs @ ys"
    using uleb128_group [OF block(5), of g "bs @ ys"] block by auto
  then have "cur_pos c' \<noteq> None" by (auto dest!: cur_uleb128_progress)
  with bump_append [OF c'(2) this c'(3)] c'(1) block(1,4) show ?case
    by (subst skip_form.simps) (elim insertE emptyE; simp)
next
  case (string cs)
  with skip_string_ok [OF string(2), of cs ys] show ?case by (subst skip_form.simps) auto
next
  case (indirect g bs)
  obtain c' where c': "cur_uleb128 img c = Inr (word_of_nat (leb_nat g), c')" "cur_wf img c'"
      "cur_rest img c' = bs @ ys"
    using uleb128_group [OF indirect.prems(1), of g "bs @ ys"] indirect by auto
  then have "cur_pos c' \<noteq> None" by (auto dest!: cur_uleb128_progress)
  with indirect.IH [OF c'(2) _ c'(3)] c'(1) show ?case by (subst skip_form.simps) simp
qed

section \<open>The span of a cursor does not change\<close>

lemma bump_data: "bump n c = Inr c' \<Longrightarrow> cur_data c' = cur_data c"
  by (auto simp: bump_def split: option.splits)

lemma fixed_int_data: "fixed_int img c = Inr (w, c') \<Longrightarrow> cur_data c' = cur_data c"
  by (auto simp: fixed_int_def fixed_bytes_def res_simps split: option.splits if_splits)

lemma leb128_loop_data: "leb128_loop img shift res c = Inr (r, k, b, c') \<Longrightarrow> cur_data c' = cur_data c"
proof (induction img shift res c rule: leb128_loop.induct)
  case (1 img shift res c)
  from "1.prems" obtain x c1 where u: "cur_u8 img c = Inr (x, c1)" and sh: "\<not> 64 \<le> shift"
    by (subst (asm) leb128_loop.simps) (auto simp: res_simps split: if_splits)
  have d: "cur_data c1 = cur_data c" using u fixed_int_data by (auto simp: cur_u8_def)
  show ?case
  proof (cases "x AND 0x80 \<noteq> 0")
    case True
    with "1.prems" u sh have "leb128_loop img (shift + 7)
        (res OR push_bit shift (ucast (x AND 0x7f))) c1 = Inr (r, k, b, c')"
      by (subst (asm) leb128_loop.simps) simp
    with "1.IH" [OF sh u refl refl refl True] d show ?thesis by simp
  next
    case False
    with "1.prems" u sh d show ?thesis by (subst (asm) leb128_loop.simps) simp
  qed
qed

lemma cur_uleb128_data: "cur_uleb128 img c = Inr (r, c') \<Longrightarrow> cur_data c' = cur_data c"
  by (auto simp: cur_uleb128_def res_simps dest: leb128_loop_data)

lemma cur_sleb128_data: "cur_sleb128 img c = Inr (r, c') \<Longrightarrow> cur_data c' = cur_data c"
  by (auto simp: cur_sleb128_def res_simps dest: leb128_loop_data)

lemma cur_int_data:
  "cur_u8 img c = Inr (b, c') \<Longrightarrow> cur_data c' = cur_data c"
  "cur_u16 img c = Inr (h, c') \<Longrightarrow> cur_data c' = cur_data c"
  "cur_u32 img c = Inr (w, c') \<Longrightarrow> cur_data c' = cur_data c"
  "cur_u64 img c = Inr (x, c') \<Longrightarrow> cur_data c' = cur_data c"
  using fixed_int_data by (auto simp: cur_u8_def cur_u16_def cur_u32_def cur_u64_def)

lemma cur_string_data: "cur_string img c = Inr (s, c') \<Longrightarrow> cur_data c' = cur_data c"
  by (auto simp: cur_string_def res_simps split: option.splits if_splits)

lemma skip_string_data: "skip_string img c = Inr c' \<Longrightarrow> cur_data c' = cur_data c"
proof (induction img c rule: skip_string.induct)
  case (1 img c)
  show ?case
  proof (cases "cur_pos c")
    case None
    with "1.prems" show ?thesis by (subst (asm) skip_string.simps) (auto split: if_splits dest: bump_data)
  next
    case (Some p)
    show ?thesis
    proof (cases "cur_finished c")
      case True
      with "1.prems" Some show ?thesis by (subst (asm) skip_string.simps) (auto dest: bump_data)
    next
      case False
      with "1.prems" Some obtain bs where b: "read_bytes img p 1 = Inr bs"
        by (subst (asm) skip_string.simps) (auto simp: res_simps)
      show ?thesis
      proof (cases "bs = [0]")
        case True
        with "1.prems" Some False b show ?thesis
          by (subst (asm) skip_string.simps) (auto dest: bump_data)
      next
        case nz: False
        with "1.prems" Some False b have "skip_string img (c\<lparr>cur_pos := Some (p + 1)\<rparr>) = Inr c'"
          by (subst (asm) skip_string.simps) auto
        with "1.IH" [OF Some False b nz] show ?thesis by simp
      qed
    qed
  qed
qed

lemmas cur_datas = cur_uleb128_data cur_sleb128_data cur_int_data cur_string_data skip_string_data
  bump_data

lemma skip_form_data: "skip_form img form c = Inr c' \<Longrightarrow> cur_data c' = cur_data c"
proof (induction img form c rule: skip_form.induct)
  case (1 img form c)
  show ?case
  proof (cases "form = DW_FORM_indirect")
    case True
    with "1.prems" obtain form' c1 where u: "cur_uleb128 img c = Inr (form', c1)"
        "skip_form img form' c1 = Inr c'"
      by (subst (asm) skip_form.simps) (auto simp: res_simps)
    have "cur_data c' = cur_data c1" by (rule "1.IH") (use True u in auto)
    with u(1) show ?thesis by (simp add: cur_uleb128_data)
  next
    case False
    with "1.prems" show ?thesis
      by (subst (asm) skip_form.simps)
        (simp add: res_simps split: if_splits; (elim exE conjE)?; (drule cur_datas)+; simp)
  qed
qed

section \<open>Safety\<close>

lemma fixed_int_success:
  assumes "cur_wf img c" "fixed_int img c = Inr (w :: 'a :: len word, c')" "8 \<le> LENGTH('a)"
    "LENGTH('a) div 8 < 2 ^ 64"
  shows "cur_wf img c'"
proof -
  obtain bs where "fixed_bytes (LENGTH('a) div 8) img c = Inr (bs, c')"
    using assms(2) by (auto simp: fixed_int_def res_simps)
  with cur.read_success [OF assms(1) _ assms(4)] assms(3) show ?thesis by auto
qed

lemma fixed_int_no_ub:
  assumes "cur_wf img c" "8 \<le> LENGTH('a)" "LENGTH('a) div 8 < 2 ^ 64"
  shows "no_ub (fixed_int img c :: ('a :: len word \<times> cursor) result)"
  unfolding fixed_int_def using cur.read_no_ub [OF assms(1) _ assms(3)] assms(2)
  by (intro no_ub_bind) auto

lemma leb128_loop_safe:
  assumes "cur_wf img c"
  shows "no_ub (leb128_loop img shift res c) \<and>
         (\<forall>r k b c'. leb128_loop img shift res c = Inr (r, k, b, c') \<longrightarrow> cur_wf img c')"
  using assms
proof (induction img shift res c rule: leb128_loop.induct)
  case (1 img shift res c)
  show ?case
  proof (cases "64 \<le> shift \<or> (\<exists>f. cur_u8 img c = Inl f)")
    case True
    moreover have "no_ub (cur_u8 img c)" unfolding cur_u8_def
      using fixed_int_no_ub [where 'a = 8, OF "1.prems"] by simp
    ultimately show ?thesis by (subst (1 2) leb128_loop.simps) (auto simp: no_ub_iff send_def)
  next
    case False
    then obtain b c1 where u: "cur_u8 img c = Inr (b, c1)" and sh: "\<not> 64 \<le> shift"
      by (metis old.sum.exhaust surj_pair)
    have wf1: "cur_wf img c1"
      using fixed_int_success [where 'a = 8, OF "1.prems"] u by (simp add: cur_u8_def)
    show ?thesis
    proof (cases "b AND 0x80 \<noteq> 0")
      case True
      from "1.IH" [OF sh u refl refl refl True wf1] u sh True show ?thesis
        by (subst (1 2) leb128_loop.simps) simp
    next
      case False
      with u sh wf1 show ?thesis by (subst (1 2) leb128_loop.simps) simp
    qed
  qed
qed

lemma find_zero_safe:
  assumes "unat e \<le> length img" "length img < 2 ^ 64" "p \<le> e"
  shows "\<exists>cs q. find_zero img e p = Inr (cs, q) \<and> p \<le> q \<and> q \<le> e"
  using assms
proof (induction img e p rule: find_zero.induct)
  case (1 img e p)
  show ?case
  proof (cases "p = e")
    case True
    then show ?thesis by (subst find_zero.simps) simp
  next
    case False
    with "1.prems"(3) have "p < e" by simp
    then have lt: "unat p < unat e" by (simp add: word_less_nat_alt)
    then have p1: "unat (p + 1) = unat p + 1" using "1.prems" by (simp add: unat_plus_if')
    define bs where "bs = take 1 (drop (unat p) img)"
    have r: "read_bytes img p 1 = Inr bs"
      using lt "1.prems" by (simp add: read_bytes_def bs_def)
    have le: "p + 1 \<le> e" "p \<le> p + 1" using lt p1 by (simp_all add: word_le_nat_alt)
    show ?thesis
    proof (cases "bs = [0]")
      case True
      with False r "1.prems"(3) show ?thesis by (subst find_zero.simps) simp
    next
      case nz: False
      obtain cs q where "find_zero img e (p + 1) = Inr (cs, q)" "p + 1 \<le> q" "q \<le> e"
        using "1.IH" [OF False r nz "1.prems"(1,2) le(1)] by blast
      with False r nz le show ?thesis by (subst find_zero.simps) auto
    qed
  qed
qed

lemma cur_string_safe:
  assumes "cur_wf img c"
  shows "no_ub (cur_string img c) \<and> (\<forall>s c'. cur_string img c = Inr (s, c') \<longrightarrow> cur_wf img c')"
  using assms
proof (cases rule: cur_wf_cases)
  case null
  then show ?thesis by (simp add: cur_string_def)
next
  case (inside p e)
  obtain cs q where fz: "find_zero img e p = Inr (cs, q)" "p \<le> q" "q \<le> e"
    using find_zero_safe [OF inside(4,5,3)] by blast
  have "cur_wf img (c\<lparr>cur_pos := Some (q + 1)\<rparr>)" if "q \<noteq> e"
  proof -
    have "q < e" using that fz(3) by simp
    then have "unat q < unat e" by (simp add: word_less_nat_alt)
    then have "unat (q + 1) = unat q + 1" using inside by (simp add: unat_plus_if')
    with \<open>unat q < unat e\<close> show ?thesis using inside by (simp add: cur_wf_def word_le_nat_alt)
  qed
  with fz inside show ?thesis by (auto simp: cur_string_def)
qed

lemma leb128_loop_too_long:
  assumes "cur_wf img c" "cur_rest img c = g @ ys" "list_all (\<lambda>b. b AND 0x80 \<noteq> 0) g"
    "64 \<le> shift + 7 * length g"
  shows "leb128_loop img shift res c = send ''Invalid DWARF LEB128''"
  using assms
proof (induction g arbitrary: shift res c)
  case Nil
  then show ?case by (subst leb128_loop.simps) simp
next
  case (Cons b g)
  obtain c1 where c1: "cur_u8 img c = Inr (b, c1)" "cur_wf img c1" "cur_rest img c1 = g @ ys"
    using cur_u8_Cons [OF Cons.prems(1), of b "g @ ys"] Cons.prems(2) by auto
  show ?case
  proof (cases "64 \<le> shift")
    case False
    with c1 Cons.prems(3,4) Cons.IH [OF c1(2,3)] show ?thesis
      by (subst leb128_loop.simps) simp
  qed (subst leb128_loop.simps, simp)
qed

section \<open>Properties\<close>

text \<open>
  C21: reading an unsigned LEB128 number returns the number whose encoding stands at the cursor
  and leaves the cursor right behind the encoding.
\<close>

theorem uleb128_roundtrip:
  assumes "n < 2 ^ 64" "cur_wf img c" "cur_rest img c = uleb_encode n @ ys"
  shows "\<exists>c'. cur_uleb128 img c = Inr (word_of_nat n, c') \<and> cur_wf img c' \<and> cur_rest img c' = ys"
proof -
  have "length (uleb_encode n) \<le> 10" using assms(1) uleb_encode_length [of n 10] by simp
  with uleb128_group [OF assms(2,3)] uleb_encode_group [of n] show ?thesis by simp
qed

definition demo_cursor :: "nat \<Rightarrow> cursor" where
  "demo_cursor n = cursor_of \<lparr>sp_data = Some 0, sp_size = word_of_nat n\<rparr>"

theorem uleb128_roundtrip_witness:
  "\<exists>c'. cur_uleb128 [0xe5, 0x8e, 0x26, 0xff] (demo_cursor 4) = Inr (624485, c') \<and>
        cur_rest [0xe5, 0x8e, 0x26, 0xff] c' = [0xff]"
proof -
  have wf: "cur_wf [0xe5, 0x8e, 0x26, 0xff] (demo_cursor 4)"
    by (simp add: cur_wf_def demo_cursor_def cursor_of_def span_end_def)
  have "uleb_encode 624485 = [0xe5, 0x8e, 0x26]" by (simp add: uleb_encode.simps)
  then have "cur_rest [0xe5, 0x8e, 0x26, 0xff] (demo_cursor 4) = uleb_encode 624485 @ [0xff]"
    by (simp add: cur_rest_def demo_cursor_def cursor_of_def span_end_def)
  from uleb128_roundtrip [OF _ wf this] show ?thesis by auto
qed

text \<open>
  The same for signed LEB128 numbers over the whole range of \<open>std::int64_t\<close>, read as two's
  complement.
\<close>

theorem sleb128_roundtrip:
  assumes "- (2 ^ 63) \<le> v" "v < 2 ^ 63" "cur_wf img c" "cur_rest img c = sleb_encode v @ ys"
  shows "\<exists>w c'. cur_sleb128 img c = Inr (w, c') \<and> sint w = v \<and> cur_wf img c' \<and> cur_rest img c' = ys"
proof -
  have "length (sleb_encode v) \<le> 10" using assms(1,2) sleb_encode_length [of 9 v] by simp
  moreover have "sint (word_of_int v :: u64) = v"
    using assms(1,2) by (simp add: signed_of_int signed_take_bit_int_eq_self)
  ultimately show ?thesis using sleb128_group [OF assms(3,4)] sleb_encode_group [of v] by auto
qed

theorem sleb128_roundtrip_witness:
  "\<exists>w c'. cur_sleb128 [0x80, 0x7f, 0x01] (demo_cursor 3) = Inr (w, c') \<and> sint w = - 128 \<and>
          cur_rest [0x80, 0x7f, 0x01] c' = [0x01]"
proof -
  have wf: "cur_wf [0x80, 0x7f, 0x01] (demo_cursor 3)"
    by (simp add: cur_wf_def demo_cursor_def cursor_of_def span_end_def)
  have "sleb_encode (- 128) = [0x80, 0x7f]" by (simp add: sleb_encode.simps)
  then have "cur_rest [0x80, 0x7f, 0x01] (demo_cursor 3) = sleb_encode (- 128) @ [0x01]"
    by (simp add: cur_rest_def demo_cursor_def cursor_of_def span_end_def)
  from sleb128_roundtrip [OF _ _ wf this] show ?thesis by auto
qed

text \<open>
  No undefined behaviour in the checked readers.  On a cursor whose position and end lie in
  the storage, the fixed-width readers, the LEB128 readers and the string reader either succeed
  and leave such a cursor or raise an error; they never read outside the storage.
\<close>

theorem cursor_readers_safe:
  assumes "cur_wf img c"
  shows "no_ub (cur_u8 img c) \<and> no_ub (cur_u16 img c) \<and> no_ub (cur_u32 img c) \<and>
         no_ub (cur_u64 img c) \<and> no_ub (cur_uleb128 img c) \<and> no_ub (cur_sleb128 img c) \<and>
         no_ub (cur_string img c) \<and>
         (\<forall>r c'. cur_u64 img c = Inr (r, c') \<longrightarrow> cur_wf img c') \<and>
         (\<forall>r c'. cur_uleb128 img c = Inr (r, c') \<longrightarrow> cur_wf img c') \<and>
         (\<forall>s c'. cur_string img c = Inr (s, c') \<longrightarrow> cur_wf img c')"
proof -
  have u: "no_ub (cur_uleb128 img c)" "no_ub (cur_sleb128 img c)"
    using leb128_loop_safe [OF assms, of 0 0]
    by (auto simp: cur_uleb128_def cur_sleb128_def intro!: no_ub_bind)
  have wf: "cur_wf img c'" if "cur_uleb128 img c = Inr (r, c')" for r c'
    using that leb128_loop_safe [OF assms, of 0 0] by (auto simp: cur_uleb128_def res_simps)
  show ?thesis
    using u wf cur_string_safe [OF assms] fixed_int_success [where 'a = 64, OF assms]
      fixed_int_no_ub [where 'a = 8, OF assms] fixed_int_no_ub [where 'a = 16, OF assms]
      fixed_int_no_ub [where 'a = 32, OF assms] fixed_int_no_ub [where 'a = 64, OF assms]
    by (simp add: cur_u8_def cur_u16_def cur_u32_def cur_u64_def)
qed

theorem cursor_readers_safe_witness:
  "cur_wf [0x01, 0x80] (demo_cursor 2) \<and> no_ub (cur_u64 [0x01, 0x80] (demo_cursor 2)) \<and>
   no_ub (cur_string [0x01, 0x80] (demo_cursor 2))"
proof -
  have wf: "cur_wf [0x01, 0x80] (demo_cursor 2)"
    by (simp add: cur_wf_def demo_cursor_def cursor_of_def span_end_def)
  from wf cursor_readers_safe [OF wf] show ?thesis by blast
qed

text \<open>
  Over-long LEB128 numbers are rejected.  When ten bytes in a row carry the continuation
  bit, both readers raise the error instead of shifting past the width of the result.
\<close>

theorem leb128_too_long_rejected:
  assumes "cur_wf img c" "cur_rest img c = g @ ys" "length g = 10" "list_all (\<lambda>b. b AND 0x80 \<noteq> 0) g"
  shows "cur_uleb128 img c = send ''Invalid DWARF LEB128'' \<and>
         cur_sleb128 img c = send ''Invalid DWARF LEB128''"
  using leb128_loop_too_long [OF assms(1,2,4), of 0 0] assms(3)
  by (simp add: cur_uleb128_def cur_sleb128_def)

text \<open>
  \<open>skip_form\<close> is not safe on malformed input.  A \<open>DW_FORM_block1\<close> value whose length byte
  says more than the span holds moves the cursor past the end of its span without an error,
  and the next read, whose bounds check computes with the wrapped distance, leaves the storage.
\<close>

theorem skip_form_leaves_span:
  "\<exists>img c c'. cur_wf img c \<and> skip_form img DW_FORM_block1 c = Inr c' \<and> \<not> cur_wf img c' \<and>
              \<not> no_ub (cur_u8 img c')"
proof (intro exI conjI)
  let ?img = "[5, 0] :: byte list"
  let ?c = "demo_cursor 2"
  let ?c' = "?c\<lparr>cur_pos := Some 6\<rparr>"
  show "cur_wf ?img ?c" by (simp add: cur_wf_def demo_cursor_def cursor_of_def span_end_def)
  show "skip_form ?img DW_FORM_block1 ?c = Inr ?c'"
    by (subst skip_form.simps)
      (simp add: cur_u8_def fixed_int_def fixed_bytes_def read_bytes_def from_bytes_def bump_def
        cur_left_def demo_cursor_def cursor_of_def span_end_def)
  show "\<not> cur_wf ?img ?c'" by (simp add: cur_wf_def demo_cursor_def cursor_of_def span_end_def)
  show "\<not> no_ub (cur_u8 ?img ?c')"
    by (simp add: cur_u8_def fixed_int_def fixed_bytes_def read_bytes_def cur_left_def
        demo_cursor_def cursor_of_def span_end_def)
qed

end
