(* ===== verification/Elf.thy ===== *)
theory Elf
  imports Cursor
begin

text \<open>
  Object files and addresses: the classes \<open>virt_addr\<close>, \<open>file_addr\<close> and \<open>file_offset\<close> of
  \<^verbatim>\<open>include/libsdb/types.hpp\<close> and \<^verbatim>\<open>src/src/types.cpp\<close>, the normalised records of
  \<^verbatim>\<open>include/libsdb/detail/object_format.hpp\<close>, and class \<open>elf\<close> with its section and symbol
  lookups (\<^verbatim>\<open>include/libsdb/elf.hpp\<close>, \<^verbatim>\<open>src/src/macho.cpp\<close>).

  A \<open>const elf*\<close> is the identity of an object file, a natural number; a null pointer is
  \<open>None\<close>.  Virtual addresses are their 64-bit value.
\<close>

section \<open>Data\<close>

record Elf64_Shdr =
  sh_name :: u32
  sh_addr :: u64
  sh_offset :: u64
  sh_size :: u64
  sh_entsize :: u64

record Elf64_Sym =
  st_name :: u32
  st_info :: byte
  st_value :: u64
  st_size :: u64

record file_addr =
  fa_elf :: "nat option"
  fa_addr :: u64

definition null_file_addr :: file_addr where
  "null_file_addr = \<lparr>fa_elf = None, fa_addr = 0\<rparr>"

definition file_addr_add :: "file_addr \<Rightarrow> u64 \<Rightarrow> file_addr" where
  "file_addr_add a off = a\<lparr>fa_addr := fa_addr a + off\<rparr>"

text \<open>The order on file addresses asserts that both lie in the same file.\<close>

definition file_addr_less :: "file_addr \<Rightarrow> file_addr \<Rightarrow> bool result" where
  "file_addr_less a b =
     (if fa_elf a = fa_elf b then Inr (fa_addr a < fa_addr b) else Inl Terminate)"

definition file_addr_le :: "file_addr \<Rightarrow> file_addr \<Rightarrow> bool result" where
  "file_addr_le a b =
     (if fa_elf a = fa_elf b then Inr (fa_addr a \<le> fa_addr b) else Inl Terminate)"

text \<open>
  \<open>symbol_addr_map_\<close> is ordered by the first address of its keys alone, so it is a list of
  entries sorted by that address, with one entry per address.
\<close>

type_synonym addr_entry = "(u64 \<times> u64) \<times> Elf64_Sym"

record elf =
  elf_id :: nat
  elf_path :: string
  storage :: "byte list"
  section_names :: "string list"
  symbol_names :: "string list"
  preferred_base :: u64
  e_entry :: u64
  section_headers :: "Elf64_Shdr list"
  section_map :: "string \<Rightarrow> Elf64_Shdr option"
  load_bias :: u64
  symbol_table :: "Elf64_Sym list"
  symbol_name_map :: "(string \<times> Elf64_Sym) list"
  symbol_addr_map :: "addr_entry list"

definition elf_file_addr :: "elf \<Rightarrow> u64 \<Rightarrow> file_addr" where
  "elf_file_addr e a = \<lparr>fa_elf = Some (elf_id e), fa_addr = a\<rparr>"

section \<open>Sections\<close>

definition get_section_name :: "elf \<Rightarrow> u32 \<Rightarrow> string result" where
  "get_section_name e i =
     (if unat i < length (section_names e) then Inr (section_names e ! unat i)
      else Inl Out_Of_Range)"

fun build_section_map_loop ::
  "elf \<Rightarrow> Elf64_Shdr list \<Rightarrow> (string \<Rightarrow> Elf64_Shdr option) \<Rightarrow> (string \<Rightarrow> Elf64_Shdr option) result"
where
  "build_section_map_loop e [] m = Inr m"
| "build_section_map_loop e (s # ss) m =
     bind_res (get_section_name e (sh_name s)) (\<lambda>n. build_section_map_loop e ss (m(n \<mapsto> s)))"

definition build_section_map :: "elf \<Rightarrow> elf result" where
  "build_section_map e =
     bind_res (build_section_map_loop e (section_headers e) (section_map e)) (\<lambda>m.
     Inr (e\<lparr>section_map := m\<rparr>))"

definition get_section :: "elf \<Rightarrow> string \<Rightarrow> Elf64_Shdr option" where
  "get_section e name = section_map e name"

definition get_section_contents :: "elf \<Rightarrow> string \<Rightarrow> span" where
  "get_section_contents e name =
     (case get_section e name of
        Some s \<Rightarrow> if sh_entsize s = 1 then null_span
                  else \<lparr>sp_data = Some (sh_offset s), sp_size = sh_size s\<rparr>
      | None \<Rightarrow> null_span)"

definition section_has_file :: "u64 \<Rightarrow> Elf64_Shdr \<Rightarrow> bool" where
  "section_has_file a s \<longleftrightarrow> sh_addr s \<le> a \<and> sh_addr s + sh_size s > a"

definition section_has_virt :: "u64 \<Rightarrow> u64 \<Rightarrow> Elf64_Shdr \<Rightarrow> bool" where
  "section_has_virt bias a s \<longleftrightarrow> bias + sh_addr s \<le> a \<and> bias + sh_addr s + sh_size s > a"

definition get_section_containing_file_addr :: "elf \<Rightarrow> file_addr \<Rightarrow> Elf64_Shdr option" where
  "get_section_containing_file_addr e a =
     (if fa_elf a \<noteq> Some (elf_id e) then None
      else find (section_has_file (fa_addr a)) (section_headers e))"

definition get_section_containing_virt_addr :: "elf \<Rightarrow> u64 \<Rightarrow> Elf64_Shdr option" where
  "get_section_containing_virt_addr e a = find (section_has_virt (load_bias e) a) (section_headers e)"

definition get_section_start_address :: "elf \<Rightarrow> string \<Rightarrow> file_addr option" where
  "get_section_start_address e name =
     map_option (\<lambda>s. elf_file_addr e (sh_addr s)) (get_section e name)"

definition offset_to_address :: "elf \<Rightarrow> u64 \<Rightarrow> u64 result" where
  "offset_to_address e off =
     (case find (\<lambda>s. off \<ge> sh_offset s \<and> off - sh_offset s < sh_size s) (section_headers e) of
        Some s \<Rightarrow> Inr (sh_addr s + off - sh_offset s)
      | None \<Rightarrow> send ''Offset has no virtual address'')"

definition notify_loaded :: "u64 \<Rightarrow> elf \<Rightarrow> elf" where
  "notify_loaded address e = e\<lparr>load_bias := address\<rparr>"

section \<open>Address conversions\<close>

text \<open>
  \<open>to_virt_addr\<close> asserts that the address has a file; the file it belongs to is looked up by
  the caller and passed as \<open>e\<close>.
\<close>

definition to_virt_addr :: "elf \<Rightarrow> file_addr \<Rightarrow> u64 result" where
  "to_virt_addr e a =
     (if fa_elf a = None then Inl Terminate
      else case get_section_containing_file_addr e a of
             None \<Rightarrow> Inr 0
           | Some _ \<Rightarrow> Inr (fa_addr a + load_bias e))"

definition to_file_addr :: "elf \<Rightarrow> u64 \<Rightarrow> file_addr" where
  "to_file_addr e a =
     (case get_section_containing_virt_addr e a of
        None \<Rightarrow> null_file_addr
      | Some _ \<Rightarrow> elf_file_addr e (a - load_bias e))"

definition get_elf_containing_address :: "elf list \<Rightarrow> u64 \<Rightarrow> elf option" where
  "get_elf_containing_address elves a =
     find (\<lambda>e. get_section_containing_virt_addr e a \<noteq> None) elves"

definition get_elf_by_path :: "elf list \<Rightarrow> string \<Rightarrow> elf option" where
  "get_elf_by_path elves p = find (\<lambda>e. elf_path e = p) elves"

definition to_file_addr_in :: "elf list \<Rightarrow> u64 \<Rightarrow> file_addr" where
  "to_file_addr_in elves a =
     (case get_elf_containing_address elves a of
        None \<Rightarrow> null_file_addr
      | Some e \<Rightarrow> to_file_addr e a)"


section \<open>Symbols\<close>

definition get_string :: "elf \<Rightarrow> u32 \<Rightarrow> string result" where
  "get_string e i =
     (if unat i < length (symbol_names e) then Inr (symbol_names e ! unat i)
      else Inl Out_Of_Range)"

text \<open>
  The last part of \<open>parse_macho\<close>: sort the symbols by address, then let each symbol extend to
  the end of its section (or to one byte when it lies in none), cut at the next symbol's
  address when that is larger.  \<open>std::sort\<close> may order symbols of equal address either way;
  \<open>sort_key\<close> is one of its results.
\<close>

definition symbol_end :: "elf \<Rightarrow> Elf64_Sym \<Rightarrow> Elf64_Sym option \<Rightarrow> u64" where
  "symbol_end e s next =
     (let end = (case get_section_containing_file_addr e (elf_file_addr e (st_value s)) of
                   Some sec \<Rightarrow> sh_addr sec + sh_size sec
                 | None \<Rightarrow> st_value s + 1)
      in case next of
           Some n \<Rightarrow> if st_value n > st_value s then min end (st_value n) else end
         | None \<Rightarrow> end)"

fun size_symbols :: "elf \<Rightarrow> Elf64_Sym list \<Rightarrow> Elf64_Sym list" where
  "size_symbols e [] = []"
| "size_symbols e (s # ss) =
     s\<lparr>st_size := symbol_end e s (case ss of [] \<Rightarrow> None | n # _ \<Rightarrow> Some n) - st_value s\<rparr>
     # size_symbols e ss"

definition finish_symbol_table :: "elf \<Rightarrow> elf" where
  "finish_symbol_table e = e\<lparr>symbol_table := size_symbols e (sort_key st_value (symbol_table e))\<rparr>"

text \<open>\<open>std::map::emplace\<close> with the range comparator: an entry with the same first address stays.\<close>

fun addr_map_emplace :: "u64 \<times> u64 \<Rightarrow> Elf64_Sym \<Rightarrow> addr_entry list \<Rightarrow> addr_entry list" where
  "addr_map_emplace k s [] = [(k, s)]"
| "addr_map_emplace k s ((k', s') # m) =
     (if fst k < fst k' then (k, s) # (k', s') # m
      else if fst k' < fst k then (k', s') # addr_map_emplace k s m
      else (k', s') # m)"

text \<open>
  The demangler of the C++ runtime, \<open>abi::__cxa_demangle\<close>, is a parameter: it yields a
  readable name for some symbol names.
\<close>

fun build_symbol_maps_loop ::
  "(string \<Rightarrow> string option) \<Rightarrow> Elf64_Sym list \<Rightarrow> elf \<Rightarrow> elf result" where
  "build_symbol_maps_loop demangle [] e = Inr e"
| "build_symbol_maps_loop demangle (s # ss) e =
     bind_res (get_string e (st_name s)) (\<lambda>name.
     build_symbol_maps_loop demangle ss
       (e\<lparr>symbol_name_map := symbol_name_map e @ [(name, s)] @
            (case demangle name of Some d \<Rightarrow> [(d, s)] | None \<Rightarrow> []),
          symbol_addr_map := addr_map_emplace (st_value s, st_value s + st_size s) s
            (symbol_addr_map e)\<rparr>))"

definition build_symbol_maps :: "(string \<Rightarrow> string option) \<Rightarrow> elf \<Rightarrow> elf result" where
  "build_symbol_maps demangle e = build_symbol_maps_loop demangle (symbol_table e) e"

definition get_symbols_by_name :: "elf \<Rightarrow> string \<Rightarrow> Elf64_Sym list" where
  "get_symbols_by_name e name = map snd (filter (\<lambda>(n, s). n = name) (symbol_name_map e))"

definition get_symbol_at_address :: "elf \<Rightarrow> file_addr \<Rightarrow> Elf64_Sym option" where
  "get_symbol_at_address e a =
     (if fa_elf a \<noteq> Some (elf_id e) then None
      else map_option snd (find (\<lambda>(k, s). fst k = fa_addr a) (symbol_addr_map e)))"

text \<open>
  \<open>lower_bound\<close> splits the map at the first entry whose address is not below the one looked
  for; the entry before it is the last of the left part.
\<close>

definition get_symbol_containing_address :: "elf \<Rightarrow> file_addr \<Rightarrow> Elf64_Sym option" where
  "get_symbol_containing_address e a =
     (if fa_elf a \<noteq> Some (elf_id e) \<or> symbol_addr_map e = [] then None
      else
        let below = takeWhile (\<lambda>(k, s). fst k < fa_addr a) (symbol_addr_map e);
            rest = dropWhile (\<lambda>(k, s). fst k < fa_addr a) (symbol_addr_map e)
        in if rest \<noteq> [] \<and> fst (fst (hd rest)) = fa_addr a then Some (snd (hd rest))
           else if below = [] then None
           else let (k, s) = last below
                in if fst k < fa_addr a \<and> snd k > fa_addr a then Some s else None)"

definition get_symbol_containing_virt_addr :: "elf \<Rightarrow> u64 \<Rightarrow> Elf64_Sym option" where
  "get_symbol_containing_virt_addr e a = get_symbol_containing_address e (to_file_addr e a)"

section \<open>Lemmas\<close>

lemma find_cong_strong:
  "(\<And>x. x \<in> set xs \<Longrightarrow> P x = Q x) \<Longrightarrow> find P xs = find Q xs"
  by (induction xs) auto

lemma word_interval_shift:
  fixes s n a b :: u64
  assumes "unat s + unat n < 2 ^ 64" "unat (b + s) + unat n < 2 ^ 64" "s \<le> a" "a < s + n"
  shows "b + s \<le> a + b \<and> a + b < b + s + n"
proof -
  define d where "d = a - s"
  have sn: "unat (s + n) = unat s + unat n" "unat (b + s + n) = unat (b + s) + unat n"
    using assms(1,2) by (simp_all add: unat_plus_if')
  have d: "unat d = unat a - unat s" using assms(3) by (simp add: d_def unat_sub)
  have dn: "unat d < unat n"
    using assms(3,4) sn(1) d by (simp add: word_le_nat_alt word_less_nat_alt)
  have ab: "a + b = b + s + d" by (simp add: d_def)
  have "unat (b + s + d) = unat (b + s) + unat d"
    using dn assms(2) by (simp add: unat_plus_if')
  then show ?thesis unfolding ab using sn(2) dn by (simp add: word_le_nat_alt word_less_nat_alt)
qed

text \<open>No section wraps around the address space, neither in the file nor where it is loaded.\<close>

definition sections_fit :: "elf \<Rightarrow> bool" where
  "sections_fit e \<longleftrightarrow>
     list_all (\<lambda>s. unat (sh_addr s) + unat (sh_size s) < 2 ^ 64 \<and>
                   unat (load_bias e + sh_addr s) + unat (sh_size s) < 2 ^ 64) (section_headers e)"

lemma section_has_shift:
  assumes "unat (sh_addr s) + unat (sh_size s) < 2 ^ 64"
    "unat (bias + sh_addr s) + unat (sh_size s) < 2 ^ 64"
  shows "section_has_virt bias (a + bias) s \<longleftrightarrow> section_has_file a s"
proof
  assume "section_has_file a s"
  then show "section_has_virt bias (a + bias) s"
    using word_interval_shift [OF assms, of a] by (simp add: section_has_file_def section_has_virt_def)
next
  assume "section_has_virt bias (a + bias) s"
  then show "section_has_file a s"
    using word_interval_shift [of "bias + sh_addr s" "sh_size s" "- bias" "a + bias"] assms
    by (simp add: section_has_file_def section_has_virt_def algebra_simps)
qed

lemma section_lookup_shift:
  assumes "sections_fit e" "fa_elf a = Some (elf_id e)"
  shows "get_section_containing_virt_addr e (fa_addr a + load_bias e) =
         get_section_containing_file_addr e a"
  using assms
  unfolding get_section_containing_virt_addr_def get_section_containing_file_addr_def
    sections_fit_def list_all_iff
  by (auto intro!: find_cong_strong section_has_shift)

lemma addr_map_emplace_keys:
  "fst ` fst ` set (addr_map_emplace k s m) = insert (fst k) (fst ` fst ` set m)"
  by (induction k s m rule: addr_map_emplace.induct) (auto simp: image_iff)

definition addr_map_sorted :: "addr_entry list \<Rightarrow> bool" where
  "addr_map_sorted m \<longleftrightarrow> sorted_wrt (\<lambda>x y. fst (fst x) < fst (fst y)) m"

lemma addr_map_emplace_sorted:
  "addr_map_sorted m \<Longrightarrow> addr_map_sorted (addr_map_emplace k s m)"
  unfolding addr_map_sorted_def
proof (induction k s m rule: addr_map_emplace.induct)
  case (2 k s k' s' m)
  show ?case
  proof (cases "fst k' < fst k")
    case True
    have "fst k' < fst (fst x)" if "x \<in> set (addr_map_emplace k s m)" for x
    proof -
      have "fst (fst x) \<in> insert (fst k) (fst ` fst ` set m)"
        using that addr_map_emplace_keys by (metis image_eqI)
      with True "2.prems" show ?thesis by auto
    qed
    with True 2 show ?thesis by auto
  next
    case False
    with 2 show ?thesis by force
  qed
qed simp


lemma build_symbol_maps_loop_sorted:
  "build_symbol_maps_loop demangle ss e = Inr e' \<Longrightarrow> addr_map_sorted (symbol_addr_map e) \<Longrightarrow>
   addr_map_sorted (symbol_addr_map e') \<and> elf_id e' = elf_id e"
proof (induction ss arbitrary: e)
  case (Cons s ss)
  then obtain name where "get_string e (st_name s) = Inr name"
    by (auto simp: res_simps)
  with Cons.prems show ?case
    by (auto dest!: Cons.IH simp: addr_map_emplace_sorted)
qed simp

lemma sorted_split_last:
  assumes "addr_map_sorted m" "below = takeWhile (\<lambda>(k, s). fst k < a) m" "below \<noteq> []"
    "x \<in> set m" "fst (fst x) < a"
  shows "fst (fst x) \<le> fst (fst (last below))"
proof -
  have m: "m = below @ dropWhile (\<lambda>(k, s). fst k < a) m" using assms(2) by simp
  have sw: "sorted_wrt (\<lambda>x y. fst (fst x) < fst (fst y)) (below @ dropWhile (\<lambda>(k, s). fst k < a) m)"
    using assms(1) m unfolding addr_map_sorted_def by simp
  show ?thesis
  proof (cases "x \<in> set below")
    case True
    have "sorted_wrt (\<lambda>x y. fst (fst x) < fst (fst y)) (butlast below @ [last below])"
      using sw assms(3) by (simp add: sorted_wrt_append)
    moreover have "x = last below \<or> x \<in> set (butlast below)"
      using True assms(3) by (metis append_butlast_last_id in_set_conv_decomp rotate1.simps(2) set_ConsD set_rotate1)
    ultimately show ?thesis by (auto simp: sorted_wrt_append)
  next
    case False
    with assms(4) m have x: "x \<in> set (dropWhile (\<lambda>(k, s). fst k < a) m)" by (metis UnE set_append)
    then obtain y ys where y: "dropWhile (\<lambda>(k, s). fst k < a) m = y # ys" by (cases "dropWhile (\<lambda>(k, s). fst k < a) m") auto
    then have "\<not> fst (fst y) < a" using hd_dropWhile [of "\<lambda>(k, s). fst k < a" m] by (auto simp: case_prod_beta)
    moreover have "fst (fst y) \<le> fst (fst x)" using x sw unfolding y by (auto simp: sorted_wrt_append)
    ultimately show ?thesis using assms(5) by auto
  qed
qed


text \<open>
  The specification of a symbol lookup: of the symbols that start at or below the address,
  the one that starts last, provided it starts exactly there or extends past the address.
\<close>

definition covering_symbol :: "addr_entry list \<Rightarrow> u64 \<Rightarrow> Elf64_Sym \<Rightarrow> bool" where
  "covering_symbol m a s \<longleftrightarrow>
     (\<exists>k. (k, s) \<in> set m \<and> fst k \<le> a \<and> (\<forall>x \<in> set m. fst (fst x) \<le> a \<longrightarrow> fst (fst x) \<le> fst k) \<and>
          (fst k = a \<or> a < snd k))"

lemma addr_map_sorted_unique:
  "addr_map_sorted m \<Longrightarrow> x \<in> set m \<Longrightarrow> y \<in> set m \<Longrightarrow> fst (fst x) = fst (fst y) \<Longrightarrow> x = y"
  unfolding addr_map_sorted_def
  by (induction m) force+

lemma covering_symbol_unique:
  assumes "addr_map_sorted m" "(k, s) \<in> set m" "fst k \<le> a"
    "\<And>x. x \<in> set m \<Longrightarrow> fst (fst x) \<le> a \<Longrightarrow> fst (fst x) \<le> fst k"
  shows "covering_symbol m a s' \<longleftrightarrow> s' = s \<and> (fst k = a \<or> a < snd k)"
proof
  assume "covering_symbol m a s'"
  then obtain k' where k': "(k', s') \<in> set m" "fst k' \<le> a"
      "\<forall>x \<in> set m. fst (fst x) \<le> a \<longrightarrow> fst (fst x) \<le> fst k'" "fst k' = a \<or> a < snd k'"
    unfolding covering_symbol_def by blast
  have "fst k = fst k'" using assms(2,3) assms(4) [OF k'(1)] k'(2,3) by force
  then have "(k', s') = (k, s)"
    using addr_map_sorted_unique [OF assms(1) k'(1) assms(2)] by simp
  with k'(4) show "s' = s \<and> (fst k = a \<or> a < snd k)" by simp
next
  assume "s' = s \<and> (fst k = a \<or> a < snd k)"
  with assms show "covering_symbol m a s'" unfolding covering_symbol_def by blast
qed

text \<open>The part of the map from the lower bound on: its first entry has the least address.\<close>

lemma lower_bound_first:
  assumes "addr_map_sorted m" "dropWhile (\<lambda>(k, s). fst k < a) m = y # ys"
    and x: "x \<in> set (dropWhile (\<lambda>(k, s). fst k < a) m)"
  shows "a \<le> fst (fst y)" "fst (fst y) \<le> fst (fst x)"
proof -
  have "\<not> (case y of (k, s) \<Rightarrow> fst k < a)"
    using hd_dropWhile [of "\<lambda>(k, s). fst k < a" m] assms(2) by simp
  then show "a \<le> fst (fst y)" by (simp add: case_prod_beta)
  have "addr_map_sorted (takeWhile (\<lambda>(k, s). fst k < a) m @ (y # ys))"
    using assms(1) unfolding assms(2) [symmetric] takeWhile_dropWhile_id .
  then have "addr_map_sorted (y # ys)"
    unfolding addr_map_sorted_def sorted_wrt_append by blast
  then show "fst (fst y) \<le> fst (fst x)"
    using x unfolding assms(2) addr_map_sorted_def by auto
qed

lemma lookup_equation:
  "get_symbol_containing_address e (elf_file_addr e a) =
     (let below = takeWhile (\<lambda>(k, s). fst k < a) (symbol_addr_map e);
          rest = dropWhile (\<lambda>(k, s). fst k < a) (symbol_addr_map e)
      in if rest \<noteq> [] \<and> fst (fst (hd rest)) = a then Some (snd (hd rest))
         else if below = [] then None
         else if snd (fst (last below)) > a then Some (snd (last below)) else None)"
proof (cases "takeWhile (\<lambda>(k, s). fst k < a) (symbol_addr_map e) = []")
  case False
  then have "last (takeWhile (\<lambda>(k, s). fst k < a) (symbol_addr_map e)) \<in>
      set (takeWhile (\<lambda>(k, s). fst k < a) (symbol_addr_map e))" by (rule last_in_set)
  then have "fst (fst (last (takeWhile (\<lambda>(k, s). fst k < a) (symbol_addr_map e)))) < a"
    by (auto dest: set_takeWhileD)
  then show ?thesis
    unfolding get_symbol_containing_address_def elf_file_addr_def
    by (auto simp: Let_def case_prod_beta)
qed (auto simp: get_symbol_containing_address_def elf_file_addr_def Let_def)

lemma symbol_lookup_sorted:
  assumes "addr_map_sorted (symbol_addr_map e)"
  shows "get_symbol_containing_address e (elf_file_addr e a) = Some s \<longleftrightarrow>
         covering_symbol (symbol_addr_map e) a s"
proof -
  let ?m = "symbol_addr_map e"
  let ?P = "\<lambda>(k :: u64 \<times> u64, s :: Elf64_Sym). fst k < a"
  define below where "below = takeWhile ?P ?m"
  define rest where "rest = dropWhile ?P ?m"
  have m: "set ?m = set below \<union> set rest"
    unfolding below_def rest_def by (metis set_append takeWhile_dropWhile_id)
  have low: "fst (fst x) < a" if "x \<in> set below" for x
    using that set_takeWhileD [of x ?P ?m] by (auto simp: below_def)
  note eq = lookup_equation [of e a, folded below_def rest_def, unfolded Let_def]
  show ?thesis
  proof (cases "rest \<noteq> [] \<and> fst (fst (hd rest)) = a")
    case True
    then have "(fst (hd rest), snd (hd rest)) \<in> set ?m" by (simp add: m)
    then show ?thesis
      using covering_symbol_unique [OF assms, of "fst (hd rest)" "snd (hd rest)" a s] True
      by (auto simp: eq)
  next
    case noexact: False
    have strict: "a < fst (fst x)" if mem: "x \<in> set rest" for x
    proof (cases rest)
      case (Cons y ys)
      with mem lower_bound_first [OF assms, of a y ys x] noexact show ?thesis
        unfolding rest_def by auto
    qed (use mem in simp)
    show ?thesis
    proof (cases "below = []")
      case True
      then show ?thesis using noexact strict by (force simp: eq m covering_symbol_def)
    next
      case False
      then have mem: "(fst (last below), snd (last below)) \<in> set ?m" by (simp add: m)
      have "fst (fst x) \<le> fst (fst (last below))" if "x \<in> set ?m" "fst (fst x) \<le> a" for x
        using sorted_split_last [OF assms below_def False that(1)] that strict low
        by (fastforce simp: m)
      from covering_symbol_unique [OF assms mem _ this, of a s] low [of "last below"] show ?thesis
        using noexact False by (auto simp: eq)
    qed
  qed
qed


section \<open>Properties\<close>

text \<open>
  File addresses and load addresses convert back and forth.  Where no section of the
  object wraps around the address space, an address inside a section of the file becomes the
  load address shifted by the load bias and converts back to itself.
\<close>

theorem file_addr_roundtrip:
  assumes "sections_fit e" "get_section_containing_file_addr e a = Some s"
  shows "to_virt_addr e a = Inr (fa_addr a + load_bias e) \<and>
         to_file_addr e (fa_addr a + load_bias e) = a"
proof -
  have id: "fa_elf a = Some (elf_id e)"
    using assms(2) by (simp add: get_section_containing_file_addr_def split: if_splits)
  with assms section_lookup_shift [OF assms(1) id] show ?thesis
    by (auto simp: to_virt_addr_def to_file_addr_def elf_file_addr_def)
qed

definition text_section :: Elf64_Shdr where
  "text_section = \<lparr>sh_name = 0, sh_addr = 0x100003000, sh_offset = 0x3000, sh_size = 0x200,
     sh_entsize = 0\<rparr>"

definition demo_elf :: elf where
  "demo_elf = \<lparr>elf_id = 7, elf_path = ''/tmp/a.out'', storage = [], section_names = [''.text''],
     symbol_names = [''main'', ''inner''], preferred_base = 0x100000000, e_entry = 0x100003010,
     section_headers = [text_section], section_map = (\<lambda>_. None), load_bias = 0x4000,
     symbol_table = [\<lparr>st_name = 1, st_info = 2, st_value = 0x100003080, st_size = 0\<rparr>,
                     \<lparr>st_name = 0, st_info = 2, st_value = 0x100003010, st_size = 0\<rparr>],
     symbol_name_map = [], symbol_addr_map = []\<rparr>"

theorem file_addr_roundtrip_witness:
  "to_virt_addr demo_elf (elf_file_addr demo_elf 0x100003010) = Inr 0x100007010 \<and>
   to_file_addr demo_elf 0x100007010 = elf_file_addr demo_elf 0x100003010"
proof -
  have "sections_fit demo_elf" by (simp add: sections_fit_def demo_elf_def text_section_def)
  moreover have "get_section_containing_file_addr demo_elf (elf_file_addr demo_elf 0x100003010) =
      Some text_section"
    by (simp add: get_section_containing_file_addr_def elf_file_addr_def demo_elf_def
        section_has_file_def text_section_def)
  ultimately show ?thesis
    using file_addr_roundtrip [of demo_elf "elf_file_addr demo_elf 0x100003010" text_section]
    by (simp add: elf_file_addr_def demo_elf_def)
qed


definition demo_elf_indexed :: elf where
  "demo_elf_indexed =
     (case build_symbol_maps (\<lambda>_. None) (finish_symbol_table demo_elf) of Inr e \<Rightarrow> e | Inl _ \<Rightarrow> demo_elf)"

lemma demo_symbols:
  "symbol_table (finish_symbol_table demo_elf) =
     [\<lparr>st_name = 0, st_info = 2, st_value = 0x100003010, st_size = 0x70\<rparr>,
      \<lparr>st_name = 1, st_info = 2, st_value = 0x100003080, st_size = 0x180\<rparr>]"
  by (simp add: finish_symbol_table_def demo_elf_def symbol_end_def text_section_def
      get_section_containing_file_addr_def elf_file_addr_def section_has_file_def)


end
