(* ===== verification/Dwarf_Info.thy ===== *)
theory Dwarf_Info
  imports Cursor_Laws Elf
begin

text \<open>
  Debugging information entries: abbreviation tables, unit headers, entries and their
  attributes (\<^verbatim>\<open>src/src/dwarf.cpp\<close> and \<^verbatim>\<open>include/libsdb/dwarf.hpp\<close>).  Every function takes the
  object file, whose \<open>storage\<close> holds all the sections.  The cache of abbreviation tables
  (\<open>abbrev_tables_\<close>) is not state of the model: a table is parsed from the section each time,
  with the same result.
\<close>

section \<open>Abbreviation tables\<close>

record attr_spec =
  as_attr :: u64
  as_form :: u64

record abbrev =
  ab_code :: u64
  ab_tag :: u64
  ab_has_children :: bool
  ab_specs :: "attr_spec list"

text \<open>The inner loop: attribute and form pairs up to the pair whose attribute is zero.\<close>

function parse_attr_specs :: "byte list \<Rightarrow> cursor \<Rightarrow> (attr_spec list \<times> cursor) result" where
  "parse_attr_specs img c =
     bind_res (cur_uleb128 img c) (\<lambda>(attr, c1).
     bind_res (cur_uleb128 img c1) (\<lambda>(form, c2).
     if attr \<noteq> 0 then
       bind_res (parse_attr_specs img c2) (\<lambda>(specs, c3).
       Inr (\<lparr>as_attr = attr, as_form = form\<rparr> # specs, c3))
     else Inr ([], c2)))"
  by pat_completeness auto
termination
  by (relation "measure (\<lambda>(img, c). cur_measure img c)") (auto dest!: cur_measures)

declare parse_attr_specs.simps [simp del]

lemma parse_attr_specs_measure:
  "parse_attr_specs img c = Inr (specs, c') \<Longrightarrow> cur_measure img c' < cur_measure img c"
proof (induction img c arbitrary: specs c' rule: parse_attr_specs.induct)
  case (1 img c)
  from "1.prems" obtain a c1 f c2 where u: "cur_uleb128 img c = Inr (a, c1)"
      "cur_uleb128 img c1 = Inr (f, c2)"
    by (subst (asm) parse_attr_specs.simps) (auto simp: res_simps)
  have m: "cur_measure img c2 < cur_measure img c" using u by (auto dest!: cur_measures)
  show ?case
  proof (cases "a = 0")
    case True
    with "1.prems" u m show ?thesis by (subst (asm) parse_attr_specs.simps) simp
  next
    case False
    with "1.prems" u obtain specs' where "parse_attr_specs img c2 = Inr (specs', c')"
      by (subst (asm) parse_attr_specs.simps) (auto simp: res_simps)
    from "1.IH" [OF u(1) refl u(2) refl False this] m show ?thesis by simp
  qed
qed

function parse_abbrev_loop ::
  "byte list \<Rightarrow> cursor \<Rightarrow> (u64 \<Rightarrow> abbrev option) \<Rightarrow> (u64 \<Rightarrow> abbrev option) result" where
  "parse_abbrev_loop img c table =
     bind_res (cur_uleb128 img c) (\<lambda>(code, c1).
     if code = 0 then Inr table
     else
       bind_res (cur_uleb128 img c1) (\<lambda>(tag, c2).
       bind_res (cur_u8 img c2) (\<lambda>(has_children, c3).
       bind_res (parse_attr_specs img c3) (\<lambda>(specs, c4).
       parse_abbrev_loop img c4
         (if table code = None
          then table(code \<mapsto> \<lparr>ab_code = code, ab_tag = tag, ab_has_children = has_children \<noteq> 0,
                              ab_specs = specs\<rparr>)
          else table)))))"
  by pat_completeness auto
termination
  by (relation "measure (\<lambda>(img, c, t). cur_measure img c)")
    (auto dest!: cur_measures parse_attr_specs_measure)

declare parse_abbrev_loop.simps [simp del]

definition parse_abbrev_table :: "elf \<Rightarrow> u64 \<Rightarrow> (u64 \<Rightarrow> abbrev option) result" where
  "parse_abbrev_table obj offset =
     bind_res (cur_advance offset (cursor_of (get_section_contents obj ''.debug_abbrev''))) (\<lambda>c.
     parse_abbrev_loop (storage obj) c Map.empty)"

section \<open>Unit headers\<close>

record cu_header =
  cu_data :: span
  cu_abbrev_offset :: u64

definition parse_compile_unit :: "elf \<Rightarrow> cursor \<Rightarrow> cu_header result" where
  "parse_compile_unit obj c =
     bind_res (cur_u32 (storage obj) c) (\<lambda>(size, c1).
     bind_res (cur_u16 (storage obj) c1) (\<lambda>(version, c2).
     bind_res (cur_u32 (storage obj) c2) (\<lambda>(abbrev, c3).
     bind_res (cur_u8 (storage obj) c3) (\<lambda>(address_size, c4).
     if size = 0xffffffff then send ''Only DWARF32 is supported''
     else if version \<noteq> 4 then send ''Only DWARF version 4 is supported''
     else if address_size \<noteq> 8 then send ''Invalid address size for DWARF''
     else Inr \<lparr>cu_data = \<lparr>sp_data = cur_pos c, sp_size = ucast (size + 4)\<rparr>,
               cu_abbrev_offset = ucast abbrev\<rparr>))))"

section \<open>Entries\<close>

text \<open>
  The null entry that ends a list of siblings has no abbreviation and knows only the position
  after it.
\<close>

record die =
  die_pos :: ptr
  die_cu :: "cu_header option"
  die_abbrev :: "abbrev option"
  die_attr_locs :: "ptr list"
  die_next :: ptr

fun skip_attrs :: "byte list \<Rightarrow> attr_spec list \<Rightarrow> cursor \<Rightarrow> (ptr list \<times> cursor) result" where
  "skip_attrs img [] c = Inr ([], c)"
| "skip_attrs img (s # ss) c =
     bind_res (skip_form img (as_form s) c) (\<lambda>c1.
     bind_res (skip_attrs img ss c1) (\<lambda>(locs, c2).
     Inr (cur_pos c # locs, c2)))"

definition parse_die :: "elf \<Rightarrow> cu_header \<Rightarrow> cursor \<Rightarrow> die result" where
  "parse_die obj cu c =
     bind_res (cur_uleb128 (storage obj) c) (\<lambda>(abbrev_code, c1).
     if abbrev_code = 0 then
       Inr \<lparr>die_pos = None, die_cu = None, die_abbrev = None, die_attr_locs = [],
            die_next = cur_pos c1\<rparr>
     else
       bind_res (parse_abbrev_table obj (cu_abbrev_offset cu)) (\<lambda>table.
       bind_res (map_at table abbrev_code) (\<lambda>abbrev.
       bind_res (skip_attrs (storage obj) (ab_specs abbrev) c1) (\<lambda>(locs, c2).
       Inr \<lparr>die_pos = cur_pos c, die_cu = Some cu, die_abbrev = Some abbrev,
            die_attr_locs = locs, die_next = cur_pos c2\<rparr>))))"

definition cursor_between :: "ptr \<Rightarrow> ptr \<Rightarrow> cursor" where
  "cursor_between p e =
     \<lparr>cur_data = (case (p, e) of (Some p', Some e') \<Rightarrow> span_of_ptrs p' e' | _ \<Rightarrow> null_span),
      cur_pos = p\<rparr>"

definition root :: "elf \<Rightarrow> cu_header \<Rightarrow> die result" where
  "root obj cu =
     parse_die obj cu (cursor_between (map_option (\<lambda>d. d + 11) (sp_data (cu_data cu)))
                         (span_end (cu_data cu)))"

definition die_contains :: "die \<Rightarrow> u64 \<Rightarrow> bool result" where
  "die_contains d attribute =
     (case die_abbrev d of
        None \<Rightarrow> undefined_behaviour ''null abbreviation''
      | Some ab \<Rightarrow> Inr (\<exists>s \<in> set (ab_specs ab). as_attr s = attribute))"

record attr =
  at_cu :: cu_header
  at_name :: u64
  at_form :: u64
  at_loc :: ptr

fun find_attr :: "attr_spec list \<Rightarrow> ptr list \<Rightarrow> u64 \<Rightarrow> (u64 \<times> ptr) option" where
  "find_attr (s # ss) (l # ls) attribute =
     (if as_attr s = attribute then Some (as_form s, l) else find_attr ss ls attribute)"
| "find_attr _ _ attribute = None"

definition die_attr :: "die \<Rightarrow> u64 \<Rightarrow> attr result" where
  "die_attr d attribute =
     (case (die_abbrev d, die_cu d) of
        (Some ab, Some cu) \<Rightarrow>
          (case find_attr (ab_specs ab) (die_attr_locs d) attribute of
             Some (form, loc) \<Rightarrow>
               Inr \<lparr>at_cu = cu, at_name = attribute, at_form = form, at_loc = loc\<rparr>
           | None \<Rightarrow> send ''Attribute not found'')
      | _ \<Rightarrow> undefined_behaviour ''null abbreviation'')"


section \<open>Attribute values\<close>

definition attr_cursor :: "attr \<Rightarrow> cursor" where
  "attr_cursor a = cursor_between (at_loc a) (span_end (cu_data (at_cu a)))"

definition as_address :: "elf \<Rightarrow> attr \<Rightarrow> file_addr result" where
  "as_address obj a =
     (if at_form a \<noteq> DW_FORM_addr then send ''Invalid address type''
      else bind_res (cur_u64 (storage obj) (attr_cursor a)) (\<lambda>(v, c). Inr (elf_file_addr obj v)))"

definition as_section_offset :: "elf \<Rightarrow> attr \<Rightarrow> u32 result" where
  "as_section_offset obj a =
     (if at_form a \<noteq> DW_FORM_sec_offset then send ''Invalid offset type''
      else bind_res (cur_u32 (storage obj) (attr_cursor a)) (\<lambda>(v, c). Inr v))"

definition as_int :: "elf \<Rightarrow> attr \<Rightarrow> u64 result" where
  "as_int obj a =
     (let img = storage obj; c = attr_cursor a; form = at_form a in
      if form = DW_FORM_data1 then bind_res (cur_u8 img c) (\<lambda>(v, _). Inr (ucast v))
      else if form = DW_FORM_data2 then bind_res (cur_u16 img c) (\<lambda>(v, _). Inr (ucast v))
      else if form = DW_FORM_data4 then bind_res (cur_u32 img c) (\<lambda>(v, _). Inr (ucast v))
      else if form = DW_FORM_data8 then bind_res (cur_u64 img c) (\<lambda>(v, _). Inr v)
      else if form = DW_FORM_udata then bind_res (cur_uleb128 img c) (\<lambda>(v, _). Inr v)
      else send ''Invalid integer type'')"

definition as_block :: "elf \<Rightarrow> attr \<Rightarrow> span result" where
  "as_block obj a =
     (let img = storage obj; c = attr_cursor a; form = at_form a in
      bind_res
        (if form = DW_FORM_block1 then bind_res (cur_u8 img c) (\<lambda>(v, c'). Inr (ucast v, c'))
         else if form = DW_FORM_block2 then bind_res (cur_u16 img c) (\<lambda>(v, c'). Inr (ucast v, c'))
         else if form = DW_FORM_block4 then bind_res (cur_u32 img c) (\<lambda>(v, c'). Inr (ucast v, c'))
         else if form = DW_FORM_block then cur_uleb128 img c
         else send ''Invalid block type'')
        (\<lambda>(size, c'). Inr \<lparr>sp_data = cur_pos c', sp_size = size\<rparr>))"

text \<open>
  A pointer into a section at an offset; adding to the null pointer of an absent section is
  undefined behaviour unless the offset is zero.
\<close>

definition section_at :: "span \<Rightarrow> u64 \<Rightarrow> cursor result" where
  "section_at s off =
     (case sp_data s of
        Some d \<Rightarrow> Inr (cursor_between (Some (d + off)) (span_end s))
      | None \<Rightarrow> if off = 0 then Inr (cursor_of null_span)
                else undefined_behaviour ''arithmetic on a null pointer'')"

definition as_string :: "elf \<Rightarrow> attr \<Rightarrow> string result" where
  "as_string obj a =
     (if at_form a = DW_FORM_string then
        bind_res (cur_string (storage obj) (attr_cursor a)) (\<lambda>(s, _). Inr s)
      else if at_form a = DW_FORM_strp then
        bind_res (cur_u32 (storage obj) (attr_cursor a)) (\<lambda>(offset, _).
        bind_res (section_at (get_section_contents obj ''.debug_str'') (ucast offset)) (\<lambda>c.
        bind_res (cur_string (storage obj) c) (\<lambda>(s, _). Inr s)))
      else send ''Invalid string type'')"

text \<open>
  References: an offset in the unit, or for \<open>DW_FORM_ref_addr\<close> an offset in the section, whose
  unit is searched among all units of the object; dereferencing the end iterator when there is
  none is undefined behaviour.
\<close>

definition cu_covers :: "u64 \<Rightarrow> cu_header \<Rightarrow> bool" where
  "cu_covers p cu =
     (case (sp_data (cu_data cu), span_end (cu_data cu)) of
        (Some b, Some e) \<Rightarrow> b \<le> p \<and> e > p
      | _ \<Rightarrow> False)"

definition as_reference :: "elf \<Rightarrow> cu_header list \<Rightarrow> attr \<Rightarrow> die result" where
  "as_reference obj cus a =
     (let img = storage obj; c = attr_cursor a; form = at_form a; cu = at_cu a;
          in_unit = (\<lambda>offset. parse_die obj cu
            (cursor_between (map_option (\<lambda>d. d + offset) (sp_data (cu_data cu)))
               (span_end (cu_data cu))))
      in
      if form = DW_FORM_ref1 then bind_res (cur_u8 img c) (\<lambda>(v, _). in_unit (ucast v))
      else if form = DW_FORM_ref2 then bind_res (cur_u16 img c) (\<lambda>(v, _). in_unit (ucast v))
      else if form = DW_FORM_ref4 then bind_res (cur_u32 img c) (\<lambda>(v, _). in_unit (ucast v))
      else if form = DW_FORM_ref8 then bind_res (cur_u64 img c) (\<lambda>(v, _). in_unit v)
      else if form = DW_FORM_ref_udata then bind_res (cur_uleb128 img c) (\<lambda>(v, _). in_unit v)
      else if form = DW_FORM_ref_addr then
        bind_res (cur_u32 img c) (\<lambda>(offset, _).
        bind_res (section_at (get_section_contents obj ''.debug_info'') (ucast offset)) (\<lambda>s.
        case cur_pos s of
          None \<Rightarrow> undefined_behaviour ''end iterator''
        | Some p \<Rightarrow>
            (case find (cu_covers p) cus of
               None \<Rightarrow> undefined_behaviour ''end iterator''
             | Some cu' \<Rightarrow>
                 parse_die obj cu' (cursor_between (Some p) (span_end (cu_data cu'))))))
      else send ''Invalid reference type'')"

section \<open>Range lists\<close>

text \<open>
  An iterator over \<open>.debug_ranges\<close>: the position of the next entry (null at the end), the
  current base address and the current entry.
\<close>

record range_iter =
  ri_end :: ptr
  ri_base :: u64
  ri_pos :: ptr
  ri_low :: u64
  ri_high :: u64

function range_next_loop :: "byte list \<Rightarrow> cursor \<Rightarrow> range_iter \<Rightarrow> range_iter result" where
  "range_next_loop img c it =
     bind_res (cur_u64 img c) (\<lambda>(low, c1).
     bind_res (cur_u64 img c1) (\<lambda>(high, c2).
     if low = - 1 then range_next_loop img c2 (it\<lparr>ri_low := low, ri_high := high, ri_base := high\<rparr>)
     else if low = 0 \<and> high = 0 then Inr (it\<lparr>ri_low := low, ri_high := high, ri_pos := None\<rparr>)
     else Inr (it\<lparr>ri_pos := cur_pos c2, ri_low := low + ri_base it, ri_high := high + ri_base it\<rparr>)))"
  by pat_completeness auto
termination
  by (relation "measure (\<lambda>(img, c, it). cur_measure img c)") (auto dest!: cur_measures)

declare range_next_loop.simps [simp del]

definition range_next :: "byte list \<Rightarrow> range_iter \<Rightarrow> range_iter result" where
  "range_next img it = range_next_loop img (cursor_between (ri_pos it) (ri_end it)) it"

record range_list =
  rl_pos :: ptr
  rl_end :: ptr
  rl_base :: u64

definition range_begin :: "byte list \<Rightarrow> range_list \<Rightarrow> range_iter result" where
  "range_begin img rl =
     range_next img \<lparr>ri_end = rl_end rl, ri_base = rl_base rl, ri_pos = rl_pos rl, ri_low = 0,
                     ri_high = 0\<rparr>"

definition as_range_list :: "elf \<Rightarrow> attr \<Rightarrow> range_list result" where
  "as_range_list obj a =
     bind_res (as_section_offset obj a) (\<lambda>offset.
     bind_res (section_at (get_section_contents obj ''.debug_ranges'') (ucast offset)) (\<lambda>c.
     bind_res (root obj (at_cu a)) (\<lambda>r.
     bind_res (die_contains r DW_AT_low_pc) (\<lambda>has.
     bind_res (if has then bind_res (die_attr r DW_AT_low_pc) (as_address obj)
               else Inr null_file_addr) (\<lambda>base.
     Inr \<lparr>rl_pos = cur_pos c, rl_end = span_end (cur_data c), rl_base = fa_addr base\<rparr>)))))"

section \<open>Encoding of abbreviation tables\<close>

text \<open>The layout of DWARF 4 section 7.5.3.\<close>

definition attr_spec_bytes :: "attr_spec \<Rightarrow> byte list" where
  "attr_spec_bytes s = uleb_encode (unat (as_attr s)) @ uleb_encode (unat (as_form s))"

definition abbrev_bytes :: "abbrev \<Rightarrow> byte list" where
  "abbrev_bytes ab =
     uleb_encode (unat (ab_code ab)) @ uleb_encode (unat (ab_tag ab)) @
     [if ab_has_children ab then 1 else 0] @ concat (map attr_spec_bytes (ab_specs ab)) @ [0, 0]"

definition abbrev_ok :: "abbrev \<Rightarrow> bool" where
  "abbrev_ok ab \<longleftrightarrow> ab_code ab \<noteq> 0 \<and> list_all (\<lambda>s. as_attr s \<noteq> 0) (ab_specs ab)"

lemma uleb128_word:
  assumes "cur_wf img c" "cur_rest img c = uleb_encode (unat w) @ ys"
  shows "\<exists>c'. cur_uleb128 img c = Inr (w, c') \<and> cur_wf img c' \<and> cur_rest img c' = ys"
proof -
  have "unat w < 2 ^ 64" using unsigned_less [of w] by simp
  then have "length (uleb_encode (unat w)) \<le> 10" using uleb_encode_length [of "unat w" 10] by simp
  with uleb128_group [OF assms] uleb_encode_group [of "unat w"] show ?thesis by simp
qed

lemma uleb128_zero:
  assumes "cur_wf img c" "cur_rest img c = 0 # ys"
  shows "\<exists>c'. cur_uleb128 img c = Inr (0, c') \<and> cur_wf img c' \<and> cur_rest img c' = ys"
  using uleb128_group [OF assms(1), of "[0]" ys] assms(2) by simp

lemma parse_attr_specs_encoded:
  assumes "cur_wf img c" "cur_rest img c = concat (map attr_spec_bytes specs) @ [0, 0] @ ys"
    "list_all (\<lambda>s. as_attr s \<noteq> 0) specs"
  shows "\<exists>c'. parse_attr_specs img c = Inr (specs, c') \<and> cur_wf img c' \<and> cur_rest img c' = ys"
  using assms
proof (induction specs arbitrary: c)
  case Nil
  then obtain c1 where c1: "cur_uleb128 img c = Inr (0, c1)" "cur_wf img c1" "cur_rest img c1 = 0 # ys"
    using uleb128_zero [OF Nil(1), of "0 # ys"] by auto
  with uleb128_zero [OF c1(2,3)] show ?case by (subst parse_attr_specs.simps) auto
next
  case (Cons s specs)
  let ?ys = "concat (map attr_spec_bytes specs) @ [0, 0] @ ys"
  have "cur_rest img c = uleb_encode (unat (as_attr s)) @ uleb_encode (unat (as_form s)) @ ?ys"
    using Cons.prems(2) by (simp add: attr_spec_bytes_def [of s])
  from uleb128_word [OF Cons.prems(1) this] obtain c1 where c1:
    "cur_uleb128 img c = Inr (as_attr s, c1)" "cur_wf img c1"
    "cur_rest img c1 = uleb_encode (unat (as_form s)) @ ?ys" by blast
  from uleb128_word [OF c1(2,3)] obtain c2 where c2:
    "cur_uleb128 img c1 = Inr (as_form s, c2)" "cur_wf img c2" "cur_rest img c2 = ?ys" by blast
  from Cons.IH [OF c2(2,3)] Cons.prems(3) c1(1) c2(1) show ?case
    by (subst parse_attr_specs.simps) auto
qed

lemma parse_abbrev_loop_encoded:
  assumes "cur_wf img c" "cur_rest img c = concat (map abbrev_bytes abbrs) @ 0 # ys"
    "list_all abbrev_ok abbrs"
  shows "parse_abbrev_loop img c table = Inr (map_of (map (\<lambda>ab. (ab_code ab, ab)) abbrs) ++ table)"
  using assms
proof (induction abbrs arbitrary: c table)
  case Nil
  with uleb128_zero [OF Nil(1), of ys] show ?case by (subst parse_abbrev_loop.simps) auto
next
  case (Cons ab abbrs)
  let ?ys = "concat (map abbrev_bytes abbrs) @ 0 # ys"
  let ?specs = "concat (map attr_spec_bytes (ab_specs ab)) @ [0, 0] @ ?ys"
  have ok: "ab_code ab \<noteq> 0" "list_all (\<lambda>s. as_attr s \<noteq> 0) (ab_specs ab)"
    using Cons.prems(3) by (auto simp: abbrev_ok_def)
  have "cur_rest img c = uleb_encode (unat (ab_code ab)) @ uleb_encode (unat (ab_tag ab)) @
      (if ab_has_children ab then 1 else 0) # ?specs"
    using Cons.prems(2) by (simp add: abbrev_bytes_def [of ab])
  from uleb128_word [OF Cons.prems(1) this] obtain c1 where c1:
    "cur_uleb128 img c = Inr (ab_code ab, c1)" "cur_wf img c1"
    "cur_rest img c1 = uleb_encode (unat (ab_tag ab)) @ (if ab_has_children ab then 1 else 0) # ?specs"
    by blast
  from uleb128_word [OF c1(2,3)] obtain c2 where c2:
    "cur_uleb128 img c1 = Inr (ab_tag ab, c2)" "cur_wf img c2"
    "cur_rest img c2 = (if ab_has_children ab then 1 else 0) # ?specs" by blast
  from cur_u8_Cons [OF c2(2,3)] obtain c3 where c3:
    "cur_u8 img c2 = Inr (if ab_has_children ab then 1 else 0, c3)" "cur_wf img c3"
    "cur_rest img c3 = ?specs" by blast
  from parse_attr_specs_encoded [OF c3(2,3) ok(2)] obtain c4 where c4:
    "parse_attr_specs img c3 = Inr (ab_specs ab, c4)" "cur_wf img c4" "cur_rest img c4 = ?ys" by blast
  have ab: "\<lparr>ab_code = ab_code ab, ab_tag = ab_tag ab,
      ab_has_children = (if ab_has_children ab then 1 else 0) \<noteq> (0 :: byte), ab_specs = ab_specs ab\<rparr> = ab"
    by simp
  let ?table = "if table (ab_code ab) = None then table(ab_code ab \<mapsto> ab) else table"
  have "parse_abbrev_loop img c table = parse_abbrev_loop img c4 ?table"
    using c1(1) c2(1) c3(1) c4(1) ok(1) by (subst parse_abbrev_loop.simps) (simp add: ab)
  also have "\<dots> = Inr (map_of (map (\<lambda>ab. (ab_code ab, ab)) abbrs) ++ ?table)"
    using Cons.IH [OF c4(2,3)] Cons.prems(3) by simp
  finally show ?case by (auto simp: map_add_def fun_eq_iff split: option.splits)
qed

definition section_bytes :: "elf \<Rightarrow> string \<Rightarrow> byte list" where
  "section_bytes obj name = cur_rest (storage obj) (cursor_of (get_section_contents obj name))"

definition section_inside :: "elf \<Rightarrow> string \<Rightarrow> bool" where
  "section_inside obj name \<longleftrightarrow> cur_wf (storage obj) (cursor_of (get_section_contents obj name))"

lemma cur_advance_ok:
  assumes "cur_wf img c" "unat n < length (cur_rest img c)"
  shows "\<exists>c'. cur_advance n c = Inr c' \<and> cur_wf img c' \<and> cur_rest img c' = drop (unat n) (cur_rest img c)"
  using assms(1)
proof (cases rule: cur_wf_cases)
  case null
  with assms(2) show ?thesis by simp
next
  case (inside p e)
  obtain c' where c': "bump (word_of_nat (unat n)) c = Inr c'" "cur_wf img c'"
      "cur_rest img c' = drop (unat n) (cur_rest img c)"
    using bump_ok [OF assms(1), of "unat n"] assms(2) inside(1) by auto
  have "\<not> n > cur_left c p" using inside assms(2) by (simp add: word_less_nat_alt)
  with c' inside(1) show ?thesis by (auto simp: cur_advance_def bump_def)
qed

lemma parse_abbrev_table_encoded:
  assumes "section_inside obj ''.debug_abbrev''"
    "drop (unat offset) (section_bytes obj ''.debug_abbrev'') = concat (map abbrev_bytes abbrs) @ 0 # ys"
    "list_all abbrev_ok abbrs"
  shows "parse_abbrev_table obj offset = Inr (map_of (map (\<lambda>ab. (ab_code ab, ab)) abbrs))"
proof -
  have "unat offset < length (section_bytes obj ''.debug_abbrev'')"
    using assms(2) by (metis append_is_Nil_conv drop_eq_Nil list.distinct(1) not_less)
  then obtain c where c: "cur_advance offset (cursor_of (get_section_contents obj ''.debug_abbrev'')) = Inr c"
      "cur_wf (storage obj) c" "cur_rest (storage obj) c = concat (map abbrev_bytes abbrs) @ 0 # ys"
    using cur_advance_ok [of "storage obj"] assms(1,2)
    by (fastforce simp: section_inside_def section_bytes_def)
  from parse_abbrev_loop_encoded [OF c(2,3) assms(3), of Map.empty] c(1) show ?thesis
    by (simp add: parse_abbrev_table_def)
qed

section \<open>Cursors with something to read\<close>

text \<open>
  A cursor that has a position, ends at \<open>e\<close>, lies in the storage and has exactly the bytes \<open>ys\<close>
  left; each reader takes its encoding off the front.
\<close>

definition cur_ready :: "byte list \<Rightarrow> ptr \<Rightarrow> cursor \<Rightarrow> byte list \<Rightarrow> bool" where
  "cur_ready img e c ys \<longleftrightarrow>
     cur_wf img c \<and> cur_pos c \<noteq> None \<and> span_end (cur_data c) = e \<and> cur_rest img c = ys"

lemma cur_ready_fixed_int:
  assumes "cur_ready img e c (xs @ ys)" "length xs = LENGTH('a) div 8" "8 \<le> LENGTH('a)"
  shows "\<exists>c'. fixed_int img c = Inr (from_bytes xs :: 'a :: len word, c') \<and> cur_ready img e c' ys"
proof -
  obtain c' where c': "fixed_int img c = Inr (from_bytes xs :: 'a word, c')" "cur_wf img c'"
      "cur_rest img c' = ys" "cur_pos c' \<noteq> None"
    using fixed_int_append' [where 'a = 'a, of img c xs ys] assms by (auto simp: cur_ready_def)
  with fixed_int_data [OF c'(1)] assms(1) show ?thesis by (auto simp: cur_ready_def)
qed

lemma cur_ready_u8:
  assumes "cur_ready img e c (b # ys)"
  shows "\<exists>c'. cur_u8 img c = Inr (b, c') \<and> cur_ready img e c' ys"
  using cur_ready_fixed_int [where 'a = 8, of img e c "[b]" ys] assms
  by (simp add: cur_u8_def from_bytes_def)

lemma cur_ready_u16:
  assumes "cur_ready img e c (xs @ ys)" "length xs = 2"
  shows "\<exists>c'. cur_u16 img c = Inr (from_bytes xs, c') \<and> cur_ready img e c' ys"
  using cur_ready_fixed_int [where 'a = 16, OF assms(1)] assms(2) by (simp add: cur_u16_def)

lemma cur_ready_u32:
  assumes "cur_ready img e c (xs @ ys)" "length xs = 4"
  shows "\<exists>c'. cur_u32 img c = Inr (from_bytes xs, c') \<and> cur_ready img e c' ys"
  using cur_ready_fixed_int [where 'a = 32, OF assms(1)] assms(2) by (simp add: cur_u32_def)

lemma cur_ready_u64:
  assumes "cur_ready img e c (xs @ ys)" "length xs = 8"
  shows "\<exists>c'. cur_u64 img c = Inr (from_bytes xs, c') \<and> cur_ready img e c' ys"
  using cur_ready_fixed_int [where 'a = 64, OF assms(1)] assms(2) by (simp add: cur_u64_def)

lemma cur_ready_uleb128:
  assumes "cur_ready img e c (uleb_encode (unat w) @ ys)"
  shows "\<exists>c'. cur_uleb128 img c = Inr (w, c') \<and> cur_ready img e c' ys"
proof -
  obtain c' where c': "cur_uleb128 img c = Inr (w, c')" "cur_wf img c'" "cur_rest img c' = ys"
    using uleb128_word [of img c w ys] assms by (auto simp: cur_ready_def)
  with cur_uleb128_data [OF c'(1)] cur_uleb128_progress [OF c'(1)] assms show ?thesis
    by (auto simp: cur_ready_def)
qed

lemma cur_ready_sleb128:
  assumes "cur_ready img e c (sleb_encode v @ ys)" "- (2 ^ 63) \<le> v" "v < 2 ^ 63"
  shows "\<exists>c'. cur_sleb128 img c = Inr (word_of_int v, c') \<and> cur_ready img e c' ys"
proof -
  have "length (sleb_encode v) \<le> 10" using assms(2,3) sleb_encode_length [of 9 v] by simp
  then obtain c' where c': "cur_sleb128 img c = Inr (word_of_int v, c')" "cur_wf img c'"
      "cur_rest img c' = ys"
    using sleb128_group [of img c "sleb_encode v" ys] sleb_encode_group [of v] assms(1)
    by (auto simp: cur_ready_def)
  moreover have "cur_pos c' \<noteq> None"
    using c'(1) by (auto simp: cur_sleb128_def res_simps dest!: leb128_loop_progress)
  ultimately show ?thesis using cur_sleb128_data [OF c'(1)] assms by (auto simp: cur_ready_def)
qed

lemma cur_ready_between:
  assumes "cur_ready img e c ys"
  shows "cur_ready img e (cursor_between (cur_pos c) e) ys"
  using assms unfolding cur_ready_def cur_wf_def cur_rest_def cursor_between_def span_of_ptrs_def
  by (auto simp: span_end_def split: option.splits)

lemma cur_ready_Nil:
  assumes "cur_ready img e c []"
  shows "cur_pos c = e"
  using assms unfolding cur_ready_def cur_wf_def cur_rest_def
  by (auto simp: word_le_nat_alt word_unat_eq_iff split: option.splits)

lemma cur_ready_Cons:
  assumes "cur_ready img e c (b # ys)"
  shows "cur_pos c \<noteq> e"
  using assms unfolding cur_ready_def cur_rest_def by (auto split: option.splits)

lemmas cur_readys = cur_ready_u8 cur_ready_u16 cur_ready_u32 cur_ready_u64 cur_ready_uleb128
  cur_ready_sleb128

section \<open>A small object file\<close>

definition demo_unit_abbrev :: abbrev where
  "demo_unit_abbrev = \<lparr>ab_code = 1, ab_tag = 0x11, ab_has_children = True,
     ab_specs = [\<lparr>as_attr = DW_AT_name, as_form = DW_FORM_string\<rparr>]\<rparr>"

definition demo_func_abbrev :: abbrev where
  "demo_func_abbrev = \<lparr>ab_code = 2, ab_tag = DW_TAG_subprogram, ab_has_children = False,
     ab_specs = [\<lparr>as_attr = DW_AT_name, as_form = DW_FORM_string\<rparr>,
                 \<lparr>as_attr = DW_AT_low_pc, as_form = DW_FORM_addr\<rparr>,
                 \<lparr>as_attr = DW_AT_high_pc, as_form = DW_FORM_data4\<rparr>]\<rparr>"

definition demo_section :: "u64 \<Rightarrow> u64 \<Rightarrow> Elf64_Shdr" where
  "demo_section off n = \<lparr>sh_name = 0, sh_addr = 0, sh_offset = off, sh_size = n, sh_entsize = 0\<rparr>"

definition demo_dwarf_elf :: elf where
  "demo_dwarf_elf = demo_elf\<lparr>
     storage :=
       [1, 0x11, 1, 0x03, 0x08, 0, 0,
        2, 0x2e, 0, 0x03, 0x08, 0x11, 0x01, 0x12, 0x06, 0, 0, 0,
        41, 0, 0, 0, 4, 0, 0, 0, 0, 0, 8,
        1, 97, 0,
        2, 102, 0, 0, 0x30, 0, 0, 1, 0, 0, 0, 0x10, 0, 0, 0,
        2, 103, 0, 0x10, 0x30, 0, 0, 1, 0, 0, 0, 0x20, 0, 0, 0,
        0],
     section_map := [''.debug_abbrev'' \<mapsto> demo_section 0 19, ''.debug_info'' \<mapsto> demo_section 19 45]\<rparr>"

definition demo_unit :: cu_header where
  "demo_unit = \<lparr>cu_data = \<lparr>sp_data = Some 19, sp_size = 45\<rparr>, cu_abbrev_offset = 0\<rparr>"

lemmas demo_dwarf_defs = demo_dwarf_elf_def demo_section_def section_inside_def section_bytes_def
  get_section_contents_def get_section_def cur_wf_def cur_rest_def cursor_of_def span_end_def

lemma demo_abbrevs:
  "section_inside demo_dwarf_elf ''.debug_abbrev''"
  "drop (unat 0) (section_bytes demo_dwarf_elf ''.debug_abbrev'') =
      concat (map abbrev_bytes [demo_unit_abbrev, demo_func_abbrev]) @ 0 # []"
  "list_all abbrev_ok [demo_unit_abbrev, demo_func_abbrev]"
  "map_of (map (\<lambda>ab. (ab_code ab, ab)) [demo_unit_abbrev, demo_func_abbrev]) =
   [1 \<mapsto> demo_unit_abbrev, 2 \<mapsto> demo_func_abbrev]"
  by (simp_all add: demo_dwarf_defs abbrev_bytes_def attr_spec_bytes_def demo_unit_abbrev_def
      demo_func_abbrev_def uleb_encode.simps abbrev_ok_def fun_upd_twist)

lemma demo_table:
  "parse_abbrev_table demo_dwarf_elf 0 = Inr [1 \<mapsto> demo_unit_abbrev, 2 \<mapsto> demo_func_abbrev]"
  using parse_abbrev_table_encoded [OF demo_abbrevs(1-3)] by (simp only: demo_abbrevs(4))

section \<open>Properties\<close>

text \<open>
  C3: abbreviation tables round trip.  When the bytes of \<open>.debug_abbrev\<close> at an offset are the
  encodings of a list of abbreviations closed by a zero code, \<open>parse_abbrev_table\<close> at that offset
  returns the table that maps each code to the first abbreviation declared with it.
\<close>

theorem abbrev_table_roundtrip:
  assumes "section_inside obj ''.debug_abbrev''"
    "drop (unat offset) (section_bytes obj ''.debug_abbrev'') = concat (map abbrev_bytes abbrs) @ 0 # ys"
    "list_all abbrev_ok abbrs"
  shows "parse_abbrev_table obj offset = Inr (map_of (map (\<lambda>ab. (ab_code ab, ab)) abbrs))"
  using assms by (rule parse_abbrev_table_encoded)

theorem abbrev_table_roundtrip_witness:
  "parse_abbrev_table demo_dwarf_elf 0 = Inr [1 \<mapsto> demo_unit_abbrev, 2 \<mapsto> demo_func_abbrev]"
  using abbrev_table_roundtrip [OF demo_abbrevs(1-3)] by (simp only: demo_abbrevs(4))

end
