(* ===== verification/Dwarf_Tree.thy ===== *)
theory Dwarf_Tree
  imports Dwarf_Info
begin

text \<open>
  The tree of debugging information entries: iteration over the children of an entry, address
  ranges, and names (\<^verbatim>\<open>src/src/dwarf.cpp\<close>, classes \<open>die\<close>, \<open>die::children_range\<close> and
  \<open>range_list\<close>).  Siblings are found by parsing: stepping over an entry with children parses
  its whole subtree.  The entries of a malformed unit may run in a circle, so the iteration
  carries fuel; on a well-formed tree twice its number of entries is enough
  (\<open>children_of_tree\<close>).
\<close>

section \<open>Children\<close>

definition unit_cursor :: "cu_header \<Rightarrow> ptr \<Rightarrow> cursor" where
  "unit_cursor cu p = cursor_between p (span_end (cu_data cu))"

definition die_at :: "elf \<Rightarrow> cu_header \<Rightarrow> ptr \<Rightarrow> die result" where
  "die_at obj cu p = parse_die obj cu (unit_cursor cu p)"

text \<open>
  An iterator is the entry it stands on; the null entry and the end iterator compare equal.
  \<open>sibling\<close> is \<open>operator++\<close>, \<open>last_sibling\<close> its inner loop, which runs to the null entry that
  ends a list of siblings.
\<close>

fun sibling :: "nat \<Rightarrow> elf \<Rightarrow> die \<Rightarrow> die result"
  and last_sibling :: "nat \<Rightarrow> elf \<Rightarrow> die \<Rightarrow> die result" where
  "sibling 0 obj d = Inl Out_Of_Fuel"
| "sibling (Suc n) obj d =
     (case (die_abbrev d, die_cu d) of
        (Some ab, Some cu) \<Rightarrow>
          if \<not> ab_has_children ab then die_at obj cu (die_next d)
          else bind_res (die_at obj cu (die_next d)) (\<lambda>first.
               bind_res (last_sibling n obj first) (\<lambda>last.
               die_at obj cu (die_next last)))
      | _ \<Rightarrow> Inr d)"
| "last_sibling 0 obj d = Inl Out_Of_Fuel"
| "last_sibling (Suc n) obj d =
     (if die_abbrev d = None then Inr d
      else bind_res (sibling n obj d) (last_sibling n obj))"

definition null_die :: die where
  "null_die = \<lparr>die_pos = None, die_cu = None, die_abbrev = None, die_attr_locs = [],
               die_next = None\<rparr>"

definition first_child :: "elf \<Rightarrow> die \<Rightarrow> die result" where
  "first_child obj d =
     (case (die_abbrev d, die_cu d) of
        (Some ab, Some cu) \<Rightarrow>
          if ab_has_children ab then die_at obj cu (die_next d) else Inr null_die
      | _ \<Rightarrow> undefined_behaviour ''null abbreviation'')"

text \<open>A loop over the children, here the one that collects them.\<close>

fun siblings_from :: "nat \<Rightarrow> elf \<Rightarrow> die \<Rightarrow> die list result" where
  "siblings_from 0 obj d = Inl Out_Of_Fuel"
| "siblings_from (Suc n) obj d =
     (if die_abbrev d = None then Inr []
      else bind_res (sibling n obj d) (\<lambda>d'.
           bind_res (siblings_from n obj d') (\<lambda>ds. Inr (d # ds))))"

definition children :: "nat \<Rightarrow> elf \<Rightarrow> die \<Rightarrow> die list result" where
  "children n obj d = bind_res (first_child obj d) (siblings_from n obj)"

section \<open>Address ranges\<close>

definition range_entry_contains :: "elf \<Rightarrow> range_iter \<Rightarrow> file_addr \<Rightarrow> bool result" where
  "range_entry_contains obj it a =
     bind_res (file_addr_le (elf_file_addr obj (ri_low it)) a) (\<lambda>le.
     if le then file_addr_less a (elf_file_addr obj (ri_high it)) else Inr False)"

lemma range_next_loop_measure:
  "range_next_loop img c it = Inr it' \<Longrightarrow> ri_pos it' = Some q \<Longrightarrow>
   length img - unat q < cur_measure img c"
proof (induction img c it rule: range_next_loop.induct)
  case (1 img c it)
  from "1.prems" obtain low c1 high c2 where u: "cur_u64 img c = Inr (low, c1)"
      "cur_u64 img c1 = Inr (high, c2)"
    by (subst (asm) range_next_loop.simps) (auto simp: res_simps)
  have m: "cur_measure img c2 < cur_measure img c" using u by (auto dest!: cur_measures)
  show ?case
  proof (cases "low = - 1")
    case True
    with "1.prems" u have "range_next_loop img c2
        (it\<lparr>ri_low := low, ri_high := high, ri_base := high\<rparr>) = Inr it'"
      by (subst (asm) range_next_loop.simps) simp
    from "1.IH" [OF u(1) refl u(2) refl True this "1.prems"(2)] m show ?thesis by simp
  next
    case False
    with "1.prems" u have "cur_pos c2 = Some q"
      by (subst (asm) range_next_loop.simps) (auto split: if_splits)
    with m show ?thesis by (simp add: cur_measure_def)
  qed
qed

function range_any :: "elf \<Rightarrow> range_iter \<Rightarrow> file_addr \<Rightarrow> bool result" where
  "range_any obj it a =
     (if ri_pos it = None then Inr False
      else bind_res (range_entry_contains obj it a) (\<lambda>hit.
           if hit then Inr True
           else bind_res (range_next (storage obj) it) (\<lambda>it'. range_any obj it' a)))"
  by pat_completeness auto
termination
proof (relation "measure (\<lambda>(obj, it, a). case ri_pos it of None \<Rightarrow> 0
                                         | Some p \<Rightarrow> Suc (length (storage obj) - unat p))", simp, clarsimp)
  fix obj :: elf and it it' p
  assume "ri_pos it = Some p" "range_next (storage obj) it = Inr it'"
  then show "(case ri_pos it' of None \<Rightarrow> 0 | Some q \<Rightarrow> Suc (length (storage obj) - unat q)) <
      Suc (length (storage obj) - unat p)"
    by (auto simp: range_next_def cur_measure_def cursor_between_def
        dest!: range_next_loop_measure split: option.splits)
qed

declare range_any.simps [simp del]

definition range_list_contains :: "elf \<Rightarrow> range_list \<Rightarrow> file_addr \<Rightarrow> bool result" where
  "range_list_contains obj rl a =
     bind_res (range_begin (storage obj) rl) (\<lambda>it. range_any obj it a)"

text \<open>\<open>high_pc\<close> steps to the last entry: it looks one entry ahead before each step.\<close>

function range_last :: "byte list \<Rightarrow> range_iter \<Rightarrow> range_iter result" where
  "range_last img it =
     bind_res (range_next img it) (\<lambda>next.
     if ri_pos next = None then Inr it else range_last img next)"
  by pat_completeness auto
termination
proof (relation "measure (\<lambda>(img, it). case ri_pos it of None \<Rightarrow> 0
                                      | Some p \<Rightarrow> Suc (length img - unat p))")
  fix img it it'
  assume n: "range_next img it = Inr it'" and "ri_pos it' \<noteq> None"
  then obtain q where q: "ri_pos it' = Some q" by auto
  have "length img - unat q < cur_measure img (cursor_between (ri_pos it) (ri_end it))"
    using n q range_next_loop_measure by (auto simp: range_next_def)
  with q show "((img, it'), img, it) \<in> measure (\<lambda>(img, it). case ri_pos it of None \<Rightarrow> 0
      | Some p \<Rightarrow> Suc (length img - unat p))"
    by (auto simp: cur_measure_def cursor_between_def split: option.splits)
qed simp

declare range_last.simps [simp del]

definition low_pc :: "elf \<Rightarrow> die \<Rightarrow> file_addr result" where
  "low_pc obj d =
     bind_res (die_contains d DW_AT_ranges) (\<lambda>ranges.
     if ranges then
       bind_res (die_attr d DW_AT_ranges) (\<lambda>a.
       bind_res (as_range_list obj a) (\<lambda>rl.
       bind_res (range_begin (storage obj) rl) (\<lambda>it.
       Inr (elf_file_addr obj (ri_low it)))))
     else
       bind_res (die_contains d DW_AT_low_pc) (\<lambda>low.
       if low then bind_res (die_attr d DW_AT_low_pc) (as_address obj)
       else send ''DIE does not have low PC''))"

definition high_pc :: "elf \<Rightarrow> die \<Rightarrow> file_addr result" where
  "high_pc obj d =
     bind_res (die_contains d DW_AT_ranges) (\<lambda>ranges.
     if ranges then
       bind_res (die_attr d DW_AT_ranges) (\<lambda>a.
       bind_res (as_range_list obj a) (\<lambda>rl.
       bind_res (range_begin (storage obj) rl) (\<lambda>it.
       bind_res (range_last (storage obj) it) (\<lambda>last.
       Inr (elf_file_addr obj (ri_high last))))))
     else
       bind_res (die_contains d DW_AT_high_pc) (\<lambda>high.
       if high then
         bind_res (die_attr d DW_AT_high_pc) (\<lambda>a.
         if at_form a = DW_FORM_addr then as_address obj a
         else bind_res (low_pc obj d) (\<lambda>low.
              bind_res (as_int obj a) (\<lambda>off. Inr (file_addr_add low off))))
       else send ''DIE does not have high PC''))"

definition contains_address :: "elf \<Rightarrow> die \<Rightarrow> file_addr \<Rightarrow> bool result" where
  "contains_address obj d a =
     (if die_cu d = None then undefined_behaviour ''null unit''
      else if fa_elf a \<noteq> Some (elf_id obj) then Inr False
      else
        bind_res (die_contains d DW_AT_ranges) (\<lambda>ranges.
        if ranges then
          bind_res (die_attr d DW_AT_ranges) (\<lambda>at.
          bind_res (as_range_list obj at) (\<lambda>rl. range_list_contains obj rl a))
        else
          bind_res (die_contains d DW_AT_low_pc) (\<lambda>low.
          if low then
            bind_res (low_pc obj d) (\<lambda>l.
            bind_res (file_addr_le l a) (\<lambda>le.
            if le then bind_res (high_pc obj d) (\<lambda>h. file_addr_less a h) else Inr False))
          else Inr False)))"

section \<open>Names\<close>

fun die_name :: "nat \<Rightarrow> elf \<Rightarrow> cu_header list \<Rightarrow> die \<Rightarrow> string option result" where
  "die_name 0 obj cus d = Inl Out_Of_Fuel"
| "die_name (Suc n) obj cus d =
     bind_res (die_contains d DW_AT_name) (\<lambda>named.
     if named then
       bind_res (die_attr d DW_AT_name) (\<lambda>a. bind_res (as_string obj a) (\<lambda>s. Inr (Some s)))
     else
       bind_res (die_contains d DW_AT_specification) (\<lambda>spec.
       if spec then
         bind_res (die_attr d DW_AT_specification) (\<lambda>a.
         bind_res (as_reference obj cus a) (die_name n obj cus))
       else
         bind_res (die_contains d DW_AT_abstract_origin) (\<lambda>origin.
         if origin then
           bind_res (die_attr d DW_AT_abstract_origin) (\<lambda>a.
           bind_res (as_reference obj cus a) (die_name n obj cus))
         else Inr None)))"

section \<open>Well-formed trees\<close>

text \<open>
  What is at a position of a unit: the bytes from there to the end of the unit.
\<close>

definition rest_at :: "elf \<Rightarrow> cu_header \<Rightarrow> ptr \<Rightarrow> byte list \<Rightarrow> bool" where
  "rest_at obj cu p ys \<longleftrightarrow>
     p \<noteq> None \<and> span_end (cu_data cu) \<noteq> None \<and> cur_wf (storage obj) (unit_cursor cu p) \<and>
     cur_rest (storage obj) (unit_cursor cu p) = ys"

lemma unit_cursor_end:
  "p \<noteq> None \<Longrightarrow> span_end (cu_data cu) \<noteq> None \<Longrightarrow>
   span_end (cur_data (unit_cursor cu p)) = span_end (cu_data cu) \<and> cur_pos (unit_cursor cu p) = p"
  by (auto simp: unit_cursor_def cursor_between_def span_of_ptrs_def span_end_def)

lemma rest_at_cursor:
  assumes "cur_wf (storage obj) c" "span_end (cur_data c) = span_end (cu_data cu)"
    "cur_pos c \<noteq> None" "cur_rest (storage obj) c = ys"
  shows "rest_at obj cu (cur_pos c) ys"
proof -
  have e: "span_end (cu_data cu) \<noteq> None" using assms(2,3) cur_posI [OF assms(1)] by simp
  note u = unit_cursor_end [OF assms(3) e, THEN conjunct1] unit_cursor_end [OF assms(3) e, THEN conjunct2]
  show ?thesis
    using assms e unfolding rest_at_def cur_wf_def cur_rest_def u by auto
qed

lemma skip_attrs_exact:
  assumes "list_all2 form_enc (map as_form specs) attrs" "cur_wf (storage obj) c" "cur_pos c \<noteq> None"
    "span_end (cur_data c) = span_end (cu_data cu)" "cur_rest (storage obj) c = concat attrs @ ys"
  shows "\<exists>locs c'. skip_attrs (storage obj) specs c = Inr (locs, c') \<and> length locs = length attrs \<and>
           (\<forall>i < length attrs. \<exists>zs. rest_at obj cu (locs ! i) (attrs ! i @ zs)) \<and>
           rest_at obj cu (cur_pos c') ys"
  using assms
proof (induction specs arbitrary: attrs c)
  case Nil
  then show ?case using rest_at_cursor [OF Nil(2,4,3)] by auto
next
  case (Cons s specs)
  then obtain a as where a: "attrs = a # as" "form_enc (as_form s) a"
      "list_all2 form_enc (map as_form specs) as" by (cases attrs) auto
  obtain c1 where c1: "skip_form (storage obj) (as_form s) c = Inr c1" "cur_wf (storage obj) c1"
      "cur_rest (storage obj) c1 = concat as @ ys"
    using skip_form_exact [OF a(2) Cons.prems(2,3), of "concat as @ ys"] Cons.prems(5) a(1) by auto
  have d1: "span_end (cur_data c1) = span_end (cu_data cu)" "cur_pos c1 \<noteq> None"
    using skip_form_data [OF c1(1)] Cons.prems(3,4) cur_posI [OF c1(2)] cur_posI [OF Cons.prems(2)]
    by simp_all
  obtain locs c2 where ih: "skip_attrs (storage obj) specs c1 = Inr (locs, c2)" "length locs = length as"
      "\<forall>i < length as. \<exists>zs. rest_at obj cu (locs ! i) (as ! i @ zs)" "rest_at obj cu (cur_pos c2) ys"
    using Cons.IH [OF a(3) c1(2) d1(2,1) c1(3)] by blast
  have "rest_at obj cu (cur_pos c) (a @ concat as @ ys)"
    using rest_at_cursor [OF Cons.prems(2,4,3)] Cons.prems(5) a(1) by simp
  with ih(3) have "\<forall>i < length attrs. \<exists>zs. rest_at obj cu ((cur_pos c # locs) ! i) (attrs ! i @ zs)"
    unfolding a(1) by (auto simp: nth_Cons split: nat.splits)
  with ih c1(1) a(1) show ?case by auto
qed

lemma parse_die_node:
  assumes "rest_at obj cu p (uleb_encode code @ concat attrs @ ys)" "0 < code" "code < 2 ^ 64"
    "parse_abbrev_table obj (cu_abbrev_offset cu) = Inr table" "table (word_of_nat code) = Some ab"
    "list_all2 form_enc (map as_form (ab_specs ab)) attrs"
  shows "\<exists>d. die_at obj cu p = Inr d \<and> die_pos d = p \<and> die_cu d = Some cu \<and> die_abbrev d = Some ab \<and>
           length (die_attr_locs d) = length attrs \<and>
           (\<forall>i < length attrs. \<exists>zs. rest_at obj cu (die_attr_locs d ! i) (attrs ! i @ zs)) \<and>
           rest_at obj cu (die_next d) ys"
proof -
  let ?c = "unit_cursor cu p"
  have r: "p \<noteq> None" "span_end (cu_data cu) \<noteq> None" "cur_wf (storage obj) ?c"
    "cur_rest (storage obj) ?c = uleb_encode code @ concat attrs @ ys"
    using assms(1) by (auto simp: rest_at_def)
  have "length (uleb_encode code) \<le> 10" using assms(3) uleb_encode_length [of code 10] by simp
  then obtain c1 where c1: "cur_uleb128 (storage obj) ?c = Inr (word_of_nat code, c1)"
      "cur_wf (storage obj) c1" "cur_rest (storage obj) c1 = concat attrs @ ys"
    using uleb128_group [OF r(3,4)] uleb_encode_group [of code] by auto
  have d1: "span_end (cur_data c1) = span_end (cu_data cu)" "cur_pos c1 \<noteq> None"
    using cur_uleb128_data [OF c1(1)] unit_cursor_end [OF r(1,2)] cur_uleb128_progress [OF c1(1)]
    by auto
  have nz: "(word_of_nat code :: u64) \<noteq> 0"
    using assms(2,3) by (simp add: word_unat_eq_iff unat_of_nat)
  show ?thesis
    using skip_attrs_exact [OF assms(6) c1(2) d1(2,1) c1(3)] c1(1) nz assms(4,5)
      unit_cursor_end [OF r(1,2)]
    by (auto simp: die_at_def parse_die_def)
qed

lemma parse_die_null:
  assumes "rest_at obj cu p (0 # ys)"
  shows "\<exists>d. die_at obj cu p = Inr d \<and> die_abbrev d = None \<and> rest_at obj cu (die_next d) ys"
proof -
  let ?c = "unit_cursor cu p"
  have r: "p \<noteq> None" "span_end (cu_data cu) \<noteq> None" "cur_wf (storage obj) ?c"
    "cur_rest (storage obj) ?c = [0] @ ys"
    using assms by (auto simp: rest_at_def)
  obtain c1 where c1: "cur_uleb128 (storage obj) ?c = Inr (0, c1)" "cur_wf (storage obj) c1"
      "cur_rest (storage obj) c1 = ys"
    using uleb128_group [OF r(3,4)] by auto
  have "span_end (cur_data c1) = span_end (cu_data cu)" "cur_pos c1 \<noteq> None"
    using cur_uleb128_data [OF c1(1)] unit_cursor_end [OF r(1,2)] cur_uleb128_progress [OF c1(1)]
    by auto
  with rest_at_cursor [OF c1(2)] c1 show ?thesis by (auto simp: die_at_def parse_die_def)
qed

text \<open>
  A tree of entries and its encoding (DWARF 4 section 2.3): the abbreviation code, the
  attribute values in the order of the abbreviation, then, when the abbreviation says that the
  entry has children, the encodings of the children and a null entry.
\<close>

datatype dtree = DNode (dt_code: nat) (dt_attrs: "byte list list") (dt_kids: "dtree list")

fun tree_bytes :: "(u64 \<Rightarrow> abbrev option) \<Rightarrow> dtree \<Rightarrow> byte list" where
  "tree_bytes table (DNode code attrs kids) =
     uleb_encode code @ concat attrs @
     (if map_option ab_has_children (table (word_of_nat code)) = Some True
      then concat (map (tree_bytes table) kids) @ [0] else [])"

fun tree_ok :: "(u64 \<Rightarrow> abbrev option) \<Rightarrow> dtree \<Rightarrow> bool" where
  "tree_ok table (DNode code attrs kids) \<longleftrightarrow>
     0 < code \<and> code < 2 ^ 64 \<and>
     (case table (word_of_nat code) of
        None \<Rightarrow> False
      | Some ab \<Rightarrow> list_all2 form_enc (map as_form (ab_specs ab)) attrs \<and>
                   (ab_has_children ab \<or> kids = [])) \<and>
     list_all (tree_ok table) kids"

fun tree_size :: "dtree \<Rightarrow> nat" where
  "tree_size (DNode code attrs kids) = Suc (sum_list (map tree_size kids))"

definition forest_bytes :: "(u64 \<Rightarrow> abbrev option) \<Rightarrow> dtree list \<Rightarrow> byte list" where
  "forest_bytes table ts = concat (map (tree_bytes table) ts)"

definition forest_size :: "dtree list \<Rightarrow> nat" where
  "forest_size ts = sum_list (map tree_size ts)"

text \<open>The entry \<open>d\<close> was parsed from the encoding of \<open>t\<close> at its position.\<close>

definition die_of_tree :: "elf \<Rightarrow> cu_header \<Rightarrow> (u64 \<Rightarrow> abbrev option) \<Rightarrow> die \<Rightarrow> dtree \<Rightarrow> bool" where
  "die_of_tree obj cu table d t \<longleftrightarrow>
     die_cu d = Some cu \<and> die_abbrev d \<noteq> None \<and> die_abbrev d = table (word_of_nat (dt_code t)) \<and>
     (\<exists>zs. rest_at obj cu (die_pos d) (tree_bytes table t @ zs)) \<and>
     length (die_attr_locs d) = length (dt_attrs t) \<and>
     (\<forall>i < length (dt_attrs t). \<exists>zs. rest_at obj cu (die_attr_locs d ! i) (dt_attrs t ! i @ zs))"

lemma tree_size_pos: "0 < tree_size t"
  by (cases t) auto

definition tree_stepped :: "elf \<Rightarrow> cu_header \<Rightarrow> (u64 \<Rightarrow> abbrev option) \<Rightarrow> dtree \<Rightarrow> bool" where
  "tree_stepped obj cu table t \<longleftrightarrow>
     (\<forall>p ys n. rest_at obj cu p (tree_bytes table t @ ys) \<longrightarrow> 2 * tree_size t \<le> n \<longrightarrow>
        (\<exists>d p'. die_at obj cu p = Inr d \<and> die_of_tree obj cu table d t \<and>
                sibling n obj d = die_at obj cu p' \<and> rest_at obj cu p' ys))"

lemma tree_steppedD:
  assumes "tree_stepped obj cu table t" "rest_at obj cu p (tree_bytes table t @ ys)"
    "2 * tree_size t \<le> n"
  obtains d p' where "die_at obj cu p = Inr d" "die_of_tree obj cu table d t"
    "sibling n obj d = die_at obj cu p'" "rest_at obj cu p' ys"
  using assms unfolding tree_stepped_def by blast

lemma last_sibling_forest:
  assumes "\<And>t. t \<in> set ts \<Longrightarrow> tree_stepped obj cu table t"
    "rest_at obj cu p (forest_bytes table ts @ 0 # ys)" "2 * forest_size ts + 1 \<le> n"
  shows "\<exists>d last. die_at obj cu p = Inr d \<and> last_sibling n obj d = Inr last \<and>
                  rest_at obj cu (die_next last) ys"
  using assms
proof (induction ts arbitrary: p n)
  case Nil
  then obtain d where "die_at obj cu p = Inr d" "die_abbrev d = None" "rest_at obj cu (die_next d) ys"
    using parse_die_null [of obj cu p ys] by (auto simp: forest_bytes_def)
  with Nil(3) show ?case by (cases n) auto
next
  case (Cons t ts)
  obtain m where n: "n = Suc m" using Cons.prems(3) by (cases n) auto
  have r: "rest_at obj cu p (tree_bytes table t @ forest_bytes table ts @ 0 # ys)"
    using Cons.prems(2) by (simp add: forest_bytes_def)
  have m: "2 * tree_size t \<le> m" "2 * forest_size ts + 1 \<le> m"
    using Cons.prems(3) n tree_size_pos [of t] by (auto simp: forest_size_def)
  have "tree_stepped obj cu table t" using Cons.prems(1) by simp
  then obtain d p' where d: "die_at obj cu p = Inr d" "die_of_tree obj cu table d t"
      "sibling m obj d = die_at obj cu p'" "rest_at obj cu p' (forest_bytes table ts @ 0 # ys)"
    using tree_steppedD [OF _ r m(1)] by blast
  obtain d' last where "die_at obj cu p' = Inr d'" "last_sibling m obj d' = Inr last"
      "rest_at obj cu (die_next last) ys"
    using Cons.IH [OF _ d(4) m(2)] Cons.prems(1) by auto
  with d n show ?case by (auto simp: die_of_tree_def)
qed

lemma parse_die_tree:
  assumes "tree_ok table t" "parse_abbrev_table obj (cu_abbrev_offset cu) = Inr table"
    "rest_at obj cu p (tree_bytes table t @ ys)"
  obtains d ab where "die_at obj cu p = Inr d" "die_of_tree obj cu table d t" "die_abbrev d = Some ab"
    "die_cu d = Some cu" "ab_has_children ab \<or> dt_kids t = []"
    "ab_has_children ab \<longrightarrow> rest_at obj cu (die_next d) (forest_bytes table (dt_kids t) @ 0 # ys)"
    "\<not> ab_has_children ab \<longrightarrow> rest_at obj cu (die_next d) ys"
proof -
  obtain code attrs kids where t: "t = DNode code attrs kids" by (cases t)
  obtain ab where ab: "table (word_of_nat code) = Some ab"
      "list_all2 form_enc (map as_form (ab_specs ab)) attrs" "0 < code" "code < 2 ^ 64"
      "ab_has_children ab \<or> kids = []"
    using assms(1) t by (auto split: option.splits)
  have "rest_at obj cu p (uleb_encode code @ concat attrs @
      (if ab_has_children ab then forest_bytes table kids @ [0] else []) @ ys)"
    using assms(3) t ab(1) by (auto simp: forest_bytes_def)
  from parse_die_node [OF this ab(3,4) assms(2) ab(1,2)] obtain d where
    d: "die_at obj cu p = Inr d" "die_pos d = p" "die_cu d = Some cu" "die_abbrev d = Some ab"
    "length (die_attr_locs d) = length attrs"
    "\<forall>i < length attrs. \<exists>zs. rest_at obj cu (die_attr_locs d ! i) (attrs ! i @ zs)"
    "rest_at obj cu (die_next d) ((if ab_has_children ab then forest_bytes table kids @ [0] else []) @ ys)"
    by blast
  have "die_of_tree obj cu table d t"
    using d ab(1) assms(3) t unfolding die_of_tree_def by auto
  moreover have "ab_has_children ab \<longrightarrow> rest_at obj cu (die_next d) (forest_bytes table kids @ 0 # ys)"
      "\<not> ab_has_children ab \<longrightarrow> rest_at obj cu (die_next d) ys"
    using d(7) by (auto split: if_splits)
  ultimately show ?thesis using that [OF d(1) _ d(4,3)] ab(5) t by simp
qed

lemma tree_ok_stepped:
  assumes "parse_abbrev_table obj (cu_abbrev_offset cu) = Inr table"
  shows "tree_ok table t \<Longrightarrow> tree_stepped obj cu table t"
proof (induction t)
  case (DNode code attrs kids)
  show ?case unfolding tree_stepped_def
  proof (intro allI impI)
    fix p ys n
    assume r: "rest_at obj cu p (tree_bytes table (DNode code attrs kids) @ ys)"
      and "2 * tree_size (DNode code attrs kids) \<le> n"
    then obtain m where n: "n = Suc m" "2 * forest_size kids + 1 \<le> m"
      by (cases n) (auto simp: forest_size_def)
    obtain d ab where d: "die_at obj cu p = Inr d" "die_of_tree obj cu table d (DNode code attrs kids)"
        "die_abbrev d = Some ab" "die_cu d = Some cu"
        "ab_has_children ab \<longrightarrow> rest_at obj cu (die_next d) (forest_bytes table kids @ 0 # ys)"
        "\<not> ab_has_children ab \<longrightarrow> rest_at obj cu (die_next d) ys"
      using parse_die_tree [OF DNode.prems assms r] unfolding dtree.sel by metis
    have kids: "tree_stepped obj cu table k" if "k \<in> set kids" for k
      using DNode.IH [OF that] DNode.prems that by (simp add: list_all_iff)
    show "\<exists>d p'. die_at obj cu p = Inr d \<and> die_of_tree obj cu table d (DNode code attrs kids) \<and>
        sibling n obj d = die_at obj cu p' \<and> rest_at obj cu p' ys"
    proof (cases "ab_has_children ab")
      case True
      from last_sibling_forest [OF kids d(5) [rule_format, OF True] n(2)] d(1-4) n(1) True show ?thesis by auto
    next
      case False
      with d(1-4) d(6) [rule_format, OF False] n(1) show ?thesis by auto
    qed
  qed
qed

lemma siblings_from_forest:
  assumes "\<And>t. t \<in> set ts \<Longrightarrow> tree_stepped obj cu table t"
    "rest_at obj cu p (forest_bytes table ts @ 0 # ys)" "2 * forest_size ts + 1 \<le> n"
  shows "\<exists>d ds. die_at obj cu p = Inr d \<and> siblings_from n obj d = Inr ds \<and>
                list_all2 (die_of_tree obj cu table) ds ts"
  using assms
proof (induction ts arbitrary: p n)
  case Nil
  then obtain d where "die_at obj cu p = Inr d" "die_abbrev d = None"
    using parse_die_null [of obj cu p ys] by (auto simp: forest_bytes_def)
  with Nil(3) show ?case by (cases n) auto
next
  case (Cons t ts)
  obtain m where n: "n = Suc m" using Cons.prems(3) by (cases n) auto
  have r: "rest_at obj cu p (tree_bytes table t @ forest_bytes table ts @ 0 # ys)"
    using Cons.prems(2) by (simp add: forest_bytes_def)
  have m: "2 * tree_size t \<le> m" "2 * forest_size ts + 1 \<le> m"
    using Cons.prems(3) n tree_size_pos [of t] by (auto simp: forest_size_def)
  have "tree_stepped obj cu table t" using Cons.prems(1) by simp
  then obtain d p' where d: "die_at obj cu p = Inr d" "die_of_tree obj cu table d t"
      "sibling m obj d = die_at obj cu p'" "rest_at obj cu p' (forest_bytes table ts @ 0 # ys)"
    using tree_steppedD [OF _ r m(1)] by blast
  obtain d' ds where "die_at obj cu p' = Inr d'" "siblings_from m obj d' = Inr ds"
      "list_all2 (die_of_tree obj cu table) ds ts"
    using Cons.IH [OF _ d(4) m(2)] Cons.prems(1) by auto
  moreover have "die_abbrev d \<noteq> None" using d(2) unfolding die_of_tree_def by blast
  ultimately show ?case using d n by auto
qed

section \<open>Encoding of range lists\<close>

text \<open>
  The layout of DWARF 4 section 2.17.3: pairs of addresses relative to the current base, base
  address selections marked by an all-ones first address, and a pair of zeros at the end.
\<close>

datatype range_item = Base u64 | Range u64 u64

fun range_item_bytes :: "range_item \<Rightarrow> byte list" where
  "range_item_bytes (Base b) = nat_le 8 (unat (- 1 :: u64)) @ nat_le 8 (unat b)"
| "range_item_bytes (Range l h) = nat_le 8 (unat l) @ nat_le 8 (unat h)"

fun range_item_ok :: "range_item \<Rightarrow> bool" where
  "range_item_ok (Base b) = True"
| "range_item_ok (Range l h) \<longleftrightarrow> l \<noteq> - 1 \<and> (l \<noteq> 0 \<or> h \<noteq> 0)"

definition range_bytes :: "range_item list \<Rightarrow> byte list" where
  "range_bytes items = concat (map range_item_bytes items) @ nat_le 8 0 @ nat_le 8 0"

fun ranges_of :: "u64 \<Rightarrow> range_item list \<Rightarrow> (u64 \<times> u64) list" where
  "ranges_of base [] = []"
| "ranges_of base (Base b # items) = ranges_of b items"
| "ranges_of base (Range l h # items) = (l + base, h + base) # ranges_of base items"

lemma from_bytes_word: "from_bytes (nat_le 8 (unat w)) = (w :: u64)"
proof -
  have "unat w < 256 ^ 8" using unsigned_less [of w] by simp
  then show ?thesis by (simp add: from_bytes_def le_nat_nat_le)
qed

lemma cur_u64_word:
  assumes "cur_wf img c" "cur_rest img c = nat_le 8 (unat w) @ ys"
  shows "\<exists>c'. cur_u64 img c = Inr (w, c') \<and> cur_wf img c' \<and> cur_rest img c' = ys \<and> cur_pos c' \<noteq> None \<and>
              cur_data c' = cur_data c"
  using fixed_int_append' [where 'a = 64, OF assms] fixed_int_data [where 'a = 64]
  by (fastforce simp: cur_u64_def from_bytes_word)

lemma cur_u64_pair:
  assumes "cur_wf img c" "cur_rest img c = nat_le 8 (unat v) @ nat_le 8 (unat w) @ ys"
  shows "\<exists>c1 c2. cur_u64 img c = Inr (v, c1) \<and> cur_u64 img c1 = Inr (w, c2) \<and> cur_wf img c2 \<and>
                 cur_rest img c2 = ys \<and> cur_pos c2 \<noteq> None \<and> cur_data c2 = cur_data c"
proof -
  obtain c1 where c1: "cur_u64 img c = Inr (v, c1)" "cur_wf img c1"
      "cur_rest img c1 = nat_le 8 (unat w) @ ys" "cur_data c1 = cur_data c"
    using cur_u64_word [OF assms] by blast
  with cur_u64_word [OF c1(2,3)] show ?thesis by metis
qed

definition range_rest :: "byte list \<Rightarrow> range_iter \<Rightarrow> range_item list \<Rightarrow> bool" where
  "range_rest img it items \<longleftrightarrow>
     ri_pos it \<noteq> None \<and> ri_end it \<noteq> None \<and>
     cur_wf img (cursor_between (ri_pos it) (ri_end it)) \<and>
     (\<exists>ys. cur_rest img (cursor_between (ri_pos it) (ri_end it)) = range_bytes items @ ys)"

text \<open>What one step of the iterator does to the items that are left.\<close>

fun next_range :: "u64 \<Rightarrow> range_item list \<Rightarrow> (u64 \<times> u64 \<times> u64 \<times> range_item list) option" where
  "next_range base [] = None"
| "next_range base (Base b # items) = next_range b items"
| "next_range base (Range l h # items) = Some (base, l + base, h + base, items)"

lemma next_range_ranges:
  "ranges_of base items =
     (case next_range base items of None \<Rightarrow> [] | Some (b, l, h, items') \<Rightarrow> (l, h) # ranges_of b items')"
  by (induction base items rule: next_range.induct) auto

lemma next_range_ok:
  "next_range base items = Some (b, l, h, items') \<Longrightarrow> list_all range_item_ok items \<Longrightarrow>
   list_all range_item_ok items' \<and> length items' < length items"
  by (induction base items rule: next_range.induct) auto

lemma cursor_between_rest:
  assumes "cur_wf img c" "cur_pos c \<noteq> None" "span_end (cur_data c) = e"
  shows "cur_wf img (cursor_between (cur_pos c) e) \<and>
         cur_rest img (cursor_between (cur_pos c) e) = cur_rest img c"
  using assms unfolding cur_wf_def cur_rest_def cursor_between_def span_of_ptrs_def
  by (auto simp: span_end_def split: option.splits)

lemma range_next_loop_items:
  assumes "cur_wf img c" "cur_rest img c = range_bytes items @ ys" "span_end (cur_data c) = ri_end it"
    "ri_end it \<noteq> None" "list_all range_item_ok items"
  shows "\<exists>it'. range_next_loop img c it = Inr it' \<and>
           (case next_range (ri_base it) items of
              None \<Rightarrow> ri_pos it' = None
            | Some (b, l, h, items') \<Rightarrow>
                ri_base it' = b \<and> ri_low it' = l \<and> ri_high it' = h \<and> range_rest img it' items')"
  using assms
proof (induction items arbitrary: c it)
  case Nil
  have "cur_rest img c = nat_le 8 (unat (0 :: u64)) @ nat_le 8 (unat (0 :: u64)) @ ys"
    using Nil(2) by (simp add: range_bytes_def)
  from cur_u64_pair [OF Nil(1) this] show ?case
    by (subst range_next_loop.simps) auto
next
  case (Cons item items)
  show ?case
  proof (cases item)
    case (Base b)
    have "cur_rest img c = nat_le 8 (unat (- 1 :: u64)) @ nat_le 8 (unat b) @ range_bytes items @ ys"
      using Cons.prems(2) Base by (simp add: range_bytes_def)
    from cur_u64_pair [OF Cons.prems(1) this] obtain c1 c2 where
      c: "cur_u64 img c = Inr (- 1, c1)" "cur_u64 img c1 = Inr (b, c2)" "cur_wf img c2"
      "cur_rest img c2 = range_bytes items @ ys" "cur_data c2 = cur_data c" by blast
    let ?it = "it\<lparr>ri_low := - 1, ri_high := b, ri_base := b\<rparr>"
    have "range_next_loop img c it = range_next_loop img c2 ?it"
      using c(1,2) by (subst range_next_loop.simps) simp
    with Cons.IH [OF c(3,4), of ?it] Cons.prems(3-5) c(5) Base show ?thesis by simp
  next
    case (Range l h)
    have "cur_rest img c = nat_le 8 (unat l) @ nat_le 8 (unat h) @ range_bytes items @ ys"
      using Cons.prems(2) Range by (simp add: range_bytes_def)
    from cur_u64_pair [OF Cons.prems(1) this] obtain c1 c2 where
      c: "cur_u64 img c = Inr (l, c1)" "cur_u64 img c1 = Inr (h, c2)" "cur_wf img c2"
      "cur_rest img c2 = range_bytes items @ ys" "cur_data c2 = cur_data c" "cur_pos c2 \<noteq> None"
      by blast
    have "l \<noteq> - 1" "\<not> (l = 0 \<and> h = 0)" using Cons.prems(5) Range by auto
    then have "range_next_loop img c it = Inr (it\<lparr>ri_pos := cur_pos c2, ri_low := l + ri_base it,
        ri_high := h + ri_base it\<rparr>)"
      using c(1,2) by (subst range_next_loop.simps) auto
    moreover have "range_rest img (it\<lparr>ri_pos := cur_pos c2, ri_low := l + ri_base it,
        ri_high := h + ri_base it\<rparr>) items"
      using cursor_between_rest [OF c(3,6), of "ri_end it"] c(4,5,6) Cons.prems(3,4)
      by (auto simp: range_rest_def)
    ultimately show ?thesis using Range by simp
  qed
qed

lemma range_next_items:
  assumes "range_rest img it items" "list_all range_item_ok items"
  shows "\<exists>it'. range_next img it = Inr it' \<and>
           (case next_range (ri_base it) items of
              None \<Rightarrow> ri_pos it' = None
            | Some (b, l, h, items') \<Rightarrow>
                ri_base it' = b \<and> ri_low it' = l \<and> ri_high it' = h \<and> range_rest img it' items')"
proof -
  have e: "span_end (cur_data (cursor_between (ri_pos it) (ri_end it))) = ri_end it"
    using assms(1) by (auto simp: range_rest_def cursor_between_def span_of_ptrs_def span_end_def)
  obtain ys where "cur_rest img (cursor_between (ri_pos it) (ri_end it)) = range_bytes items @ ys"
    using assms(1) by (auto simp: range_rest_def)
  from range_next_loop_items [OF _ this e _ assms(2)] assms(1) show ?thesis
    by (simp add: range_rest_def range_next_def)
qed

definition in_ranges :: "u64 \<Rightarrow> (u64 \<times> u64) list \<Rightarrow> bool" where
  "in_ranges a rs \<longleftrightarrow> list_ex (\<lambda>(l, h). l \<le> a \<and> a < h) rs"

lemma range_any_items:
  assumes "range_rest (storage obj) it items" "list_all range_item_ok items"
    "fa_elf a = Some (elf_id obj)"
  shows "range_any obj it a =
         Inr (in_ranges (fa_addr a) ((ri_low it, ri_high it) # ranges_of (ri_base it) items))"
  using assms(1,2)
proof (induction "length items" arbitrary: it items rule: less_induct)
  case less
  let ?hit = "ri_low it \<le> fa_addr a \<and> fa_addr a < ri_high it"
  have pos: "ri_pos it \<noteq> None" using less.prems(1) by (simp add: range_rest_def)
  have entry: "range_entry_contains obj it a = Inr ?hit"
    using assms(3) by (simp add: range_entry_contains_def file_addr_le_def file_addr_less_def elf_file_addr_def)
  obtain it' where it': "range_next (storage obj) it = Inr it'"
    "case next_range (ri_base it) items of
        None \<Rightarrow> ri_pos it' = None
      | Some (b, l, h, items') \<Rightarrow>
          ri_base it' = b \<and> ri_low it' = l \<and> ri_high it' = h \<and> range_rest (storage obj) it' items'"
    using range_next_items [OF less.prems] by blast
  have step: "range_any obj it a = (if ?hit then Inr True else range_any obj it' a)"
    using pos entry it'(1) by (subst range_any.simps) auto
  show ?case
  proof (cases "next_range (ri_base it) items")
    case None
    then have "range_any obj it' a = Inr False" using it'(2) by (subst range_any.simps) simp
    with step next_range_ranges [of "ri_base it" items] None show ?thesis by (simp add: in_ranges_def)
  next
    case (Some x)
    obtain b l h items' where x: "x = (b, l, h, items')" by (cases x)
    note ok = next_range_ok [OF Some [unfolded x] less.prems(2)]
    have "range_any obj it' a = Inr (in_ranges (fa_addr a) ((l, h) # ranges_of b items'))"
      using less.hyps [of items' it'] it'(2) ok Some x by simp
    with step next_range_ranges [of "ri_base it" items] Some x show ?thesis
      by (auto simp: in_ranges_def)
  qed
qed

section \<open>Properties\<close>

text \<open>
  C2: parsing and iterating a well-formed tree of entries.  Where the bytes at a position of a
  unit encode a tree of entries under the unit's abbreviation table, \<open>parse_die\<close> returns the
  root with each attribute located at its encoding, and the loop over its children ends (with
  fuel twice the number of entries) and visits exactly the direct children, in order, however
  deep the subtrees between them are.
\<close>

theorem children_of_tree:
  assumes "parse_abbrev_table obj (cu_abbrev_offset cu) = Inr table" "tree_ok table t"
    "rest_at obj cu p (tree_bytes table t @ ys)" "2 * tree_size t \<le> n"
  shows "\<exists>d ds. die_at obj cu p = Inr d \<and> die_of_tree obj cu table d t \<and>
                children n obj d = Inr ds \<and> list_all2 (die_of_tree obj cu table) ds (dt_kids t)"
proof -
  obtain d ab where d: "die_at obj cu p = Inr d" "die_of_tree obj cu table d t"
      "die_abbrev d = Some ab" "die_cu d = Some cu" "ab_has_children ab \<or> dt_kids t = []"
      "ab_has_children ab \<longrightarrow> rest_at obj cu (die_next d) (forest_bytes table (dt_kids t) @ 0 # ys)"
    using parse_die_tree [OF assms(2,1,3)] by metis
  obtain m where n: "n = Suc m" "2 * forest_size (dt_kids t) + 1 \<le> n"
    using assms(4) by (cases n; cases t) (auto simp: forest_size_def)
  have kids: "tree_stepped obj cu table k" if "k \<in> set (dt_kids t)" for k
    using tree_ok_stepped [OF assms(1)] assms(2) that by (cases t) (auto simp: list_all_iff)
  show ?thesis
  proof (cases "ab_has_children ab")
    case True
    from siblings_from_forest [OF kids d(6) [rule_format, OF True] n(2)] d(1-5) True show ?thesis
      by (auto simp: children_def first_child_def)
  next
    case False
    with d(1-5) n(1) show ?thesis by (auto simp: children_def first_child_def null_die_def)
  qed
qed

definition demo_tree :: dtree where
  "demo_tree = DNode 1 [[97, 0]]
     [DNode 2 [[102, 0], [0, 0x30, 0, 0, 1, 0, 0, 0], [0x10, 0, 0, 0]] [],
      DNode 2 [[103, 0], [0x10, 0x30, 0, 0, 1, 0, 0, 0], [0x20, 0, 0, 0]] []]"

theorem children_of_tree_witness:
  "\<exists>d ds. die_at demo_dwarf_elf demo_unit (Some 30) = Inr d \<and>
          children 6 demo_dwarf_elf d = Inr ds \<and> length ds = 2"
proof -
  let ?t = "[1 \<mapsto> demo_unit_abbrev, 2 \<mapsto> demo_func_abbrev]"
  have t: "parse_abbrev_table demo_dwarf_elf (cu_abbrev_offset demo_unit) = Inr ?t"
    using demo_table by (simp add: demo_unit_def)
  have "form_enc DW_FORM_string [97, 0]" "form_enc DW_FORM_string [102, 0]"
      "form_enc DW_FORM_string [103, 0]"
    using form_enc.string [of "[97]"] form_enc.string [of "[102]"] form_enc.string [of "[103]"] by simp_all
  then have ok: "tree_ok ?t demo_tree"
    by (simp add: demo_tree_def demo_unit_abbrev_def demo_func_abbrev_def form_enc.fixed form_size_def)
  have r: "rest_at demo_dwarf_elf demo_unit (Some 30) (tree_bytes ?t demo_tree @ [])"
    by (simp add: rest_at_def unit_cursor_def cursor_between_def span_of_ptrs_def demo_unit_def
        demo_tree_def demo_unit_abbrev_def demo_func_abbrev_def demo_dwarf_defs uleb_encode.simps)
  have "2 * tree_size demo_tree \<le> 6" by (simp add: demo_tree_def)
  from children_of_tree [OF t ok r this] show ?thesis
    by (auto simp: demo_tree_def dest!: list_all2_lengthD)
qed

text \<open>
  C4: membership in a range list.  Where the bytes a range list points to encode a list of
  ranges and base address selections closed by a pair of zeros, \<open>range_list::contains\<close> ends and
  answers, for an address of the same object file, whether one of the ranges, each relative to
  the base address in force, covers it.
\<close>

theorem range_list_contains_correct:
  assumes "rl_pos rl \<noteq> None" "rl_end rl \<noteq> None"
    "cur_wf (storage obj) (cursor_between (rl_pos rl) (rl_end rl))"
    "cur_rest (storage obj) (cursor_between (rl_pos rl) (rl_end rl)) = range_bytes items @ ys"
    "list_all range_item_ok items" "fa_elf a = Some (elf_id obj)"
  shows "range_list_contains obj rl a = Inr (in_ranges (fa_addr a) (ranges_of (rl_base rl) items))"
proof -
  let ?it = "\<lparr>ri_end = rl_end rl, ri_base = rl_base rl, ri_pos = rl_pos rl, ri_low = 0, ri_high = 0\<rparr>"
  have "range_rest (storage obj) ?it items" using assms(1-4) by (auto simp: range_rest_def)
  from range_next_items [OF this assms(5)] obtain it' where
    n: "range_next (storage obj) ?it = Inr it'"
    "case next_range (rl_base rl) items of
        None \<Rightarrow> ri_pos it' = None
      | Some (b, l, h, items') \<Rightarrow>
          ri_base it' = b \<and> ri_low it' = l \<and> ri_high it' = h \<and> range_rest (storage obj) it' items'"
    by auto
  show ?thesis
  proof (cases "next_range (rl_base rl) items")
    case None
    with n next_range_ranges [of "rl_base rl" items] show ?thesis
      by (simp add: range_list_contains_def range_begin_def range_any.simps in_ranges_def)
  next
    case (Some x)
    obtain b l h items' where x: "x = (b, l, h, items')" by (cases x)
    note ok = next_range_ok [OF Some [unfolded x] assms(5)]
    with n Some x range_any_items [of obj it' items' a] assms(6)
      next_range_ranges [of "rl_base rl" items]
    show ?thesis by (simp add: range_list_contains_def range_begin_def)
  qed
qed

definition demo_ranges_elf :: elf where
  "demo_ranges_elf = demo_elf\<lparr>storage := range_bytes [Range 0x10 0x20, Base 0x1000, Range 0x30 0x40]\<rparr>"

theorem range_list_contains_correct_witness:
  "range_list_contains demo_ranges_elf \<lparr>rl_pos = Some 0, rl_end = Some 64, rl_base = 0\<rparr>
     (elf_file_addr demo_ranges_elf 0x1035) = Inr True"
proof -
  let ?items = "[Range 0x10 0x20, Base 0x1000, Range 0x30 0x40]"
  let ?rl = "\<lparr>rl_pos = Some 0, rl_end = Some 64, rl_base = 0\<rparr>"
  have l: "length (range_bytes ?items) = 64" by (simp add: range_bytes_def)
  have wf: "cur_wf (storage demo_ranges_elf) (cursor_between (rl_pos ?rl) (rl_end ?rl))"
    using l by (simp add: cur_wf_def cursor_between_def span_of_ptrs_def span_end_def demo_ranges_elf_def)
  have r: "cur_rest (storage demo_ranges_elf) (cursor_between (rl_pos ?rl) (rl_end ?rl)) =
      range_bytes ?items @ []"
    using l by (simp add: cur_rest_def cursor_between_def span_of_ptrs_def span_end_def demo_ranges_elf_def)
  from range_list_contains_correct [OF _ _ wf r] show ?thesis
    by (simp add: elf_file_addr_def in_ranges_def)
qed

end
