(* ===== verification/Line_Table.thy ===== *)
theory Line_Table
  imports Dwarf_Tree
begin

text \<open>
  Line tables: the header in \<open>.debug_line\<close>, the line number program and its iterator, and the
  lookups by address and by source line (\<^verbatim>\<open>src/src/dwarf.cpp\<close>, class \<open>line_table\<close> of
  \<^verbatim>\<open>include/libsdb/dwarf.hpp\<close>).  Every instruction consumes at least one byte, so the loops of
  the iterator end on every input and are total functions here.
\<close>

section \<open>Paths\<close>

text \<open>
  \<open>std::filesystem::path\<close> of POSIX systems: appending a relative path, and the elements that
  iteration yields (the root directory, the names, an empty element for a trailing separator).
\<close>

definition is_absolute :: "string \<Rightarrow> bool" where
  "is_absolute p \<longleftrightarrow> (case p of [] \<Rightarrow> False | c # _ \<Rightarrow> c = CHR ''/'')"

definition path_append :: "string \<Rightarrow> string \<Rightarrow> string" where
  "path_append p q =
     (if is_absolute q then q
      else if p = [] \<or> last p = CHR ''/'' then p @ q
      else p @ ''/'' @ q)"

function path_names :: "string \<Rightarrow> string list" where
  "path_names p =
     (if p = [] then []
      else let rest = dropWhile (\<lambda>c. c \<noteq> CHR ''/'') p;
               rest' = dropWhile (\<lambda>c. c = CHR ''/'') rest
           in takeWhile (\<lambda>c. c \<noteq> CHR ''/'') p #
              (if rest = [] then [] else if rest' = [] then [[]] else path_names rest'))"
  by pat_completeness auto
termination
proof (relation "measure length", simp)
  fix p rest rest' :: string
  assume p: "p \<noteq> []" and r: "rest = dropWhile (\<lambda>c. c \<noteq> CHR ''/'') p"
    and r': "rest' = dropWhile (\<lambda>c. c = CHR ''/'') rest" and ne: "rest \<noteq> []"
  have "hd rest = CHR ''/''" using ne hd_dropWhile [of "\<lambda>c. c \<noteq> CHR ''/''" p] unfolding r by simp
  with ne r' have "length rest' < length rest" by (cases rest) (auto simp: less_Suc_eq_le length_dropWhile_le)
  moreover have "length rest \<le> length p" unfolding r by (rule length_dropWhile_le)
  ultimately show "(rest', p) \<in> measure length" by simp
qed

declare path_names.simps [simp del]

definition path_elements :: "string \<Rightarrow> string list" where
  "path_elements p =
     (if is_absolute p then ''/'' # path_names (dropWhile (\<lambda>c. c = CHR ''/'') p) else path_names p)"

section \<open>The table\<close>

record line_file =
  lf_path :: string
  lf_modification_time :: u64
  lf_length :: u64

record line_table =
  lt_data :: span
  lt_cu :: cu_header
  default_is_stmt :: bool
  line_base :: byte
  line_range :: byte
  opcode_base :: byte
  include_directories :: "string list"
  file_names :: "line_file list"

text \<open>A vector read with \<open>operator[]\<close> at an index one less than a number from the file.\<close>

definition nth_file :: "'a list \<Rightarrow> u64 \<Rightarrow> 'a result" where
  "nth_file xs i =
     (if unat (i - 1) < length xs then Inr (xs ! unat (i - 1))
      else undefined_behaviour ''vector index out of range'')"

definition parse_line_table_file ::
  "byte list \<Rightarrow> cursor \<Rightarrow> string \<Rightarrow> string list \<Rightarrow> (line_file \<times> cursor) result" where
  "parse_line_table_file img c compilation_dir dirs =
     bind_res (cur_string img c) (\<lambda>(file, c1).
     bind_res (cur_uleb128 img c1) (\<lambda>(dir_index, c2).
     bind_res (cur_uleb128 img c2) (\<lambda>(modification_time, c3).
     bind_res (cur_uleb128 img c3) (\<lambda>(file_length, c4).
     bind_res
       (if file = [] then undefined_behaviour ''string_view index out of range''
        else if is_absolute file then Inr file
        else if dir_index = 0 then Inr (path_append compilation_dir file)
        else bind_res (nth_file dirs dir_index) (\<lambda>d. Inr (path_append d file)))
       (\<lambda>path. Inr (\<lparr>lf_path = path, lf_modification_time = modification_time,
                     lf_length = file_length\<rparr>, c4))))))"

lemma find_zero_pos: "find_zero img e p = Inr (cs, q) \<Longrightarrow> unat p \<le> unat q"
proof (induction img e p arbitrary: cs rule: find_zero.induct)
  case (1 img e p)
  show ?case
  proof (cases "p = e")
    case True
    with "1.prems" show ?thesis by (subst (asm) find_zero.simps) simp
  next
    case False
    with "1.prems" obtain bs where b: "read_bytes img p 1 = Inr bs"
      by (subst (asm) find_zero.simps) (auto simp: res_simps)
    then have p1: "unat (p + 1) = unat p + 1"
      by (auto simp: read_bytes_def unat_plus_if' split: if_splits)
    show ?thesis
    proof (cases "bs = [0]")
      case True
      with "1.prems" False b show ?thesis by (subst (asm) find_zero.simps) simp
    next
      case nz: False
      with "1.prems" False b obtain cs' where "find_zero img e (p + 1) = Inr (cs', q)"
        by (subst (asm) find_zero.simps) (auto simp: res_simps)
      from "1.IH" [OF False b nz this] p1 show ?thesis by simp
    qed
  qed
qed

lemma find_zero_inside:
  "find_zero img e p = Inr (cs, q) \<Longrightarrow> q \<noteq> e \<Longrightarrow> unat q < length img \<and> unat (q + 1) = unat q + 1"
proof (induction img e p arbitrary: cs rule: find_zero.induct)
  case (1 img e p)
  show ?case
  proof (cases "p = e")
    case True
    with "1.prems" show ?thesis by (subst (asm) find_zero.simps) simp
  next
    case False
    with "1.prems" obtain bs where b: "read_bytes img p 1 = Inr bs"
      by (subst (asm) find_zero.simps) (auto simp: res_simps)
    show ?thesis
    proof (cases "bs = [0]")
      case True
      with "1.prems" False b have "q = p" by (subst (asm) find_zero.simps) simp
      with b show ?thesis by (auto simp: read_bytes_def unat_plus_if' split: if_splits)
    next
      case nz: False
      with "1.prems" False b obtain cs' where "find_zero img e (p + 1) = Inr (cs', q)"
        by (subst (asm) find_zero.simps) (auto simp: res_simps)
      from "1.IH" [OF False b nz this "1.prems"(2)] show ?thesis .
    qed
  qed
qed

lemma cur_string_measure:
  assumes "cur_string img c = Inr (s, c')"
  shows "cur_measure img c' < cur_measure img c"
proof -
  obtain p e cs q where "cur_pos c = Some p" "find_zero img e p = Inr (cs, q)" "q \<noteq> e"
      "cur_pos c' = Some (q + 1)"
    using assms by (auto simp: cur_string_def res_simps split: option.splits if_splits)
  with find_zero_pos [of img e p cs q] find_zero_inside [of img e p cs q] show ?thesis
    by (auto simp: cur_measure_def)
qed

lemma parse_line_table_file_measure:
  "parse_line_table_file img c dir dirs = Inr (f, c') \<Longrightarrow> cur_measure img c' < cur_measure img c"
  unfolding parse_line_table_file_def
  by (auto simp: res_simps dest!: cur_measures cur_string_measure)

section \<open>The header\<close>

text \<open>The table of expected opcode lengths has twelve elements.\<close>

definition expected_opcode_lengths :: "byte list" where
  "expected_opcode_lengths = [0, 1, 1, 1, 1, 0, 0, 0, 1, 0, 0, 1]"

fun check_opcode_lengths :: "byte list \<Rightarrow> nat \<Rightarrow> nat \<Rightarrow> cursor \<Rightarrow> cursor result" where
  "check_opcode_lengths img 0 i c = Inr c"
| "check_opcode_lengths img (Suc n) i c =
     bind_res (cur_u8 img c) (\<lambda>(len, c1).
     if i \<ge> length expected_opcode_lengths then undefined_behaviour ''array index out of range''
     else if len \<noteq> expected_opcode_lengths ! i then send ''Unexpected opcode length''
     else check_opcode_lengths img n (Suc i) c1)"

function parse_include_directories ::
  "byte list \<Rightarrow> string \<Rightarrow> cursor \<Rightarrow> (string list \<times> cursor) result" where
  "parse_include_directories img compilation_dir c =
     bind_res (cur_string img c) (\<lambda>(dir, c1).
     if dir = [] then Inr ([], c1)
     else bind_res (parse_include_directories img compilation_dir c1) (\<lambda>(dirs, c2).
          Inr ((if is_absolute dir then dir else path_append compilation_dir dir) # dirs, c2)))"
  by pat_completeness auto
termination
  by (relation "measure (\<lambda>(img, d, c). cur_measure img c)") (auto dest!: cur_string_measure)

declare parse_include_directories.simps [simp del]

function parse_file_names ::
  "byte list \<Rightarrow> string \<Rightarrow> string list \<Rightarrow> cursor \<Rightarrow> (line_file list \<times> cursor) result" where
  "parse_file_names img compilation_dir dirs c =
     (case cur_pos c of
        None \<Rightarrow> undefined_behaviour ''read through a null pointer''
      | Some p \<Rightarrow>
          bind_res (read_bytes img p 1) (\<lambda>b.
          if b = [0] then Inr ([], c)
          else bind_res (parse_line_table_file img c compilation_dir dirs) (\<lambda>(f, c1).
               bind_res (parse_file_names img compilation_dir dirs c1) (\<lambda>(fs, c2).
               Inr (f # fs, c2)))))"
  by pat_completeness auto
termination
  by (relation "measure (\<lambda>(img, d, ds, c). cur_measure img c)")
    (auto dest!: parse_line_table_file_measure)

declare parse_file_names.simps [simp del]

definition parse_line_table :: "elf \<Rightarrow> cu_header \<Rightarrow> line_table option result" where
  "parse_line_table obj cu =
     (let img = storage obj; sec = get_section_contents obj ''.debug_line'' in
      bind_res (root obj cu) (\<lambda>r.
      bind_res (die_contains r DW_AT_stmt_list) (\<lambda>has.
      if \<not> has then Inr None
      else
        bind_res (die_attr r DW_AT_stmt_list) (\<lambda>a.
        bind_res (as_section_offset obj a) (\<lambda>offset.
        bind_res (section_at sec (ucast offset)) (\<lambda>c0.
        bind_res (cur_u32 img c0) (\<lambda>(size, c1).
        let end = map_option (\<lambda>p. p + ucast size) (cur_pos c1) in
        bind_res (cur_u16 img c1) (\<lambda>(version, c2).
        if version \<noteq> 4 then send ''Only DWARF 4 is supported''
        else bind_res (cur_u32 img c2) (\<lambda>(_, c3).
        bind_res (cur_u8 img c3) (\<lambda>(minimum_instruction_length, c4).
        if minimum_instruction_length \<noteq> 1 then send ''Invalid minimum instruction length''
        else bind_res (cur_u8 img c4) (\<lambda>(maximum_operations_per_instruction, c5).
        if maximum_operations_per_instruction \<noteq> 1
        then send ''Invalid maximum operations per instruction''
        else bind_res (cur_u8 img c5) (\<lambda>(is_stmt, c6).
        bind_res (cur_s8 img c6) (\<lambda>(lbase, c7).
        bind_res (cur_u8 img c7) (\<lambda>(lrange, c8).
        bind_res (cur_u8 img c8) (\<lambda>(obase, c9).
        bind_res (check_opcode_lengths img (unat obase - 1) 0 c9) (\<lambda>c10.
        bind_res (bind_res (die_attr r DW_AT_comp_dir) (as_string obj)) (\<lambda>compilation_dir.
        bind_res (parse_include_directories img compilation_dir c10) (\<lambda>(dirs, c11).
        bind_res (parse_file_names img compilation_dir dirs c11) (\<lambda>(files, c12).
        bind_res (cur_advance 1 c12) (\<lambda>c13.
        Inr (Some \<lparr>lt_data = cur_data (cursor_between (cur_pos c13) end), lt_cu = cu,
                   default_is_stmt = is_stmt \<noteq> 0, line_base = lbase, line_range = lrange,
                   opcode_base = obase, include_directories = dirs,
                   file_names = files\<rparr>)))))))))))))))))))))"

section \<open>The line number program\<close>

text \<open>
  A row of the table.  \<open>file_entry\<close> points into the table's vector of files; the model keeps
  the index.
\<close>

record line_entry =
  le_address :: file_addr
  le_file_index :: u64
  le_line :: u64
  le_column :: u64
  le_is_stmt :: bool
  le_basic_block_start :: bool
  le_end_sequence :: bool
  le_prologue_end :: bool
  le_epilogue_begin :: bool
  le_discriminator :: u64
  le_file_entry :: "nat option"

definition initial_entry :: "bool \<Rightarrow> line_entry" where
  "initial_entry is_stmt =
     \<lparr>le_address = null_file_addr, le_file_index = 1, le_line = 1, le_column = 0,
      le_is_stmt = is_stmt, le_basic_block_start = False, le_end_sequence = False,
      le_prologue_end = False, le_epilogue_begin = False, le_discriminator = 0,
      le_file_entry = None\<rparr>"

definition entry_eq :: "line_entry \<Rightarrow> line_entry \<Rightarrow> bool" where
  "entry_eq a b \<longleftrightarrow>
     le_address a = le_address b \<and> le_file_index a = le_file_index b \<and> le_line a = le_line b \<and>
     le_column a = le_column b \<and> le_discriminator a = le_discriminator b"

record line_iter =
  li_current :: line_entry
  li_registers :: line_entry
  li_pos :: ptr

definition advance_address :: "u64 \<Rightarrow> line_entry \<Rightarrow> line_entry" where
  "advance_address n e = e\<lparr>le_address := file_addr_add (le_address e) n\<rparr>"

text \<open>What \<open>DW_LNS_copy\<close> and the special opcodes reset after a row is emitted.\<close>

definition clear_flags :: "line_entry \<Rightarrow> line_entry" where
  "clear_flags e = e\<lparr>le_basic_block_start := False, le_prologue_end := False,
                     le_epilogue_begin := False, le_discriminator := 0\<rparr>"

definition emit_row :: "line_iter \<Rightarrow> line_iter" where
  "emit_row it = it\<lparr>li_current := li_registers it, li_registers := clear_flags (li_registers it)\<rparr>"

definition set_regs :: "line_iter \<Rightarrow> (line_entry \<Rightarrow> line_entry) \<Rightarrow> line_iter" where
  "set_regs it f = it\<lparr>li_registers := f (li_registers it)\<rparr>"

text \<open>
  One group of opcodes per definition; each returns whether a row was emitted, the iterator,
  the table and the cursor behind the operands.  The division by \<open>line_range_\<close> is undefined when
  it is zero.
\<close>

definition execute_standard ::
  "byte list \<Rightarrow> byte \<Rightarrow> line_table \<Rightarrow> line_iter \<Rightarrow> cursor \<Rightarrow> (bool \<times> line_iter \<times> cursor) result" where
  "execute_standard img opcode tab it c =
     (if opcode = DW_LNS_copy then Inr (True, emit_row it, c)
      else if opcode = DW_LNS_advance_pc then
        bind_res (cur_uleb128 img c) (\<lambda>(n, c'). Inr (False, set_regs it (advance_address n), c'))
      else if opcode = DW_LNS_advance_line then
        bind_res (cur_sleb128 img c) (\<lambda>(n, c').
        Inr (False, set_regs it (\<lambda>r. r\<lparr>le_line := le_line r + n\<rparr>), c'))
      else if opcode = DW_LNS_set_file then
        bind_res (cur_uleb128 img c) (\<lambda>(n, c').
        Inr (False, set_regs it (\<lambda>r. r\<lparr>le_file_index := n\<rparr>), c'))
      else if opcode = DW_LNS_set_column then
        bind_res (cur_uleb128 img c) (\<lambda>(n, c').
        Inr (False, set_regs it (\<lambda>r. r\<lparr>le_column := n\<rparr>), c'))
      else if opcode = DW_LNS_negate_stmt then
        Inr (False, set_regs it (\<lambda>r. r\<lparr>le_is_stmt := \<not> le_is_stmt r\<rparr>), c)
      else if opcode = DW_LNS_set_basic_block then
        Inr (False, set_regs it (\<lambda>r. r\<lparr>le_basic_block_start := True\<rparr>), c)
      else if opcode = DW_LNS_const_add_pc then
        (if line_range tab = 0 then undefined_behaviour ''division by zero''
         else Inr (False, set_regs it (advance_address
                (word_of_nat ((255 - unat (opcode_base tab)) div unat (line_range tab)))), c))
      else if opcode = DW_LNS_fixed_advance_pc then
        bind_res (cur_u16 img c) (\<lambda>(n, c'). Inr (False, set_regs it (advance_address (ucast n)), c'))
      else if opcode = DW_LNS_set_prologue_end then
        Inr (False, set_regs it (\<lambda>r. r\<lparr>le_prologue_end := True\<rparr>), c)
      else if opcode = DW_LNS_set_epilogue_begin then
        Inr (False, set_regs it (\<lambda>r. r\<lparr>le_epilogue_begin := True\<rparr>), c)
      else if opcode = DW_LNS_set_isa then Inr (False, it, c)
      else send ''Unexpected standard opcode'')"

definition execute_extended ::
  "elf \<Rightarrow> line_table \<Rightarrow> line_iter \<Rightarrow> cursor \<Rightarrow> (bool \<times> line_iter \<times> line_table \<times> cursor) result" where
  "execute_extended obj tab it c =
     (let img = storage obj in
      bind_res (cur_uleb128 img c) (\<lambda>(_, c1).
      bind_res (cur_u8 img c1) (\<lambda>(extended_opcode, c2).
      if extended_opcode = DW_LNE_end_sequence then
        Inr (True, it\<lparr>li_current := (li_registers it)\<lparr>le_end_sequence := True\<rparr>,
                      li_registers := initial_entry (default_is_stmt tab)\<rparr>, tab, c2)
      else if extended_opcode = DW_LNE_set_address then
        bind_res (cur_u64 img c2) (\<lambda>(a, c3).
        Inr (False, set_regs it (\<lambda>r. r\<lparr>le_address := elf_file_addr obj a\<rparr>), tab, c3))
      else if extended_opcode = DW_LNE_define_file then
        bind_res (bind_res (bind_res (root obj (lt_cu tab)) (\<lambda>r. die_attr r DW_AT_comp_dir))
                    (as_string obj)) (\<lambda>compilation_dir.
        bind_res (parse_line_table_file img c2 compilation_dir (include_directories tab)) (\<lambda>(f, c3).
        Inr (False, it, tab\<lparr>file_names := file_names tab @ [f]\<rparr>, c3)))
      else if extended_opcode = DW_LNE_set_discriminator then
        bind_res (cur_uleb128 img c2) (\<lambda>(n, c3).
        Inr (False, set_regs it (\<lambda>r. r\<lparr>le_discriminator := n\<rparr>), tab, c3))
      else send ''Unexpected extended opcode'')))"

definition execute_special :: "byte \<Rightarrow> line_table \<Rightarrow> line_iter \<Rightarrow> line_iter result" where
  "execute_special opcode tab it =
     (if line_range tab = 0 then undefined_behaviour ''division by zero''
      else
        let adjusted = unat opcode - unat (opcode_base tab);
            it' = set_regs it (\<lambda>r. (advance_address (word_of_nat (adjusted div unat (line_range tab))) r)
                    \<lparr>le_line := le_line r +
                       word_of_int (sint (line_base tab) + int (adjusted mod unat (line_range tab)))\<rparr>)
        in Inr (emit_row it'))"

definition execute_instruction ::
  "elf \<Rightarrow> line_table \<Rightarrow> line_iter \<Rightarrow> (bool \<times> line_iter \<times> line_table) result" where
  "execute_instruction obj tab it =
     bind_res (cur_u8 (storage obj) (cursor_between (li_pos it) (span_end (lt_data tab)))) (\<lambda>(opcode, c).
     if opcode > 0 \<and> opcode < opcode_base tab then
       bind_res (execute_standard (storage obj) opcode tab it c) (\<lambda>(emitted, it', c').
       Inr (emitted, it'\<lparr>li_pos := cur_pos c'\<rparr>, tab))
     else if opcode = 0 then
       bind_res (execute_extended obj tab it c) (\<lambda>(emitted, it', tab', c').
       Inr (emitted, it'\<lparr>li_pos := cur_pos c'\<rparr>, tab'))
     else
       bind_res (execute_special opcode tab it) (\<lambda>it'.
       Inr (True, it'\<lparr>li_pos := cur_pos c\<rparr>, tab)))"

definition iter_measure :: "byte list \<Rightarrow> line_iter \<Rightarrow> nat" where
  "iter_measure img it = (case li_pos it of None \<Rightarrow> 0 | Some p \<Rightarrow> Suc (length img - unat p))"

lemma cur_u16_measure: "cur_u16 img c = Inr (w, c') \<Longrightarrow> cur_measure img c' < cur_measure img c"
  using fixed_int_measure [where 'a = 16] by (simp add: cur_u16_def)

lemma cur_sleb128_measure: "cur_sleb128 img c = Inr (w, c') \<Longrightarrow> cur_measure img c' < cur_measure img c"
  by (auto simp: cur_sleb128_def res_simps cur_measure_def dest!: leb128_loop_progress)

lemma execute_standard_measure:
  "execute_standard img opcode tab it c = Inr (e, it', c') \<Longrightarrow> cur_measure img c' \<le> cur_measure img c"
  unfolding execute_standard_def
  by (auto simp: res_simps split: if_splits
      dest!: cur_measures cur_u16_measure cur_sleb128_measure)

lemma execute_extended_measure:
  "execute_extended obj tab it c = Inr (e, it', tab', c') \<Longrightarrow>
   cur_measure (storage obj) c' \<le> cur_measure (storage obj) c"
  unfolding execute_extended_def Let_def
  by (auto simp: res_simps split: if_splits
      dest!: cur_measures parse_line_table_file_measure)

lemma cursor_iter_measure:
  "cur_measure img c < cur_measure img (cursor_between (li_pos it) e) \<Longrightarrow> cur_pos c = Some q \<Longrightarrow>
   iter_measure img (it'\<lparr>li_pos := Some q\<rparr>) < iter_measure img it"
  by (auto simp: cur_measure_def iter_measure_def cursor_between_def split: option.splits)

lemma execute_instruction_measure:
  assumes "execute_instruction obj tab it = Inr (e, it', tab')"
  shows "iter_measure (storage obj) it' < iter_measure (storage obj) it"
proof -
  let ?img = "storage obj"
  let ?c0 = "cursor_between (li_pos it) (span_end (lt_data tab))"
  obtain opcode c where u: "cur_u8 ?img ?c0 = Inr (opcode, c)"
    using assms by (auto simp: execute_instruction_def res_simps)
  have m: "cur_measure ?img c < cur_measure ?img ?c0" using u by (rule cur_measures)
  obtain c' it'' where c': "it' = it''\<lparr>li_pos := cur_pos c'\<rparr>" "cur_measure ?img c' \<le> cur_measure ?img c"
    using assms u unfolding execute_instruction_def
    by (auto simp: res_simps split: if_splits
        dest!: execute_standard_measure execute_extended_measure)
  have "iter_measure ?img it \<noteq> 0"
    using m by (auto simp: cur_measure_def iter_measure_def cursor_between_def split: option.splits)
  moreover have "cur_pos c' = Some q \<Longrightarrow> ?thesis" for q
    using cursor_iter_measure [of ?img c' it "span_end (lt_data tab)" q it''] m c' by simp
  ultimately show ?thesis using c'(1) by (cases "cur_pos c'") (auto simp: iter_measure_def)
qed

function run_to_row :: "elf \<Rightarrow> line_table \<Rightarrow> line_iter \<Rightarrow> (line_iter \<times> line_table) result" where
  "run_to_row obj tab it =
     bind_res (execute_instruction obj tab it) (\<lambda>(emitted, it', tab').
     if emitted then Inr (it', tab') else run_to_row obj tab' it')"
  by pat_completeness auto
termination
  by (relation "measure (\<lambda>(obj, tab, it). iter_measure (storage obj) it)")
    (auto dest!: execute_instruction_measure)

declare run_to_row.simps [simp del]

definition line_next :: "elf \<Rightarrow> line_table \<Rightarrow> line_iter \<Rightarrow> (line_iter \<times> line_table) result" where
  "line_next obj tab it =
     (if li_pos it = span_end (lt_data tab) then Inr (it\<lparr>li_pos := None\<rparr>, tab)
      else
        bind_res (run_to_row obj tab it) (\<lambda>(it', tab').
        let i = le_file_index (li_current it') - 1 in
        if unat i < length (file_names tab')
        then Inr (it'\<lparr>li_current := (li_current it')\<lparr>le_file_entry := Some (unat i)\<rparr>\<rparr>, tab')
        else undefined_behaviour ''vector index out of range''))"

definition line_begin :: "elf \<Rightarrow> line_table \<Rightarrow> (line_iter \<times> line_table) result" where
  "line_begin obj tab =
     line_next obj tab \<lparr>li_current = initial_entry False,
                        li_registers = initial_entry (default_is_stmt tab),
                        li_pos = sp_data (lt_data tab)\<rparr>"

lemma run_to_row_measure:
  "run_to_row obj tab it = Inr (it', tab') \<Longrightarrow>
   iter_measure (storage obj) it' < iter_measure (storage obj) it"
proof (induction obj tab it rule: run_to_row.induct)
  case (1 obj tab it)
  from "1.prems" obtain e it1 tab1 where x: "execute_instruction obj tab it = Inr (e, it1, tab1)"
    by (subst (asm) run_to_row.simps) (auto simp: res_simps)
  have m: "iter_measure (storage obj) it1 < iter_measure (storage obj) it"
    using x by (rule execute_instruction_measure)
  show ?case
  proof (cases e)
    case True
    with "1.prems" x m show ?thesis by (subst (asm) run_to_row.simps) simp
  next
    case False
    with "1.prems" x have "run_to_row obj tab1 it1 = Inr (it', tab')"
      by (subst (asm) run_to_row.simps) simp
    from "1.IH" [OF x refl refl False this] m show ?thesis by simp
  qed
qed

lemma line_next_measure:
  "line_next obj tab it = Inr (it', tab') \<Longrightarrow> li_pos it \<noteq> None \<Longrightarrow>
   iter_measure (storage obj) it' < iter_measure (storage obj) it"
  unfolding line_next_def Let_def
  by (cases "li_pos it")
    (auto simp: res_simps iter_measure_def split: if_splits dest!: run_to_row_measure)

section \<open>Lookups\<close>

text \<open>The end iterator is \<open>None\<close>.\<close>

function find_entry ::
  "elf \<Rightarrow> file_addr \<Rightarrow> line_table \<Rightarrow> line_iter \<Rightarrow> line_iter \<Rightarrow> (line_iter option \<times> line_table) result" where
  "find_entry obj a tab prev it =
     (if li_pos it = None then Inr (None, tab)
      else
        bind_res (file_addr_le (le_address (li_current prev)) a) (\<lambda>lo.
        bind_res (if lo then file_addr_less a (le_address (li_current it)) else Inr False) (\<lambda>hi.
        if hi \<and> \<not> le_end_sequence (li_current prev) then Inr (Some prev, tab)
        else bind_res (line_next obj tab it) (\<lambda>(it', tab'). find_entry obj a tab' it it'))))"
  by pat_completeness auto
termination
  by (relation "measure (\<lambda>(obj, a, tab, prev, it). iter_measure (storage obj) it)")
    (auto dest!: line_next_measure)

declare find_entry.simps [simp del]

definition get_entry_by_address ::
  "elf \<Rightarrow> line_table \<Rightarrow> file_addr \<Rightarrow> (line_iter option \<times> line_table) result" where
  "get_entry_by_address obj tab a =
     bind_res (line_begin obj tab) (\<lambda>(prev, tab1).
     if li_pos prev = None then Inr (None, tab1)
     else bind_res (line_next obj tab1 prev) (\<lambda>(it, tab2). find_entry obj a tab2 prev it))"

definition path_ends_in :: "string \<Rightarrow> string \<Rightarrow> bool" where
  "path_ends_in lhs rhs =
     (let l = path_elements lhs; r = path_elements rhs in
      if length r > length l then False else drop (length l - length r) l = r)"

definition entry_matches :: "line_table \<Rightarrow> string \<Rightarrow> u64 \<Rightarrow> line_entry \<Rightarrow> bool result" where
  "entry_matches tab path line e =
     (case le_file_entry e of
        None \<Rightarrow> undefined_behaviour ''null file entry''
      | Some i \<Rightarrow>
          if i < length (file_names tab) then
            let entry_path = lf_path (file_names tab ! i) in
            Inr (le_line e = line \<and>
                 (is_absolute path \<and> path_elements entry_path = path_elements path \<or>
                  \<not> is_absolute path \<and> path_ends_in entry_path path))
          else undefined_behaviour ''dangling file entry'')"

function entries_from ::
  "elf \<Rightarrow> string \<Rightarrow> u64 \<Rightarrow> line_table \<Rightarrow> line_iter \<Rightarrow> line_iter list result" where
  "entries_from obj path line tab it =
     (if li_pos it = None then Inr []
      else
        bind_res (entry_matches tab path line (li_current it)) (\<lambda>hit.
        bind_res (line_next obj tab it) (\<lambda>(it', tab').
        bind_res (entries_from obj path line tab' it') (\<lambda>its.
        Inr (if hit then it # its else its)))))"
  by pat_completeness auto
termination
  by (relation "measure (\<lambda>(obj, path, line, tab, it). iter_measure (storage obj) it)")
    (auto dest!: line_next_measure)

declare entries_from.simps [simp del]

definition get_entries_by_line ::
  "elf \<Rightarrow> line_table \<Rightarrow> string \<Rightarrow> u64 \<Rightarrow> line_iter list result" where
  "get_entries_by_line obj tab path line =
     bind_res (line_begin obj tab) (\<lambda>(it, tab'). entries_from obj path line tab' it)"

section \<open>Declared locations\<close>

definition die_file :: "elf \<Rightarrow> line_table option \<Rightarrow> die \<Rightarrow> line_file result" where
  "die_file obj lines d =
     (case die_abbrev d of
        None \<Rightarrow> undefined_behaviour ''null abbreviation''
      | Some ab \<Rightarrow>
          bind_res (die_attr d (if ab_tag ab = DW_TAG_inlined_subroutine then DW_AT_call_file
                                else DW_AT_decl_file)) (\<lambda>a.
          bind_res (as_int obj a) (\<lambda>idx.
          case lines of
            None \<Rightarrow> undefined_behaviour ''null line table''
          | Some tab \<Rightarrow> nth_file (file_names tab) idx)))"

definition die_line :: "elf \<Rightarrow> die \<Rightarrow> u64 result" where
  "die_line obj d =
     (case die_abbrev d of
        None \<Rightarrow> undefined_behaviour ''null abbreviation''
      | Some ab \<Rightarrow>
          bind_res (die_attr d (if ab_tag ab = DW_TAG_inlined_subroutine then DW_AT_call_line
                                else DW_AT_decl_line)) (as_int obj))"

definition die_location :: "elf \<Rightarrow> line_table option \<Rightarrow> die \<Rightarrow> (line_file \<times> u64) result" where
  "die_location obj lines d =
     bind_res (die_file obj lines d) (\<lambda>f. bind_res (die_line obj d) (\<lambda>l. Inr (f, l)))"

section \<open>Line number programs\<close>

text \<open>
  The instructions of DWARF 4 section 6.2.5 with their encodings, for the usual opcode base of
  13, and what each does to the registers of the line number machine.
\<close>

datatype line_op =
    Copy
  | Advance_pc u64
  | Advance_line int
  | Set_file u64
  | Set_column u64
  | Negate_stmt
  | Set_basic_block
  | Const_add_pc
  | Fixed_advance_pc u16
  | Set_prologue_end
  | Set_epilogue_begin
  | End_sequence
  | Set_address u64
  | Set_discriminator u64
  | Special byte

fun line_op_bytes :: "line_op \<Rightarrow> byte list" where
  "line_op_bytes Copy = [1]"
| "line_op_bytes (Advance_pc n) = 2 # uleb_encode (unat n)"
| "line_op_bytes (Advance_line v) = 3 # sleb_encode v"
| "line_op_bytes (Set_file n) = 4 # uleb_encode (unat n)"
| "line_op_bytes (Set_column n) = 5 # uleb_encode (unat n)"
| "line_op_bytes Negate_stmt = [6]"
| "line_op_bytes Set_basic_block = [7]"
| "line_op_bytes Const_add_pc = [8]"
| "line_op_bytes (Fixed_advance_pc n) = 9 # nat_le 2 (unat n)"
| "line_op_bytes Set_prologue_end = [10]"
| "line_op_bytes Set_epilogue_begin = [11]"
| "line_op_bytes End_sequence = [0, 1, 1]"
| "line_op_bytes (Set_address a) = [0, 9, 2] @ nat_le 8 (unat a)"
| "line_op_bytes (Set_discriminator n) =
     0 # uleb_encode (unat (word_of_nat (1 + length (uleb_encode (unat n))) :: u64)) @
     4 # uleb_encode (unat n)"
| "line_op_bytes (Special b) = [b]"

fun line_op_ok :: "line_op \<Rightarrow> bool" where
  "line_op_ok (Advance_line v) \<longleftrightarrow> - (2 ^ 63) \<le> v \<and> v < 2 ^ 63"
| "line_op_ok (Special b) \<longleftrightarrow> 13 \<le> b"
| "line_op_ok op = True"

fun line_op_emits :: "line_op \<Rightarrow> bool" where
  "line_op_emits Copy = True"
| "line_op_emits End_sequence = True"
| "line_op_emits (Special b) = True"
| "line_op_emits op = False"

text \<open>The registers when a row is taken from them, and the registers after the instruction.\<close>

fun line_op_before :: "elf \<Rightarrow> line_table \<Rightarrow> line_op \<Rightarrow> line_entry \<Rightarrow> line_entry" where
  "line_op_before obj tab Copy r = r"
| "line_op_before obj tab (Advance_pc n) r = r\<lparr>le_address := file_addr_add (le_address r) n\<rparr>"
| "line_op_before obj tab (Advance_line v) r = r\<lparr>le_line := le_line r + word_of_int v\<rparr>"
| "line_op_before obj tab (Set_file n) r = r\<lparr>le_file_index := n\<rparr>"
| "line_op_before obj tab (Set_column n) r = r\<lparr>le_column := n\<rparr>"
| "line_op_before obj tab Negate_stmt r = r\<lparr>le_is_stmt := \<not> le_is_stmt r\<rparr>"
| "line_op_before obj tab Set_basic_block r = r\<lparr>le_basic_block_start := True\<rparr>"
| "line_op_before obj tab Const_add_pc r =
     r\<lparr>le_address := file_addr_add (le_address r) (word_of_nat (242 div unat (line_range tab)))\<rparr>"
| "line_op_before obj tab (Fixed_advance_pc n) r =
     r\<lparr>le_address := file_addr_add (le_address r) (word_of_nat (unat n))\<rparr>"
| "line_op_before obj tab Set_prologue_end r = r\<lparr>le_prologue_end := True\<rparr>"
| "line_op_before obj tab Set_epilogue_begin r = r\<lparr>le_epilogue_begin := True\<rparr>"
| "line_op_before obj tab End_sequence r = r\<lparr>le_end_sequence := True\<rparr>"
| "line_op_before obj tab (Set_address a) r = r\<lparr>le_address := elf_file_addr obj a\<rparr>"
| "line_op_before obj tab (Set_discriminator n) r = r\<lparr>le_discriminator := n\<rparr>"
| "line_op_before obj tab (Special b) r =
     r\<lparr>le_address := file_addr_add (le_address r) (word_of_nat ((unat b - 13) div unat (line_range tab))),
       le_line := le_line r + word_of_int (sint (line_base tab) + int ((unat b - 13) mod unat (line_range tab)))\<rparr>"

definition line_op_after :: "elf \<Rightarrow> line_table \<Rightarrow> line_op \<Rightarrow> line_entry \<Rightarrow> line_entry" where
  "line_op_after obj tab op r =
     (if op = End_sequence then initial_entry (default_is_stmt tab)
      else if line_op_emits op then clear_flags (line_op_before obj tab op r)
      else line_op_before obj tab op r)"

definition with_file :: "line_entry \<Rightarrow> line_entry" where
  "with_file r = r\<lparr>le_file_entry := Some (unat (le_file_index r - 1))\<rparr>"

fun program_rows :: "elf \<Rightarrow> line_table \<Rightarrow> line_entry \<Rightarrow> line_op list \<Rightarrow> line_entry list" where
  "program_rows obj tab r [] = []"
| "program_rows obj tab r (op # ops) =
     (if line_op_emits op then [with_file (line_op_before obj tab op r)] else []) @
     program_rows obj tab (line_op_after obj tab op r) ops"

definition iter_at :: "elf \<Rightarrow> line_table \<Rightarrow> line_iter \<Rightarrow> line_op list \<Rightarrow> bool" where
  "iter_at obj tab it ops \<longleftrightarrow>
     cur_ready (storage obj) (span_end (lt_data tab))
       (cursor_between (li_pos it) (span_end (lt_data tab))) (concat (map line_op_bytes ops))"

lemma from_bytes_u16: "from_bytes (nat_le 2 (unat w)) = (w :: u16)"
proof -
  have "unat w < 256 ^ 2" using unsigned_less [of w] by simp
  then show ?thesis by (simp add: from_bytes_def le_nat_nat_le)
qed

lemma iter_atI:
  "cur_ready (storage obj) (span_end (lt_data tab)) c (concat (map line_op_bytes ops)) \<Longrightarrow>
   li_pos it = cur_pos c \<Longrightarrow> iter_at obj tab it ops"
  unfolding iter_at_def by (simp add: cur_ready_between)

lemma execute_line_op:
  assumes "iter_at obj tab it (op # ops)" "line_op_ok op" "opcode_base tab = 13" "line_range tab \<noteq> 0"
  shows "\<exists>it'. execute_instruction obj tab it = Inr (line_op_emits op, it', tab) \<and>
           li_registers it' = line_op_after obj tab op (li_registers it) \<and>
           (line_op_emits op \<longrightarrow> li_current it' = line_op_before obj tab op (li_registers it)) \<and>
           iter_at obj tab it' ops"
proof -
  let ?img = "storage obj"
  let ?e = "span_end (lt_data tab)"
  let ?rest = "concat (map line_op_bytes ops)"
  have ready: "cur_ready ?img ?e (cursor_between (li_pos it) ?e) (line_op_bytes op @ ?rest)"
    using assms(1) by (simp add: iter_at_def)
  define b where "b = hd (line_op_bytes op)"
  define bs where "bs = tl (line_op_bytes op)"
  have "line_op_bytes op = b # bs" unfolding b_def bs_def by (cases op) auto
  with ready obtain c where c: "cur_u8 ?img (cursor_between (li_pos it) ?e) = Inr (b, c)"
      "cur_ready ?img ?e c (bs @ ?rest)"
    using cur_ready_u8 [of ?img ?e _ b "bs @ ?rest"] by fastforce
  note defs = execute_instruction_def line_op_after_def c(1) b_def execute_standard_def assms(3,4)
    set_regs_def emit_row_def advance_address_def
  show ?thesis
  proof (cases op)
    case (Advance_pc n)
    then obtain c' where "cur_uleb128 ?img c = Inr (n, c')" "cur_ready ?img ?e c' ?rest"
      using c(2) cur_ready_uleb128 [of ?img ?e c n ?rest] by (auto simp: bs_def)
    with Advance_pc iter_atI show ?thesis by (auto simp: defs)
  next
    case (Advance_line v)
    then obtain c' where "cur_sleb128 ?img c = Inr (word_of_int v, c')" "cur_ready ?img ?e c' ?rest"
      using c(2) cur_ready_sleb128 [of ?img ?e c v ?rest] assms(2) by (auto simp: bs_def)
    with Advance_line iter_atI show ?thesis by (auto simp: defs)
  next
    case (Set_file n)
    then obtain c' where "cur_uleb128 ?img c = Inr (n, c')" "cur_ready ?img ?e c' ?rest"
      using c(2) cur_ready_uleb128 [of ?img ?e c n ?rest] by (auto simp: bs_def)
    with Set_file iter_atI show ?thesis by (auto simp: defs)
  next
    case (Set_column n)
    then obtain c' where "cur_uleb128 ?img c = Inr (n, c')" "cur_ready ?img ?e c' ?rest"
      using c(2) cur_ready_uleb128 [of ?img ?e c n ?rest] by (auto simp: bs_def)
    with Set_column iter_atI show ?thesis by (auto simp: defs)
  next
    case (Fixed_advance_pc n)
    then obtain c' where "cur_u16 ?img c = Inr (n, c')" "cur_ready ?img ?e c' ?rest"
      using c(2) cur_ready_u16 [of ?img ?e c "nat_le 2 (unat n)" ?rest]
      by (auto simp: bs_def from_bytes_u16)
    with Fixed_advance_pc iter_atI show ?thesis by (auto simp: defs)
  next
    case (Set_discriminator n)
    let ?len = "word_of_nat (1 + length (uleb_encode (unat n))) :: u64"
    obtain c1 where c1: "cur_uleb128 ?img c = Inr (?len, c1)"
        "cur_ready ?img ?e c1 (4 # uleb_encode (unat n) @ ?rest)"
      using c(2) cur_ready_uleb128 [of ?img ?e c ?len] Set_discriminator by (auto simp: bs_def)
    obtain c2 where c2: "cur_u8 ?img c1 = Inr (4, c2)" "cur_ready ?img ?e c2 (uleb_encode (unat n) @ ?rest)"
      using cur_ready_u8 [OF c1(2)] by blast
    obtain c3 where c3: "cur_uleb128 ?img c2 = Inr (n, c3)" "cur_ready ?img ?e c3 ?rest"
      using cur_ready_uleb128 [OF c2(2)] by blast
    with c1(1) c2(1) Set_discriminator iter_atI show ?thesis by (auto simp: defs execute_extended_def)
  next
    case (Set_address a)
    obtain c1 where c1: "cur_uleb128 ?img c = Inr (9, c1)" "cur_ready ?img ?e c1 (2 # nat_le 8 (unat a) @ ?rest)"
      using c(2) cur_ready_uleb128 [of ?img ?e c 9] Set_address by (auto simp: bs_def uleb_encode.simps)
    obtain c2 where c2: "cur_u8 ?img c1 = Inr (2, c2)" "cur_ready ?img ?e c2 (nat_le 8 (unat a) @ ?rest)"
      using cur_ready_u8 [OF c1(2)] by blast
    obtain c3 where c3: "cur_u64 ?img c2 = Inr (a, c3)" "cur_ready ?img ?e c3 ?rest"
      using cur_ready_u64 [OF c2(2)] by (auto simp: from_bytes_word)
    with c1(1) c2(1) Set_address iter_atI show ?thesis by (auto simp: defs execute_extended_def)
  next
    case End_sequence
    obtain c1 where c1: "cur_uleb128 ?img c = Inr (1, c1)" "cur_ready ?img ?e c1 (1 # ?rest)"
      using c(2) cur_ready_uleb128 [of ?img ?e c 1] End_sequence by (auto simp: bs_def uleb_encode.simps)
    obtain c2 where "cur_u8 ?img c1 = Inr (1, c2)" "cur_ready ?img ?e c2 ?rest"
      using cur_ready_u8 [OF c1(2)] by blast
    with c1(1) End_sequence iter_atI show ?thesis by (auto simp: defs execute_extended_def)
  next
    case (Special x)
    then have "0 < x" "\<not> x < 13" using assms(2) by (auto simp: word_le_nat_alt word_less_nat_alt)
    with Special c(2) iter_atI show ?thesis
      by (auto simp: defs bs_def execute_special_def Let_def)
  qed (use c(2) iter_atI in \<open>auto simp: defs bs_def\<close>)
qed

text \<open>A program that ends with the end of a sequence, as every line number program must.\<close>

definition program_ok :: "line_op list \<Rightarrow> bool" where
  "program_ok ops \<longleftrightarrow> list_all line_op_ok ops \<and> (ops = [] \<or> last ops = End_sequence)"

definition table_ok :: "line_table \<Rightarrow> bool" where
  "table_ok tab \<longleftrightarrow> opcode_base tab = 13 \<and> line_range tab \<noteq> 0"

lemma run_to_row_program:
  assumes "iter_at obj tab it ops" "program_ok ops" "ops \<noteq> []" "table_ok tab"
  shows "\<exists>it' ops'. run_to_row obj tab it = Inr (it', tab) \<and> iter_at obj tab it' ops' \<and>
           program_ok ops' \<and> length ops' < length ops \<and>
           program_rows obj tab (li_registers it) ops =
             with_file (li_current it') # program_rows obj tab (li_registers it') ops'"
  using assms(1-3)
proof (induction ops arbitrary: it)
  case (Cons op ops)
  have ok: "line_op_ok op" "program_ok ops"
    using Cons.prems(2) by (auto simp: program_ok_def split: if_splits)
  obtain it1 where x: "execute_instruction obj tab it = Inr (line_op_emits op, it1, tab)"
      "li_registers it1 = line_op_after obj tab op (li_registers it)"
      "line_op_emits op \<longrightarrow> li_current it1 = line_op_before obj tab op (li_registers it)"
      "iter_at obj tab it1 ops"
    using execute_line_op [OF Cons.prems(1) ok(1)] assms(4) by (auto simp: table_ok_def)
  show ?case
  proof (cases "line_op_emits op")
    case True
    with x ok show ?thesis by (subst run_to_row.simps) auto
  next
    case False
    then have "ops \<noteq> []" using Cons.prems(2) by (auto simp: program_ok_def)
    from Cons.IH [OF x(4) ok(2) this] obtain it' ops' where
      "run_to_row obj tab it1 = Inr (it', tab)" "iter_at obj tab it' ops'" "program_ok ops'"
      "length ops' < length ops" "program_rows obj tab (li_registers it1) ops =
        with_file (li_current it') # program_rows obj tab (li_registers it') ops'" by blast
    with False x(1,2) show ?thesis
      by (subst run_to_row.simps) (simp, metis less_SucI)
  qed
qed simp

definition rows_ok :: "elf \<Rightarrow> line_table \<Rightarrow> line_entry list \<Rightarrow> bool" where
  "rows_ok obj tab rows \<longleftrightarrow>
     list_all (\<lambda>r. unat (le_file_index r - 1) < length (file_names tab) \<and>
                   fa_elf (le_address r) = Some (elf_id obj)) rows"

lemma line_next_program:
  assumes "iter_at obj tab it ops" "program_ok ops" "ops \<noteq> []" "table_ok tab"
    "rows_ok obj tab (program_rows obj tab (li_registers it) ops)"
  shows "\<exists>it' ops'. line_next obj tab it = Inr (it', tab) \<and> iter_at obj tab it' ops' \<and>
           program_ok ops' \<and> length ops' < length ops \<and>
           program_rows obj tab (li_registers it) ops =
             li_current it' # program_rows obj tab (li_registers it') ops'"
proof -
  obtain b bs where "concat (map line_op_bytes ops) = b # bs"
    using assms(3) by (cases ops; cases "hd ops") auto
  then have pos: "li_pos it \<noteq> span_end (lt_data tab)"
    using assms(1) cur_ready_Cons [of "storage obj" "span_end (lt_data tab)" _ b bs]
    by (fastforce simp: iter_at_def cursor_between_def)
  obtain it1 ops' where r: "run_to_row obj tab it = Inr (it1, tab)" "iter_at obj tab it1 ops'"
      "program_ok ops'" "length ops' < length ops"
      "program_rows obj tab (li_registers it) ops =
        with_file (li_current it1) # program_rows obj tab (li_registers it1) ops'"
    using run_to_row_program [OF assms(1-4)] by blast
  let ?it = "it1\<lparr>li_current := with_file (li_current it1)\<rparr>"
  have "unat (le_file_index (li_current it1) - 1) < length (file_names tab)"
    using assms(5) r(5) by (simp add: rows_ok_def with_file_def)
  then have "line_next obj tab it = Inr (?it, tab)"
    using pos r(1) by (simp add: line_next_def Let_def with_file_def)
  moreover have "iter_at obj tab ?it ops'" using r(2) by (simp add: iter_at_def)
  ultimately show ?thesis using r(3-5) by (intro exI [of _ ?it] exI [of _ ops']) simp
qed

lemma line_next_end:
  assumes "iter_at obj tab it []"
  shows "line_next obj tab it = Inr (it\<lparr>li_pos := None\<rparr>, tab)"
  using assms cur_ready_Nil [of "storage obj" "span_end (lt_data tab)"]
  by (fastforce simp: iter_at_def line_next_def cursor_between_def)

lemma iter_at_pos: "iter_at obj tab it ops \<Longrightarrow> li_pos it \<noteq> None"
  by (auto simp: iter_at_def cur_ready_def cursor_between_def)

definition lookup_rows :: "u64 \<Rightarrow> line_entry list \<Rightarrow> line_entry option" where
  "lookup_rows a rows =
     map_option fst (find (\<lambda>(x, y). fa_addr (le_address x) \<le> a \<and> a < fa_addr (le_address y) \<and>
                                   \<not> le_end_sequence x) (zip rows (tl rows)))"

lemma lookup_rows_simps:
  "lookup_rows a [x] = None"
  "lookup_rows a (x # y # rows) =
     (if fa_addr (le_address x) \<le> a \<and> a < fa_addr (le_address y) \<and> \<not> le_end_sequence x then Some x
      else lookup_rows a (y # rows))"
  by (auto simp: lookup_rows_def)

lemma find_entry_program:
  assumes "iter_at obj tab it ops" "program_ok ops" "table_ok tab" "fa_elf a = Some (elf_id obj)"
    "rows_ok obj tab (li_current prev # li_current it # program_rows obj tab (li_registers it) ops)"
  shows "\<exists>r. find_entry obj a tab prev it = Inr (r, tab) \<and>
           map_option li_current r = lookup_rows (fa_addr a)
             (li_current prev # li_current it # program_rows obj tab (li_registers it) ops)"
  using assms(1,2,5)
proof (induction "length ops" arbitrary: it prev ops rule: less_induct)
  case less
  let ?hit = "fa_addr (le_address (li_current prev)) \<le> fa_addr a \<and>
    fa_addr a < fa_addr (le_address (li_current it)) \<and> \<not> le_end_sequence (li_current prev)"
  have e: "fa_elf (le_address (li_current prev)) = fa_elf a" "fa_elf (le_address (li_current it)) = fa_elf a"
    using less.prems(3) assms(4) by (auto simp: rows_ok_def)
  have step: "find_entry obj a tab prev it =
      (if ?hit then Inr (Some prev, tab)
       else bind_res (line_next obj tab it) (\<lambda>(it', tab'). find_entry obj a tab' it it'))"
    using iter_at_pos [OF less.prems(1)] e
    by (subst find_entry.simps) (auto simp: file_addr_le_def file_addr_less_def)
  show ?case
  proof (cases ?hit)
    case True
    with step show ?thesis by (simp add: lookup_rows_simps)
  next
    case False
    show ?thesis
    proof (cases "ops = []")
      case True
      then have "find_entry obj a tab prev it = Inr (None, tab)"
        using step False line_next_end [of obj tab it] less.prems(1)
        by (auto simp: find_entry.simps)
      with True False show ?thesis by (auto simp: lookup_rows_simps)
    next
      case ne: False
      have "rows_ok obj tab (program_rows obj tab (li_registers it) ops)"
        using less.prems(3) by (simp add: rows_ok_def)
      then obtain it' ops' where n: "line_next obj tab it = Inr (it', tab)" "iter_at obj tab it' ops'"
          "program_ok ops'" "length ops' < length ops"
          "program_rows obj tab (li_registers it) ops =
            li_current it' # program_rows obj tab (li_registers it') ops'"
        using line_next_program [OF less.prems(1,2) ne assms(3)] by blast
      have "rows_ok obj tab (li_current it # li_current it' # program_rows obj tab (li_registers it') ops')"
        using less.prems(3) n(5) by (simp add: rows_ok_def)
      from less.hyps [OF n(4,2,3) this] step False n(1,5) show ?thesis
        by (auto simp: lookup_rows_simps)
    qed
  qed
qed

lemma line_next_file_entry:
  "line_next obj tab it = Inr (it', tab') \<Longrightarrow> li_pos it' \<noteq> None \<Longrightarrow>
   le_file_entry (li_current it') = Some (unat (le_file_index (li_current it') - 1))"
  by (auto simp: line_next_def Let_def res_simps split: if_splits)

definition start_iter :: "line_table \<Rightarrow> line_iter" where
  "start_iter tab = \<lparr>li_current = initial_entry False,
     li_registers = initial_entry (default_is_stmt tab), li_pos = sp_data (lt_data tab)\<rparr>"

lemma line_begin_program:
  assumes "cur_ready (storage obj) (span_end (lt_data tab)) (cursor_of (lt_data tab))
      (concat (map line_op_bytes ops))"
    "program_ok ops" "table_ok tab"
    "rows_ok obj tab (program_rows obj tab (initial_entry (default_is_stmt tab)) ops)"
  shows "ops = [] \<and> line_begin obj tab = Inr (start_iter tab\<lparr>li_pos := None\<rparr>, tab) \<or>
    (\<exists>it ops'. line_begin obj tab = Inr (it, tab) \<and> iter_at obj tab it ops' \<and> program_ok ops' \<and>
       program_rows obj tab (initial_entry (default_is_stmt tab)) ops =
         li_current it # program_rows obj tab (li_registers it) ops')"
proof -
  have b: "line_begin obj tab = line_next obj tab (start_iter tab)"
    by (simp add: line_begin_def start_iter_def)
  have i: "iter_at obj tab (start_iter tab) ops"
    using iter_atI [OF assms(1), of "start_iter tab"] by (simp add: start_iter_def cursor_of_def)
  have r: "li_registers (start_iter tab) = initial_entry (default_is_stmt tab)"
    by (simp add: start_iter_def)
  show ?thesis
  proof (cases "ops = []")
    case True
    with i line_next_end b show ?thesis by simp
  next
    case False
    from line_next_program [OF i assms(2) this assms(3)] assms(4) b r show ?thesis by auto
  qed
qed

lemma entries_from_program:
  assumes "iter_at obj tab it ops" "program_ok ops" "table_ok tab"
    "rows_ok obj tab (li_current it # program_rows obj tab (li_registers it) ops)"
    "le_file_entry (li_current it) = Some (unat (le_file_index (li_current it) - 1))"
  shows "\<exists>its. entries_from obj path line tab it = Inr its \<and>
           map li_current its = filter (\<lambda>r. entry_matches tab path line r = Inr True)
             (li_current it # program_rows obj tab (li_registers it) ops)"
  using assms(1,2,4,5)
proof (induction "length ops" arbitrary: it ops rule: less_induct)
  case less
  obtain hit where hit: "entry_matches tab path line (li_current it) = Inr hit"
    using less.prems(3,4) by (simp add: entry_matches_def rows_ok_def Let_def)
  have step: "entries_from obj path line tab it =
      bind_res (line_next obj tab it) (\<lambda>(it', tab').
        bind_res (entries_from obj path line tab' it') (\<lambda>its. Inr (if hit then it # its else its)))"
    using iter_at_pos [OF less.prems(1)] hit by (subst entries_from.simps) auto
  show ?case
  proof (cases "ops = []")
    case True
    then have "line_next obj tab it = Inr (it\<lparr>li_pos := None\<rparr>, tab)"
      using line_next_end less.prems(1) by simp
    with step True hit show ?thesis by (simp add: entries_from.simps)
  next
    case ne: False
    have "rows_ok obj tab (program_rows obj tab (li_registers it) ops)"
      using less.prems(3) by (simp add: rows_ok_def)
    then obtain it' ops' where n: "line_next obj tab it = Inr (it', tab)" "iter_at obj tab it' ops'"
        "program_ok ops'" "length ops' < length ops"
        "program_rows obj tab (li_registers it) ops =
          li_current it' # program_rows obj tab (li_registers it') ops'"
      using line_next_program [OF less.prems(1,2) ne assms(3)] by blast
    have "rows_ok obj tab (li_current it' # program_rows obj tab (li_registers it') ops')"
      using less.prems(3) n(5) by (simp add: rows_ok_def)
    moreover have "le_file_entry (li_current it') = Some (unat (le_file_index (li_current it') - 1))"
      using line_next_file_entry [OF n(1) iter_at_pos [OF n(2)]] .
    ultimately obtain its where "entries_from obj path line tab it' = Inr its"
        "map li_current its = filter (\<lambda>r. entry_matches tab path line r = Inr True)
          (li_current it' # program_rows obj tab (li_registers it') ops')"
      using less.hyps [OF n(4,2,3)] by blast
    with step n(1,5) hit show ?thesis by auto
  qed
qed

section \<open>Properties\<close>

text \<open>
  C25: looking up an address in a line table.  Where the data of a table encodes a line number
  program that ends its last sequence, the program uses files of the table and sets an address
  of the object before each row, \<open>get_entry_by_address\<close> ends without an error and returns the
  first row of the program that is not the end of a sequence, lies at or below the address and
  is followed by a row above it; it returns the end iterator when there is none.
\<close>

theorem line_lookup_correct:
  assumes "cur_ready (storage obj) (span_end (lt_data tab)) (cursor_of (lt_data tab))
      (concat (map line_op_bytes ops))"
    "program_ok ops" "table_ok tab" "fa_elf a = Some (elf_id obj)"
    "rows_ok obj tab (program_rows obj tab (initial_entry (default_is_stmt tab)) ops)"
  shows "\<exists>r. get_entry_by_address obj tab a = Inr (r, tab) \<and>
           map_option li_current r = lookup_rows (fa_addr a)
             (program_rows obj tab (initial_entry (default_is_stmt tab)) ops)"
proof -
  let ?rows = "program_rows obj tab (initial_entry (default_is_stmt tab)) ops"
  consider (none) "ops = []" "line_begin obj tab = Inr (start_iter tab\<lparr>li_pos := None\<rparr>, tab)"
    | (row) it ops' where "line_begin obj tab = Inr (it, tab)" "iter_at obj tab it ops'"
      "program_ok ops'" "?rows = li_current it # program_rows obj tab (li_registers it) ops'"
    using line_begin_program [OF assms(1-3,5)] by blast
  then show ?thesis
  proof cases
    case none
    then show ?thesis by (simp add: get_entry_by_address_def lookup_rows_def)
  next
    case (row it ops')
    note pos = iter_at_pos [OF row(2)]
    show ?thesis
    proof (cases "ops' = []")
      case True
      with row pos line_next_end [of obj tab it] show ?thesis
        by (auto simp: get_entry_by_address_def find_entry.simps lookup_rows_simps)
    next
      case False
      have "rows_ok obj tab (program_rows obj tab (li_registers it) ops')"
        using assms(5) row(4) by (simp add: rows_ok_def)
      then obtain it' ops'' where n: "line_next obj tab it = Inr (it', tab)" "iter_at obj tab it' ops''"
          "program_ok ops''" "program_rows obj tab (li_registers it) ops' =
            li_current it' # program_rows obj tab (li_registers it') ops''"
        using line_next_program [OF row(2,3) False assms(3)] by blast
      have "rows_ok obj tab (li_current it # li_current it' # program_rows obj tab (li_registers it') ops'')"
        using assms(5) row(4) n(4) by simp
      from find_entry_program [OF n(2,3) assms(3,4) this] row(1,4) n(1,4) pos show ?thesis
        by (auto simp: get_entry_by_address_def)
    qed
  qed
qed

definition demo_program :: "line_op list" where
  "demo_program = [Set_address 0x3000, Advance_line 9, Copy, Set_column 4, Special 0x4b, Advance_pc 6,
     End_sequence]"

definition demo_line_elf :: elf where
  "demo_line_elf = demo_elf\<lparr>storage := concat (map line_op_bytes demo_program)\<rparr>"

definition demo_line_table :: line_table where
  "demo_line_table = \<lparr>lt_data = \<lparr>sp_data = Some 0, sp_size = 22\<rparr>, lt_cu = demo_unit,
     default_is_stmt = True, line_base = - 5, line_range = 14, opcode_base = 13,
     include_directories = [],
     file_names = [\<lparr>lf_path = ''/src/a.cpp'', lf_modification_time = 0, lf_length = 0\<rparr>]\<rparr>"

lemma demo_program_bytes:
  "concat (map line_op_bytes demo_program) =
     [0, 9, 2, 0, 0x30, 0, 0, 0, 0, 0, 0, 3, 9, 1, 5, 4, 0x4b, 2, 6, 0, 1, 1]"
  by (simp add: demo_program_def uleb_encode.simps sleb_encode.simps nat_le_numeral)

lemma demo_line_hyps:
  "cur_ready (storage demo_line_elf) (span_end (lt_data demo_line_table))
     (cursor_of (lt_data demo_line_table)) (concat (map line_op_bytes demo_program))"
  "program_ok demo_program" "table_ok demo_line_table"
  unfolding demo_line_elf_def demo_program_bytes
  by (simp_all add: cur_ready_def cur_wf_def cur_rest_def cursor_of_def span_end_def
      demo_line_table_def program_ok_def table_ok_def demo_program_def)

definition demo_row :: "u64 \<Rightarrow> u64 \<Rightarrow> u64 \<Rightarrow> bool \<Rightarrow> line_entry" where
  "demo_row a l c fin = (initial_entry True)\<lparr>le_address := elf_file_addr demo_line_elf a,
     le_line := l, le_column := c, le_end_sequence := fin, le_file_entry := Some 0\<rparr>"

lemma demo_rows:
  "program_rows demo_line_elf demo_line_table (initial_entry (default_is_stmt demo_line_table)) demo_program =
     [demo_row 0x3000 10 0 False, demo_row 0x3004 11 4 False, demo_row 0x300a 11 4 True]"
  by (simp add: demo_program_def demo_line_table_def demo_row_def line_op_after_def with_file_def
      initial_entry_def clear_flags_def elf_file_addr_def file_addr_add_def)

lemma demo_rows_ok:
  "rows_ok demo_line_elf demo_line_table (program_rows demo_line_elf demo_line_table
     (initial_entry (default_is_stmt demo_line_table)) demo_program)"
  unfolding demo_rows
  by (simp add: rows_ok_def demo_row_def initial_entry_def elf_file_addr_def demo_line_table_def)

theorem line_lookup_correct_witness:
  "\<exists>r. get_entry_by_address demo_line_elf demo_line_table (elf_file_addr demo_line_elf 0x3002) =
         Inr (Some r, demo_line_table) \<and> le_line (li_current r) = 10"
proof -
  have "fa_elf (elf_file_addr demo_line_elf 0x3002) = Some (elf_id demo_line_elf)"
    by (simp add: elf_file_addr_def)
  from line_lookup_correct [OF demo_line_hyps this demo_rows_ok] show ?thesis
    unfolding demo_rows
    by (auto simp: lookup_rows_simps demo_row_def initial_entry_def elf_file_addr_def)
qed

text \<open>
  Looking up a source line.  Under the same conditions \<open>get_entries_by_line\<close> returns, in
  program order, exactly the rows of the program with that line whose file is the given path
  (for an absolute path) or ends in its elements (for a relative one).
\<close>

theorem line_entries_correct:
  assumes "cur_ready (storage obj) (span_end (lt_data tab)) (cursor_of (lt_data tab))
      (concat (map line_op_bytes ops))"
    "program_ok ops" "table_ok tab"
    "rows_ok obj tab (program_rows obj tab (initial_entry (default_is_stmt tab)) ops)"
  shows "\<exists>its. get_entries_by_line obj tab path line = Inr its \<and>
           map li_current its = filter (\<lambda>r. entry_matches tab path line r = Inr True)
             (program_rows obj tab (initial_entry (default_is_stmt tab)) ops)"
proof -
  let ?rows = "program_rows obj tab (initial_entry (default_is_stmt tab)) ops"
  consider (none) "ops = []" "line_begin obj tab = Inr (start_iter tab\<lparr>li_pos := None\<rparr>, tab)"
    | (row) it ops' where "line_begin obj tab = Inr (it, tab)" "iter_at obj tab it ops'"
      "program_ok ops'" "?rows = li_current it # program_rows obj tab (li_registers it) ops'"
    using line_begin_program [OF assms] by blast
  then show ?thesis
  proof cases
    case none
    then show ?thesis by (simp add: get_entries_by_line_def entries_from.simps)
  next
    case (row it ops')
    have f: "le_file_entry (li_current it) = Some (unat (le_file_index (li_current it) - 1))"
      using row(1) iter_at_pos [OF row(2)] line_next_file_entry unfolding line_begin_def by blast
    have "rows_ok obj tab (li_current it # program_rows obj tab (li_registers it) ops')"
      using assms(4) row(4) by simp
    from entries_from_program [OF row(2,3) assms(3) this f] row(1,4) show ?thesis
      by (auto simp: get_entries_by_line_def)
  qed
qed

theorem line_entries_correct_witness:
  "\<exists>its. get_entries_by_line demo_line_elf demo_line_table ''a.cpp'' 11 = Inr its \<and> length its = 2"
proof -
  have f: "path_ends_in ''/src/a.cpp'' ''a.cpp''"
    by (simp add: path_ends_in_def path_elements_def is_absolute_def path_names.simps)
  have "filter (\<lambda>r. entry_matches demo_line_table ''a.cpp'' 11 r = Inr True)
      [demo_row 0x3000 10 0 False, demo_row 0x3004 11 4 False, demo_row 0x300a 11 4 True] =
      [demo_row 0x3004 11 4 False, demo_row 0x300a 11 4 True]"
    using f by (simp add: entry_matches_def demo_row_def demo_line_table_def initial_entry_def
        is_absolute_def Let_def)
  with line_entries_correct [OF demo_line_hyps demo_rows_ok, of "''a.cpp''" 11] show ?thesis
    unfolding demo_rows by (metis length_Cons length_map list.size(3) numeral_2_eq_2)
qed

text \<open>
  \<open>DW_LNS_set_isa\<close> is decoded without its operand.  The standard gives the opcode one
  unsigned LEB128 operand, and the header check accepts only tables that declare it so, but the
  operand byte is left in the program and executed as the next instruction: after setting
  instruction set 1 the iterator emits a row that the program does not contain.
\<close>

theorem set_isa_operand_executed:
  "\<exists>obj tab it it1 it2. storage obj = [DW_LNS_set_isa, 1] \<and>
     execute_instruction obj tab it = Inr (False, it1, tab) \<and> li_registers it1 = li_registers it \<and>
     execute_instruction obj tab it1 = Inr (True, it2, tab)"
proof (intro exI conjI)
  let ?obj = "demo_elf\<lparr>storage := [DW_LNS_set_isa, 1]\<rparr>"
  let ?tab = "demo_line_table\<lparr>lt_data := \<lparr>sp_data = Some 0, sp_size = 2\<rparr>\<rparr>"
  let ?it = "start_iter ?tab"
  let ?it1 = "?it\<lparr>li_pos := Some 1\<rparr>"
  note defs = execute_instruction_def execute_standard_def cur_u8_def fixed_int_def fixed_bytes_def
    read_bytes_def from_bytes_def cursor_between_def span_of_ptrs_def span_end_def cur_left_def
    demo_line_table_def start_iter_def emit_row_def
  show "storage ?obj = [DW_LNS_set_isa, 1]" by simp
  show "execute_instruction ?obj ?tab ?it = Inr (False, ?it1, ?tab)" by (simp add: defs)
  show "li_registers ?it1 = li_registers ?it" by simp
  show "execute_instruction ?obj ?tab ?it1 = Inr (True, (emit_row ?it1)\<lparr>li_pos := Some 2\<rparr>, ?tab)"
    by (simp add: defs)
qed

end
