(* ===== verification/Dwarf_Index.thy ===== *)
theory Dwarf_Index
  imports Line_Table
begin

text \<open>
  The debugging information of an object file as a whole: the list of its units, the index of
  functions, variables and member functions, and the queries by name and by address
  (\<^verbatim>\<open>src/src/dwarf.cpp\<close>, class \<open>dwarf\<close>).

  The index is built on first use and is state that survives an exception thrown while it is
  built, so the indexing functions return the index together with their result.  The unordered
  containers are association lists; where the code depends on their iteration order the lemmas
  hold for every order.
\<close>

section \<open>Units\<close>

record compile_unit =
  unit_header :: cu_header
  unit_lines :: "line_table option"

definition make_compile_unit :: "elf \<Rightarrow> cu_header \<Rightarrow> compile_unit result" where
  "make_compile_unit obj h =
     bind_res (parse_line_table obj h) (\<lambda>lines. Inr \<lparr>unit_header = h, unit_lines = lines\<rparr>)"

text \<open>
  The loop over \<open>.debug_info\<close> moves by the size of each unit, which the addition of four to the
  32-bit length can wrap to zero; it carries fuel, and \<open>None\<close> means that it has not returned.
\<close>

fun parse_compile_units_loop :: "nat \<Rightarrow> elf \<Rightarrow> cursor \<Rightarrow> compile_unit list result option" where
  "parse_compile_units_loop 0 obj c = None"
| "parse_compile_units_loop (Suc n) obj c =
     (if cur_finished c then Some (Inr [])
      else
        case bind_res (parse_compile_unit obj c) (\<lambda>h.
             bind_res (make_compile_unit obj h) (\<lambda>u.
             bind_res (cur_advance (sp_size (cu_data h)) c) (\<lambda>c'. Inr (u, c'))))
        of Inl e \<Rightarrow> Some (Inl e)
         | Inr (u, c') \<Rightarrow>
             map_option (\<lambda>r. bind_res r (\<lambda>us. Inr (u # us))) (parse_compile_units_loop n obj c'))"

definition parse_compile_units :: "nat \<Rightarrow> elf \<Rightarrow> compile_unit list result option" where
  "parse_compile_units n obj =
     parse_compile_units_loop n obj (cursor_of (get_section_contents obj ''.debug_info''))"

record dwarf =
  dw_elf :: elf
  dw_units :: "compile_unit list"

definition dw_headers :: "dwarf \<Rightarrow> cu_header list" where
  "dw_headers dw = map unit_header (dw_units dw)"

fun unit_containing :: "elf \<Rightarrow> compile_unit list \<Rightarrow> file_addr \<Rightarrow> compile_unit option result" where
  "unit_containing obj [] a = Inr None"
| "unit_containing obj (u # us) a =
     bind_res (root obj (unit_header u)) (\<lambda>r.
     bind_res (contains_address obj r a) (\<lambda>hit.
     if hit then Inr (Some u) else unit_containing obj us a))"

definition compile_unit_containing_address :: "dwarf \<Rightarrow> file_addr \<Rightarrow> compile_unit option result" where
  "compile_unit_containing_address dw a = unit_containing (dw_elf dw) (dw_units dw) a"

definition line_entry_at_address :: "dwarf \<Rightarrow> file_addr \<Rightarrow> line_iter option result" where
  "line_entry_at_address dw a =
     bind_res (compile_unit_containing_address dw a) (\<lambda>cu.
     case cu of
       None \<Rightarrow> Inr None
     | Some u \<Rightarrow>
         (case unit_lines u of
            None \<Rightarrow> undefined_behaviour ''null line table''
          | Some tab \<Rightarrow> bind_res (get_entry_by_address (dw_elf dw) tab a) (\<lambda>(it, _). Inr it)))"

section \<open>Loops over children\<close>

text \<open>
  A loop over the children of an entry whose body updates a state and may leave the loop; the
  next sibling is only looked for when the body has not left it.
\<close>

fun fold_siblings ::
  "nat \<Rightarrow> elf \<Rightarrow> ('s \<Rightarrow> die \<Rightarrow> ('s \<times> bool) result) \<Rightarrow> 's \<Rightarrow> die \<Rightarrow> 's result" where
  "fold_siblings 0 obj f s c = Inl Out_Of_Fuel"
| "fold_siblings (Suc n) obj f s c =
     (if die_abbrev c = None then Inr s
      else bind_res (f s c) (\<lambda>(s', leave).
           if leave then Inr s'
           else bind_res (sibling n obj c) (fold_siblings n obj f s')))"

definition fold_children ::
  "nat \<Rightarrow> elf \<Rightarrow> ('s \<Rightarrow> die \<Rightarrow> ('s \<times> bool) result) \<Rightarrow> 's \<Rightarrow> die \<Rightarrow> 's result" where
  "fold_children n obj f s d = bind_res (first_child obj d) (fold_siblings n obj f s)"

definition die_tag :: "die \<Rightarrow> u64 result" where
  "die_tag d =
     (case die_abbrev d of
        None \<Rightarrow> undefined_behaviour ''null abbreviation''
      | Some ab \<Rightarrow> Inr (ab_tag ab))"

section \<open>The index\<close>

record index_entry =
  ie_cu :: cu_header
  ie_pos :: ptr

record dwarf_index =
  function_index :: "(string \<times> index_entry) list"
  global_variable_index :: "(string \<times> index_entry) list"
  member_function_index :: "ptr \<Rightarrow> index_entry option"

definition empty_index :: dwarf_index where
  "empty_index = \<lparr>function_index = [], global_variable_index = [], member_function_index = Map.empty\<rparr>"

type_synonym 'a indexing = "dwarf_index \<Rightarrow> 'a result \<times> dwarf_index"

definition idx_return :: "'a result \<Rightarrow> 'a indexing" where
  "idx_return r st = (r, st)"

definition idx_modify :: "(dwarf_index \<Rightarrow> dwarf_index) \<Rightarrow> unit indexing" where
  "idx_modify f st = (Inr (), f st)"

definition idx_bind :: "'a indexing \<Rightarrow> ('a \<Rightarrow> 'b indexing) \<Rightarrow> 'b indexing" where
  "idx_bind m f st =
     (case m st of (Inl e, st') \<Rightarrow> (Inl e, st') | (Inr x, st') \<Rightarrow> f x st')"

definition die_entry :: "die \<Rightarrow> index_entry result" where
  "die_entry d =
     (case die_cu d of
        None \<Rightarrow> undefined_behaviour ''null unit''
      | Some cu \<Rightarrow> Inr \<lparr>ie_cu = cu, ie_pos = die_pos d\<rparr>)"

definition is_function_tag :: "u64 \<Rightarrow> bool" where
  "is_function_tag tag \<longleftrightarrow> tag = DW_TAG_subprogram \<or> tag = DW_TAG_inlined_subroutine"

definition die_has_range :: "die \<Rightarrow> bool result" where
  "die_has_range d =
     bind_res (die_contains d DW_AT_low_pc) (\<lambda>low.
     bind_res (die_contains d DW_AT_ranges) (\<lambda>ranges. Inr (low \<or> ranges)))"

definition index_function :: "nat \<Rightarrow> elf \<Rightarrow> cu_header list \<Rightarrow> die \<Rightarrow> unit indexing" where
  "index_function n obj cus d =
     idx_bind (idx_return (die_has_range d)) (\<lambda>has_range.
     idx_bind (idx_return (die_tag d)) (\<lambda>tag.
     if has_range \<and> is_function_tag tag then
       idx_bind (idx_return (die_name n obj cus d)) (\<lambda>name.
       case name of
         None \<Rightarrow> idx_return (Inr ())
       | Some s \<Rightarrow>
           idx_bind (idx_return (die_entry d)) (\<lambda>e.
           idx_modify (\<lambda>st. st\<lparr>function_index := (s, e) # function_index st\<rparr>)))
     else idx_return (Inr ())))"

definition insert_member :: "ptr \<Rightarrow> index_entry \<Rightarrow> dwarf_index \<Rightarrow> dwarf_index" where
  "insert_member p e st =
     (if member_function_index st p = None
      then st\<lparr>member_function_index := (member_function_index st)(p \<mapsto> e)\<rparr> else st)"

definition index_reference :: "elf \<Rightarrow> cu_header list \<Rightarrow> die \<Rightarrow> u64 \<Rightarrow> unit indexing" where
  "index_reference obj cus d attribute =
     idx_bind (idx_return (die_entry d)) (\<lambda>e.
     idx_bind (idx_return (bind_res (die_attr d attribute) (as_reference obj cus))) (\<lambda>target.
     idx_modify (insert_member (die_pos target) e)))"

definition index_member :: "elf \<Rightarrow> cu_header list \<Rightarrow> die \<Rightarrow> unit indexing" where
  "index_member obj cus d =
     idx_bind (idx_return (die_tag d)) (\<lambda>tag.
     if is_function_tag tag then
       idx_bind (idx_return (die_contains d DW_AT_specification)) (\<lambda>spec.
       if spec then index_reference obj cus d DW_AT_specification
       else
         idx_bind (idx_return (die_contains d DW_AT_abstract_origin)) (\<lambda>origin.
         if origin then index_reference obj cus d DW_AT_abstract_origin
         else idx_return (Inr ())))
     else idx_return (Inr ()))"

definition index_variable :: "nat \<Rightarrow> elf \<Rightarrow> cu_header list \<Rightarrow> bool \<Rightarrow> die \<Rightarrow> unit indexing" where
  "index_variable n obj cus in_function d =
     idx_bind (idx_return (die_contains d DW_AT_location)) (\<lambda>has_location.
     idx_bind (idx_return (die_tag d)) (\<lambda>tag.
     if has_location \<and> tag = DW_TAG_variable \<and> \<not> in_function then
       idx_bind (idx_return (die_name n obj cus d)) (\<lambda>name.
       case name of
         None \<Rightarrow> idx_return (Inr ())
       | Some s \<Rightarrow>
           idx_bind (idx_return (die_entry d)) (\<lambda>e.
           idx_modify (\<lambda>st. st\<lparr>global_variable_index := (s, e) # global_variable_index st\<rparr>)))
     else idx_return (Inr ())))"

fun index_die :: "nat \<Rightarrow> elf \<Rightarrow> cu_header list \<Rightarrow> bool \<Rightarrow> die \<Rightarrow> unit indexing"
  and index_siblings :: "nat \<Rightarrow> elf \<Rightarrow> cu_header list \<Rightarrow> bool \<Rightarrow> die \<Rightarrow> unit indexing" where
  "index_die 0 obj cus in_function d = idx_return (Inl Out_Of_Fuel)"
| "index_die (Suc n) obj cus in_function d =
     idx_bind (index_function n obj cus d) (\<lambda>_.
     idx_bind (index_member obj cus d) (\<lambda>_.
     idx_bind (index_variable n obj cus in_function d) (\<lambda>_.
     idx_bind (idx_return (die_tag d)) (\<lambda>tag.
     idx_bind (idx_return (first_child obj d)) (\<lambda>c.
     index_siblings n obj cus (in_function \<or> is_function_tag tag) c)))))"
| "index_siblings 0 obj cus in_function c = idx_return (Inl Out_Of_Fuel)"
| "index_siblings (Suc n) obj cus in_function c =
     (if die_abbrev c = None then idx_return (Inr ())
      else idx_bind (index_die n obj cus in_function c) (\<lambda>_.
           idx_bind (idx_return (sibling n obj c)) (\<lambda>c'.
           index_siblings n obj cus in_function c')))"

fun index_units :: "nat \<Rightarrow> elf \<Rightarrow> cu_header list \<Rightarrow> cu_header list \<Rightarrow> unit indexing" where
  "index_units n obj cus [] = idx_return (Inr ())"
| "index_units n obj cus (h # hs) =
     idx_bind (idx_return (root obj h)) (\<lambda>r.
     idx_bind (index_die n obj cus False r) (\<lambda>_. index_units n obj cus hs))"

definition index :: "nat \<Rightarrow> dwarf \<Rightarrow> unit indexing" where
  "index n dw st =
     (if function_index st \<noteq> [] then (Inr (), st)
      else index_units n (dw_elf dw) (dw_headers dw) (dw_headers dw) st)"

section \<open>Queries\<close>

definition entry_die :: "elf \<Rightarrow> index_entry \<Rightarrow> die result" where
  "entry_die obj e = die_at obj (ie_cu e) (ie_pos e)"

fun first_function_containing ::
  "elf \<Rightarrow> (string \<times> index_entry) list \<Rightarrow> file_addr \<Rightarrow> die option result" where
  "first_function_containing obj [] a = Inr None"
| "first_function_containing obj ((name, e) # es) a =
     bind_res (entry_die obj e) (\<lambda>d.
     bind_res (contains_address obj d a) (\<lambda>hit.
     bind_res (if hit then die_tag d else Inr 0) (\<lambda>tag.
     if hit \<and> tag = DW_TAG_subprogram then Inr (Some d)
     else first_function_containing obj es a)))"

definition function_containing_address :: "nat \<Rightarrow> dwarf \<Rightarrow> file_addr \<Rightarrow> die option indexing" where
  "function_containing_address n dw a =
     idx_bind (index n dw) (\<lambda>_ st.
     (first_function_containing (dw_elf dw) (function_index st) a, st))"

definition find_functions :: "nat \<Rightarrow> dwarf \<Rightarrow> string \<Rightarrow> die list indexing" where
  "find_functions n dw name =
     idx_bind (index n dw) (\<lambda>_ st.
     (map_res (entry_die (dw_elf dw)) (map snd (filter (\<lambda>(s, e). s = name) (function_index st))), st))"

definition find_global_variable :: "nat \<Rightarrow> dwarf \<Rightarrow> string \<Rightarrow> die option indexing" where
  "find_global_variable n dw name =
     idx_bind (index n dw) (\<lambda>_ st.
     (case map_of (global_variable_index st) name of
        None \<Rightarrow> Inr None
      | Some e \<Rightarrow> bind_res (entry_die (dw_elf dw) e) (\<lambda>d. Inr (Some d)), st))"

text \<open>The search for a definition follows declarations and may run in a circle.\<close>

fun get_member_function_definition :: "nat \<Rightarrow> dwarf \<Rightarrow> die \<Rightarrow> die option indexing" where
  "get_member_function_definition 0 dw declaration = idx_return (Inl Out_Of_Fuel)"
| "get_member_function_definition (Suc n) dw declaration =
     idx_bind (index n dw) (\<lambda>_ st.
     case member_function_index st (die_pos declaration) of
       None \<Rightarrow> (Inr None, st)
     | Some e \<Rightarrow>
         idx_bind (idx_return (entry_die (dw_elf dw) e)) (\<lambda>d.
         idx_bind (idx_return (die_has_range d)) (\<lambda>has_range.
         if has_range then idx_return (Inr (Some d))
         else get_member_function_definition n dw d)) st)"

text \<open>Inlined calls at an address: descend into the first inlined child that covers it.\<close>

definition inlined_child :: "nat \<Rightarrow> elf \<Rightarrow> file_addr \<Rightarrow> die \<Rightarrow> die option result" where
  "inlined_child n obj a d =
     fold_children n obj (\<lambda>_ c.
       bind_res (die_tag c) (\<lambda>tag.
       if tag = DW_TAG_inlined_subroutine then
         bind_res (contains_address obj c a) (\<lambda>hit.
         Inr (if hit then Some c else None, hit))
       else Inr (None, False))) None d"

fun inline_stack_from :: "nat \<Rightarrow> elf \<Rightarrow> file_addr \<Rightarrow> die \<Rightarrow> die list result" where
  "inline_stack_from 0 obj a d = Inl Out_Of_Fuel"
| "inline_stack_from (Suc n) obj a d =
     bind_res (inlined_child n obj a d) (\<lambda>found.
     case found of
       None \<Rightarrow> Inr [d]
     | Some c \<Rightarrow> bind_res (inline_stack_from n obj a c) (\<lambda>stack. Inr (d # stack)))"

definition inline_stack_at_address :: "nat \<Rightarrow> dwarf \<Rightarrow> file_addr \<Rightarrow> die list indexing" where
  "inline_stack_at_address n dw a =
     idx_bind (function_containing_address n dw a) (\<lambda>func.
     idx_return
       (case func of
          None \<Rightarrow> Inr []
        | Some d \<Rightarrow> inline_stack_from n (dw_elf dw) a d))"

fun scopes_in_die :: "nat \<Rightarrow> elf \<Rightarrow> file_addr \<Rightarrow> die list \<Rightarrow> die \<Rightarrow> die list result" where
  "scopes_in_die 0 obj a scopes d = Inl Out_Of_Fuel"
| "scopes_in_die (Suc n) obj a scopes d =
     fold_children n obj (\<lambda>acc c.
       bind_res (contains_address obj c a) (\<lambda>hit.
       if hit then bind_res (scopes_in_die n obj a acc c) (\<lambda>acc'. Inr (acc' @ [c], False))
       else Inr (acc, False))) scopes d"

definition scopes_at_address :: "nat \<Rightarrow> dwarf \<Rightarrow> file_addr \<Rightarrow> die list indexing" where
  "scopes_at_address n dw a =
     idx_bind (function_containing_address n dw a) (\<lambda>func.
     idx_return
       (case func of
          None \<Rightarrow> Inr []
        | Some d \<Rightarrow> bind_res (scopes_in_die n (dw_elf dw) a [] d) (\<lambda>scopes. Inr (scopes @ [d]))))"

definition local_in_scope ::
  "nat \<Rightarrow> elf \<Rightarrow> cu_header list \<Rightarrow> string \<Rightarrow> die \<Rightarrow> die option result" where
  "local_in_scope n obj cus name scope =
     fold_children n obj (\<lambda>_ c.
       bind_res (die_tag c) (\<lambda>tag.
       if tag = DW_TAG_variable \<or> tag = DW_TAG_formal_parameter then
         bind_res (die_name n obj cus c) (\<lambda>s.
         if s = Some name then Inr (Some c, True) else Inr (None, False))
       else Inr (None, False))) None scope"

fun local_in_scopes ::
  "nat \<Rightarrow> elf \<Rightarrow> cu_header list \<Rightarrow> string \<Rightarrow> die list \<Rightarrow> die option result" where
  "local_in_scopes n obj cus name [] = Inr None"
| "local_in_scopes n obj cus name (s # ss) =
     bind_res (local_in_scope n obj cus name s) (\<lambda>found.
     if found \<noteq> None then Inr found else local_in_scopes n obj cus name ss)"

definition find_local_variable :: "nat \<Rightarrow> dwarf \<Rightarrow> string \<Rightarrow> file_addr \<Rightarrow> die option indexing" where
  "find_local_variable n dw name pc =
     idx_bind (scopes_at_address n dw pc) (\<lambda>scopes.
     idx_return (local_in_scopes n (dw_elf dw) (dw_headers dw) name scopes))"

section \<open>Bit fields and parameters\<close>

record bitfield_information =
  bf_bit_size :: u64
  bf_storage_byte_size :: u64
  bf_bit_offset :: byte

definition int_attr :: "elf \<Rightarrow> die \<Rightarrow> u64 \<Rightarrow> u64 result" where
  "int_attr obj d attribute = bind_res (die_attr d attribute) (as_int obj)"

definition get_bitfield_information ::
  "elf \<Rightarrow> die \<Rightarrow> u64 \<Rightarrow> bitfield_information option result" where
  "get_bitfield_information obj d class_byte_size =
     bind_res (die_contains d DW_AT_bit_offset) (\<lambda>old.
     bind_res (die_contains d DW_AT_data_bit_offset) (\<lambda>new.
     if \<not> old \<and> \<not> new then Inr None
     else
       bind_res (int_attr obj d DW_AT_bit_size) (\<lambda>bit_size.
       bind_res (die_contains d DW_AT_byte_size) (\<lambda>sized.
       bind_res (if sized then int_attr obj d DW_AT_byte_size else Inr class_byte_size) (\<lambda>bytes.
       bind_res (if old then
                   bind_res (int_attr obj d DW_AT_bit_offset) (\<lambda>off.
                   Inr (ucast (bytes * 8 - off - bit_size)))
                 else Inr (0 :: byte)) (\<lambda>b1.
       bind_res (if new then
                   bind_res (int_attr obj d DW_AT_data_bit_offset) (\<lambda>off. Inr (ucast (off mod 8)))
                 else Inr b1) (\<lambda>b2.
       Inr (Some \<lparr>bf_bit_size = bit_size, bf_storage_byte_size = bytes, bf_bit_offset = b2\<rparr>))))))))"

text \<open>A type is the entry that describes it.\<close>

definition as_type :: "elf \<Rightarrow> cu_header list \<Rightarrow> attr \<Rightarrow> die result" where
  "as_type obj cus a = as_reference obj cus a"

definition parameter_types :: "nat \<Rightarrow> elf \<Rightarrow> cu_header list \<Rightarrow> die \<Rightarrow> die list result" where
  "parameter_types n obj cus d =
     bind_res (die_tag d) (\<lambda>tag.
     if tag \<noteq> DW_TAG_subprogram then Inr []
     else
       fold_children n obj (\<lambda>acc c.
         bind_res (die_tag c) (\<lambda>t.
         if t = DW_TAG_formal_parameter then
           bind_res (bind_res (die_attr c DW_AT_type) (as_type obj cus)) (\<lambda>ty.
           Inr (acc @ [ty], False))
         else Inr (acc, False))) [] d)"

section \<open>What indexing keeps\<close>

text \<open>An entry that parsing its own position gives back.\<close>

definition from_parse :: "elf \<Rightarrow> die \<Rightarrow> bool" where
  "from_parse obj d \<longleftrightarrow>
     die_abbrev d \<noteq> None \<longrightarrow> (\<exists>cu. die_cu d = Some cu \<and> die_at obj cu (die_pos d) = Inr d)"

lemma die_at_from_parse:
  assumes "die_at obj cu p = Inr d"
  shows "from_parse obj d"
proof -
  have "cur_pos (unit_cursor cu p) = p" by (simp add: unit_cursor_def cursor_between_def)
  then have "die_abbrev d \<noteq> None \<Longrightarrow> die_cu d = Some cu \<and> die_pos d = p"
    using assms by (auto simp: die_at_def parse_die_def res_simps split: if_splits)
  with assms show ?thesis by (auto simp: from_parse_def)
qed

lemma root_from_parse: "root obj h = Inr d \<Longrightarrow> from_parse obj d"
  by (rule die_at_from_parse [of obj h "map_option (\<lambda>d. d + 11) (sp_data (cu_data h))"])
    (simp add: root_def die_at_def unit_cursor_def)

lemma sibling_from_parse:
  "sibling n obj d = Inr d' \<Longrightarrow> from_parse obj d \<Longrightarrow> from_parse obj d'"
  by (cases n) (auto simp: res_simps split: option.splits if_splits intro: die_at_from_parse)

lemma first_child_from_parse: "first_child obj d = Inr c \<Longrightarrow> from_parse obj c"
  by (auto simp: first_child_def null_die_def from_parse_def split: option.splits if_splits
      dest: die_at_from_parse [unfolded from_parse_def])

definition keeps :: "(dwarf_index \<Rightarrow> bool) \<Rightarrow> 'a indexing \<Rightarrow> bool" where
  "keeps okay m \<longleftrightarrow> (\<forall>st. okay st \<longrightarrow> okay (snd (m st)))"

named_theorems keeps_intros \<open>how an indexing step keeps an invariant\<close>

lemma keeps_return [keeps_intros]: "keeps okay (idx_return r)"
  by (simp add: keeps_def idx_return_def)

lemma keeps_bind [keeps_intros]:
  "keeps okay m \<Longrightarrow> (\<And>x. keeps okay (f x)) \<Longrightarrow> keeps okay (idx_bind m f)"
  by (auto simp: keeps_def idx_bind_def split: prod.splits sum.splits)

lemma keeps_bind_return [keeps_intros]:
  "(\<And>x. r = Inr x \<Longrightarrow> keeps okay (f x)) \<Longrightarrow> keeps okay (idx_bind (idx_return r) f)"
  by (auto simp: keeps_def idx_bind_def idx_return_def split: sum.splits)

lemma keeps_modify: "(\<And>st. okay st \<Longrightarrow> okay (g st)) \<Longrightarrow> keeps okay (idx_modify g)"
  by (simp add: keeps_def idx_modify_def)

text \<open>
  The contract between the index and its users: an invariant of the index that the three kinds
  of insertion keep is kept by indexing as a whole, on every input, and also when indexing ends
  with an error or runs out of fuel.
\<close>

locale index_invariant =
  fixes obj :: elf and cus :: "cu_header list" and okay :: "dwarf_index \<Rightarrow> bool"
  assumes keep_function:
      "okay st \<Longrightarrow> from_parse obj d \<Longrightarrow> die_has_range d = Inr True \<Longrightarrow> die_tag d = Inr tag \<Longrightarrow>
       is_function_tag tag \<Longrightarrow> die_name n obj cus d = Inr (Some s) \<Longrightarrow> die_entry d = Inr e \<Longrightarrow>
       okay (st\<lparr>function_index := (s, e) # function_index st\<rparr>)"
    and keep_variable:
      "okay st \<Longrightarrow> from_parse obj d \<Longrightarrow> die_contains d DW_AT_location = Inr True \<Longrightarrow>
       die_tag d = Inr DW_TAG_variable \<Longrightarrow> die_name n obj cus d = Inr (Some s) \<Longrightarrow>
       die_entry d = Inr e \<Longrightarrow>
       okay (st\<lparr>global_variable_index := (s, e) # global_variable_index st\<rparr>)"
    and keep_member:
      "okay st \<Longrightarrow> from_parse obj d \<Longrightarrow> die_tag d = Inr tag \<Longrightarrow> is_function_tag tag \<Longrightarrow>
       die_entry d = Inr e \<Longrightarrow> okay (insert_member p e st)"
begin

lemma index_function_keeps: "from_parse obj d \<Longrightarrow> keeps okay (index_function n obj cus d)"
  unfolding index_function_def
  by (rule keeps_bind_return)+
    (auto split: option.splits intro!: keeps_bind_return keeps_return keeps_modify keep_function)

lemma index_reference_keeps:
  "from_parse obj d \<Longrightarrow> die_tag d = Inr tag \<Longrightarrow> is_function_tag tag \<Longrightarrow>
   keeps okay (index_reference obj cus d attribute)"
  unfolding index_reference_def
  by (rule keeps_bind_return)+ (auto intro!: keeps_modify keep_member)

lemma index_member_keeps: "from_parse obj d \<Longrightarrow> keeps okay (index_member obj cus d)"
  unfolding index_member_def
  by (auto intro!: keeps_bind_return keeps_return) (erule index_reference_keeps; assumption)+

lemma index_variable_keeps: "from_parse obj d \<Longrightarrow> keeps okay (index_variable n obj cus b d)"
  unfolding index_variable_def
  by (rule keeps_bind_return)+
    (auto split: option.splits intro!: keeps_bind_return keeps_return keeps_modify keep_variable)

lemma index_die_keeps:
  "from_parse obj d \<Longrightarrow> keeps okay (index_die n obj cus b d)"
  "from_parse obj d \<Longrightarrow> keeps okay (index_siblings n obj cus b d)"
proof (induction n arbitrary: b d)
  case 0
  {
    case 1
    then show ?case by (simp add: keeps_return)
  next
    case 2
    then show ?case by (simp add: keeps_return)
  }
next
  case (Suc n)
  {
    case 1
    then show ?case
      by (auto intro!: keeps_bind keeps_bind_return keeps_return index_function_keeps
          index_member_keeps index_variable_keeps Suc.IH dest: first_child_from_parse)
  next
    case 2
    then show ?case
      by (auto intro!: keeps_bind keeps_bind_return keeps_return Suc.IH dest: sibling_from_parse)
  }
qed

lemma index_units_keeps: "keeps okay (index_units n obj cus hs)"
  by (induction hs)
    (auto intro!: keeps_bind keeps_bind_return keeps_return index_die_keeps dest: root_from_parse)

lemma index_keeps:
  assumes "dw_elf dw = obj" "dw_headers dw = cus"
  shows "keeps okay (index n dw)"
  using index_units_keeps [of n cus] assms by (auto simp: keeps_def index_def)

end

text \<open>Every recorded function is a function entry with code and with the name it is recorded under.\<close>

definition function_named :: "elf \<Rightarrow> cu_header list \<Rightarrow> string \<Rightarrow> die \<Rightarrow> bool" where
  "function_named obj cus s d \<longleftrightarrow>
     (\<exists>tag n. die_tag d = Inr tag \<and> is_function_tag tag \<and> die_has_range d = Inr True \<and>
              die_name n obj cus d = Inr (Some s))"

definition functions_recorded :: "elf \<Rightarrow> cu_header list \<Rightarrow> dwarf_index \<Rightarrow> bool" where
  "functions_recorded obj cus st \<longleftrightarrow>
     (\<forall>(s, e) \<in> set (function_index st). \<exists>d. entry_die obj e = Inr d \<and> function_named obj cus s d)"

definition variables_recorded :: "elf \<Rightarrow> cu_header list \<Rightarrow> dwarf_index \<Rightarrow> bool" where
  "variables_recorded obj cus st \<longleftrightarrow>
     (\<forall>(s, e) \<in> set (global_variable_index st). \<exists>d n. entry_die obj e = Inr d \<and>
        die_tag d = Inr DW_TAG_variable \<and> die_contains d DW_AT_location = Inr True \<and>
        die_name n obj cus d = Inr (Some s))"

lemma entry_die_from_parse:
  "from_parse obj d \<Longrightarrow> die_tag d = Inr tag \<Longrightarrow> die_entry d = Inr e \<Longrightarrow> entry_die obj e = Inr d"
  by (auto simp: from_parse_def die_tag_def die_entry_def entry_die_def split: option.splits)

interpretation fns: index_invariant obj cus "functions_recorded obj cus" for obj cus
  by unfold_locales
    (auto simp: functions_recorded_def function_named_def insert_member_def dest: entry_die_from_parse)

interpretation vars: index_invariant obj cus "variables_recorded obj cus" for obj cus
  by unfold_locales
    (auto simp: variables_recorded_def insert_member_def dest: entry_die_from_parse)

section \<open>Lemmas on the queries\<close>

lemma idx_bind_result:
  "idx_bind m f st = (Inr y, st'') \<longleftrightarrow>
     (\<exists>x st'. m st = (Inr x, st') \<and> f x st' = (Inr y, st''))"
  by (auto simp: idx_bind_def split: prod.splits sum.splits)

lemma first_function_sound:
  "first_function_containing obj es a = Inr (Some d) \<Longrightarrow>
   die_tag d = Inr DW_TAG_subprogram \<and> contains_address obj d a = Inr True \<and>
   (\<exists>(s, e) \<in> set es. entry_die obj e = Inr d)"
proof (induction es)
  case (Cons x es)
  then show ?case by (cases x) (auto simp: res_simps split: if_splits)
qed simp

lemma first_function_complete:
  "first_function_containing obj es a = Inr None \<Longrightarrow> (s, e) \<in> set es \<Longrightarrow> entry_die obj e = Inr d \<Longrightarrow>
   \<not> (die_tag d = Inr DW_TAG_subprogram \<and> contains_address obj d a = Inr True)"
proof (induction es)
  case (Cons x es)
  then show ?case by (cases x) (auto simp: res_simps split: if_splits)
qed simp

lemma fold_siblings_found:
  assumes "fold_siblings n obj f None c = Inr (Some d)"
    "\<And>x d b. f None x = Inr (Some d, b) \<Longrightarrow> P x d \<and> b" "\<And>x b. f None x = Inr (None, b) \<Longrightarrow> \<not> b"
  shows "\<exists>x. P x d"
  using assms(1)
proof (induction n arbitrary: c)
  case (Suc n)
  show ?case
  proof (cases "die_abbrev c")
    case (Some ab)
    with Suc.prems obtain s b where f: "f None c = Inr (s, b)"
      by (auto simp: res_simps)
    show ?thesis
    proof (cases s)
      case None
      with Suc f Some assms(3) [of c b] show ?thesis by (auto simp: res_simps)
    next
      case (Some x)
      with Suc.prems f assms(2) [of c x b] \<open>die_abbrev c = Some ab\<close> show ?thesis by auto
    qed
  qed (use Suc.prems in simp)
qed simp

lemma inlined_child_found:
  assumes "inlined_child n obj a d = Inr (Some c)"
  shows "die_tag c = Inr DW_TAG_inlined_subroutine \<and> contains_address obj c a = Inr True"
proof -
  let ?P = "\<lambda>x d. x = d \<and> die_tag d = Inr DW_TAG_inlined_subroutine \<and> contains_address obj d a = Inr True"
  obtain first where "fold_siblings n obj (\<lambda>_ c.
       bind_res (die_tag c) (\<lambda>tag.
       if tag = DW_TAG_inlined_subroutine then
         bind_res (contains_address obj c a) (\<lambda>hit.
         Inr (if hit then Some c else None, hit))
       else Inr (None, False))) None first = Inr (Some c)"
    using assms by (auto simp: inlined_child_def fold_children_def res_simps)
  then have "\<exists>x. ?P x c"
    by (rule fold_siblings_found) (auto simp: res_simps split: if_splits)
  then show ?thesis by blast
qed

text \<open>A chain of inlined calls: each entry after the first is an inlined call that covers the address.\<close>

fun inline_chain :: "elf \<Rightarrow> file_addr \<Rightarrow> die list \<Rightarrow> bool" where
  "inline_chain obj a [] = False"
| "inline_chain obj a [d] \<longleftrightarrow> (\<exists>n. inlined_child n obj a d = Inr None)"
| "inline_chain obj a (d # c # ds) \<longleftrightarrow>
     (\<exists>n. inlined_child n obj a d = Inr (Some c)) \<and>
     die_tag c = Inr DW_TAG_inlined_subroutine \<and> contains_address obj c a = Inr True \<and>
     inline_chain obj a (c # ds)"

lemma inline_stack_from_chain:
  "inline_stack_from n obj a d = Inr stack \<Longrightarrow> inline_chain obj a stack \<and> hd stack = d"
proof (induction n arbitrary: d stack)
  case (Suc n)
  then obtain found where f: "inlined_child n obj a d = Inr found" by (auto simp: res_simps)
  show ?case
  proof (cases found)
    case None
    with Suc.prems f show ?thesis by auto
  next
    case (Some c)
    with Suc.prems f obtain rest where r: "inline_stack_from n obj a c = Inr rest" "stack = d # rest"
      by (auto simp: res_simps)
    from Suc.IH [OF r(1)] inlined_child_found [of n obj a d c] f Some r(2) show ?thesis
      by (cases rest) auto
  qed
qed simp

lemma fold_siblings_inv:
  assumes "fold_siblings n obj f s c = Inr s'" "I s"
    "\<And>s x s' b. I s \<Longrightarrow> f s x = Inr (s', b) \<Longrightarrow> I s'"
  shows "I s'"
  using assms(1,2)
proof (induction n arbitrary: c s)
  case (Suc n)
  show ?case
  proof (cases "die_abbrev c")
    case (Some ab)
    with Suc.prems obtain t b where "f s c = Inr (t, b)" by (auto simp: res_simps)
    with Suc Some assms(3) show ?thesis by (auto simp: res_simps split: if_splits)
  qed (use Suc.prems in simp)
qed simp

lemma scopes_in_die_contain:
  "scopes_in_die n obj a scopes d = Inr scopes' \<Longrightarrow>
   list_all (\<lambda>c. contains_address obj c a = Inr True) scopes \<Longrightarrow>
   list_all (\<lambda>c. contains_address obj c a = Inr True) scopes'"
proof (induction n arbitrary: scopes d scopes')
  case (Suc n)
  let ?I = "list_all (\<lambda>c. contains_address obj c a = Inr True)"
  obtain c where "fold_siblings n obj (\<lambda>acc c.
       bind_res (contains_address obj c a) (\<lambda>hit.
       if hit then bind_res (scopes_in_die n obj a acc c) (\<lambda>acc'. Inr (acc' @ [c], False))
       else Inr (acc, False))) scopes c = Inr scopes'"
    using Suc.prems(1) by (auto simp: fold_children_def res_simps)
  then show ?case
    by (rule fold_siblings_inv [where I = ?I])
      (use Suc in \<open>auto simp: res_simps split: if_splits\<close>)
qed simp

section \<open>Units and fuel\<close>

lemma unit_loop_fuel:
  assumes "cur_wf (storage obj) c" "length (cur_rest (storage obj) c) < n"
    "\<And>c' h. cur_data c' = cur_data c \<Longrightarrow> parse_compile_unit obj c' = Inr h \<Longrightarrow> sp_size (cu_data h) \<noteq> 0"
  shows "\<exists>r. parse_compile_units_loop n obj c = Some r"
  using assms(1-3)
proof (induction n arbitrary: c)
  case (Suc n)
  show ?case
  proof (cases "cur_finished c")
    case False
    show ?thesis
    proof (cases "bind_res (parse_compile_unit obj c) (\<lambda>h. bind_res (make_compile_unit obj h) (\<lambda>u.
        bind_res (cur_advance (sp_size (cu_data h)) c) (\<lambda>c'. Inr (u, c'))))")
      case (Inl e)
      with False show ?thesis by simp
    next
      case (Inr x)
      then obtain u c' h where h: "x = (u, c')" "parse_compile_unit obj c = Inr h"
          "cur_advance (sp_size (cu_data h)) c = Inr c'"
        by (auto simp: res_simps)
      obtain p e where p: "cur_pos c = Some p" "span_end (cur_data c) = Some e" "p \<le> e"
          "unat e \<le> length (storage obj)" "length (storage obj) < 2 ^ 64"
          "length (cur_rest (storage obj) c) = unat e - unat p" "cur_left c p = e - p"
          "unat (e - p) = unat e - unat p" "unat p \<le> unat e"
        using Suc.prems(1) False by (cases rule: cur_wf_cases) (auto simp: cur_finished_def)
      let ?s = "sp_size (cu_data h)"
      have s: "unat ?s \<le> unat e - unat p" "0 < unat ?s"
        using h(3) p Suc.prems(3) [OF refl h(2)]
        by (auto simp: cur_advance_def word_less_nat_alt unat_gt_0 split: if_splits)
      then have ps: "unat (p + ?s) = unat p + unat ?s" using p by (simp add: unat_plus_if')
      have c': "c' = c\<lparr>cur_pos := Some (p + ?s)\<rparr>"
        using h(3) p(1) by (auto simp: cur_advance_def split: if_splits)
      have "cur_wf (storage obj) c'" using p s ps c' by (simp add: cur_wf_def word_le_nat_alt)
      moreover have "length (cur_rest (storage obj) c') < n"
        using p s ps c' Suc.prems(2) by (auto simp: cur_rest_def)
      ultimately obtain r where "parse_compile_units_loop n obj c' = Some r"
        using Suc.IH [of c'] Suc.prems(3) c' by auto
      with False Inr h(1) show ?thesis by simp
    qed
  qed simp
qed simp

section \<open>The small object file\<close>

definition demo_func :: die where
  "demo_func = \<lparr>die_pos = Some 33, die_cu = Some demo_unit, die_abbrev = Some demo_func_abbrev,
     die_attr_locs = [Some 34, Some 36, Some 44], die_next = Some 48\<rparr>"

definition demo_dwarf :: dwarf where
  "demo_dwarf = \<lparr>dw_elf = demo_dwarf_elf,
     dw_units = [\<lparr>unit_header = demo_unit, unit_lines = None\<rparr>]\<rparr>"

definition demo_index :: dwarf_index where
  "demo_index = empty_index\<lparr>function_index := [(''f'', \<lparr>ie_cu = demo_unit, ie_pos = Some 33\<rparr>)]\<rparr>"

lemmas demo_read_defs = cur_u8_def cur_u32_def cur_u64_def fixed_int_def fixed_bytes_def read_bytes_def
  from_bytes_def cur_left_def cursor_between_def span_of_ptrs_def span_end_def demo_unit_def
  demo_dwarf_elf_def cur_uleb128_def leb128_loop.simps bump_def

lemma demo_func_at: "die_at demo_dwarf_elf demo_unit (Some 33) = Inr demo_func"
proof -
  let ?c = "unit_cursor demo_unit (Some 33)"
  have "cur_uleb128 (storage demo_dwarf_elf) ?c = Inr (2, ?c\<lparr>cur_pos := Some 34\<rparr>)"
    by (simp add: unit_cursor_def demo_read_defs)
  moreover have "skip_attrs (storage demo_dwarf_elf) (ab_specs demo_func_abbrev) (?c\<lparr>cur_pos := Some 34\<rparr>) =
      Inr ([Some 34, Some 36, Some 44], ?c\<lparr>cur_pos := Some 48\<rparr>)"
    by (simp add: demo_func_abbrev_def skip_form.simps skip_string.simps unit_cursor_def
        cur_finished_def demo_read_defs)
  ultimately show ?thesis
    using demo_table
    by (simp add: die_at_def parse_die_def demo_func_def)
       (simp add: demo_unit_def unit_cursor_def cursor_between_def)
qed

lemma demo_func_facts:
  "die_tag demo_func = Inr DW_TAG_subprogram" "die_has_range demo_func = Inr True"
  "die_entry demo_func = Inr \<lparr>ie_cu = demo_unit, ie_pos = Some 33\<rparr>"
  "first_child demo_dwarf_elf demo_func = Inr null_die"
  by (simp_all add: die_tag_def die_has_range_def die_contains_def die_entry_def first_child_def
      demo_func_def demo_func_abbrev_def)

lemma demo_func_name: "die_name 1 demo_dwarf_elf cus demo_func = Inr (Some ''f'')"
proof -
  let ?c = "cursor_between (Some 34) (span_end (cu_data demo_unit))"
  have "find_zero (storage demo_dwarf_elf) 64 34 = Inr ([102], 35)"
    by (simp add: find_zero.simps read_bytes_def demo_dwarf_elf_def)
  then have "cur_string (storage demo_dwarf_elf) ?c = Inr (''f'', ?c\<lparr>cur_pos := Some 36\<rparr>)"
    by (simp add: cur_string_def cursor_between_def span_of_ptrs_def span_end_def demo_unit_def
        chars_of_def char_of_def bit_0)
  then show ?thesis
    by (simp add: die_contains_def die_attr_def as_string_def attr_cursor_def demo_func_def
        demo_func_abbrev_def)
qed

lemma demo_func_contains:
  "contains_address demo_dwarf_elf demo_func (elf_file_addr demo_dwarf_elf 0x100003008) = Inr True"
proof -
  have low: "low_pc demo_dwarf_elf demo_func = Inr (elf_file_addr demo_dwarf_elf 0x100003000)"
    by (simp add: low_pc_def die_contains_def die_attr_def as_address_def attr_cursor_def demo_func_def
        demo_func_abbrev_def demo_read_defs)
  have "high_pc demo_dwarf_elf demo_func = Inr (elf_file_addr demo_dwarf_elf 0x100003010)"
    using low by (simp add: high_pc_def die_contains_def die_attr_def as_int_def attr_cursor_def
        demo_func_def demo_func_abbrev_def demo_read_defs file_addr_add_def elf_file_addr_def)
  with low show ?thesis
    by (simp add: contains_address_def die_contains_def demo_func_def demo_func_abbrev_def
        file_addr_le_def file_addr_less_def elf_file_addr_def)
qed

lemma demo_index_ok: "functions_recorded demo_dwarf_elf (dw_headers demo_dwarf) demo_index"
proof -
  have "is_function_tag DW_TAG_subprogram" by (simp add: is_function_tag_def)
  then have "function_named demo_dwarf_elf (dw_headers demo_dwarf) ''f'' demo_func"
    unfolding function_named_def using demo_func_facts(1,2) demo_func_name by blast
  with demo_func_at show ?thesis by (simp add: functions_recorded_def demo_index_def entry_die_def)
qed

lemma demo_queries:
  "find_functions 1 demo_dwarf ''f'' demo_index = (Inr [demo_func], demo_index)"
  "function_containing_address 1 demo_dwarf (elf_file_addr demo_dwarf_elf 0x100003008) demo_index =
     (Inr (Some demo_func), demo_index)"
  using demo_func_at demo_func_facts(1) demo_func_contains
  by (simp_all add: find_functions_def function_containing_address_def idx_bind_def index_def
      demo_index_def entry_die_def demo_dwarf_def)

lemma parse_compile_unit_size:
  assumes "parse_compile_unit obj c = Inr h" "sp_size (cu_data h) = 0"
  shows "\<exists>c1. cur_u32 (storage obj) c = Inr (0xfffffffc, c1)"
proof -
  obtain size c1 where s: "cur_u32 (storage obj) c = Inr (size, c1)" "ucast (size + 4) = (0 :: u64)"
    using assms by (auto simp: parse_compile_unit_def res_simps split: if_splits)
  have "unat (size + 4) < 2 ^ LENGTH(32)" by (rule unsigned_less)
  then have "unat (ucast (size + 4) :: u64) = unat (size + 4)"
    by (simp add: unsigned_ucast_eq take_bit_nat_eq_self)
  with s(2) have "size + 4 = 0" by (simp add: word_unat_eq_iff)
  then have "size = - 4" by (simp add: add_eq_0_iff2)
  with s(1) show ?thesis by auto
qed

lemma cur_u32_bytes:
  assumes "cur_u32 img c = Inr (w, c1)"
  shows "\<exists>i. take 4 (drop i img) = nat_le 4 (unat w)"
proof -
  obtain p bs where b: "read_bytes img p 4 = Inr bs" "w = from_bytes bs"
    using assms by (auto simp: cur_u32_def fixed_int_def fixed_bytes_def res_simps split: option.splits if_splits)
  then have bs: "bs = take 4 (drop (unat p) img)" "length bs = 4"
    by (auto simp: read_bytes_def split: if_splits)
  have "unat w = le_nat bs"
    using b(2) bs(2) le_nat_less [of bs] by (simp add: from_bytes_def unat_of_nat)
  with bs nat_le_le_nat [of bs] show ?thesis by auto
qed

lemma unit_loop_diverges:
  assumes "parse_compile_unit obj c = Inr h" "make_compile_unit obj h = Inr u"
    "cur_advance (sp_size (cu_data h)) c = Inr c" "\<not> cur_finished c"
  shows "parse_compile_units_loop n obj c = None"
  using assms by (induction n) auto

section \<open>Properties\<close>

text \<open>
  What the function index holds.  Starting from the empty index, and again after any query,
  also one that ended with an exception half-way through indexing, every indexed function is an
  entry for a subprogram or an inlined call, has a code range, and is named as it is recorded;
  so every entry that \<open>find_functions\<close> returns for a name is such a function of that name.
\<close>

theorem find_functions_sound:
  assumes "functions_recorded (dw_elf dw) (dw_headers dw) st" "find_functions n dw name st = (r, st')"
  shows "functions_recorded (dw_elf dw) (dw_headers dw) st' \<and>
         functions_recorded (dw_elf dw) (dw_headers dw) empty_index \<and>
         (\<forall>ds. r = Inr ds \<longrightarrow> (\<forall>d \<in> set ds. function_named (dw_elf dw) (dw_headers dw) name d))"
proof -
  let ?ok = "functions_recorded (dw_elf dw) (dw_headers dw)"
  obtain x st1 where i: "index n dw st = (x, st1)" by (cases "index n dw st")
  have ok: "?ok st1" using fns.index_keeps [OF refl refl, of dw n] assms(1) i by (auto simp: keeps_def)
  have st': "st' = st1"
    using assms(2) i by (auto simp: find_functions_def idx_bind_def split: sum.splits)
  have "function_named (dw_elf dw) (dw_headers dw) name d" if r: "r = Inr ds" and d: "d \<in> set ds" for ds d
  proof -
    let ?es = "map snd (filter (\<lambda>(s, e). s = name) (function_index st1))"
    have m: "map_res (entry_die (dw_elf dw)) ?es = Inr ds"
      using assms(2) i r by (auto simp: find_functions_def idx_bind_def split: sum.splits)
    obtain j where j: "j < length ds" "d = ds ! j" using d by (metis in_set_conv_nth)
    then have "entry_die (dw_elf dw) (?es ! j) = Inr d"
      using map_res_nth [OF m, of j] map_res_length [OF m] by simp
    moreover have "?es ! j \<in> set ?es" using j(1) map_res_length [OF m] by (intro nth_mem) simp
    ultimately show ?thesis using ok by (force simp: functions_recorded_def)
  qed
  with ok st' show ?thesis by (simp add: functions_recorded_def empty_index_def)
qed

theorem find_functions_sound_witness:
  "function_named demo_dwarf_elf (dw_headers demo_dwarf) ''f'' demo_func"
  using find_functions_sound [of demo_dwarf demo_index 1 "''f''"] demo_index_ok demo_queries(1)
  by (simp add: demo_dwarf_def)





text \<open>
  Scopes at an address.  Every scope returned covers the address, and the outermost, the
  subprogram, comes last.
\<close>

theorem scopes_correct:
  assumes "scopes_at_address n dw a st = (Inr scopes, st')"
  shows "list_all (\<lambda>d. contains_address (dw_elf dw) d a = Inr True) scopes \<and>
         (scopes \<noteq> [] \<longrightarrow> die_tag (last scopes) = Inr DW_TAG_subprogram)"
proof -
  obtain func where f: "function_containing_address n dw a st = (Inr func, st')"
      "(case func of None \<Rightarrow> Inr []
        | Some d \<Rightarrow> bind_res (scopes_in_die n (dw_elf dw) a [] d) (\<lambda>s. Inr (s @ [d]))) = Inr scopes"
    using assms by (auto simp: scopes_at_address_def idx_bind_result idx_return_def)
  then have "first_function_containing (dw_elf dw) (function_index st') a = Inr func"
    by (auto simp: function_containing_address_def idx_bind_result)
  with f(2) first_function_sound scopes_in_die_contain [of n "dw_elf dw" a "[]"] show ?thesis
    by (auto simp: res_simps split: option.splits)
qed

theorem scopes_correct_witness:
  "list_all (\<lambda>d. contains_address demo_dwarf_elf d (elf_file_addr demo_dwarf_elf 0x100003008) = Inr True)
     [demo_func]"
proof -
  have "scopes_at_address 2 demo_dwarf (elf_file_addr demo_dwarf_elf 0x100003008) demo_index =
      (Inr [demo_func], demo_index)"
    using demo_queries(2) demo_func_facts(4)
    by (simp add: scopes_at_address_def idx_bind_def idx_return_def demo_dwarf_def index_def
        function_containing_address_def demo_index_def numeral_2_eq_2 fold_children_def null_die_def)
  from scopes_correct [OF this] show ?thesis by (simp add: demo_dwarf_def)
qed

text \<open>
  The list of units is parsed in finitely many steps as long as the file nowhere holds the
  length \<open>0xfffffffc\<close>, the one to which adding four wraps to zero: fuel of one more than the
  length of \<open>.debug_info\<close> is enough, whatever else the section contains.
\<close>

theorem parse_compile_units_returns:
  assumes "section_inside obj ''.debug_info''" "length (section_bytes obj ''.debug_info'') < n"
    "\<forall>i. take 4 (drop i (storage obj)) \<noteq> [0xfc, 0xff, 0xff, 0xff]"
  shows "\<exists>r. parse_compile_units n obj = Some r"
proof -
  have "nat_le 4 (unat (0xfffffffc :: u32)) = [0xfc, 0xff, 0xff, 0xff]" by (simp add: nat_le_numeral)
  then have "sp_size (cu_data h) \<noteq> 0" if "parse_compile_unit obj c = Inr h" for c h
    using that assms(3) parse_compile_unit_size cur_u32_bytes by metis
  with assms(1,2) show ?thesis
    unfolding parse_compile_units_def section_inside_def section_bytes_def by (intro unit_loop_fuel) auto
qed

theorem parse_compile_units_returns_witness:
  "\<exists>r. parse_compile_units 46 demo_dwarf_elf = Some r"
proof (rule parse_compile_units_returns)
  show "section_inside demo_dwarf_elf ''.debug_info''" by (simp add: demo_dwarf_defs)
  show "length (section_bytes demo_dwarf_elf ''.debug_info'') < 46" by (simp add: demo_dwarf_defs)
  have "0xff \<notin> set (storage demo_dwarf_elf)" by (simp add: demo_dwarf_elf_def)
  then show "\<forall>i. take 4 (drop i (storage demo_dwarf_elf)) \<noteq> [0xfc, 0xff, 0xff, 0xff]"
    by (metis in_set_dropD in_set_takeD list.set_intros)
qed

text \<open>
  A unit header with the length \<open>0xfffffffc\<close> hangs the debugger.  There is an object file, of
  eighteen bytes, on which the loop over the units never ends: no amount of fuel is enough.
\<close>

theorem parse_compile_units_diverges:
  "\<exists>obj. section_inside obj ''.debug_info'' \<and> length (storage obj) = 18 \<and>
         (\<forall>n. parse_compile_units n obj = None)"
proof (intro exI conjI allI)
  let ?obj = "demo_elf\<lparr>storage := [1, 0x11, 0, 0, 0, 0, 0xfc, 0xff, 0xff, 0xff, 4, 0, 0, 0, 0, 0, 8, 1],
      section_map := [''.debug_abbrev'' \<mapsto> demo_section 0 6, ''.debug_info'' \<mapsto> demo_section 6 12]\<rparr>"
  let ?h = "\<lparr>cu_data = \<lparr>sp_data = Some 6, sp_size = 0\<rparr>, cu_abbrev_offset = 0\<rparr>"
  let ?ab = "\<lparr>ab_code = 1, ab_tag = 0x11, ab_has_children = False, ab_specs = []\<rparr>"
  let ?c = "cursor_of (get_section_contents ?obj ''.debug_info'')"
  show "section_inside ?obj ''.debug_info''" by (simp add: demo_dwarf_defs)
  show "length (storage ?obj) = 18" by simp
  note defs = demo_read_defs cur_u16_def demo_section_def get_section_contents_def get_section_def
    cursor_of_def
  have h: "parse_compile_unit ?obj ?c = Inr ?h"
    by (simp add: parse_compile_unit_def defs)
  have t: "parse_abbrev_table ?obj 0 = Inr [1 \<mapsto> ?ab]"
    using parse_abbrev_table_encoded [of ?obj 0 "[?ab]" "[]"]
    by (simp add: abbrev_ok_def abbrev_bytes_def uleb_encode.simps demo_dwarf_defs)
  have r: "root ?obj ?h = Inr \<lparr>die_pos = Some 17, die_cu = Some ?h, die_abbrev = Some ?ab,
      die_attr_locs = [], die_next = Some 18\<rparr>"
    using t by (simp add: root_def parse_die_def defs)
  then have u: "make_compile_unit ?obj ?h = Inr \<lparr>unit_header = ?h, unit_lines = None\<rparr>"
    by (simp add: make_compile_unit_def parse_line_table_def die_contains_def)
  have a: "cur_advance 0 ?c = Inr ?c" "\<not> cur_finished ?c"
    by (simp_all add: cur_advance_def cur_finished_def defs)
  show "parse_compile_units n ?obj = None" for n
    unfolding parse_compile_units_def using unit_loop_diverges [OF h u _ a(2)] a(1) by simp
qed

end
