(* ===== verification/Registers.thy ===== *)
theory Registers
  imports Sdb_Prelude
begin

text \<open>
  The register file of a thread: the register table (\<^verbatim>\<open>include/libsdb/detail/registers.inc\<close>,
  \<^verbatim>\<open>include/libsdb/register_info.hpp\<close>) and class \<open>registers\<close> (\<^verbatim>\<open>src/src/registers.cpp\<close>).

  The layout of the native structure \<open>user\<close> comes from the Mach headers and is a parameter, as
  are the conversions between floating-point formats; \<open>layout_ok\<close> states what a C structure
  layout guarantees (the fields do not overlap, the 64-bit fields are aligned), and
  \<open>darwin_arm64\<close> is the layout of macOS.
\<close>

section \<open>The register table\<close>

datatype register_id = X nat | FP | LR | SP | PC | CPSR | W nat | V nat

datatype register_type = Gpr | Sub_gpr | Fpr | Dr

datatype register_format = Uint | Double_float | Long_double | Vector

record native =
  off_x :: nat
  off_fp :: nat
  off_lr :: nat
  off_sp :: nat
  off_pc :: nat
  off_cpsr :: nat
  off_v :: nat
  user_size :: nat
  to_double :: "byte list \<Rightarrow> byte list"
  to_long_double :: "byte list \<Rightarrow> byte list"

record register_info =
  reg_id :: register_id
  reg_name :: string
  reg_dwarf :: int
  reg_size :: nat
  reg_offset :: nat
  reg_type :: register_type
  reg_format :: register_format

fun decimal :: "nat \<Rightarrow> string" where
  "decimal n = (if n < 10 then [char_of (48 + n)] else decimal (n div 10) @ [char_of (48 + n mod 10)])"

declare decimal.simps [simp del]

definition info_x :: "native \<Rightarrow> nat \<Rightarrow> register_info" where
  "info_x m i = \<lparr>reg_id = X i, reg_name = ''x'' @ decimal i, reg_dwarf = int i, reg_size = 8,
                 reg_offset = off_x m + i * 8, reg_type = Gpr, reg_format = Uint\<rparr>"

definition info_w :: "native \<Rightarrow> nat \<Rightarrow> register_info" where
  "info_w m i = \<lparr>reg_id = W i, reg_name = ''w'' @ decimal i, reg_dwarf = - 1, reg_size = 4,
                 reg_offset = off_x m + i * 8, reg_type = Sub_gpr, reg_format = Uint\<rparr>"

definition info_v :: "native \<Rightarrow> nat \<Rightarrow> register_info" where
  "info_v m i = \<lparr>reg_id = V i, reg_name = ''v'' @ decimal i, reg_dwarf = 64 + int i, reg_size = 16,
                 reg_offset = off_v m + i * 16, reg_type = Fpr, reg_format = Vector\<rparr>"

definition g_register_infos :: "native \<Rightarrow> register_info list" where
  "g_register_infos m =
     map (info_x m) [0..<29] @
     [\<lparr>reg_id = FP, reg_name = ''fp'', reg_dwarf = 29, reg_size = 8, reg_offset = off_fp m,
       reg_type = Gpr, reg_format = Uint\<rparr>,
      \<lparr>reg_id = LR, reg_name = ''lr'', reg_dwarf = 30, reg_size = 8, reg_offset = off_lr m,
       reg_type = Gpr, reg_format = Uint\<rparr>,
      \<lparr>reg_id = SP, reg_name = ''sp'', reg_dwarf = 31, reg_size = 8, reg_offset = off_sp m,
       reg_type = Gpr, reg_format = Uint\<rparr>,
      \<lparr>reg_id = PC, reg_name = ''pc'', reg_dwarf = 32, reg_size = 8, reg_offset = off_pc m,
       reg_type = Gpr, reg_format = Uint\<rparr>,
      \<lparr>reg_id = CPSR, reg_name = ''cpsr'', reg_dwarf = 33, reg_size = 4, reg_offset = off_cpsr m,
       reg_type = Gpr, reg_format = Uint\<rparr>] @
     map (info_w m) [0..<29] @
     map (info_v m) [0..<32]"

definition register_info_by :: "native \<Rightarrow> (register_info \<Rightarrow> bool) \<Rightarrow> register_info result" where
  "register_info_by m f =
     (case find f (g_register_infos m) of
        None \<Rightarrow> send ''Can't find register info''
      | Some i \<Rightarrow> Inr i)"

definition register_info_by_id :: "native \<Rightarrow> register_id \<Rightarrow> register_info result" where
  "register_info_by_id m r = register_info_by m (\<lambda>i. reg_id i = r)"

definition register_info_by_name :: "native \<Rightarrow> string \<Rightarrow> register_info result" where
  "register_info_by_name m s = register_info_by m (\<lambda>i. reg_name i = s)"

definition register_info_by_dwarf :: "native \<Rightarrow> int \<Rightarrow> register_info result" where
  "register_info_by_dwarf m d = register_info_by m (\<lambda>i. reg_dwarf i = d)"

section \<open>Values\<close>

text \<open>
  The alternatives of \<open>registers::value\<close>; a signed integer is the word with its bits, a
  floating-point number its object representation.
\<close>

datatype reg_value =
    V_u8 byte | V_u16 u16 | V_u32 u32 | V_u64 u64
  | V_i8 byte | V_i16 u16 | V_i32 u32 | V_i64 u64
  | V_float "byte list" | V_double "byte list" | V_long_double "byte list"
  | V_byte64 "byte list" | V_byte128 "byte list"

definition word_bytes :: "'a :: len word \<Rightarrow> byte list" where
  "word_bytes w = nat_le (LENGTH('a) div 8) (unat w)"

fun value_bytes :: "reg_value \<Rightarrow> byte list" where
  "value_bytes (V_u8 w) = word_bytes w"
| "value_bytes (V_u16 w) = word_bytes w"
| "value_bytes (V_u32 w) = word_bytes w"
| "value_bytes (V_u64 w) = word_bytes w"
| "value_bytes (V_i8 w) = word_bytes w"
| "value_bytes (V_i16 w) = word_bytes w"
| "value_bytes (V_i32 w) = word_bytes w"
| "value_bytes (V_i64 w) = word_bytes w"
| "value_bytes (V_float bs) = bs"
| "value_bytes (V_double bs) = bs"
| "value_bytes (V_long_double bs) = bs"
| "value_bytes (V_byte64 bs) = bs"
| "value_bytes (V_byte128 bs) = bs"

text \<open>\<open>sizeof\<close> of the alternative; \<open>long double\<close> has eight bytes on this platform.\<close>

fun value_size :: "reg_value \<Rightarrow> nat" where
  "value_size (V_u8 _) = 1" | "value_size (V_u16 _) = 2"
| "value_size (V_u32 _) = 4" | "value_size (V_u64 _) = 8"
| "value_size (V_i8 _) = 1" | "value_size (V_i16 _) = 2"
| "value_size (V_i32 _) = 4" | "value_size (V_i64 _) = 8"
| "value_size (V_float _) = 4" | "value_size (V_double _) = 8" | "value_size (V_long_double _) = 8"
| "value_size (V_byte64 _) = 8" | "value_size (V_byte128 _) = 16"

definition to_byte128 :: "byte list \<Rightarrow> byte list" where
  "to_byte128 bs = take 16 (bs @ replicate 16 0)"

definition widen_signed :: "register_info \<Rightarrow> 'a :: len word \<Rightarrow> byte list" where
  "widen_signed info w =
     (if reg_format info = Uint then
        if reg_size info = 2 then to_byte128 (word_bytes (scast w :: u16))
        else if reg_size info = 4 then to_byte128 (word_bytes (scast w :: u32))
        else if reg_size info = 8 then to_byte128 (word_bytes (scast w :: u64))
        else to_byte128 (word_bytes w)
      else to_byte128 (word_bytes w))"

definition widen_float :: "native \<Rightarrow> register_info \<Rightarrow> byte list \<Rightarrow> byte list" where
  "widen_float m info bs =
     (if reg_format info = Double_float then to_byte128 (to_double m bs)
      else if reg_format info = Long_double then to_byte128 (to_long_double m bs)
      else to_byte128 bs)"

fun widen :: "native \<Rightarrow> register_info \<Rightarrow> reg_value \<Rightarrow> byte list" where
  "widen m info (V_i8 w) = widen_signed info w"
| "widen m info (V_i16 w) = widen_signed info w"
| "widen m info (V_i32 w) = widen_signed info w"
| "widen m info (V_i64 w) = widen_signed info w"
| "widen m info (V_float bs) = widen_float m info bs"
| "widen m info (V_double bs) = widen_float m info bs"
| "widen m info (V_long_double bs) = widen_float m info bs"
| "widen m info v = to_byte128 (value_bytes v)"

section \<open>The register file\<close>

record registers =
  regs_data :: "byte list"
  regs_undefined :: "nat list"
  regs_cfa :: u64

text \<open>What a write sends to the thread: the general or the floating-point state.\<close>

datatype reg_commit = Write_gprs "byte list" | Write_fprs "byte list"

definition canonical_offset :: "native \<Rightarrow> register_id \<Rightarrow> nat result" where
  "canonical_offset m r = bind_res (register_info_by_id m r) (\<lambda>i. Inr (reg_offset i div 2))"

definition is_undefined :: "native \<Rightarrow> registers \<Rightarrow> register_id \<Rightarrow> bool result" where
  "is_undefined m rs r =
     bind_res (canonical_offset m r) (\<lambda>off. Inr (off \<in> set (regs_undefined rs)))"

definition undefine :: "native \<Rightarrow> registers \<Rightarrow> register_id \<Rightarrow> registers result" where
  "undefine m rs r =
     bind_res (canonical_offset m r) (\<lambda>off.
     Inr (rs\<lparr>regs_undefined := regs_undefined rs @ [off]\<rparr>))"

definition bytes_at :: "nat \<Rightarrow> nat \<Rightarrow> byte list \<Rightarrow> byte list" where
  "bytes_at off n bs = take n (drop off bs)"

definition le_word :: "byte list \<Rightarrow> 'a :: len word" where
  "le_word bs = word_of_nat (le_nat bs)"

definition reg_read :: "native \<Rightarrow> registers \<Rightarrow> register_info \<Rightarrow> reg_value result" where
  "reg_read m rs info =
     bind_res (is_undefined m rs (reg_id info)) (\<lambda>undef.
     if undef then send ''Register is undefined''
     else
       let at = (\<lambda>n. bytes_at (reg_offset info) n (regs_data rs)) in
       case reg_format info of
         Uint \<Rightarrow>
           (if reg_size info = 1 then Inr (V_u8 (le_word (at 1)))
            else if reg_size info = 2 then Inr (V_u16 (le_word (at 2)))
            else if reg_size info = 4 then Inr (V_u32 (le_word (at 4)))
            else if reg_size info = 8 then Inr (V_u64 (le_word (at 8)))
            else send ''Unexpected register size'')
       | Double_float \<Rightarrow> Inr (V_double (at 8))
       | Long_double \<Rightarrow> Inr (V_long_double (at 8))
       | Vector \<Rightarrow> if reg_size info = 8 then Inr (V_byte64 (at 8)) else Inr (V_byte128 (at 16)))"

definition overwrite :: "nat \<Rightarrow> byte list \<Rightarrow> byte list \<Rightarrow> byte list" where
  "overwrite off new bs = take off bs @ new @ drop (off + length new) bs"

definition reg_write ::
  "native \<Rightarrow> registers \<Rightarrow> register_info \<Rightarrow> reg_value \<Rightarrow> bool \<Rightarrow> (registers \<times> reg_commit list) result" where
  "reg_write m rs info v commit =
     (if value_size v \<le> reg_size info then
        let data1 = overwrite (reg_offset info) (take (reg_size info) (widen m info v)) (regs_data rs)
        in
        if commit then
          if reg_type info = Fpr then Inr (rs\<lparr>regs_data := data1\<rparr>, [Write_fprs data1])
          else
            let data2 = (if reg_type info = Sub_gpr
                         then overwrite (reg_offset info + 4) (replicate 4 0) data1 else data1)
            in Inr (rs\<lparr>regs_data := data2\<rparr>, [Write_gprs data2])
        else Inr (rs\<lparr>regs_data := data1\<rparr>, [])
      else Inl Terminate)"

definition reg_flush :: "registers \<Rightarrow> reg_commit list" where
  "reg_flush rs = [Write_fprs (regs_data rs), Write_gprs (regs_data rs)]"

text \<open>\<open>read_by_id_as<std::uint64_t>\<close>: any other alternative raises \<open>std::bad_variant_access\<close>.\<close>

fun as_u64 :: "reg_value \<Rightarrow> u64 result" where
  "as_u64 (V_u64 w) = Inr w"
| "as_u64 v = Inl Bad_Variant_Access"

definition read_by_id_as_u64 :: "native \<Rightarrow> registers \<Rightarrow> register_id \<Rightarrow> u64 result" where
  "read_by_id_as_u64 m rs r =
     bind_res (register_info_by_id m r) (\<lambda>i. bind_res (reg_read m rs i) as_u64)"

definition write_by_id ::
  "native \<Rightarrow> registers \<Rightarrow> register_id \<Rightarrow> reg_value \<Rightarrow> bool \<Rightarrow> (registers \<times> reg_commit list) result" where
  "write_by_id m rs r v commit =
     bind_res (register_info_by_id m r) (\<lambda>i. reg_write m rs i v commit)"

section \<open>The layout\<close>

definition layout_ok :: "native \<Rightarrow> bool" where
  "layout_ok m \<longleftrightarrow>
     off_x m + 29 * 8 \<le> off_fp m \<and> off_fp m + 8 \<le> off_lr m \<and> off_lr m + 8 \<le> off_sp m \<and>
     off_sp m + 8 \<le> off_pc m \<and> off_pc m + 8 \<le> off_cpsr m \<and> off_cpsr m + 4 \<le> off_v m \<and>
     off_v m + 32 * 16 \<le> user_size m"

definition darwin_arm64 :: native where
  "darwin_arm64 = \<lparr>off_x = 0, off_fp = 232, off_lr = 240, off_sp = 248, off_pc = 256,
     off_cpsr = 264, off_v = 272, user_size = 1320, to_double = id, to_long_double = id\<rparr>"

lemma darwin_layout_ok [simp]: "layout_ok darwin_arm64"
  by (simp add: layout_ok_def darwin_arm64_def)

text \<open>The bytes a register occupies; a \<open>w\<close> register occupies those of its \<open>x\<close> register.\<close>

definition reg_slot :: "register_info \<Rightarrow> nat" where
  "reg_slot i = (if reg_type i = Sub_gpr then 8 else reg_size i)"

lemma reg_slot_cases:
  assumes "i \<in> set (g_register_infos m)"
  obtains (x) k where "k < 29" "reg_offset i = off_x m + k * 8" "reg_slot i = 8"
  | (fp) "reg_offset i = off_fp m" "reg_slot i = 8"
  | (lr) "reg_offset i = off_lr m" "reg_slot i = 8"
  | (sp) "reg_offset i = off_sp m" "reg_slot i = 8"
  | (pc) "reg_offset i = off_pc m" "reg_slot i = 8"
  | (cpsr) "reg_offset i = off_cpsr m" "reg_slot i = 4"
  | (v) k where "k < 32" "reg_offset i = off_v m + k * 16" "reg_slot i = 16"
  using assms by (auto simp: g_register_infos_def info_x_def info_w_def info_v_def reg_slot_def)

lemma reg_slot_inside:
  assumes "layout_ok m" "i \<in> set (g_register_infos m)"
  shows "reg_offset i + reg_slot i \<le> user_size m"
  using assms(2) by (cases rule: reg_slot_cases) (use assms(1) in \<open>auto simp: layout_ok_def\<close>)

lemma reg_slots_disjoint:
  assumes "layout_ok m" "i \<in> set (g_register_infos m)" "j \<in> set (g_register_infos m)"
    "reg_offset i \<noteq> reg_offset j"
  shows "reg_offset i + reg_slot i \<le> reg_offset j \<or> reg_offset j + reg_slot j \<le> reg_offset i"
  using assms(2)
proof (cases rule: reg_slot_cases)
  case (x k)
  from assms(3) show ?thesis
    by (cases rule: reg_slot_cases) (use assms(1,4) x in \<open>auto simp: layout_ok_def\<close>)
next
  case fp
  from assms(3) show ?thesis
    by (cases rule: reg_slot_cases) (use assms(1,4) fp in \<open>auto simp: layout_ok_def\<close>)
next
  case lr
  from assms(3) show ?thesis
    by (cases rule: reg_slot_cases) (use assms(1,4) lr in \<open>auto simp: layout_ok_def\<close>)
next
  case sp
  from assms(3) show ?thesis
    by (cases rule: reg_slot_cases) (use assms(1,4) sp in \<open>auto simp: layout_ok_def\<close>)
next
  case pc
  from assms(3) show ?thesis
    by (cases rule: reg_slot_cases) (use assms(1,4) pc in \<open>auto simp: layout_ok_def\<close>)
next
  case cpsr
  from assms(3) show ?thesis
    by (cases rule: reg_slot_cases) (use assms(1,4) cpsr in \<open>auto simp: layout_ok_def\<close>)
next
  case (v k)
  from assms(3) show ?thesis
    by (cases rule: reg_slot_cases) (use assms(1,4) v in \<open>auto simp: layout_ok_def\<close>)
qed

lemma reg_slot_size:
  "i \<in> set (g_register_infos m) \<Longrightarrow> reg_size i \<le> reg_slot i \<and> 4 \<le> reg_size i \<and> reg_slot i \<le> 16"
  by (auto simp: g_register_infos_def info_x_def info_w_def info_v_def reg_slot_def)

lemma reg_ids_distinct: "distinct (map reg_id (g_register_infos m))"
proof -
  have "map reg_id (g_register_infos m) = map X [0..<29] @ [FP, LR, SP, PC, CPSR] @ map W [0..<29] @ map V [0..<32]"
    by (simp add: g_register_infos_def info_x_def info_w_def info_v_def o_def del: upt_Suc upt_rec_numeral)
  then show ?thesis by (auto simp: distinct_map inj_on_def simp del: upt_Suc upt_rec_numeral)
qed

lemma find_by_key:
  "distinct (map f xs) \<Longrightarrow> x \<in> set xs \<Longrightarrow> find (\<lambda>y. f y = f x) xs = Some x"
  by (induction xs) (auto simp: image_iff)

lemma register_info_by_id_info:
  "i \<in> set (g_register_infos m) \<Longrightarrow> register_info_by_id m (reg_id i) = Inr i"
  by (simp add: register_info_by_id_def register_info_by_def find_by_key [OF reg_ids_distinct])

section \<open>Bytes\<close>

lemma bytes_at_overwrite_same:
  "off + length new \<le> length bs \<Longrightarrow> bytes_at off (length new) (overwrite off new bs) = new"
  by (simp add: bytes_at_def overwrite_def)

lemma length_overwrite [simp]:
  "off + length new \<le> length bs \<Longrightarrow> length (overwrite off new bs) = length bs"
  by (simp add: overwrite_def)

lemma bytes_at_overwrite_other:
  assumes "off + length new \<le> length bs" "o' + n \<le> off \<or> off + length new \<le> o'"
  shows "bytes_at o' n (overwrite off new bs) = bytes_at o' n bs"
  using assms(2)
proof
  assume "o' + n \<le> off"
  then show ?thesis using assms(1) by (auto simp: bytes_at_def overwrite_def drop_take min_def)
next
  assume "off + length new \<le> o'"
  then show ?thesis using assms(1) by (simp add: bytes_at_def overwrite_def drop_append)
qed

lemma nat_le_pad: "x < 256 ^ k \<Longrightarrow> nat_le (k + n) x = nat_le k x @ replicate n 0"
proof (induction k arbitrary: x)
  case 0
  then show ?case by (induction n) auto
next
  case (Suc k)
  then have "x div 256 < 256 ^ k" by (simp add: less_mult_imp_div_less)
  with Suc.IH show ?case by simp
qed

lemma length_word_bytes [simp]: "length (word_bytes (w :: 'a :: len word)) = LENGTH('a) div 8"
  by (simp add: word_bytes_def)

lemma word_bytes_extend:
  fixes w :: "'a :: len word"
  assumes "LENGTH('a) = 8 * k" "LENGTH('b) = 8 * (k + n)"
  shows "word_bytes w @ replicate n 0 = word_bytes (ucast w :: 'b :: len word)"
proof -
  have less: "unat w < 2 ^ LENGTH('a)" by (rule unsigned_less)
  then have "unat w < 256 ^ k" using assms(1) by (simp add: power_mult)
  moreover have "unat (ucast w :: 'b word) = unat w"
    using less assms by (simp add: unsigned_ucast_eq take_bit_nat_eq_self power_mult power_add less_le_trans)
  ultimately show ?thesis using assms by (simp add: word_bytes_def nat_le_pad)
qed

lemma le_word_word_bytes:
  assumes "LENGTH('a) = 8 * k"
  shows "le_word (word_bytes (w :: 'a :: len word)) = w"
proof -
  have "unat w < 2 ^ LENGTH('a)" by (rule unsigned_less)
  then have "unat w < 256 ^ k" using assms by (simp add: power_mult)
  then show ?thesis using assms by (simp add: le_word_def word_bytes_def le_nat_nat_le)
qed

section \<open>Reading back what was written\<close>

text \<open>The integer that a value of the variant denotes.\<close>

fun value_int :: "reg_value \<Rightarrow> int option" where
  "value_int (V_u8 w) = Some (uint w)" | "value_int (V_u16 w) = Some (uint w)"
| "value_int (V_u32 w) = Some (uint w)" | "value_int (V_u64 w) = Some (uint w)"
| "value_int (V_i8 w) = Some (sint w)" | "value_int (V_i16 w) = Some (sint w)"
| "value_int (V_i32 w) = Some (sint w)" | "value_int (V_i64 w) = Some (sint w)"
| "value_int _ = None"

definition stored_value :: "register_info \<Rightarrow> int \<Rightarrow> reg_value" where
  "stored_value info k = (if reg_size info = 8 then V_u64 (word_of_int k) else V_u32 (word_of_int k))"

lemma to_byte128_take: "length bs \<le> n \<Longrightarrow> n \<le> 16 \<Longrightarrow> take n (to_byte128 bs) = bs @ replicate (n - length bs) 0"
  by (simp add: to_byte128_def min_def)

lemma uint_word_bytes_8:
  "word_bytes (w8 :: byte) @ replicate 7 0 = word_bytes (word_of_int (uint w8) :: u64)"
  "word_bytes (w16 :: u16) @ replicate 6 0 = word_bytes (word_of_int (uint w16) :: u64)"
  "word_bytes (w32 :: u32) @ replicate 4 0 = word_bytes (word_of_int (uint w32) :: u64)"
  "word_bytes (w8 :: byte) @ replicate 3 0 = word_bytes (word_of_int (uint w8) :: u32)"
  "word_bytes (w16 :: u16) @ replicate 2 0 = word_bytes (word_of_int (uint w16) :: u32)"
  using word_bytes_extend [where 'a = 8 and 'b = 64 and k = 1 and n = 7]
    word_bytes_extend [where 'a = 16 and 'b = 64 and k = 2 and n = 6]
    word_bytes_extend [where 'a = 32 and 'b = 64 and k = 4 and n = 4]
    word_bytes_extend [where 'a = 8 and 'b = 32 and k = 1 and n = 3]
    word_bytes_extend [where 'a = 16 and 'b = 32 and k = 2 and n = 2]
  by simp_all

lemma widen_int:
  assumes "reg_format info = Uint" "value_int v = Some k" "value_size v \<le> reg_size info"
  shows "reg_size info = 8 \<Longrightarrow> take 8 (widen m info v) = word_bytes (word_of_int k :: u64)"
    "reg_size info = 4 \<Longrightarrow> take 4 (widen m info v) = word_bytes (word_of_int k :: u32)"
  using assms uint_word_bytes_8
  by (cases v; force simp: widen_signed_def to_byte128_take)+

lemma info_formats:
  "i \<in> set (g_register_infos m) \<Longrightarrow>
   reg_format i = Uint \<and> (reg_size i = 8 \<and> reg_type i = Gpr \<or> reg_size i = 4 \<and> reg_type i \<in> {Gpr, Sub_gpr}) \<or>
   reg_format i = Vector \<and> reg_size i = 16 \<and> reg_type i = Fpr"
  by (auto simp: g_register_infos_def info_x_def info_w_def info_v_def)

text \<open>
  What a write does to the bytes: the register's own get the value, all others outside its slot
  keep theirs.
\<close>

lemma length_widen: "i \<in> set (g_register_infos m) \<Longrightarrow> length (take (reg_size i) (widen m i v)) = reg_size i"
  using reg_slot_size [of i m] info_formats [of i m]
  by (cases v) (auto simp: to_byte128_def widen_signed_def widen_float_def)

lemma reg_write_bytes:
  assumes "layout_ok m" "i \<in> set (g_register_infos m)" "length (regs_data rs) = user_size m"
    "reg_write m rs i v commit = Inr (rs', ops)"
  shows "bytes_at (reg_offset i) (reg_size i) (regs_data rs') = take (reg_size i) (widen m i v)"
    "o' + n \<le> reg_offset i \<or> reg_offset i + reg_slot i \<le> o' \<Longrightarrow>
     bytes_at o' n (regs_data rs') = bytes_at o' n (regs_data rs)"
    "length (regs_data rs') = user_size m" "regs_undefined rs' = regs_undefined rs"
proof -
  let ?new = "take (reg_size i) (widen m i v)"
  let ?d1 = "overwrite (reg_offset i) ?new (regs_data rs)"
  let ?d2 = "overwrite (reg_offset i + 4) (replicate 4 0) ?d1"
  note len = length_widen [OF assms(2), of v] and sz = reg_slot_size [OF assms(2)]
  have fit: "reg_offset i + length ?new \<le> length (regs_data rs)"
    using reg_slot_inside [OF assms(1,2)] sz len assms(3) by simp
  have sub: "reg_size i = 4" "reg_slot i = 8" "reg_offset i + 4 + 4 \<le> length (regs_data rs)"
    if "reg_type i = Sub_gpr"
    using that info_formats [OF assms(2)] reg_slot_inside [OF assms(1,2)] assms(3)
    by (auto simp: reg_slot_def)
  have d: "regs_data rs' = ?d1 \<or> reg_type i = Sub_gpr \<and> regs_data rs' = ?d2"
    and u: "regs_undefined rs' = regs_undefined rs"
    using assms(4) by (auto simp: reg_write_def Let_def split: if_splits)
  show "regs_undefined rs' = regs_undefined rs" by (rule u)
  have same: "bytes_at (reg_offset i) (reg_size i) ?d1 = ?new"
    using bytes_at_overwrite_same [OF fit] len by simp
  from d show "bytes_at (reg_offset i) (reg_size i) (regs_data rs') = ?new"
    using same sub fit bytes_at_overwrite_other [of "reg_offset i + 4" "replicate 4 0" ?d1 "reg_offset i" 4]
    by auto
  from d show "length (regs_data rs') = user_size m" using fit sub assms(3) by auto
  assume o': "o' + n \<le> reg_offset i \<or> reg_offset i + reg_slot i \<le> o'"
  have "bytes_at o' n ?d1 = bytes_at o' n (regs_data rs)"
    using bytes_at_overwrite_other [OF fit] o' sz len by auto
  moreover have "bytes_at o' n ?d2 = bytes_at o' n ?d1" if "reg_type i = Sub_gpr"
    using bytes_at_overwrite_other [of "reg_offset i + 4" "replicate 4 0" ?d1 o' n] sub [OF that] fit o'
    by auto
  ultimately show "bytes_at o' n (regs_data rs') = bytes_at o' n (regs_data rs)" using d by auto
qed

lemma is_undefined_info:
  "i \<in> set (g_register_infos m) \<Longrightarrow>
   is_undefined m rs (reg_id i) = Inr (reg_offset i div 2 \<in> set (regs_undefined rs))"
  by (simp add: is_undefined_def canonical_offset_def register_info_by_id_info)

lemma reg_write_reads:
  assumes "layout_ok m" "i \<in> set (g_register_infos m)" "j \<in> set (g_register_infos m)"
    "length (regs_data rs) = user_size m" "reg_write m rs i v commit = Inr (rs', ops)"
    "reg_offset i div 2 \<notin> set (regs_undefined rs)"
  shows "(\<forall>k. reg_format i = Uint \<longrightarrow> value_int v = Some k \<longrightarrow> reg_read m rs' i = Inr (stored_value i k)) \<and>
         (\<forall>bs. reg_format i = Vector \<longrightarrow> v = V_byte128 bs \<longrightarrow> length bs = 16 \<longrightarrow> reg_read m rs' i = Inr v) \<and>
         (reg_offset j \<noteq> reg_offset i \<longrightarrow> reg_read m rs' j = reg_read m rs j)"
proof (intro conjI allI impI)
  note w = reg_write_bytes [OF assms(1,2,4,5)]
  have fits: "value_size v \<le> reg_size i" using assms(5) by (simp add: reg_write_def split: if_splits)
  have nu: "is_undefined m rs' (reg_id i) = Inr False"
    using is_undefined_info [OF assms(2)] w(4) assms(6) by simp
  fix k assume u: "reg_format i = Uint" and k: "value_int v = Some k"
  have s: "reg_size i = 8 \<or> reg_size i = 4" using info_formats [OF assms(2)] u by auto
  from s show "reg_read m rs' i = Inr (stored_value i k)"
    using w(1) widen_int [OF u k fits, of m] nu u
      le_word_word_bytes [where 'a = 64 and k = 8] le_word_word_bytes [where 'a = 32 and k = 4]
    by (auto simp: reg_read_def stored_value_def)
next
  note w = reg_write_bytes [OF assms(1,2,4,5)]
  have nu: "is_undefined m rs' (reg_id i) = Inr False"
    using is_undefined_info [OF assms(2)] w(4) assms(6) by simp
  fix bs assume f: "reg_format i = Vector" "v = V_byte128 bs" "length bs = 16"
  then have "reg_size i = 16" using info_formats [OF assms(2)] by auto
  with f w(1) nu show "reg_read m rs' i = Inr v"
    by (simp add: reg_read_def to_byte128_def)
next
  note w = reg_write_bytes [OF assms(1,2,4,5)]
  assume ne: "reg_offset j \<noteq> reg_offset i"
  have d: "reg_offset j + reg_slot j \<le> reg_offset i \<or> reg_offset i + reg_slot i \<le> reg_offset j"
    using reg_slots_disjoint [OF assms(1,3,2) ne] .
  have "bytes_at (reg_offset j) (reg_size j) (regs_data rs') = bytes_at (reg_offset j) (reg_size j) (regs_data rs)"
    using d reg_slot_size [OF assms(3)] by (intro w(2)) auto
  then show "reg_read m rs' j = reg_read m rs j"
    using is_undefined_info [OF assms(3)] w(4) info_formats [OF assms(3)]
    by (auto simp: reg_read_def)
qed

lemma undefine_reads:
  assumes "layout_ok m" "i \<in> set (g_register_infos m)" "j \<in> set (g_register_infos m)"
  shows "\<exists>rs'. undefine m rs (reg_id i) = Inr rs' \<and>
           (if reg_offset j = reg_offset i then reg_read m rs' j = send ''Register is undefined''
            else reg_read m rs' j = reg_read m rs j)"
proof -
  let ?rs' = "rs\<lparr>regs_undefined := regs_undefined rs @ [reg_offset i div 2]\<rparr>"
  have u: "undefine m rs (reg_id i) = Inr ?rs'"
    by (simp add: undefine_def canonical_offset_def register_info_by_id_info [OF assms(2)])
  have "reg_offset j div 2 \<noteq> reg_offset i div 2" if "reg_offset j \<noteq> reg_offset i"
    using reg_slots_disjoint [OF assms(1,3,2) that] reg_slot_size [OF assms(2)] reg_slot_size [OF assms(3)]
    by linarith
  with u is_undefined_info [OF assms(3)] show ?thesis by (auto simp: reg_read_def)
qed

lemma find_append: "find P (xs @ ys) = (case find P xs of None \<Rightarrow> find P ys | Some x \<Rightarrow> Some x)"
  by (induction xs) auto

lemma find_numbered:
  assumes "\<And>k. reg_dwarf (f k) = base + int k"
  shows "find (\<lambda>i. reg_dwarf i = d) (map f [0..<n]) =
      (if base \<le> d \<and> d < base + int n then Some (f (nat (d - base))) else None)"
proof (induction n)
  case (Suc n)
  have "nat (d - base) = n" if "base + int n = d" using that by simp
  with Suc assms [of n] show ?case by (auto simp: find_append)
qed simp

lemma register_info_by_dwarf_cases:
  "register_info_by_dwarf m d =
     (if 0 \<le> d \<and> d < 29 then Inr (info_x m (nat d))
      else if 29 \<le> d \<and> d \<le> 33 then Inr (g_register_infos m ! nat d)
      else if d = - 1 then Inr (info_w m 0)
      else if 64 \<le> d \<and> d < 96 then Inr (info_v m (nat (d - 64)))
      else send ''Can't find register info'')"
proof -
  have s: "register_info_by_dwarf m d =
      (case find (\<lambda>i. reg_dwarf i = d) (g_register_infos m) of None \<Rightarrow> send ''Can't find register info''
       | Some i \<Rightarrow> Inr i)" by (simp add: register_info_by_dwarf_def register_info_by_def)
  have w: "find (\<lambda>i. reg_dwarf i = d) (map (info_w m) [0..<29]) = (if d = - 1 then Some (info_w m 0) else None)"
  proof -
    have "map (info_w m) [0..<29] = info_w m 0 # map (info_w m) [1..<29]" by (simp add: upt_conv_Cons)
    then show ?thesis by (auto simp: find_None_iff info_w_def simp del: upt_rec_numeral)
  qed
  have five: "29 \<le> d \<and> d \<le> 33 \<longleftrightarrow> d = 29 \<or> d = 30 \<or> d = 31 \<or> d = 32 \<or> d = 33" by auto
  show ?thesis
    unfolding s five g_register_infos_def find_append w
      find_numbered [of "info_x m" 0 d 29, simplified info_x_def, simplified, folded info_x_def]
      find_numbered [of "info_v m" 64 d 32, simplified info_v_def, simplified, folded info_v_def]
    by (auto simp: nth_append)
qed

section \<open>The register file as an interface\<close>

text \<open>
  What the unwinder needs of a register set: words that can be read, written and marked undefined
  by number.  A list of updates of different registers has the effect of each of them.
\<close>

datatype 'v reg_update = Put 'v | Drop | Keep

locale register_file =
  fixes ok :: "'s \<Rightarrow> bool"
    and keys :: "nat set"
    and live :: "'s \<Rightarrow> nat \<Rightarrow> bool"
    and get :: "'s \<Rightarrow> nat \<Rightarrow> 'v result"
    and put :: "'s \<Rightarrow> nat \<Rightarrow> 'v \<Rightarrow> 's result"
    and drop :: "'s \<Rightarrow> nat \<Rightarrow> 's result"
    and dropped :: failure
  assumes put_total: "ok s \<Longrightarrow> k \<in> keys \<Longrightarrow> \<exists>s'. put s k v = Inr s'"
    and put_ok: "ok s \<Longrightarrow> k \<in> keys \<Longrightarrow> put s k v = Inr s' \<Longrightarrow> ok s'"
    and put_live: "ok s \<Longrightarrow> k \<in> keys \<Longrightarrow> put s k v = Inr s' \<Longrightarrow> live s' j = live s j"
    and get_put_same: "ok s \<Longrightarrow> k \<in> keys \<Longrightarrow> live s k \<Longrightarrow> put s k v = Inr s' \<Longrightarrow> get s' k = Inr v"
    and get_put_other:
      "ok s \<Longrightarrow> k \<in> keys \<Longrightarrow> j \<in> keys \<Longrightarrow> j \<noteq> k \<Longrightarrow> put s k v = Inr s' \<Longrightarrow> get s' j = get s j"
    and drop_total: "ok s \<Longrightarrow> k \<in> keys \<Longrightarrow> \<exists>s'. drop s k = Inr s'"
    and drop_ok: "ok s \<Longrightarrow> k \<in> keys \<Longrightarrow> drop s k = Inr s' \<Longrightarrow> ok s'"
    and drop_live:
      "ok s \<Longrightarrow> k \<in> keys \<Longrightarrow> j \<in> keys \<Longrightarrow> j \<noteq> k \<Longrightarrow> drop s k = Inr s' \<Longrightarrow> live s' j = live s j"
    and get_drop_same: "ok s \<Longrightarrow> k \<in> keys \<Longrightarrow> drop s k = Inr s' \<Longrightarrow> get s' k = Inl dropped"
    and get_drop_other:
      "ok s \<Longrightarrow> k \<in> keys \<Longrightarrow> j \<in> keys \<Longrightarrow> j \<noteq> k \<Longrightarrow> drop s k = Inr s' \<Longrightarrow> get s' j = get s j"
begin

fun update :: "'s \<Rightarrow> nat \<times> 'v reg_update \<Rightarrow> 's result" where
  "update s (k, Put v) = put s k v"
| "update s (k, Drop) = drop s k"
| "update s (k, Keep) = Inr s"

fun updates :: "'s \<Rightarrow> (nat \<times> 'v reg_update) list \<Rightarrow> 's result" where
  "updates s [] = Inr s"
| "updates s (u # us) = bind_res (update s u) (\<lambda>s'. updates s' us)"

definition value_after :: "'s \<Rightarrow> nat \<Rightarrow> 'v reg_update option \<Rightarrow> 'v result" where
  "value_after s j u =
     (case u of
        None \<Rightarrow> get s j
      | Some (Put v) \<Rightarrow> Inr v
      | Some Drop \<Rightarrow> Inl dropped
      | Some Keep \<Rightarrow> get s j)"

lemma update_total: "ok s \<Longrightarrow> k \<in> keys \<Longrightarrow> \<exists>s'. update s (k, u) = Inr s'"
  using put_total drop_total by (cases u) auto

lemma update_ok:
  assumes "ok s" "k \<in> keys" "update s (k, u) = Inr s'"
  shows "ok s'"
proof (cases u)
  case (Put v)
  with put_ok [OF assms(1,2), of v s'] assms(3) show ?thesis by simp
next
  case Drop
  with drop_ok [OF assms(1,2), of s'] assms(3) show ?thesis by simp
qed (use assms in simp)

lemma get_update_same:
  assumes "ok s" "k \<in> keys" "live s k" "update s (k, u) = Inr s'"
  shows "get s' k = value_after s k (Some u)"
proof (cases u)
  case (Put v)
  with get_put_same [OF assms(1-3), of v s'] assms(4) show ?thesis by (simp add: value_after_def)
next
  case Drop
  with get_drop_same [OF assms(1,2), of s'] assms(4) show ?thesis by (simp add: value_after_def)
qed (use assms in \<open>simp add: value_after_def\<close>)

lemma update_other:
  assumes "ok s" "k \<in> keys" "j \<in> keys" "j \<noteq> k" "update s (k, u) = Inr s'"
  shows "get s' j = get s j \<and> live s' j = live s j"
proof (cases u)
  case (Put v)
  with assms get_put_other [OF assms(1-4), of v s'] put_live [OF assms(1,2), of v s' j] show ?thesis by simp
next
  case Drop
  with assms get_drop_other [OF assms(1-4), of s'] drop_live [OF assms(1-4), of s'] show ?thesis by simp
qed (use assms in simp)

lemma updates_effect:
  "ok s \<Longrightarrow> distinct (map fst us) \<Longrightarrow> fst ` set us \<subseteq> keys \<Longrightarrow> (\<forall>k \<in> fst ` set us. live s k) \<Longrightarrow>
   \<exists>s'. updates s us = Inr s' \<and> ok s' \<and>
     (\<forall>j \<in> keys. get s' j = value_after s j (map_of us j)) \<and>
     (\<forall>j \<in> keys - fst ` set us. live s' j = live s j)"
proof (induction us arbitrary: s)
  case Nil
  then show ?case by (simp add: value_after_def)
next
  case (Cons x us)
  obtain k u where x: "x = (k, u)" by (cases x)
  have k: "k \<in> keys" "live s k" "k \<notin> fst ` set us" using Cons.prems x by auto
  obtain s1 where s1: "update s (k, u) = Inr s1" using update_total Cons.prems(1) k(1) by blast
  note eff = update_ok [OF Cons.prems(1) k(1) s1] get_update_same [OF Cons.prems(1) k(1,2) s1]
    update_other [OF Cons.prems(1) k(1) _ _ s1]
  have live: "\<forall>j \<in> fst ` set us. live s1 j" using Cons.prems(3,4) eff(3) k(3) x by fastforce
  obtain s' where s': "updates s1 us = Inr s'" "ok s'"
      "\<forall>j \<in> keys. get s' j = value_after s1 j (map_of us j)"
      "\<forall>j \<in> keys - fst ` set us. live s' j = live s1 j"
    using Cons.IH [OF eff(1) _ _ live] Cons.prems x by auto
  have "get s' j = value_after s j (map_of (x # us) j)" if "j \<in> keys" for j
  proof (cases "j = k")
    case True
    then have "map_of us j = None" using k(3) by (simp add: map_of_eq_None_iff)
    with True s'(3) that eff(2) x show ?thesis by (simp add: value_after_def)
  next
    case False
    with eff(3) that s'(3) x show ?thesis by (auto simp: value_after_def split: option.splits reg_update.splits)
  qed
  with s' s1 eff(3) x show ?case by auto
qed

text \<open>The order of the updates does not matter.\<close>

lemma updates_order:
  assumes "ok s" "distinct (map fst us)" "fst ` set us \<subseteq> keys" "\<forall>k \<in> fst ` set us. live s k"
    "distinct (map fst vs)" "set vs = set us"
  shows "\<exists>s1 s2. updates s us = Inr s1 \<and> updates s vs = Inr s2 \<and> (\<forall>j \<in> keys. get s1 j = get s2 j)"
proof -
  have "map_of us = map_of vs" using assms(2,5,6) by (simp add: map_of_inject_set)
  moreover from updates_effect [OF assms(1-4)] obtain s1 where "updates s us = Inr s1"
      "\<forall>j \<in> keys. get s1 j = value_after s j (map_of us j)" by blast
  moreover from updates_effect [OF assms(1,5)] assms(3,4,6) obtain s2 where "updates s vs = Inr s2"
      "\<forall>j \<in> keys. get s2 j = value_after s j (map_of vs j)" by auto
  ultimately show ?thesis by auto
qed

end

text \<open>
  The words of a register set: the registers with DWARF numbers 0 to 32, which are the first
  thirty-three of the table.
\<close>

definition reg_word :: "native \<Rightarrow> registers \<Rightarrow> nat \<Rightarrow> u64 result" where
  "reg_word m rs k = bind_res (reg_read m rs (g_register_infos m ! k)) as_u64"

definition reg_put :: "native \<Rightarrow> registers \<Rightarrow> nat \<Rightarrow> u64 \<Rightarrow> registers result" where
  "reg_put m rs k w =
     bind_res (reg_write m rs (g_register_infos m ! k) (V_u64 w) False) (\<lambda>(rs', _). Inr rs')"

definition reg_drop :: "native \<Rightarrow> registers \<Rightarrow> nat \<Rightarrow> registers result" where
  "reg_drop m rs k = undefine m rs (reg_id (g_register_infos m ! k))"

definition regs_ok :: "native \<Rightarrow> registers \<Rightarrow> bool" where
  "regs_ok m rs \<longleftrightarrow> layout_ok m \<and> length (regs_data rs) = user_size m"

definition reg_live :: "native \<Rightarrow> registers \<Rightarrow> nat \<Rightarrow> bool" where
  "reg_live m rs k \<longleftrightarrow> reg_offset (g_register_infos m ! k) div 2 \<notin> set (regs_undefined rs)"

lemma word_info:
  assumes "k < 33"
  shows "g_register_infos m ! k \<in> set (g_register_infos m)"
    "reg_size (g_register_infos m ! k) = 8" "reg_format (g_register_infos m ! k) = Uint"
    "reg_dwarf (g_register_infos m ! k) = int k" "reg_type (g_register_infos m ! k) = Gpr"
    "reg_offset (g_register_infos m ! k) =
       (if k < 29 then off_x m + k * 8 else [off_fp m, off_lr m, off_sp m, off_pc m] ! (k - 29))"
proof -
  have l: "length (g_register_infos m) = 95" by (simp add: g_register_infos_def)
  then show "g_register_infos m ! k \<in> set (g_register_infos m)" using assms by simp
  have "k < 29 \<or> k = 29 \<or> k = 30 \<or> k = 31 \<or> k = 32" using assms by auto
  then show "reg_size (g_register_infos m ! k) = 8" "reg_format (g_register_infos m ! k) = Uint"
    "reg_dwarf (g_register_infos m ! k) = int k" "reg_type (g_register_infos m ! k) = Gpr"
    "reg_offset (g_register_infos m ! k) =
       (if k < 29 then off_x m + k * 8 else [off_fp m, off_lr m, off_sp m, off_pc m] ! (k - 29))"
    by (auto simp: g_register_infos_def nth_append info_x_def simp del: upt_Suc upt_rec_numeral)
qed

lemma word_slot: "k < 33 \<Longrightarrow> reg_slot (g_register_infos m ! k) = 8"
  by (simp add: reg_slot_def word_info)

lemma word_offsets_distinct:
  assumes "layout_ok m" "j < 33" "k < 33" "j \<noteq> k"
  shows "reg_offset (g_register_infos m ! j) \<noteq> reg_offset (g_register_infos m ! k)"
proof -
  have cases: "i < 29 \<or> i = 29 \<or> i = 30 \<or> i = 31 \<or> i = 32" if "i < 33" for i :: nat using that by auto
  from cases [OF assms(2)] cases [OF assms(3)] assms show ?thesis
    by (auto simp: word_info layout_ok_def)
qed

lemma reg_put_write:
  assumes "k < 33" "reg_put m rs k w = Inr rs'"
  shows "\<exists>ops. reg_write m rs (g_register_infos m ! k) (V_u64 w) False = Inr (rs', ops)"
  using assms by (auto simp: reg_put_def res_simps)

lemma reg_put_same:
  assumes "regs_ok m rs" "k < 33" "reg_live m rs k" "reg_put m rs k w = Inr rs'"
  shows "reg_word m rs' k = Inr w"
proof -
  obtain ops where w: "reg_write m rs (g_register_infos m ! k) (V_u64 w) False = Inr (rs', ops)"
    using reg_put_write [OF assms(2,4)] by blast
  with reg_write_reads [of m "g_register_infos m ! k" "g_register_infos m ! k" rs _ _ rs'] assms
  show ?thesis by (auto simp: reg_word_def regs_ok_def reg_live_def word_info stored_value_def)
qed

lemma reg_put_other:
  assumes "regs_ok m rs" "k < 33" "j < 33" "j \<noteq> k" "reg_put m rs k w = Inr rs'"
  shows "reg_word m rs' j = reg_word m rs j"
proof -
  let ?i = "g_register_infos m ! k" and ?j = "g_register_infos m ! j"
  obtain ops where w: "reg_write m rs ?i (V_u64 w) False = Inr (rs', ops)"
    using reg_put_write [OF assms(2,5)] by blast
  have ok: "layout_ok m" "length (regs_data rs) = user_size m" using assms(1) by (simp_all add: regs_ok_def)
  note b = reg_write_bytes [OF ok(1) word_info(1) [OF assms(2)] ok(2) w]
  have "reg_offset ?j + reg_slot ?j \<le> reg_offset ?i \<or> reg_offset ?i + reg_slot ?i \<le> reg_offset ?j"
    using reg_slots_disjoint [OF ok(1) word_info(1) [OF assms(3)] word_info(1) [OF assms(2)]]
      word_offsets_distinct [OF ok(1) assms(3,2,4)] by blast
  then have "bytes_at (reg_offset ?j) 8 (regs_data rs') = bytes_at (reg_offset ?j) 8 (regs_data rs)"
    using word_info [OF assms(3), of m] by (intro b(2)) (auto simp: reg_slot_def)
  with b(4) show ?thesis
    using is_undefined_info [OF word_info(1) [OF assms(3), of m]] word_info [OF assms(3), of m]
    by (simp add: reg_word_def reg_read_def)
qed

lemma reg_put_keeps:
  assumes "regs_ok m rs" "k < 33" "reg_put m rs k w = Inr rs'"
  shows "regs_ok m rs'" "regs_undefined rs' = regs_undefined rs"
proof -
  obtain ops where w: "reg_write m rs (g_register_infos m ! k) (V_u64 w) False = Inr (rs', ops)"
    using reg_put_write [OF assms(2,3)] by blast
  from reg_write_bytes [OF _ word_info(1) [OF assms(2)] _ w] assms(1)
  show "regs_ok m rs'" "regs_undefined rs' = regs_undefined rs" by (simp_all add: regs_ok_def)
qed

lemma reg_drop_effect:
  assumes "regs_ok m rs" "k < 33"
  shows "\<exists>rs'. reg_drop m rs k = Inr rs' \<and> regs_ok m rs' \<and>
     reg_word m rs' k = Inl (Sdb_Error ''Register is undefined'') \<and>
     (\<forall>j < 33. j \<noteq> k \<longrightarrow> reg_word m rs' j = reg_word m rs j \<and> reg_live m rs' j = reg_live m rs j)"
proof -
  have l: "layout_ok m" using assms(1) by (simp add: regs_ok_def)
  let ?rs' = "rs\<lparr>regs_undefined := regs_undefined rs @ [reg_offset (g_register_infos m ! k) div 2]\<rparr>"
  have d: "reg_drop m rs k = Inr ?rs'"
    by (simp add: reg_drop_def undefine_def canonical_offset_def register_info_by_id_info [OF word_info(1) [OF assms(2)]])
  have other: "reg_word m ?rs' j = reg_word m rs j \<and> reg_live m ?rs' j = reg_live m rs j"
    if "j < 33" "j \<noteq> k" for j
  proof -
    note ne = word_offsets_distinct [OF l that(1) assms(2) that(2)]
    from reg_slots_disjoint [OF l word_info(1) [OF that(1)] word_info(1) [OF assms(2)] ne]
    have "reg_offset (g_register_infos m ! j) div 2 \<noteq> reg_offset (g_register_infos m ! k) div 2"
      unfolding word_slot [OF that(1)] word_slot [OF assms(2)] by linarith
    then show ?thesis
      using is_undefined_info [OF word_info(1) [OF that(1), of m]]
      by (simp add: reg_word_def reg_live_def reg_read_def)
  qed
  have "reg_word m ?rs' k = Inl (Sdb_Error ''Register is undefined'')"
    using is_undefined_info [OF word_info(1) [OF assms(2), of m]]
    by (simp add: reg_word_def reg_read_def send_def)
  with d other assms(1) show ?thesis by (auto simp: regs_ok_def)
qed

interpretation rf: register_file "regs_ok m" "{k. k < 33}" "reg_live m" "reg_word m" "reg_put m"
    "reg_drop m" "Sdb_Error ''Register is undefined''"
proof
  fix s :: registers and k j :: nat and v :: u64 and s' :: registers
  show "\<exists>s'. reg_put m s k v = Inr s'" if "regs_ok m s" "k \<in> {k. k < 33}"
    using that by (simp add: reg_put_def reg_write_def word_info Let_def)
  show "regs_ok m s'" if "regs_ok m s" "k \<in> {k. k < 33}" "reg_put m s k v = Inr s'"
    using that reg_put_keeps by auto
  show "reg_live m s' j = reg_live m s j" if "regs_ok m s" "k \<in> {k. k < 33}" "reg_put m s k v = Inr s'"
    using that reg_put_keeps(2) [of m s k v s'] by (simp add: reg_live_def)
  show "reg_word m s' k = Inr v"
    if "regs_ok m s" "k \<in> {k. k < 33}" "reg_live m s k" "reg_put m s k v = Inr s'"
    using that reg_put_same by auto
  show "reg_word m s' j = reg_word m s j"
    if "regs_ok m s" "k \<in> {k. k < 33}" "j \<in> {k. k < 33}" "j \<noteq> k" "reg_put m s k v = Inr s'"
    using that reg_put_other by auto
  show "\<exists>s'. reg_drop m s k = Inr s'" if "regs_ok m s" "k \<in> {k. k < 33}"
    using that reg_drop_effect [of m s k] by auto
  show "regs_ok m s'" if "regs_ok m s" "k \<in> {k. k < 33}" "reg_drop m s k = Inr s'"
    using that reg_drop_effect [of m s k] by auto
  show "reg_live m s' j = reg_live m s j"
    if "regs_ok m s" "k \<in> {k. k < 33}" "j \<in> {k. k < 33}" "j \<noteq> k" "reg_drop m s k = Inr s'"
    using that reg_drop_effect [of m s k] by auto
  show "reg_word m s' k = Inl (Sdb_Error ''Register is undefined'')"
    if "regs_ok m s" "k \<in> {k. k < 33}" "reg_drop m s k = Inr s'"
    using that reg_drop_effect [of m s k] by auto
  show "reg_word m s' j = reg_word m s j"
    if "regs_ok m s" "k \<in> {k. k < 33}" "j \<in> {k. k < 33}" "j \<noteq> k" "reg_drop m s k = Inr s'"
    using that reg_drop_effect [of m s k] by auto
qed

section \<open>Properties\<close>


definition demo_regs :: registers where
  "demo_regs = \<lparr>regs_data = replicate 1320 0xaa, regs_undefined = [], regs_cfa = 0\<rparr>"


text \<open>
  Undefined registers.  After \<open>undefine\<close> reading that register raises an error, and so does
  reading its alias (\<open>w\<close> and \<open>x\<close> registers of the same number share an offset); every register
  at another offset reads as before.
\<close>

theorem register_undefine:
  assumes "layout_ok m" "i \<in> set (g_register_infos m)" "j \<in> set (g_register_infos m)"
  shows "\<exists>rs'. undefine m rs (reg_id i) = Inr rs' \<and>
           (if reg_offset j = reg_offset i then reg_read m rs' j = send ''Register is undefined''
            else reg_read m rs' j = reg_read m rs j)"
  by (rule undefine_reads [OF assms])

theorem register_undefine_witness:
  "\<exists>rs'. undefine darwin_arm64 demo_regs (X 2) = Inr rs' \<and>
         reg_read darwin_arm64 rs' (info_w darwin_arm64 2) = send ''Register is undefined''"
proof -
  have i: "info_x darwin_arm64 2 \<in> set (g_register_infos darwin_arm64)"
      "info_w darwin_arm64 2 \<in> set (g_register_infos darwin_arm64)"
    by (simp_all add: g_register_infos_def)
  from register_undefine [OF darwin_layout_ok i, of demo_regs] show ?thesis
    by (simp add: info_x_def info_w_def)
qed

text \<open>
  Writing a \<open>w\<close> register to the thread clears the upper half of its \<open>x\<close> register, as the
  processor does; when the write is not committed the upper half keeps its old bytes.
\<close>

theorem sub_register_write:
  assumes "layout_ok m" "k < 29" "length (regs_data rs) = user_size m"
    "reg_write m rs (info_w m k) (V_u32 w) commit = Inr (rs', ops)"
    "(off_x m + k * 8) div 2 \<notin> set (regs_undefined rs)"
  shows "reg_read m rs' (info_x m k) =
           Inr (V_u64 (le_word (word_bytes w @
             (if commit then replicate 4 0 else bytes_at (off_x m + k * 8 + 4) 4 (regs_data rs)))))"
proof -
  let ?o = "off_x m + k * 8"
  have x: "info_x m k \<in> set (g_register_infos m)" using assms(2) by (auto simp: g_register_infos_def)
  have fit: "?o + 8 \<le> length (regs_data rs)" using assms(1-3) by (auto simp: layout_ok_def)
  let ?d1 = "overwrite ?o (word_bytes w) (regs_data rs)"
  have "take 4 (to_byte128 (word_bytes w)) = word_bytes w" by (simp add: to_byte128_take)
  then have d: "regs_data rs' = (if commit then overwrite (?o + 4) (replicate 4 0) ?d1 else ?d1)"
    "regs_undefined rs' = regs_undefined rs"
    using assms(4) by (auto simp: reg_write_def info_w_def Let_def split: if_splits)
  have "bytes_at ?o 8 (regs_data rs') =
      word_bytes w @ (if commit then replicate 4 0 else bytes_at (?o + 4) 4 (regs_data rs))"
    using fit unfolding d by (auto simp: bytes_at_def overwrite_def)
  with is_undefined_info [OF x] d(2) assms(5) show ?thesis
    by (simp add: reg_read_def info_x_def)
qed

lemma le_nat_replicate_0: "le_nat (replicate n 0) = 0"
  by (induction n) auto

text \<open>
  Registers by DWARF number.  The numbers 0 to 33 and 64 to 95 name one register each, with
  that number; every other number but -1 is rejected, and -1, which the table gives to all \<open>w\<close>
  registers, names \<open>w0\<close>.
\<close>

theorem register_by_dwarf_number:
  "register_info_by_dwarf m d =
     (if 0 \<le> d \<and> d < 29 then Inr (info_x m (nat d))
      else if 29 \<le> d \<and> d \<le> 33 then Inr (g_register_infos m ! nat d)
      else if d = - 1 then Inr (info_w m 0)
      else if 64 \<le> d \<and> d < 96 then Inr (info_v m (nat (d - 64)))
      else send ''Can't find register info'')"
  by (rule register_info_by_dwarf_cases)

end
