(* ===== verification/Dwarf_Expr.thy ===== *)
theory Dwarf_Expr
  imports Dwarf_Index Registers
begin

text \<open>
  DWARF expressions and location lists (\<^verbatim>\<open>src/src/dwarf.cpp\<close>, classes \<open>dwarf_expression\<close> and
  \<open>location_list\<close>): the stack machine, the location it computes, and the evaluation of a
  location attribute.

  The environment of an evaluation is the object file, the registers of the frame, the memory of
  the process (a function, which the process model supplies) and the query for the function that
  contains an address.  An empty stack is popped, a division by zero and a shift by the width or
  more are undefined behaviour, as in the code.  Every operation consumes a byte, so the machine
  itself always ends; only the evaluation of a frame base inside an expression can recur without
  end and carries fuel.
\<close>

section \<open>Results\<close>

datatype simple_location =
    Address_result u64
  | Register_result u64
  | Data_result span
  | Literal_result u64
  | Empty_result

record piece =
  piece_location :: simple_location
  piece_bit_size :: u64
  piece_offset :: u64

datatype expr_result = Simple simple_location | Pieces "piece list"

record expr_env =
  env_elf :: elf
  env_native :: native
  env_regs :: registers
  env_memory :: "u64 \<Rightarrow> nat \<Rightarrow> byte list result"
  env_function :: "file_addr \<Rightarrow> die option result"

text \<open>The stack has its top at the head of the list.\<close>

record expr_state =
  es_stack :: "u64 list"
  es_recent :: "simple_location option"
  es_pieces :: "piece list"
  es_is_address :: bool

definition push :: "u64 \<Rightarrow> expr_state \<Rightarrow> expr_state" where
  "push w s = s\<lparr>es_stack := w # es_stack s\<rparr>"

fun pop :: "u64 list \<Rightarrow> (u64 \<times> u64 list) result" where
  "pop [] = undefined_behaviour ''empty stack''"
| "pop (w # ws) = Inr (w, ws)"

definition read_memory_as_u64 :: "expr_env \<Rightarrow> u64 \<Rightarrow> u64 result" where
  "read_memory_as_u64 env a = bind_res (env_memory env a 8) (\<lambda>bs. Inr (le_word bs))"

text \<open>The conversion of a register number to \<open>std::int32_t\<close>.\<close>

definition dwarf_number :: "u64 \<Rightarrow> int" where
  "dwarf_number w = sint (ucast w :: u32)"

definition dwarf_register :: "expr_env \<Rightarrow> int \<Rightarrow> u64 result" where
  "dwarf_register env n =
     bind_res (register_info_by_dwarf (env_native env) n) (\<lambda>info.
     bind_res (reg_read (env_native env) (env_regs env) info) as_u64)"

definition get_current_location :: "expr_state \<Rightarrow> simple_location \<times> expr_state" where
  "get_current_location s =
     (case es_stack s of
        [] \<Rightarrow> (case es_recent s of None \<Rightarrow> Empty_result | Some l \<Rightarrow> l, s\<lparr>es_recent := None\<rparr>)
      | w # ws \<Rightarrow>
          if es_is_address s then (Address_result w, s\<lparr>es_stack := ws\<rparr>)
          else (Literal_result w, s\<lparr>es_stack := ws, es_is_address := True\<rparr>))"

section \<open>Operations\<close>

text \<open>
  Each group of opcodes is a function that returns \<open>None\<close> for an opcode that is not one of its
  own; an opcode that no group knows is skipped, as the switch has no default.
\<close>

definition op_literal ::
  "expr_env \<Rightarrow> bool \<Rightarrow> byte \<Rightarrow> expr_state \<Rightarrow> cursor \<Rightarrow> (expr_state \<times> cursor) result option" where
  "op_literal env in_frame_info opcode s c =
     (let img = storage (env_elf env) in
      if DW_OP_lit0 \<le> opcode \<and> opcode \<le> DW_OP_lit31 then
        Some (Inr (push (ucast (opcode - DW_OP_lit0)) s, c))
      else if DW_OP_breg0 \<le> opcode \<and> opcode \<le> DW_OP_breg31 then
        Some (bind_res (register_info_by_dwarf (env_native env) (uint (opcode - DW_OP_breg0))) (\<lambda>info.
              bind_res (reg_read (env_native env) (env_regs env) info) (\<lambda>v.
              bind_res (cur_sleb128 img c) (\<lambda>(offset, c').
              bind_res (as_u64 v) (\<lambda>w. Inr (push (w + offset) s, c'))))))
      else if DW_OP_reg0 \<le> opcode \<and> opcode \<le> DW_OP_reg31 then
        Some (if in_frame_info then
                bind_res (dwarf_register env (uint (opcode - DW_OP_reg0))) (\<lambda>w. Inr (push w s, c))
              else Inr (s\<lparr>es_recent := Some (Register_result (ucast (opcode - DW_OP_reg0)))\<rparr>, c))
      else None)"

definition push_read :: "('w \<Rightarrow> u64) \<Rightarrow> expr_state \<Rightarrow> ('w \<times> cursor) result \<Rightarrow> (expr_state \<times> cursor) result" where
  "push_read f s r = bind_res r (\<lambda>(w, c'). Inr (push (f w) s, c'))"

definition op_constant ::
  "expr_env \<Rightarrow> byte \<Rightarrow> expr_state \<Rightarrow> cursor \<Rightarrow> (expr_state \<times> cursor) result option" where
  "op_constant env opcode s c =
     (let img = storage (env_elf env) in
      if opcode = DW_OP_addr then
        Some (bind_res (cur_u64 img c) (\<lambda>(a, c').
              bind_res (to_virt_addr (env_elf env) (elf_file_addr (env_elf env) a)) (\<lambda>v.
              Inr (push v s, c'))))
      else if opcode = DW_OP_const1u then Some (push_read ucast s (cur_u8 img c))
      else if opcode = DW_OP_const1s then Some (push_read scast s (cur_s8 img c))
      else if opcode = DW_OP_const2u then Some (push_read ucast s (cur_u16 img c))
      else if opcode = DW_OP_const2s then Some (push_read scast s (cur_s16 img c))
      else if opcode = DW_OP_const4u then Some (push_read ucast s (cur_u32 img c))
      else if opcode = DW_OP_const4s then Some (push_read scast s (cur_s32 img c))
      else if opcode = DW_OP_const8u then Some (push_read id s (cur_u64 img c))
      else if opcode = DW_OP_const8s then Some (push_read id s (cur_s64 img c))
      else if opcode = DW_OP_constu then Some (push_read id s (cur_uleb128 img c))
      else if opcode = DW_OP_consts then Some (push_read id s (cur_sleb128 img c))
      else None)"

text \<open>The frame base is evaluated only by \<open>DW_OP_fbreg\<close>; it is passed as a result.\<close>

definition op_register ::
  "expr_env \<Rightarrow> bool \<Rightarrow> u64 result \<Rightarrow> byte \<Rightarrow> expr_state \<Rightarrow> cursor \<Rightarrow> (expr_state \<times> cursor) result option" where
  "op_register env in_frame_info frame_base opcode s c =
     (let img = storage (env_elf env) in
      if opcode = DW_OP_bregx then
        Some (bind_res (cur_uleb128 img c) (\<lambda>(n, c1).
              bind_res (register_info_by_dwarf (env_native env) (dwarf_number n)) (\<lambda>info.
              bind_res (reg_read (env_native env) (env_regs env) info) (\<lambda>v.
              bind_res (as_u64 v) (\<lambda>w.
              bind_res (cur_sleb128 img c1) (\<lambda>(offset, c2). Inr (push (w + offset) s, c2)))))))
      else if opcode = DW_OP_fbreg then
        Some (bind_res (cur_sleb128 img c) (\<lambda>(offset, c').
              bind_res frame_base (\<lambda>fb. Inr (push (fb + offset) s, c'))))
      else if opcode = DW_OP_regx then
        Some (bind_res (cur_uleb128 img c) (\<lambda>(n, c').
              if in_frame_info then
                bind_res (dwarf_register env (dwarf_number n)) (\<lambda>w. Inr (push w s, c'))
              else Inr (s\<lparr>es_recent := Some (Register_result n)\<rparr>, c')))
      else if opcode = DW_OP_call_frame_cfa then Some (Inr (push (regs_cfa (env_regs env)) s, c))
      else None)"

definition stack_pick :: "nat \<Rightarrow> u64 list \<Rightarrow> u64 result" where
  "stack_pick i ws = (if i < length ws then Inr (ws ! i) else undefined_behaviour ''empty stack'')"

definition op_stack ::
  "expr_env \<Rightarrow> byte \<Rightarrow> expr_state \<Rightarrow> cursor \<Rightarrow> (expr_state \<times> cursor) result option" where
  "op_stack env opcode s c =
     (let img = storage (env_elf env); st = es_stack s in
      if opcode = DW_OP_dup then
        Some (bind_res (stack_pick 0 st) (\<lambda>w. Inr (push w s, c)))
      else if opcode = DW_OP_drop then
        Some (bind_res (pop st) (\<lambda>(_, ws). Inr (s\<lparr>es_stack := ws\<rparr>, c)))
      else if opcode = DW_OP_pick then
        Some (bind_res (cur_u8 img c) (\<lambda>(i, c').
              bind_res (stack_pick (unat i) st) (\<lambda>w. Inr (push w s, c'))))
      else if opcode = DW_OP_over then
        Some (bind_res (stack_pick 1 st) (\<lambda>w. Inr (push w s, c)))
      else if opcode = DW_OP_swap then
        Some (case st of a # b # ws \<Rightarrow> Inr (s\<lparr>es_stack := b # a # ws\<rparr>, c)
              | _ \<Rightarrow> undefined_behaviour ''empty stack'')
      else if opcode = DW_OP_rot then
        Some (case st of a # b # d # ws \<Rightarrow> Inr (s\<lparr>es_stack := b # d # a # ws\<rparr>, c)
              | _ \<Rightarrow> undefined_behaviour ''empty stack'')
      else if opcode = DW_OP_deref then
        Some (bind_res (pop st) (\<lambda>(a, ws).
              bind_res (read_memory_as_u64 env a) (\<lambda>w. Inr (s\<lparr>es_stack := w # ws\<rparr>, c))))
      else if opcode = DW_OP_deref_size then
        Some (bind_res (pop st) (\<lambda>(a, ws).
              bind_res (cur_u8 img c) (\<lambda>(n, c').
              bind_res (env_memory env a (unat n)) (\<lambda>mem.
              if length mem > 8 then undefined_behaviour ''write past a 64-bit variable''
              else Inr (s\<lparr>es_stack := le_word mem # ws\<rparr>, c')))))
      else if opcode = DW_OP_xderef then Some (send ''DW_OP_xderef not supported'')
      else if opcode = DW_OP_xderef_size then Some (send ''DW_OP_xderef_size not supported'')
      else if opcode = DW_OP_push_object_address
        then Some (send ''Unsupported opcode DW_OP_push_object_address'')
      else if opcode = DW_OP_form_tls_address
        then Some (send ''Unsupported opcode DW_OP_form_tls_address'')
      else None)"

definition binop :: "(u64 \<Rightarrow> u64 \<Rightarrow> u64 result) \<Rightarrow> expr_state \<Rightarrow> expr_state result" where
  "binop f s =
     bind_res (pop (es_stack s)) (\<lambda>(rhs, ws).
     bind_res (pop ws) (\<lambda>(lhs, ws').
     bind_res (f lhs rhs) (\<lambda>w. Inr (s\<lparr>es_stack := w # ws'\<rparr>))))"

definition unop :: "(u64 \<Rightarrow> u64 result) \<Rightarrow> expr_state \<Rightarrow> expr_state result" where
  "unop f s =
     bind_res (pop (es_stack s)) (\<lambda>(v, ws). bind_res (f v) (\<lambda>w. Inr (s\<lparr>es_stack := w # ws\<rparr>)))"

definition shift_by :: "(nat \<Rightarrow> u64 \<Rightarrow> u64) \<Rightarrow> u64 \<Rightarrow> u64 \<Rightarrow> u64 result" where
  "shift_by f lhs rhs =
     (if unat rhs < 64 then Inr (f (unat rhs) lhs) else undefined_behaviour ''shift past the width'')"

definition trunc_div :: "int \<Rightarrow> int \<Rightarrow> int" where
  "trunc_div a b = sgn a * sgn b * (\<bar>a\<bar> div \<bar>b\<bar>)"

definition signed_div :: "u64 \<Rightarrow> u64 \<Rightarrow> u64 result" where
  "signed_div lhs rhs =
     (if rhs = 0 \<or> sint lhs = - (2 ^ 63) \<and> sint rhs = - 1 then undefined_behaviour ''signed division''
      else Inr (word_of_int (trunc_div (sint lhs) (sint rhs))))"

definition op_arithmetic ::
  "expr_env \<Rightarrow> byte \<Rightarrow> expr_state \<Rightarrow> cursor \<Rightarrow> (expr_state \<times> cursor) result option" where
  "op_arithmetic env opcode s c =
     (let ret = (\<lambda>r. Some (bind_res r (\<lambda>s'. Inr (s', c)))) in
      if opcode = DW_OP_minus then ret (binop (\<lambda>a b. Inr (a - b)) s)
      else if opcode = DW_OP_mod then
        ret (binop (\<lambda>a b. if b = 0 then undefined_behaviour ''division by zero'' else Inr (a mod b)) s)
      else if opcode = DW_OP_mul then ret (binop (\<lambda>a b. Inr (a * b)) s)
      else if opcode = DW_OP_and then ret (binop (\<lambda>a b. Inr (a AND b)) s)
      else if opcode = DW_OP_or then ret (binop (\<lambda>a b. Inr (a OR b)) s)
      else if opcode = DW_OP_plus then ret (binop (\<lambda>a b. Inr (a + b)) s)
      else if opcode = DW_OP_shl then ret (binop (shift_by push_bit) s)
      else if opcode = DW_OP_shr then ret (binop (shift_by drop_bit) s)
      else if opcode = DW_OP_shra then ret (binop (shift_by signed_drop_bit) s)
      else if opcode = DW_OP_xor then ret (binop (\<lambda>a b. Inr (a XOR b)) s)
      else if opcode = DW_OP_div then ret (binop signed_div s)
      else if opcode = DW_OP_abs then
        ret (unop (\<lambda>v. if sint v = - (2 ^ 63) then undefined_behaviour ''signed overflow''
                       else Inr (word_of_int \<bar>sint v\<bar>)) s)
      else if opcode = DW_OP_neg then
        ret (unop (\<lambda>v. if sint v = - (2 ^ 63) then undefined_behaviour ''signed overflow''
                       else Inr (- v)) s)
      else if opcode = DW_OP_plus_uconst then
        Some (bind_res (cur_uleb128 (storage (env_elf env)) c) (\<lambda>(n, c').
              bind_res (pop (es_stack s)) (\<lambda>(v, ws).
              Inr (s\<lparr>es_stack := (v + n) # ws\<rparr>, c'))))
      else if opcode = DW_OP_not then ret (unop (\<lambda>v. Inr (NOT v)) s)
      else None)"

definition relop :: "(int \<Rightarrow> int \<Rightarrow> bool) \<Rightarrow> expr_state \<Rightarrow> expr_state result" where
  "relop f s = binop (\<lambda>a b. Inr (if f (sint a) (sint b) then 1 else 0)) s"

definition op_relation ::
  "byte \<Rightarrow> expr_state \<Rightarrow> cursor \<Rightarrow> (expr_state \<times> cursor) result option" where
  "op_relation opcode s c =
     (let ret = (\<lambda>f. Some (bind_res (relop f s) (\<lambda>s'. Inr (s', c)))) in
      if opcode = DW_OP_le then ret (\<le>)
      else if opcode = DW_OP_ge then ret (\<ge>)
      else if opcode = DW_OP_eq then ret (=)
      else if opcode = DW_OP_lt then ret (<)
      else if opcode = DW_OP_gt then ret (>)
      else if opcode = DW_OP_ne then ret (\<noteq>)
      else None)"

text \<open>
  Jumps use the bounds-checked \<open>operator+=\<close> with the sign-extended offset.  A branch that is not
  taken does not read its operand.
\<close>

definition op_control ::
  "expr_env \<Rightarrow> byte \<Rightarrow> expr_state \<Rightarrow> cursor \<Rightarrow> (expr_state \<times> cursor) result option" where
  "op_control env opcode s c =
     (let img = storage (env_elf env);
          jump = bind_res (cur_s16 img c) (\<lambda>(off, c1). cur_advance (scast off) c1)
      in
      if opcode = DW_OP_skip then Some (bind_res jump (\<lambda>c'. Inr (s, c')))
      else if opcode = DW_OP_bra then
        Some (bind_res (pop (es_stack s)) (\<lambda>(v, ws).
              bind_res (if v \<noteq> 0 then jump else Inr c) (\<lambda>c'. Inr (s\<lparr>es_stack := ws\<rparr>, c'))))
      else if opcode = DW_OP_call2 then Some (send ''Unsupported opcode DW_OP_call2'')
      else if opcode = DW_OP_call4 then Some (send ''Unsupported opcode DW_OP_call4'')
      else if opcode = DW_OP_call_ref then Some (send ''Unsupported opcode DW_OP_call_ref'')
      else None)"

definition add_piece :: "u64 \<Rightarrow> u64 \<Rightarrow> expr_state \<Rightarrow> expr_state" where
  "add_piece bits off s =
     (let (loc, s') = get_current_location s
      in s'\<lparr>es_pieces := es_pieces s' @ [\<lparr>piece_location = loc, piece_bit_size = bits, piece_offset = off\<rparr>]\<rparr>)"

definition op_location ::
  "expr_env \<Rightarrow> byte \<Rightarrow> expr_state \<Rightarrow> cursor \<Rightarrow> (expr_state \<times> cursor) result option" where
  "op_location env opcode s c =
     (let img = storage (env_elf env) in
      if opcode = DW_OP_implicit_value then
        Some (bind_res (cur_uleb128 img c) (\<lambda>(n, c').
              Inr (s\<lparr>es_recent := Some (Data_result \<lparr>sp_data = cur_pos c', sp_size = n\<rparr>)\<rparr>, c')))
      else if opcode = DW_OP_stack_value then Some (Inr (s\<lparr>es_is_address := False\<rparr>, c))
      else if opcode = DW_OP_nop then Some (Inr (s, c))
      else if opcode = DW_OP_piece then
        Some (bind_res (cur_uleb128 img c) (\<lambda>(n, c'). Inr (add_piece (n * 8) 0 s, c')))
      else if opcode = DW_OP_bit_piece then
        Some (bind_res (cur_uleb128 img c) (\<lambda>(bits, c1).
              bind_res (cur_uleb128 img c1) (\<lambda>(off, c2). Inr (add_piece bits off s, c2))))
      else None)"

fun first_of :: "'a option list \<Rightarrow> 'a \<Rightarrow> 'a" where
  "first_of [] d = d"
| "first_of (None # xs) d = first_of xs d"
| "first_of (Some x # xs) d = x"

definition expr_step ::
  "expr_env \<Rightarrow> bool \<Rightarrow> u64 result \<Rightarrow> expr_state \<Rightarrow> cursor \<Rightarrow> (expr_state \<times> cursor) result" where
  "expr_step env in_frame_info frame_base s c =
     bind_res (cur_u8 (storage (env_elf env)) c) (\<lambda>(opcode, c').
     first_of [op_literal env in_frame_info opcode s c', op_constant env opcode s c',
               op_register env in_frame_info frame_base opcode s c', op_stack env opcode s c',
               op_arithmetic env opcode s c', op_relation opcode s c', op_control env opcode s c',
               op_location env opcode s c']
       (Inr (s, c')))"

section \<open>Evaluation\<close>

definition cur_inside :: "cursor \<Rightarrow> bool" where
  "cur_inside c \<longleftrightarrow>
     (\<exists>p e. cur_pos c = Some p \<and> span_end (cur_data c) = Some e \<and> p \<le> e)"

lemma fixed_int_inside:
  assumes "fixed_int img c = Inr (w, c')" "cur_inside c"
  shows "cur_inside c'"
proof -
  define n where "n = LENGTH('a) div 8"
  obtain p e bs where p: "cur_pos c = Some p" "span_end (cur_data c) = Some e" "p \<le> e"
    using assms(2) by (auto simp: cur_inside_def)
  have c: "c' = c\<lparr>cur_pos := Some (p + word_of_nat n)\<rparr>" "\<not> word_of_nat n > e - p"
    using assms(1) p by (auto simp: fixed_int_def fixed_bytes_def cur_left_def n_def res_simps split: if_splits)
  have "unat (word_of_nat n :: u64) \<le> unat e - unat p"
    using c(2) p(3) by (simp add: word_less_nat_alt unat_sub not_less)
  moreover have "unat p \<le> unat e" using p(3) by (simp add: word_le_nat_alt)
  moreover have "unat e < 2 ^ 64" using unsigned_less [of e] by simp
  ultimately have "unat (p + word_of_nat n) \<le> unat e" by (simp add: unat_plus_if' le_diff_conv2)
  with c(1) p show ?thesis by (simp add: cur_inside_def word_le_nat_alt)
qed

lemma cur_advance_measure:
  assumes "cur_advance n c = Inr c'" "cur_inside c"
  shows "cur_measure img c' \<le> cur_measure img c"
proof -
  obtain p e where p: "cur_pos c = Some p" "span_end (cur_data c) = Some e" "p \<le> e"
    using assms(2) by (auto simp: cur_inside_def)
  have c: "c' = c\<lparr>cur_pos := Some (p + n)\<rparr>" "\<not> n > e - p"
    using assms(1) p by (auto simp: cur_advance_def cur_left_def split: if_splits)
  have "unat n \<le> unat e - unat p" using c(2) p(3) by (simp add: word_less_nat_alt unat_sub not_less)
  moreover have "unat p \<le> unat e" using p(3) by (simp add: word_le_nat_alt)
  moreover have "unat e < 2 ^ 64" using unsigned_less [of e] by simp
  ultimately have "unat (p + n) = unat p + unat n" by (simp add: unat_plus_if')
  with c(1) p show ?thesis by (simp add: cur_measure_def)
qed

lemma cur_int_measure_le:
  "cur_u8 img c = Inr (b, c') \<Longrightarrow> cur_measure img c' \<le> cur_measure img c"
  "cur_u16 img c = Inr (h, c') \<Longrightarrow> cur_measure img c' \<le> cur_measure img c"
  "cur_u32 img c = Inr (w, c') \<Longrightarrow> cur_measure img c' \<le> cur_measure img c"
  "cur_u64 img c = Inr (x, c') \<Longrightarrow> cur_measure img c' \<le> cur_measure img c"
  "cur_s8 img c = Inr (b, c') \<Longrightarrow> cur_measure img c' \<le> cur_measure img c"
  "cur_s16 img c = Inr (h, c') \<Longrightarrow> cur_measure img c' \<le> cur_measure img c"
  "cur_s32 img c = Inr (w, c') \<Longrightarrow> cur_measure img c' \<le> cur_measure img c"
  "cur_s64 img c = Inr (x, c') \<Longrightarrow> cur_measure img c' \<le> cur_measure img c"
  "cur_uleb128 img c = Inr (x, c') \<Longrightarrow> cur_measure img c' \<le> cur_measure img c"
  "cur_sleb128 img c = Inr (x, c') \<Longrightarrow> cur_measure img c' \<le> cur_measure img c"
  using fixed_int_measure [where 'a = 8, of img c] fixed_int_measure [where 'a = 16, of img c]
    fixed_int_measure [where 'a = 32, of img c] fixed_int_measure [where 'a = 64, of img c]
    cur_uleb128_measure [of img c] cur_sleb128_measure [of img c]
  by (fastforce simp: cur_u8_def cur_u16_def cur_u32_def cur_u64_def cur_s8_def cur_s16_def
      cur_s32_def cur_s64_def less_imp_le)+

lemma push_read_measure:
  "push_read f s r = Inr (s', c') \<Longrightarrow> (\<And>w. r = Inr (w, c') \<Longrightarrow> m c' \<le> n) \<Longrightarrow> m c' \<le> n"
  by (auto simp: push_read_def res_simps)

lemma op_measures:
  "op_literal env fi opcode s c = Some (Inr (s', c')) \<Longrightarrow>
   cur_measure (storage (env_elf env)) c' \<le> cur_measure (storage (env_elf env)) c"
  "op_register env fi fb opcode s c = Some (Inr (s', c')) \<Longrightarrow>
   cur_measure (storage (env_elf env)) c' \<le> cur_measure (storage (env_elf env)) c"
  "op_stack env opcode s c = Some (Inr (s', c')) \<Longrightarrow>
   cur_measure (storage (env_elf env)) c' \<le> cur_measure (storage (env_elf env)) c"
  "op_relation opcode s c = Some (Inr (s', c')) \<Longrightarrow> cur_measure img c' \<le> cur_measure img c"
  "op_location env opcode s c = Some (Inr (s', c')) \<Longrightarrow>
   cur_measure (storage (env_elf env)) c' \<le> cur_measure (storage (env_elf env)) c"
  unfolding op_literal_def op_register_def op_stack_def op_relation_def op_location_def Let_def
  by (auto simp: res_simps split: if_splits list.splits dest!: cur_int_measure_le)

lemma op_constant_measure:
  "op_constant env opcode s c = Some (Inr (s', c')) \<Longrightarrow>
   cur_measure (storage (env_elf env)) c' \<le> cur_measure (storage (env_elf env)) c"
  unfolding op_constant_def push_read_def Let_def
  by (auto simp: res_simps split: if_splits dest!: cur_int_measure_le)

lemma op_arithmetic_measure:
  "op_arithmetic env opcode s c = Some (Inr (s', c')) \<Longrightarrow>
   cur_measure (storage (env_elf env)) c' \<le> cur_measure (storage (env_elf env)) c"
  unfolding op_arithmetic_def Let_def
  by (auto simp: res_simps split: if_splits dest!: cur_int_measure_le)

lemma op_control_measure:
  assumes "op_control env opcode s c = Some (Inr (s', c'))" "cur_inside c"
  shows "cur_measure (storage (env_elf env)) c' \<le> cur_measure (storage (env_elf env)) c"
proof -
  let ?img = "storage (env_elf env)"
  have jump: "cur_measure ?img c2 \<le> cur_measure ?img c"
    if "cur_s16 ?img c = Inr (off, c1)" "cur_advance (scast off) c1 = Inr c2" for off c1 c2
    using that cur_advance_measure [OF that(2), of ?img] cur_int_measure_le(6) [OF that(1)]
      fixed_int_inside [of ?img c off c1] assms(2) by (auto simp: cur_s16_def)
  show ?thesis
    using assms(1) jump unfolding op_control_def Let_def
    by (auto simp: res_simps split: if_splits)
qed

lemma first_of_cases:
  "first_of xs d = r \<Longrightarrow> (\<And>x. x \<in> set xs \<Longrightarrow> x = Some r \<Longrightarrow> P) \<Longrightarrow> (r = d \<Longrightarrow> P) \<Longrightarrow> P"
  by (induction xs d rule: first_of.induct) auto

lemma expr_step_measure:
  assumes "expr_step env fi fb s c = Inr (s', c')" "\<not> cur_finished c"
  shows "cur_measure (storage (env_elf env)) c' < cur_measure (storage (env_elf env)) c"
proof -
  let ?img = "storage (env_elf env)"
  obtain opcode c1 where u: "cur_u8 ?img c = Inr (opcode, c1)"
      "first_of [op_literal env fi opcode s c1, op_constant env opcode s c1,
               op_register env fi fb opcode s c1, op_stack env opcode s c1,
               op_arithmetic env opcode s c1, op_relation opcode s c1, op_control env opcode s c1,
               op_location env opcode s c1] (Inr (s, c1)) = Inr (s', c')"
    using assms(1) by (auto simp: expr_step_def res_simps)
  obtain p where p: "cur_pos c = Some p" using cur_u8_progress [OF u(1)] by blast
  have "cur_inside c"
  proof (cases "span_end (cur_data c)")
    case None
    with assms(2) show ?thesis by (simp add: cur_finished_def)
  next
    case (Some e)
    with assms(2) p show ?thesis by (auto simp: cur_finished_def cur_inside_def)
  qed
  then have c1: "cur_inside c1" using fixed_int_inside u(1) by (auto simp: cur_u8_def)
  have "cur_measure ?img c' \<le> cur_measure ?img c1"
    by (rule first_of_cases [OF u(2)])
      (auto dest: op_measures(1-3,5) [OF sym] op_constant_measure [OF sym]
        op_arithmetic_measure [OF sym] op_control_measure [OF sym c1]
        op_measures(4) [OF sym, where img = ?img])
  with cur_measures(2) [OF u(1)] show ?thesis by simp
qed

function expr_loop ::
  "expr_env \<Rightarrow> bool \<Rightarrow> u64 result \<Rightarrow> expr_state \<Rightarrow> cursor \<Rightarrow> expr_state result" where
  "expr_loop env in_frame_info frame_base s c =
     (if cur_finished c then Inr s
      else bind_res (expr_step env in_frame_info frame_base s c) (\<lambda>(s', c').
           expr_loop env in_frame_info frame_base s' c'))"
  by pat_completeness auto
termination
  by (relation "measure (\<lambda>(env, fi, fb, s, c). cur_measure (storage (env_elf env)) c)")
    (auto dest!: expr_step_measure)

declare expr_loop.simps [simp del]

definition expr_answer :: "expr_state \<Rightarrow> expr_result" where
  "expr_answer s =
     (if es_pieces s \<noteq> [] then Pieces (es_pieces s) else Simple (fst (get_current_location s)))"

definition initial_state :: "expr_env \<Rightarrow> bool \<Rightarrow> expr_state" where
  "initial_state env push_cfa =
     \<lparr>es_stack = (if push_cfa then [regs_cfa (env_regs env)] else []), es_recent = None,
      es_pieces = [], es_is_address = True\<rparr>"

definition read_frame_base_result :: "expr_result \<Rightarrow> u64 result" where
  "read_frame_base_result loc =
     (case loc of
        Simple (Address_result a) \<Rightarrow> Inr a
      | _ \<Rightarrow> send ''Unsupported frame base location'')"

text \<open>The file address of the program counter, and the function there.\<close>

definition current_pc :: "expr_env \<Rightarrow> file_addr result" where
  "current_pc env =
     bind_res (read_by_id_as_u64 (env_native env) (env_regs env) PC) (\<lambda>pc.
     Inr (to_file_addr (env_elf env) pc))"

definition as_expression :: "elf \<Rightarrow> attr \<Rightarrow> span result" where
  "as_expression obj a =
     bind_res (cur_uleb128 (storage obj) (attr_cursor a)) (\<lambda>(n, c).
     Inr \<lparr>sp_data = cur_pos c, sp_size = n\<rparr>)"

definition as_location_list :: "elf \<Rightarrow> attr \<Rightarrow> cursor result" where
  "as_location_list obj a =
     bind_res (cur_u32 (storage obj) (attr_cursor a)) (\<lambda>(offset, _).
     section_at (get_section_contents obj ''.debug_loc'') (ucast offset))"

text \<open>
  The loop over a location list; it returns the expression for the address, if there is one.
  \<open>cur += length\<close> is checked and moves on, the reads before it consume eighteen bytes.
\<close>

lemma cur_u64_inside: "cur_u64 img c = Inr (w, c') \<Longrightarrow> cur_inside c \<Longrightarrow> cur_inside c'"
  using fixed_int_inside by (auto simp: cur_u64_def)

lemma cur_u16_inside: "cur_u16 img c = Inr (w, c') \<Longrightarrow> cur_inside c \<Longrightarrow> cur_inside c'"
  using fixed_int_inside by (auto simp: cur_u16_def)

fun location_list_find ::
  "nat \<Rightarrow> byte list \<Rightarrow> u64 \<Rightarrow> u64 \<Rightarrow> cursor \<Rightarrow> span option result" where
  "location_list_find 0 img pc base c = Inl Out_Of_Fuel"
| "location_list_find (Suc n) img pc base c =
     bind_res (cur_u64 img c) (\<lambda>(first, c1).
     bind_res (cur_u64 img c1) (\<lambda>(second, c2).
     if first = 0 \<and> second = 0 then Inr None
     else if first = - 1 then location_list_find n img pc second c2
     else
       bind_res (cur_u16 img c2) (\<lambda>(len, c3).
       if pc \<ge> base + first \<and> pc < base + second
       then Inr (Some (cur_data (cursor_between (cur_pos c3)
              (map_option (\<lambda>p. p + ucast len) (cur_pos c3)))))
       else bind_res (cur_advance (ucast len) c3) (location_list_find n img pc base))))"

definition location_list_eval ::
  "nat \<Rightarrow> (span \<Rightarrow> expr_result result) \<Rightarrow> expr_env \<Rightarrow> cu_header \<Rightarrow> cursor \<Rightarrow> expr_result result" where
  "location_list_eval n eval env cu c =
     bind_res (current_pc env) (\<lambda>pc.
     bind_res (env_function env pc) (\<lambda>_.
     bind_res (root (env_elf env) cu) (\<lambda>r.
     bind_res (bind_res (die_attr r DW_AT_low_pc) (as_address (env_elf env))) (\<lambda>base.
     bind_res (location_list_find n (storage (env_elf env)) (fa_addr pc) (fa_addr base) c) (\<lambda>found.
     case found of
       None \<Rightarrow> Inr (Simple Empty_result)
     | Some data \<Rightarrow> eval data)))))"

definition evaluated_location ::
  "nat \<Rightarrow> (bool \<Rightarrow> span \<Rightarrow> expr_result result) \<Rightarrow> expr_env \<Rightarrow> attr \<Rightarrow> bool \<Rightarrow> expr_result result" where
  "evaluated_location n eval env a in_frame_info =
     (if at_form a = DW_FORM_exprloc then
        bind_res (as_expression (env_elf env) a) (eval in_frame_info)
      else if at_form a = DW_FORM_sec_offset then
        bind_res (as_location_list (env_elf env) a) (location_list_eval n (eval in_frame_info) env (at_cu a))
      else send ''Invalid location type'')"

text \<open>The frame base of the function at the program counter, as \<open>DW_OP_fbreg\<close> computes it.\<close>

definition frame_base_of ::
  "nat \<Rightarrow> (bool \<Rightarrow> span \<Rightarrow> expr_result result) \<Rightarrow> expr_env \<Rightarrow> die option \<Rightarrow> u64 result" where
  "frame_base_of n eval env func =
     bind_res (opt_value func) (\<lambda>d.
     bind_res (die_attr d DW_AT_frame_base) (\<lambda>a.
     bind_res (evaluated_location n eval env a True) read_frame_base_result))"

fun expr_eval :: "nat \<Rightarrow> expr_env \<Rightarrow> bool \<Rightarrow> bool \<Rightarrow> span \<Rightarrow> expr_result result" where
  "expr_eval 0 env push_cfa in_frame_info data = Inl Out_Of_Fuel"
| "expr_eval (Suc n) env push_cfa in_frame_info data =
     bind_res (current_pc env) (\<lambda>pc.
     bind_res (env_function env pc) (\<lambda>func.
     let frame_base = frame_base_of n (expr_eval n env False) env func in
     bind_res (expr_loop env in_frame_info frame_base (initial_state env push_cfa) (cursor_of data)) (\<lambda>s.
     Inr (expr_answer s))))"

definition as_evaluated_location :: "nat \<Rightarrow> expr_env \<Rightarrow> attr \<Rightarrow> bool \<Rightarrow> expr_result result" where
  "as_evaluated_location n env a in_frame_info =
     evaluated_location n (expr_eval n env False) env a in_frame_info"

section \<open>Expressions as postfix code\<close>

text \<open>
  A language of location expressions, its direct meaning, and its encoding as DWARF bytes.
\<close>

datatype loc_bin = Plus | Minus | Times | Bit_and | Bit_or | Bit_xor | Shift_left | Divide | Less

datatype loc_exp =
    Num u64
  | Small byte
  | Cfa
  | Frame_base int
  | Reg_plus byte int
  | Deref loc_exp
  | Plus_const loc_exp u64
  | Bin loc_bin loc_exp loc_exp

fun bin_opcode :: "loc_bin \<Rightarrow> byte" where
  "bin_opcode Plus = DW_OP_plus"
| "bin_opcode Minus = DW_OP_minus"
| "bin_opcode Times = DW_OP_mul"
| "bin_opcode Bit_and = DW_OP_and"
| "bin_opcode Bit_or = DW_OP_or"
| "bin_opcode Bit_xor = DW_OP_xor"
| "bin_opcode Shift_left = DW_OP_shl"
| "bin_opcode Divide = DW_OP_div"
| "bin_opcode Less = DW_OP_lt"

fun bin_value :: "loc_bin \<Rightarrow> u64 \<Rightarrow> u64 \<Rightarrow> u64 result" where
  "bin_value Plus a b = Inr (a + b)"
| "bin_value Minus a b = Inr (a - b)"
| "bin_value Times a b = Inr (a * b)"
| "bin_value Bit_and a b = Inr (a AND b)"
| "bin_value Bit_or a b = Inr (a OR b)"
| "bin_value Bit_xor a b = Inr (a XOR b)"
| "bin_value Shift_left a b =
     (if unat b < 64 then Inr (a * 2 ^ unat b) else undefined_behaviour ''shift past the width'')"
| "bin_value Divide a b = signed_div a b"
| "bin_value Less a b = Inr (if a <s b then 1 else 0)"

fun exp_bytes :: "loc_exp \<Rightarrow> byte list" where
  "exp_bytes (Num w) = DW_OP_const8u # nat_le 8 (unat w)"
| "exp_bytes (Small b) = [DW_OP_lit0 + b]"
| "exp_bytes Cfa = [DW_OP_call_frame_cfa]"
| "exp_bytes (Frame_base v) = DW_OP_fbreg # sleb_encode v"
| "exp_bytes (Reg_plus r v) = (DW_OP_breg0 + r) # sleb_encode v"
| "exp_bytes (Deref x) = exp_bytes x @ [DW_OP_deref]"
| "exp_bytes (Plus_const x w) = exp_bytes x @ DW_OP_plus_uconst # uleb_encode (unat w)"
| "exp_bytes (Bin f x y) = exp_bytes x @ exp_bytes y @ [bin_opcode f]"

fun exp_ok :: "loc_exp \<Rightarrow> bool" where
  "exp_ok (Small b) = (b < 32)"
| "exp_ok (Frame_base v) = (- (2 ^ 63) \<le> v \<and> v < 2 ^ 63)"
| "exp_ok (Reg_plus r v) = (r < 32 \<and> - (2 ^ 63) \<le> v \<and> v < 2 ^ 63)"
| "exp_ok (Deref x) = exp_ok x"
| "exp_ok (Plus_const x w) = exp_ok x"
| "exp_ok (Bin f x y) = (exp_ok x \<and> exp_ok y)"
| "exp_ok _ = True"

fun exp_value :: "expr_env \<Rightarrow> u64 result \<Rightarrow> loc_exp \<Rightarrow> u64 result" where
  "exp_value env fb (Num w) = Inr w"
| "exp_value env fb (Small b) = Inr (ucast b)"
| "exp_value env fb Cfa = Inr (regs_cfa (env_regs env))"
| "exp_value env fb (Frame_base v) = bind_res fb (\<lambda>w. Inr (w + word_of_int v))"
| "exp_value env fb (Reg_plus r v) =
     bind_res (dwarf_register env (uint r)) (\<lambda>w. Inr (w + word_of_int v))"
| "exp_value env fb (Deref x) = bind_res (exp_value env fb x) (read_memory_as_u64 env)"
| "exp_value env fb (Plus_const x w) = bind_res (exp_value env fb x) (\<lambda>v. Inr (v + w))"
| "exp_value env fb (Bin f x y) =
     bind_res (exp_value env fb x) (\<lambda>a. bind_res (exp_value env fb y) (bin_value f a))"

lemma cur_ready_not_finished: "cur_ready img e c (b # ys) \<Longrightarrow> \<not> cur_finished c"
  unfolding cur_ready_def cur_rest_def cur_finished_def
  by (auto simp: word_le_nat_alt split: option.splits)

lemma cur_ready_finished: "cur_ready img e c [] \<Longrightarrow> cur_finished c"
  using cur_ready_Nil [of img e c] by (auto simp: cur_ready_def cur_finished_def split: option.splits)

lemma from_bytes_u64: "from_bytes (nat_le 8 (unat w)) = (w :: u64)"
proof -
  have "unat w < 2 ^ 64" using unsigned_less [of w] by simp
  then show ?thesis by (simp add: from_bytes_def le_nat_nat_le)
qed

text \<open>One step of the machine, with the opcode in hand.\<close>

definition run_op ::
  "expr_env \<Rightarrow> bool \<Rightarrow> u64 result \<Rightarrow> byte \<Rightarrow> expr_state \<Rightarrow> cursor \<Rightarrow> (expr_state \<times> cursor) result" where
  "run_op env fi fb opcode s c =
     first_of [op_literal env fi opcode s c, op_constant env opcode s c,
               op_register env fi fb opcode s c, op_stack env opcode s c,
               op_arithmetic env opcode s c, op_relation opcode s c, op_control env opcode s c,
               op_location env opcode s c] (Inr (s, c))"

lemma expr_loop_op:
  assumes "cur_ready (storage (env_elf env)) e c (b # ys)"
  shows "\<exists>c'. cur_ready (storage (env_elf env)) e c' ys \<and>
           expr_loop env fi fb s c =
             bind_res (run_op env fi fb b s c') (\<lambda>(s', c'). expr_loop env fi fb s' c')"
proof -
  obtain c' where "cur_u8 (storage (env_elf env)) c = Inr (b, c')"
      "cur_ready (storage (env_elf env)) e c' ys"
    using cur_ready_u8 [OF assms] by blast
  with cur_ready_not_finished [OF assms] show ?thesis
    by (subst expr_loop.simps) (auto simp: expr_step_def run_op_def)
qed

lemmas op_defs = op_literal_def op_constant_def op_register_def op_stack_def op_arithmetic_def
  op_relation_def

lemma run_op_literal:
  assumes "b < 32"
  shows "run_op env fi fb (DW_OP_lit0 + b) s c = Inr (push (ucast b) s, c)"
proof -
  have "DW_OP_lit0 \<le> DW_OP_lit0 + b" "DW_OP_lit0 + b \<le> DW_OP_lit31"
    using assms by (simp_all add: word_le_nat_alt word_less_nat_alt unat_plus_if')
  then show ?thesis by (simp add: run_op_def op_literal_def)
qed

lemma run_op_breg:
  assumes "r < 32"
  shows "run_op env fi fb (DW_OP_breg0 + r) s c =
     bind_res (register_info_by_dwarf (env_native env) (uint r)) (\<lambda>info.
     bind_res (reg_read (env_native env) (env_regs env) info) (\<lambda>v.
     bind_res (cur_sleb128 (storage (env_elf env)) c) (\<lambda>(offset, c').
     bind_res (as_u64 v) (\<lambda>w. Inr (push (w + offset) s, c')))))"
proof -
  have "DW_OP_breg0 \<le> DW_OP_breg0 + r" "DW_OP_breg0 + r \<le> DW_OP_breg31" "\<not> DW_OP_breg0 + r \<le> DW_OP_lit31"
    using assms by (simp_all add: word_le_nat_alt word_less_nat_alt unat_plus_if')
  then show ?thesis by (simp add: run_op_def op_literal_def)
qed

lemma run_op_simple:
  "run_op env fi fb DW_OP_const8u s c = push_read id s (cur_u64 (storage (env_elf env)) c)"
  "run_op env fi fb DW_OP_call_frame_cfa s c = Inr (push (regs_cfa (env_regs env)) s, c)"
  "run_op env fi fb DW_OP_fbreg s c =
     bind_res (cur_sleb128 (storage (env_elf env)) c) (\<lambda>(offset, c').
       bind_res fb (\<lambda>w. Inr (push (w + offset) s, c')))"
  "run_op env fi fb DW_OP_deref (push a s) c =
     bind_res (read_memory_as_u64 env a) (\<lambda>w. Inr (push w s, c))"
  "run_op env fi fb DW_OP_plus_uconst (push v s) c =
     bind_res (cur_uleb128 (storage (env_elf env)) c) (\<lambda>(n, c'). Inr (push (v + n) s, c'))"
  by (simp_all add: run_op_def op_defs push_def)

lemma run_op_bin:
  "run_op env fi fb (bin_opcode f) (push b (push a s)) c =
     bind_res (bin_value f a b) (\<lambda>w. Inr (push w s, c))"
  by (cases f) (simp_all add: run_op_def op_defs push_def binop_def relop_def shift_by_def
      push_bit_eq_mult bind_res_assoc word_sless_alt mult.commute)


text \<open>Code that computes a value: it leaves the value on the stack and what follows it to run, or fails.\<close>

definition computes :: "expr_env \<Rightarrow> bool \<Rightarrow> u64 result \<Rightarrow> byte list \<Rightarrow> u64 result \<Rightarrow> bool" where
  "computes env fi fb bs r \<longleftrightarrow>
     (\<forall>e s c ys. cur_ready (storage (env_elf env)) e c (bs @ ys) \<longrightarrow>
        (case r of
           Inl err \<Rightarrow> expr_loop env fi fb s c = Inl err
         | Inr v \<Rightarrow> \<exists>c'. cur_ready (storage (env_elf env)) e c' ys \<and>
                      expr_loop env fi fb s c = expr_loop env fi fb (push v s) c'))"

lemma computesD:
  assumes "computes env fi fb bs r" "cur_ready (storage (env_elf env)) e c (bs @ ys)"
  shows "r = Inl err \<Longrightarrow> expr_loop env fi fb s c = Inl err"
    "r = Inr v \<Longrightarrow> \<exists>c'. cur_ready (storage (env_elf env)) e c' ys \<and>
       expr_loop env fi fb s c = expr_loop env fi fb (push v s) c'"
  using assms unfolding computes_def by (fastforce split: sum.splits)+

text \<open>An operation that reads its operand and pushes, and one that follows the code of its argument.\<close>

lemma computes_leaf:
  assumes "\<And>e s c ys. cur_ready (storage (env_elf env)) e c (bs @ ys) \<Longrightarrow>
     \<exists>c'. cur_ready (storage (env_elf env)) e c' ys \<and>
       run_op env fi fb b s c = bind_res r (\<lambda>v. Inr (push v s, c'))"
  shows "computes env fi fb (b # bs) r"
  unfolding computes_def
proof (intro allI impI)
  fix e s c ys
  assume "cur_ready (storage (env_elf env)) e c ((b # bs) @ ys)"
  then obtain c1 where c1: "cur_ready (storage (env_elf env)) e c1 (bs @ ys)"
      "expr_loop env fi fb s c =
         bind_res (run_op env fi fb b s c1) (\<lambda>(s', c'). expr_loop env fi fb s' c')"
    using expr_loop_op [of env e c b "bs @ ys" fi fb s] by auto
  from assms [OF c1(1), of s] c1(2)
  show "case r of Inl err \<Rightarrow> expr_loop env fi fb s c = Inl err
        | Inr v \<Rightarrow> \<exists>c'. cur_ready (storage (env_elf env)) e c' ys \<and>
                     expr_loop env fi fb s c = expr_loop env fi fb (push v s) c'"
    by (auto split: sum.split)
qed

lemma computes_after:
  assumes "computes env fi fb xs r" 
    "\<And>v e s c ys. r = Inr v \<Longrightarrow> cur_ready (storage (env_elf env)) e c (bs @ ys) \<Longrightarrow>
       (case f v of
          Inl err \<Rightarrow> expr_loop env fi fb (push v s) c = Inl err
        | Inr w \<Rightarrow> \<exists>c'. cur_ready (storage (env_elf env)) e c' ys \<and>
                     expr_loop env fi fb (push v s) c = expr_loop env fi fb (push w s) c')"
  shows "computes env fi fb (xs @ bs) (bind_res r f)"
  unfolding computes_def
proof (intro allI impI)
  fix e s c ys
  assume c: "cur_ready (storage (env_elf env)) e c ((xs @ bs) @ ys)"
  show "case bind_res r f of Inl err \<Rightarrow> expr_loop env fi fb s c = Inl err
        | Inr v \<Rightarrow> \<exists>c'. cur_ready (storage (env_elf env)) e c' ys \<and>
                     expr_loop env fi fb s c = expr_loop env fi fb (push v s) c'"
  proof (cases r)
    case (Inl err)
    with computesD(1) [OF assms(1), of e c "bs @ ys" err s] c show ?thesis by simp
  next
    case (Inr v)
    then obtain c1 where "cur_ready (storage (env_elf env)) e c1 (bs @ ys)"
        "expr_loop env fi fb s c = expr_loop env fi fb (push v s) c1"
      using computesD(2) [OF assms(1), of e c "bs @ ys" v s] c by auto
    with assms(2) [of v e c1 ys s] Inr show ?thesis by (auto split: sum.splits)
  qed
qed

lemma computes_unary:
  assumes "computes env fi fb xs r"
    "\<And>v e s c ys. cur_ready (storage (env_elf env)) e c (bs @ ys) \<Longrightarrow>
     \<exists>c'. cur_ready (storage (env_elf env)) e c' ys \<and>
       run_op env fi fb b (push v s) c = bind_res (f v) (\<lambda>w. Inr (push w s, c'))"
  shows "computes env fi fb (xs @ b # bs) (bind_res r f)"
proof (rule computes_after [OF assms(1)])
  fix v e s c ys
  assume "cur_ready (storage (env_elf env)) e c ((b # bs) @ ys)"
  then obtain c1 where c1: "cur_ready (storage (env_elf env)) e c1 (bs @ ys)"
      "expr_loop env fi fb (push v s) c =
         bind_res (run_op env fi fb b (push v s) c1) (\<lambda>(s', c'). expr_loop env fi fb s' c')"
    using expr_loop_op [of env e c b "bs @ ys" fi fb "push v s"] by auto
  from assms(2) [OF c1(1), of v s] c1(2)
  show "case f v of Inl err \<Rightarrow> expr_loop env fi fb (push v s) c = Inl err
        | Inr w \<Rightarrow> \<exists>c'. cur_ready (storage (env_elf env)) e c' ys \<and>
                     expr_loop env fi fb (push v s) c = expr_loop env fi fb (push w s) c'"
    by (auto split: sum.split)
qed

lemma computes_binary:
  assumes "computes env fi fb xs r" "computes env fi fb ys q"
    "\<And>a b s c. run_op env fi fb opc (push b (push a s)) c = bind_res (f a b) (\<lambda>w. Inr (push w s, c))"
  shows "computes env fi fb (xs @ ys @ [opc]) (bind_res r (\<lambda>a. bind_res q (f a)))"
proof (rule computes_after [OF assms(1)])
  fix a e s c zs
  assume c: "cur_ready (storage (env_elf env)) e c ((ys @ [opc]) @ zs)"
  show "case bind_res q (f a) of Inl err \<Rightarrow> expr_loop env fi fb (push a s) c = Inl err
        | Inr w \<Rightarrow> \<exists>c'. cur_ready (storage (env_elf env)) e c' zs \<and>
                     expr_loop env fi fb (push a s) c = expr_loop env fi fb (push w s) c'"
  proof (cases q)
    case (Inl err)
    with computesD(1) [OF assms(2), of e c "opc # zs" err "push a s"] c show ?thesis by simp
  next
    case (Inr b)
    then obtain c1 where c1: "cur_ready (storage (env_elf env)) e c1 (opc # zs)"
        "expr_loop env fi fb (push a s) c = expr_loop env fi fb (push b (push a s)) c1"
      using computesD(2) [OF assms(2), of e c "opc # zs" b "push a s"] c by auto
    from expr_loop_op [OF c1(1), of fi fb "push b (push a s)"] c1(2) Inr show ?thesis
      by (cases "f a b") (auto simp: assms(3))
  qed
qed

lemma exp_bytes_compute: "exp_ok x \<Longrightarrow> computes env fi fb (exp_bytes x) (exp_value env fb x)"
proof (induction x)
  case (Num w)
  show ?case unfolding exp_bytes.simps
  proof (rule computes_leaf)
    fix e s c ys
    assume "cur_ready (storage (env_elf env)) e c (nat_le 8 (unat w) @ ys)"
    from cur_ready_u64 [OF this]
    show "\<exists>c'. cur_ready (storage (env_elf env)) e c' ys \<and>
       run_op env fi fb DW_OP_const8u s c = bind_res (exp_value env fb (Num w)) (\<lambda>v. Inr (push v s, c'))"
      by (auto simp: from_bytes_u64 run_op_simple push_read_def)
  qed
next
  case (Frame_base v)
  show ?case unfolding exp_bytes.simps
    by (rule computes_leaf)
      (use Frame_base in \<open>auto dest!: cur_ready_sleb128 simp: run_op_simple bind_res_assoc\<close>)
next
  case (Reg_plus r v)
  show ?case unfolding exp_bytes.simps
    by (rule computes_leaf)
      (use Reg_plus in \<open>auto dest!: cur_ready_sleb128 simp: run_op_breg dwarf_register_def bind_res_assoc\<close>)
next
  case (Plus_const x w)
  then have x: "computes env fi fb (exp_bytes x) (exp_value env fb x)" by simp
  show ?case unfolding exp_bytes.simps exp_value.simps
    by (rule computes_unary [OF x]) (auto dest!: cur_ready_uleb128 simp: run_op_simple)
next
  case (Deref x)
  then have x: "computes env fi fb (exp_bytes x) (exp_value env fb x)" by simp
  show ?case unfolding exp_bytes.simps exp_value.simps
    by (rule computes_unary [OF x]) (auto simp: run_op_simple)
next
  case (Bin f x y)
  then show ?case unfolding exp_bytes.simps exp_value.simps
    by (intro computes_binary) (simp_all add: run_op_bin)
qed (auto intro!: computes_leaf simp: run_op_literal run_op_simple)

text \<open>
  A location description: an address, a value, or a list of pieces with their sizes in bytes.
\<close>

datatype loc_desc = At loc_exp | Value loc_exp | Composite "(loc_exp \<times> u64) list"

fun desc_bytes :: "loc_desc \<Rightarrow> byte list" where
  "desc_bytes (At x) = exp_bytes x"
| "desc_bytes (Value x) = exp_bytes x @ [DW_OP_stack_value]"
| "desc_bytes (Composite ps) =
     concat (map (\<lambda>(x, n). exp_bytes x @ DW_OP_piece # uleb_encode (unat n)) ps)"

fun desc_ok :: "loc_desc \<Rightarrow> bool" where
  "desc_ok (At x) = exp_ok x"
| "desc_ok (Value x) = exp_ok x"
| "desc_ok (Composite ps) = (ps \<noteq> [] \<and> list_all (\<lambda>(x, n). exp_ok x) ps)"

definition desc_piece :: "expr_env \<Rightarrow> u64 result \<Rightarrow> loc_exp \<times> u64 \<Rightarrow> piece result" where
  "desc_piece env fb = (\<lambda>(x, n).
     bind_res (exp_value env fb x) (\<lambda>v.
     Inr \<lparr>piece_location = Address_result v, piece_bit_size = n * 8, piece_offset = 0\<rparr>))"

fun desc_result :: "expr_env \<Rightarrow> u64 result \<Rightarrow> loc_desc \<Rightarrow> expr_result result" where
  "desc_result env fb (At x) = bind_res (exp_value env fb x) (\<lambda>v. Inr (Simple (Address_result v)))"
| "desc_result env fb (Value x) = bind_res (exp_value env fb x) (\<lambda>v. Inr (Simple (Literal_result v)))"
| "desc_result env fb (Composite ps) = bind_res (map_res (desc_piece env fb) ps) (\<lambda>r. Inr (Pieces r))"

lemma run_op_location:
  "run_op env fi fb DW_OP_stack_value s c = Inr (s\<lparr>es_is_address := False\<rparr>, c)"
  "run_op env fi fb DW_OP_piece s c =
     bind_res (cur_uleb128 (storage (env_elf env)) c) (\<lambda>(n, c'). Inr (add_piece (n * 8) 0 s, c'))"
  by (simp_all add: run_op_def op_defs op_control_def op_location_def)

lemma expr_loop_done: "cur_ready img e c [] \<Longrightarrow> expr_loop env fi fb s c = Inr s"
  using cur_ready_finished [of img e c] by (subst expr_loop.simps) simp

lemma expr_loop_stack_value:
  assumes "cur_ready (storage (env_elf env)) e c [DW_OP_stack_value]"
  shows "expr_loop env fi fb s c = Inr (s\<lparr>es_is_address := False\<rparr>)"
  using expr_loop_op [OF assms, of fi fb s] expr_loop_done by (auto simp: run_op_location)

lemma expr_loop_piece:
  assumes "cur_ready (storage (env_elf env)) e c (DW_OP_piece # uleb_encode (unat n) @ ys)"
  shows "\<exists>c'. cur_ready (storage (env_elf env)) e c' ys \<and>
     expr_loop env fi fb s c = expr_loop env fi fb (add_piece (n * 8) 0 s) c'"
proof -
  obtain c1 where c1: "cur_ready (storage (env_elf env)) e c1 (uleb_encode (unat n) @ ys)"
      "expr_loop env fi fb s c =
         bind_res (run_op env fi fb DW_OP_piece s c1) (\<lambda>(s', c'). expr_loop env fi fb s' c')"
    using expr_loop_op [OF assms] by blast
  with cur_ready_uleb128 [OF c1(1)] show ?thesis by (auto simp: run_op_location)
qed

lemma add_piece_address:
  "es_is_address s \<Longrightarrow> es_stack s = [] \<Longrightarrow> add_piece bits off (push v s) =
     s\<lparr>es_pieces := es_pieces s @ [\<lparr>piece_location = Address_result v, piece_bit_size = bits, piece_offset = off\<rparr>]\<rparr>"
  by (simp add: add_piece_def get_current_location_def push_def)

lemma expr_loop_pieces:
  "cur_ready (storage (env_elf env)) e c (desc_bytes (Composite ps)) \<Longrightarrow>
   list_all (\<lambda>(x, n). exp_ok x) ps \<Longrightarrow> es_is_address s \<Longrightarrow> es_stack s = [] \<Longrightarrow>
   expr_loop env fi fb s c =
     bind_res (map_res (desc_piece env fb) ps) (\<lambda>r. Inr (s\<lparr>es_pieces := es_pieces s @ r\<rparr>))"
proof (induction ps arbitrary: c s)
  case Nil
  then show ?case by (simp add: expr_loop_done)
next
  case (Cons q ps)
  obtain x n where q: "q = (x, n)" by (cases q)
  let ?rest = "desc_bytes (Composite ps)"
  note x = computesD [OF exp_bytes_compute [of x env fi fb], of e c "DW_OP_piece # uleb_encode (unat n) @ ?rest"]
  show ?case
  proof (cases "exp_value env fb x")
    case (Inl err)
    with x(1) [of err s] Cons.prems show ?thesis by (simp add: q desc_piece_def)
  next
    case (Inr v)
    then obtain c1 where c1: "cur_ready (storage (env_elf env)) e c1 (DW_OP_piece # uleb_encode (unat n) @ ?rest)"
        "expr_loop env fi fb s c = expr_loop env fi fb (push v s) c1"
      using x(2) [of v s] Cons.prems by (auto simp: q)
    obtain c2 where "cur_ready (storage (env_elf env)) e c2 ?rest"
        "expr_loop env fi fb s c = expr_loop env fi fb (add_piece (n * 8) 0 (push v s)) c2"
      using expr_loop_piece [OF c1(1)] c1(2) by metis
    with Cons.IH [of c2 "add_piece (n * 8) 0 (push v s)"] Cons.prems Inr show ?thesis
      by (auto simp: q desc_piece_def add_piece_address bind_res_assoc)
  qed
qed

lemma expr_loop_desc:
  assumes "cur_ready (storage (env_elf env)) e c (desc_bytes d)" "desc_ok d"
    "es_is_address s" "es_stack s = []" "es_pieces s = []"
  shows "bind_res (expr_loop env fi fb s c) (\<lambda>s'. Inr (expr_answer s')) = desc_result env fb d"
proof (cases d)
  case (At x)
  with computesD [where s = s, OF exp_bytes_compute [of x env fi fb], of e c "[]"] assms show ?thesis
    by (cases "exp_value env fb x")
      (auto simp: expr_loop_done expr_answer_def get_current_location_def push_def)
next
  case (Value x)
  with computesD [where s = s, OF exp_bytes_compute [of x env fi fb], of e c "[DW_OP_stack_value]"] assms show ?thesis
    by (cases "exp_value env fb x")
      (auto simp: expr_loop_stack_value expr_answer_def get_current_location_def push_def)
next
  case (Composite ps)
  have "r \<noteq> []" if "map_res (desc_piece env fb) ps = Inr r" for r
    using map_res_length [OF that] assms(2) Composite by auto
  with Composite expr_loop_pieces [of env e c ps s fi fb] assms show ?thesis
    by (cases "map_res (desc_piece env fb) ps") (auto simp: expr_answer_def)
qed

section \<open>Location lists as entries\<close>

datatype loc_entry = Base u64 | Range u64 u64 "byte list"

fun entry_bytes :: "loc_entry \<Rightarrow> byte list" where
  "entry_bytes (Base w) = nat_le 8 (2 ^ 64 - 1) @ nat_le 8 (unat w)"
| "entry_bytes (Range lo hi bs) = nat_le 8 (unat lo) @ nat_le 8 (unat hi) @ nat_le 2 (length bs) @ bs"

fun entry_ok :: "loc_entry \<Rightarrow> bool" where
  "entry_ok (Base w) = True"
| "entry_ok (Range lo hi bs) = (lo \<noteq> - 1 \<and> (lo, hi) \<noteq> (0, 0) \<and> length bs < 2 ^ 16)"

fun list_lookup :: "u64 \<Rightarrow> u64 \<Rightarrow> loc_entry list \<Rightarrow> byte list option" where
  "list_lookup pc base [] = None"
| "list_lookup pc base (Base w # es) = list_lookup pc w es"
| "list_lookup pc base (Range lo hi bs # es) =
     (if base + lo \<le> pc \<and> pc < base + hi then Some bs else list_lookup pc base es)"

definition loc_list_bytes :: "loc_entry list \<Rightarrow> byte list" where
  "loc_list_bytes es = concat (map entry_bytes es) @ nat_le 8 0 @ nat_le 8 0"

lemma cur_ready_word:
  "cur_ready img e c (nat_le 8 (unat w) @ ys) \<Longrightarrow> \<exists>c'. cur_u64 img c = Inr (w, c') \<and> cur_ready img e c' ys"
  using cur_ready_u64 [of img e c "nat_le 8 (unat w)" ys] by (simp add: from_bytes_u64)

lemma cur_ready_half:
  assumes "cur_ready img e c (nat_le 2 n @ ys)" "n < 2 ^ 16"
  shows "\<exists>c'. cur_u16 img c = Inr (word_of_nat n, c') \<and> cur_ready img e c' ys"
  using cur_ready_u16 [OF assms(1)] assms(2) by (simp add: from_bytes_def le_nat_nat_le)

lemma cur_ready_advance:
  assumes "cur_ready img e c (xs @ ys)" "length xs < 2 ^ 64"
  shows "\<exists>c'. cur_advance (word_of_nat (length xs)) c = Inr c' \<and> cur_ready img e c' ys"
proof -
  let ?n = "word_of_nat (length xs) :: u64"
  have n: "unat ?n = length xs" using assms(2) by (simp add: unat_of_nat)
  from assms(1) obtain p q where p: "cur_pos c = Some p" "span_end (cur_data c) = Some q" "e = Some q"
      "unat p \<le> unat q" "unat q \<le> length img" "length img < 2 ^ 64" "take (unat q - unat p) (drop (unat p) img) = xs @ ys"
    by (auto simp: cur_ready_def cur_wf_def cur_rest_def word_le_nat_alt split: option.splits)
  have len: "unat q - unat p = length xs + length ys"
    using arg_cong [OF p(7), of length] p(4,5) by simp
  have q: "unat q < 2 ^ 64" using unsigned_less [of q] by simp
  have left: "\<not> ?n > cur_left c p"
    using len n p(2,4) by (simp add: cur_left_def word_less_nat_alt unat_sub word_le_nat_alt not_less)
  have pos: "unat (p + ?n) = unat p + length xs"
  proof -
    have "unat p + length xs < 2 ^ 64" using len p(4) q by linarith
    with n show ?thesis by (simp add: unat_plus_if')
  qed
  have "take (unat q - (unat p + length xs)) (drop (unat p + length xs) img) = ys"
    using arg_cong [OF p(7), of "drop (length xs)"] by (simp add: drop_take add.commute)
  with left p pos len show ?thesis
    by (auto simp: cur_advance_def cur_ready_def cur_wf_def cur_rest_def word_le_nat_alt)
qed

lemma cur_ready_prefix:
  assumes "cur_ready img e c (xs @ ys)" "length xs < 2 ^ 64"
    "d = cur_data (cursor_between (cur_pos c) (map_option (\<lambda>p. p + word_of_nat (length xs)) (cur_pos c)))"
  shows "cur_ready img (span_end d) (cursor_of d) xs"
proof -
  obtain c' where c': "cur_advance (word_of_nat (length xs)) c = Inr c'" "cur_ready img e c' ys"
    using cur_ready_advance [OF assms(1,2)] by blast
  then obtain p where p: "cur_pos c = Some p" "cur_pos c' = Some (p + word_of_nat (length xs))"
      "cur_data c' = cur_data c"
    by (auto simp: cur_advance_def split: option.splits if_splits)
  obtain q where q: "span_end (cur_data c) = Some q" "unat p \<le> unat q" "unat q \<le> length img"
      "unat (p + word_of_nat (length xs)) \<le> unat q" "length img < 2 ^ 64"
      "take (unat q - unat p) (drop (unat p) img) = xs @ ys"
      "take (unat q - unat (p + word_of_nat (length xs))) (drop (unat (p + word_of_nat (length xs))) img) = ys"
    using assms(1) c'(2) p
    by (auto simp: cur_ready_def cur_wf_def cur_rest_def word_le_nat_alt split: option.splits)
  let ?n = "unat (p + word_of_nat (length xs))"
  have n: "?n = unat p + length xs"
    using arg_cong [OF q(6), of length] arg_cong [OF q(7), of length] q(2-4) by simp
  have "take (length xs) (drop (unat p) img) = xs"
    using arg_cong [OF q(6), of "take (length xs)"] n q(4) by (simp add: min_absorb1)
  with n p(1) q assms(3) show ?thesis
    by (auto simp: cursor_between_def span_of_ptrs_def span_end_def cursor_of_def cur_ready_def
        cur_wf_def cur_rest_def word_le_nat_alt)
qed

lemma ucast_half: "n < 2 ^ 16 \<Longrightarrow> (ucast (word_of_nat n :: u16) :: u64) = word_of_nat n"
  by (simp add: word_unat_eq_iff unsigned_ucast_eq unat_of_nat take_bit_nat_eq_self)

lemma unat_minus_one_u64: "unat (- 1 :: u64) = 2 ^ 64 - 1"
  by (simp add: unsigned_minus_1_eq_mask mask_eq_exp_minus_1)

lemma location_list_find_lookup:
  "cur_ready img e c (loc_list_bytes es @ ys) \<Longrightarrow> list_all entry_ok es \<Longrightarrow> length es < n \<Longrightarrow>
   (case list_lookup pc base es of
      None \<Rightarrow> location_list_find n img pc base c = Inr None
    | Some bs \<Rightarrow> \<exists>d. location_list_find n img pc base c = Inr (Some d) \<and>
                   cur_ready img (span_end d) (cursor_of d) bs)"
proof (induction es arbitrary: n base c)
  case Nil
  then obtain m where n: "n = Suc m" by (cases n) auto
  have "cur_ready img e c (nat_le 8 (unat (0::u64)) @ nat_le 8 (unat (0::u64)) @ ys)"
    using Nil(1) by (simp add: loc_list_bytes_def)
  then obtain c1 c2 where "cur_u64 img c = Inr (0, c1)" "cur_u64 img c1 = Inr (0, c2)"
    using cur_ready_word by metis
  then show ?case by (simp add: n)
next
  case (Cons x es)
  then obtain m where n: "n = Suc m" "length es < m" by (cases n) auto
  show ?case
  proof (cases x)
    case (Base w)
    have "cur_ready img e c (nat_le 8 (unat (- 1 :: u64)) @ nat_le 8 (unat w) @ loc_list_bytes es @ ys)"
      using Cons.prems(1) Base by (simp add: loc_list_bytes_def unat_minus_one_u64)
    then obtain c1 c2 where c: "cur_u64 img c = Inr (- 1, c1)" "cur_u64 img c1 = Inr (w, c2)"
        "cur_ready img e c2 (loc_list_bytes es @ ys)"
      using cur_ready_word by metis
    from Cons.IH [OF c(3) _ n(2), of w] Cons.prems(2) c(1,2) Base show ?thesis
      by (auto simp: n(1) split: option.split)
  next
    case (Range lo hi bs)
    have ok: "lo \<noteq> - 1" "\<not> (lo = 0 \<and> hi = 0)" "length bs < 2 ^ 16" using Cons.prems(2) Range by auto
    have "cur_ready img e c (nat_le 8 (unat lo) @ nat_le 8 (unat hi) @ nat_le 2 (length bs) @ bs @
        loc_list_bytes es @ ys)"
      using Cons.prems(1) Range by (simp add: loc_list_bytes_def)
    then obtain c1 c2 c3 where c: "cur_u64 img c = Inr (lo, c1)" "cur_u64 img c1 = Inr (hi, c2)"
        "cur_u16 img c2 = Inr (word_of_nat (length bs), c3)"
        "cur_ready img e c3 (bs @ loc_list_bytes es @ ys)"
      using cur_ready_word cur_ready_half [OF _ ok(3)] by metis
    have bs: "length bs < 2 ^ 64" using ok(3) by simp
    obtain c4 where c4: "cur_advance (word_of_nat (length bs)) c3 = Inr c4"
        "cur_ready img e c4 (loc_list_bytes es @ ys)"
      using cur_ready_advance [OF c(4) bs] by blast
    from Cons.IH [OF c4(2) _ n(2), of base] cur_ready_prefix [OF c(4) bs refl] Cons.prems(2) c(1-3) c4(1) Range ok
    show ?thesis by (auto simp: n(1) ucast_half split: option.split)
  qed
qed

section \<open>Properties\<close>

text \<open>
  C29: location expressions compute what they encode.  When the bytes of an expression are the
  DWARF encoding of a location description (an address, a value, or pieces, over constants,
  registers, the frame base, the CFA, memory and arithmetic), \<open>dwarf_expression::eval\<close> returns
  exactly the value of the description, and fails exactly as its evaluation does: an unreadable
  address, a frame base that cannot be computed, a division by zero.
\<close>

theorem location_expression_correct:
  assumes "cur_ready (storage (env_elf env)) (span_end data) (cursor_of data) (desc_bytes d)"
    "desc_ok d" "current_pc env = Inr pc" "env_function env pc = Inr func"
  shows "expr_eval (Suc n) env False in_frame_info data =
     desc_result env (frame_base_of n (expr_eval n env False) env func) d"
  using expr_loop_desc [OF assms(1,2), of "initial_state env False"] assms(3,4)
  by (simp add: initial_state_def Let_def)

text \<open>
  C30: location lists.  When \<open>.debug_loc\<close> holds the encoding of a list of base-address selections
  and ranges closed by a pair of zeros, the loop of \<open>location_list::eval\<close> finds exactly the bytes
  of the first range that contains the program counter relative to the base address in force, and
  nothing when there is none; as many iterations as there are entries are enough.
\<close>

theorem location_list_correct:
  assumes "cur_ready img e c (loc_list_bytes es @ ys)" "list_all entry_ok es" "length es < n"
  shows "case list_lookup pc base es of
      None \<Rightarrow> location_list_find n img pc base c = Inr None
    | Some bs \<Rightarrow> \<exists>d. location_list_find n img pc base c = Inr (Some d) \<and>
                   cur_ready img (span_end d) (cursor_of d) bs"
  using assms by (rule location_list_find_lookup)

text \<open>A description on a concrete machine: the sum of a stored constant and a memory cell at the CFA.\<close>

definition demo_desc :: loc_desc where
  "demo_desc = Composite [(Bin Plus (Num 0x10) (Deref Cfa), 8), (Bin Minus (Small 9) (Small 4), 2)]"

definition demo_env :: expr_env where
  "demo_env =
     \<lparr>env_elf = demo_elf\<lparr>storage := desc_bytes demo_desc\<rparr>, env_native = darwin_arm64,
      env_regs = demo_regs\<lparr>regs_cfa := 0x7000\<rparr>,
      env_memory = (\<lambda>a n. if a = 0x7000 then Inr (nat_le n 0x2a) else send ''Could not read memory''),
      env_function = (\<lambda>_. Inr None)\<rparr>"

lemma read_pc_word:
  "off_pc m div 2 \<notin> set (regs_undefined rs) \<Longrightarrow>
   read_by_id_as_u64 m rs PC = Inr (le_word (bytes_at (off_pc m) 8 (regs_data rs)))"
proof -
  assume a: "off_pc m div 2 \<notin> set (regs_undefined rs)"
  let ?i = "\<lparr>reg_id = PC, reg_name = ''pc'', reg_dwarf = 32, reg_size = 8, reg_offset = off_pc m,
       reg_type = Gpr, reg_format = Uint\<rparr>"
  have i: "?i \<in> set (g_register_infos m)" by (simp add: g_register_infos_def)
  from register_info_by_id_info [OF i] is_undefined_info [OF i, of rs] a show ?thesis
    by (simp add: read_by_id_as_u64_def reg_read_def)
qed

lemma demo_desc_bytes:
  "desc_bytes demo_desc =
     [0x0e, 0x10, 0, 0, 0, 0, 0, 0, 0, 0x9c, 0x06, 0x22, 0x93, 8, 0x39, 0x34, 0x1c, 0x93, 2]"
  by (simp add: demo_desc_def uleb_encode.simps nat_le_numeral)

lemma demo_desc_ready:
  "cur_ready (storage (env_elf demo_env)) (span_end \<lparr>sp_data = Some 0, sp_size = 19\<rparr>)
     (cursor_of \<lparr>sp_data = Some 0, sp_size = 19\<rparr>) (desc_bytes demo_desc)"
  unfolding demo_desc_bytes
  by (simp add: demo_env_def demo_desc_bytes cur_ready_def cur_wf_def cur_rest_def cursor_of_def span_end_def)

theorem location_expression_correct_witness:
  "expr_eval 1 demo_env False False \<lparr>sp_data = Some 0, sp_size = 19\<rparr> =
     Inr (Pieces [\<lparr>piece_location = Address_result 0x3a, piece_bit_size = 64, piece_offset = 0\<rparr>,
                  \<lparr>piece_location = Address_result 5, piece_bit_size = 16, piece_offset = 0\<rparr>])"
proof -
  obtain pc where "current_pc demo_env = Inr pc"
    by (simp add: current_pc_def demo_env_def read_pc_word demo_regs_def)
  moreover have "env_function demo_env pc = Inr None" by (simp add: demo_env_def)
  moreover have "desc_ok demo_desc" by (simp add: demo_desc_def)
  ultimately show ?thesis
    using location_expression_correct [OF demo_desc_ready, of pc None 0 False]
    by (simp add: demo_desc_def desc_piece_def demo_env_def read_memory_as_u64_def le_word_def
        le_nat_nat_le)
qed

definition demo_loc_list :: "loc_entry list" where
  "demo_loc_list = [Range 0 8 [0x9c], Base 0x4000, Range 0x10 0x18 [0x30, 0x9f]]"

lemma demo_loc_list_ready:
  "cur_ready (loc_list_bytes demo_loc_list) (Some 71) (cursor_of \<lparr>sp_data = Some 0, sp_size = 71\<rparr>)
     (loc_list_bytes demo_loc_list @ [])"
  by (simp add: loc_list_bytes_def demo_loc_list_def cur_ready_def cur_wf_def cur_rest_def
      cursor_of_def span_end_def)

theorem location_list_correct_witness:
  "\<exists>d. location_list_find 4 (loc_list_bytes demo_loc_list) 0x4012 0x1000
        (cursor_of \<lparr>sp_data = Some 0, sp_size = 71\<rparr>) = Inr (Some d) \<and>
      cur_ready (loc_list_bytes demo_loc_list) (span_end d) (cursor_of d) [0x30, 0x9f]"
  using location_list_correct [OF demo_loc_list_ready, of 4 "0x4012" "0x1000"]
  by (simp add: demo_loc_list_def)

lemma run_op_skip:
  "run_op env fi fb DW_OP_skip s c =
     bind_res (cur_s16 (storage (env_elf env)) c) (\<lambda>(off, c1).
     bind_res (cur_advance (scast off) c1) (\<lambda>c'. Inr (s, c')))"
  by (simp add: run_op_def op_defs op_control_def bind_res_assoc case_prod_unfold)

lemma scast_negative:
  assumes "sint (off :: u16) < 0"
  shows "2 ^ 63 \<le> unat (scast off :: u64)"
proof -
  have low: "- (2 ^ 15) \<le> sint off" using sint_greater_eq [of off] by simp
  have "sint off mod 2 ^ 64 = (sint off + 2 ^ 64) mod 2 ^ 64" by (simp only: mod_add_self2)
  also have "\<dots> = sint off + 2 ^ 64" using assms low by (intro mod_pos_pos_trivial) auto
  finally have "uint (scast off :: u64) = sint off + 2 ^ 64"
    unfolding scast_eq uint_word_of_int by simp
  with low have "2 ^ 63 \<le> uint (scast off :: u64)" by simp
  then have "nat (2 ^ 63) \<le> nat (uint (scast off :: u64))" by (rule nat_mono)
  then show ?thesis by (simp only: nat_uint_eq) simp
qed

text \<open>
  Jumps in expressions.  A \<open>DW_OP_skip\<close> with a negative offset never jumps backwards, whatever
  lies before it: the bounds-checked \<open>operator+=\<close> takes the sign-extended offset for a distance past
  the end, and the evaluation ends with an error.
\<close>

theorem backward_jump_rejected:
  assumes "cur_ready (storage (env_elf env)) e c (DW_OP_skip # nat_le 2 (unat off) @ ys)"
    "sint (off :: u16) < 0" "length (storage (env_elf env)) < 2 ^ 63"
  shows "expr_loop env in_frame_info frame_base s c = send ''Truncated DWARF data''"
proof -
  let ?img = "storage (env_elf env)"
  obtain c1 where c1: "cur_ready ?img e c1 (nat_le 2 (unat off) @ ys)"
      "expr_loop env in_frame_info frame_base s c =
         bind_res (run_op env in_frame_info frame_base DW_OP_skip s c1)
           (\<lambda>(s', c'). expr_loop env in_frame_info frame_base s' c')"
    using expr_loop_op [OF assms(1)] by blast
  obtain c2 where c2: "cur_u16 ?img c1 = Inr (off, c2)" "cur_ready ?img e c2 ys"
    using cur_ready_u16 [OF c1(1)] by (auto simp: from_bytes_u16)
  obtain p q where p: "cur_pos c2 = Some p" "span_end (cur_data c2) = Some q" "p \<le> q" "unat q \<le> length ?img"
    using c2(2) by (auto simp: cur_ready_def cur_wf_def split: option.splits)
  have "unat (q - p) < 2 ^ 63" using p(3,4) assms(3) by (simp add: unat_sub)
  with scast_negative [OF assms(2)] have "scast off > cur_left c2 p"
    by (simp only: cur_left_def p(2) option.case word_less_nat_alt)
  with c1(2) c2(1) p(1) show ?thesis
    by (simp add: run_op_skip cur_s16_def [folded cur_u16_def] cur_advance_def)
qed

theorem backward_jump_rejected_witness:
  "expr_loop (demo_env\<lparr>env_elf := demo_elf\<lparr>storage := [0x96, 0x2f, 0xfc, 0xff]\<rparr>\<rparr>) False (Inr 0)
     (initial_state demo_env False) (\<lparr>cur_data = \<lparr>sp_data = Some 0, sp_size = 4\<rparr>, cur_pos = Some 1\<rparr>) =
   send ''Truncated DWARF data''"
proof -
  let ?env = "demo_env\<lparr>env_elf := demo_elf\<lparr>storage := [0x96, 0x2f, 0xfc, 0xff]\<rparr>\<rparr>"
  have "cur_ready (storage (env_elf ?env)) (Some 4) \<lparr>cur_data = \<lparr>sp_data = Some 0, sp_size = 4\<rparr>, cur_pos = Some 1\<rparr>
      (DW_OP_skip # nat_le 2 (unat (0xfffc :: u16)) @ [])"
    by (simp add: cur_ready_def cur_wf_def cur_rest_def span_end_def nat_le_numeral)
  then show ?thesis by (rule backward_jump_rejected) simp_all
qed

end
