(* ===== verification/Cfi.thy ===== *)
theory Cfi
  imports Dwarf_Expr
begin

text \<open>
  Call frame information (\<^verbatim>\<open>src/src/dwarf.cpp\<close>): the pointers, entries and search table of
  \<^verbatim>\<open>.eh_frame\<close> and \<^verbatim>\<open>.eh_frame_hdr\<close>, the cache of common information entries, the interpreter of
  call frame instructions, and the application of the rules it computes.

  A rule set is an association list in insertion order without repeated registers, as
  \<open>std::unordered_map::emplace\<close> builds it; the order in which the loop of \<open>execute_unwind_rules\<close>
  visits an unordered map is not specified, so it is an argument.
\<close>

section \<open>Encoded pointers\<close>

definition eh_frame_pointer_encoding_size :: "byte \<Rightarrow> u64 result" where
  "eh_frame_pointer_encoding_size encoding =
     (let e = encoding AND 0x7 in
      if e = DW_EH_PE_absptr then Inr 8
      else if e = DW_EH_PE_udata2 then Inr 2
      else if e = DW_EH_PE_udata4 then Inr 4
      else if e = DW_EH_PE_udata8 then Inr 8
      else send ''Invalid pointer encoding'')"

definition with_base :: "('w \<Rightarrow> u64) \<Rightarrow> u64 \<Rightarrow> ('w \<times> cursor) result \<Rightarrow> (u64 \<times> cursor) result" where
  "with_base f base r = bind_res r (\<lambda>(w, c). Inr (base + f w, c))"

definition parse_eh_frame_pointer_with_base ::
  "byte list \<Rightarrow> cursor \<Rightarrow> byte \<Rightarrow> u64 \<Rightarrow> (u64 \<times> cursor) result" where
  "parse_eh_frame_pointer_with_base img c encoding base =
     (let e = encoding AND 0x0f in
      if e = DW_EH_PE_absptr then with_base id base (cur_u64 img c)
      else if e = DW_EH_PE_uleb128 then with_base id base (cur_uleb128 img c)
      else if e = DW_EH_PE_udata2 then with_base ucast base (cur_u16 img c)
      else if e = DW_EH_PE_udata4 then with_base ucast base (cur_u32 img c)
      else if e = DW_EH_PE_udata8 then with_base id base (cur_u64 img c)
      else if e = DW_EH_PE_sleb128 then with_base id base (cur_sleb128 img c)
      else if e = DW_EH_PE_sdata2 then with_base scast base (cur_s16 img c)
      else if e = DW_EH_PE_sdata4 then with_base scast base (cur_s32 img c)
      else if e = DW_EH_PE_sdata8 then with_base id base (cur_s64 img c)
      else send ''Unknown eh_frame pointer encoding'')"

definition parse_eh_frame_pointer ::
  "elf \<Rightarrow> cursor \<Rightarrow> byte \<Rightarrow> u64 \<Rightarrow> u64 \<Rightarrow> u64 \<Rightarrow> u64 \<Rightarrow> (u64 \<times> cursor) result" where
  "parse_eh_frame_pointer obj c encoding pc text_section_start data_section_start func_start =
     (let e = encoding AND 0x70 in
      bind_res
        (if e = DW_EH_PE_absptr then Inr 0
         else if e = DW_EH_PE_pcrel then offset_to_address obj pc
         else if e = DW_EH_PE_textrel then Inr text_section_start
         else if e = DW_EH_PE_datarel then Inr data_section_start
         else if e = DW_EH_PE_funcrel then Inr func_start
         else send ''Unknown eh_frame pointer encoding'')
        (parse_eh_frame_pointer_with_base (storage obj) c encoding))"

text \<open>Pointers into the storage are offsets from \<open>data_\<close>; the difference with a null pointer is undefined.\<close>

fun data_pointer_as_file_offset :: "ptr \<Rightarrow> u64 result" where
  "data_pointer_as_file_offset None = undefined_behaviour ''difference with a null pointer''"
| "data_pointer_as_file_offset (Some p) = Inr p"

definition span_between :: "ptr \<Rightarrow> ptr \<Rightarrow> span" where
  "span_between p e = cur_data (cursor_between p e)"

section \<open>Entries\<close>

record common_information_entry =
  cie_length :: u32
  code_alignment_factor :: u64
  data_alignment_factor :: u64
  fde_has_augmentation :: bool
  fde_pointer_encoding :: byte
  cie_instructions :: span

record frame_description_entry =
  fde_length :: u32
  fde_cie :: common_information_entry
  initial_location :: file_addr
  address_range :: u64
  fde_instructions :: span

text \<open>The map \<open>cie_map_\<close> has 32-bit keys, to which the 64-bit offset is converted.\<close>

type_synonym cie_map = "u32 \<Rightarrow> common_information_entry option"

fun cie_augmentation :: "byte list \<Rightarrow> string \<Rightarrow> byte \<Rightarrow> cursor \<Rightarrow> (byte \<times> cursor) result" where
  "cie_augmentation img [] encoding c = Inr (encoding, c)"
| "cie_augmentation img (ch # chs) encoding c =
     (if ch = CHR ''z'' then
        bind_res (cur_uleb128 img c) (\<lambda>(_, c'). cie_augmentation img chs encoding c')
      else if ch = CHR ''R'' then
        bind_res (cur_u8 img c) (\<lambda>(e, c'). cie_augmentation img chs e c')
      else if ch = CHR ''L'' then
        bind_res (cur_u8 img c) (\<lambda>(_, c'). cie_augmentation img chs encoding c')
      else if ch = CHR ''P'' then
        bind_res (cur_u8 img c) (\<lambda>(e, c').
        bind_res (parse_eh_frame_pointer_with_base img c' e 0) (\<lambda>(_, c'').
        cie_augmentation img chs encoding c''))
      else send ''Invalid CIE augmentation'')"

definition cie_address_sizes :: "byte list \<Rightarrow> byte \<Rightarrow> cursor \<Rightarrow> cursor result" where
  "cie_address_sizes img version c =
     (if version = 4 then
        bind_res (cur_u8 img c) (\<lambda>(address_size, c1).
        bind_res (cur_u8 img c1) (\<lambda>(segment_size, c2).
        if address_size \<noteq> 8 then send ''Invalid address size''
        else if segment_size \<noteq> 0 then send ''Invalid segment size''
        else Inr c2))
      else Inr c)"

definition parse_cie :: "byte list \<Rightarrow> cursor \<Rightarrow> common_information_entry result" where
  "parse_cie img c =
     bind_res (cur_u32 img c) (\<lambda>(len, c1).
     bind_res (cur_u32 img c1) (\<lambda>(_, c2).
     bind_res (cur_u8 img c2) (\<lambda>(version, c3).
     if \<not> (version = 1 \<or> version = 3 \<or> version = 4) then send ''Invalid CIE version''
     else
     bind_res (cur_string img c3) (\<lambda>(augmentation, c4).
     if augmentation \<noteq> [] \<and> hd augmentation \<noteq> CHR ''z'' then send ''Invalid CIE augmentation''
     else
     bind_res (cie_address_sizes img version c4) (\<lambda>c5.
     bind_res (cur_uleb128 img c5) (\<lambda>(code_align, c6).
     bind_res (cur_sleb128 img c6) (\<lambda>(data_align, c7).
     bind_res (if version = 1 then bind_res (cur_u8 img c7) (\<lambda>(_, c'). Inr c')
               else bind_res (cur_uleb128 img c7) (\<lambda>(_, c'). Inr c')) (\<lambda>c8.
     bind_res (cie_augmentation img augmentation (DW_EH_PE_udata8 OR DW_EH_PE_absptr) c8) (\<lambda>(encoding, c9).
     Inr \<lparr>cie_length = len + 4, code_alignment_factor = code_align,
          data_alignment_factor = data_align, fde_has_augmentation = augmentation \<noteq> [],
          fde_pointer_encoding = encoding,
          cie_instructions =
            span_between (cur_pos c9) (map_option (\<lambda>s. s + ucast (len + 4)) (cur_pos c))\<rparr>)))))))))"

definition get_cie ::
  "elf \<Rightarrow> cie_map \<Rightarrow> u64 \<Rightarrow> (common_information_entry \<times> cie_map) result" where
  "get_cie obj cies offset =
     (case cies (ucast offset) of
        Some cie \<Rightarrow> Inr (cie, cies)
      | None \<Rightarrow>
          bind_res (parse_cie (storage obj)
              (cursor_between (Some offset) (span_end (get_section_contents obj ''.eh_frame'')))) (\<lambda>cie.
          Inr (cie, cies(ucast offset \<mapsto> cie))))"

definition section_start_or_null :: "elf \<Rightarrow> string \<Rightarrow> file_addr" where
  "section_start_or_null obj name =
     (case get_section_start_address obj name of Some a \<Rightarrow> a | None \<Rightarrow> null_file_addr)"

definition parse_fde ::
  "elf \<Rightarrow> cie_map \<Rightarrow> cursor \<Rightarrow> (frame_description_entry \<times> cie_map) result" where
  "parse_fde obj cies c =
     (let img = storage obj in
     bind_res (cur_u32 img c) (\<lambda>(len, c1).
     bind_res (data_pointer_as_file_offset (cur_pos c1)) (\<lambda>here.
     bind_res (cur_s32 img c1) (\<lambda>(back, c2).
     bind_res (get_cie obj cies (here - scast back)) (\<lambda>(cie, cies').
     bind_res (data_pointer_as_file_offset (cur_pos c2)) (\<lambda>here'.
     bind_res (parse_eh_frame_pointer obj c2 (fde_pointer_encoding cie) here'
         (fa_addr (section_start_or_null obj ''.text'')) 0 0) (\<lambda>(loc, c3).
     bind_res (parse_eh_frame_pointer_with_base img c3 (fde_pointer_encoding cie) 0) (\<lambda>(range, c4).
     bind_res (if fde_has_augmentation cie
               then bind_res (cur_uleb128 img c4) (\<lambda>(n, c'). cur_advance n c')
               else Inr c4) (\<lambda>c5.
     Inr (\<lparr>fde_length = len + 4, fde_cie = cie, initial_location = elf_file_addr obj loc,
           address_range = range,
           fde_instructions =
             span_between (cur_pos c5) (map_option (\<lambda>s. s + ucast (len + 4)) (cur_pos c))\<rparr>,
          cies'))))))))))"

section \<open>The search table of \<open>.eh_frame_hdr\<close>\<close>

record eh_hdr =
  hdr_start :: ptr
  search_table :: ptr
  hdr_count :: u64
  hdr_encoding :: byte

definition empty_eh_hdr :: eh_hdr where
  "empty_eh_hdr = \<lparr>hdr_start = None, search_table = None, hdr_count = 0, hdr_encoding = 0\<rparr>"

fun opt_deref :: "'a option \<Rightarrow> 'a result" where
  "opt_deref None = undefined_behaviour ''empty optional''"
| "opt_deref (Some x) = Inr x"

definition parse_eh_hdr :: "elf \<Rightarrow> eh_hdr result" where
  "parse_eh_hdr obj =
     bind_res (opt_deref (get_section_start_address obj ''.eh_frame_hdr'')) (\<lambda>_.
     bind_res (opt_deref (get_section_start_address obj ''.text'')) (\<lambda>_.
     let img = storage obj; c = cursor_of (get_section_contents obj ''.eh_frame_hdr'') in
     bind_res (cur_u8 img c) (\<lambda>(_, c1).
     bind_res (cur_u8 img c1) (\<lambda>(ptr_enc, c2).
     bind_res (cur_u8 img c2) (\<lambda>(count_enc, c3).
     bind_res (cur_u8 img c3) (\<lambda>(table_enc, c4).
     bind_res (parse_eh_frame_pointer_with_base img c4 ptr_enc 0) (\<lambda>(_, c5).
     bind_res (parse_eh_frame_pointer_with_base img c5 count_enc 0) (\<lambda>(n, c6).
     Inr \<lparr>hdr_start = cur_pos c, search_table = cur_pos c6, hdr_count = n,
          hdr_encoding = table_enc\<rparr>))))))))"

definition parse_call_frame_information :: "elf \<Rightarrow> eh_hdr result" where
  "parse_call_frame_information obj =
     (if get_section obj ''.eh_frame_hdr'' \<noteq> None then parse_eh_hdr obj else Inr empty_eh_hdr)"

text \<open>The address in row \<open>i\<close> of the table, or, one pointer further, its frame description entry.\<close>

definition hdr_entry :: "elf \<Rightarrow> eh_hdr \<Rightarrow> u64 \<Rightarrow> u64 \<Rightarrow> u64 \<Rightarrow> u64 \<Rightarrow> u64 result" where
  "hdr_entry obj hdr text_start row_size i skip =
     (let c = cursor_between (map_option (\<lambda>t. t + i * row_size + skip) (search_table hdr))
                (map_option (\<lambda>t. t + hdr_count hdr * row_size) (search_table hdr)) in
      bind_res (data_pointer_as_file_offset (cur_pos c)) (\<lambda>here.
      bind_res (data_pointer_as_file_offset (hdr_start hdr)) (\<lambda>start.
      bind_res (parse_eh_frame_pointer obj c (hdr_encoding hdr) here text_start start 0) (\<lambda>(a, _).
      Inr a))))"

fun hdr_search :: "nat \<Rightarrow> (u64 \<Rightarrow> u64 result) \<Rightarrow> u64 \<Rightarrow> u64 \<Rightarrow> u64 \<Rightarrow> u64 result" where
  "hdr_search 0 entry address low high = Inl Out_Of_Fuel"
| "hdr_search (Suc n) entry address low high =
     (if low \<le> high then
        let mid = (low + high) div 2 in
        bind_res (entry mid) (\<lambda>a.
        if a < address then hdr_search n entry address (mid + 1) high
        else if a > address then
          if mid = 0 then send ''Address not found in eh_hdr''
          else hdr_search n entry address low (mid - 1)
        else Inr mid)
      else Inr high)"

definition eh_hdr_lookup :: "nat \<Rightarrow> elf \<Rightarrow> eh_hdr \<Rightarrow> u64 \<Rightarrow> ptr result" where
  "eh_hdr_lookup n obj hdr address =
     bind_res (opt_deref (get_section_start_address obj ''.text'')) (\<lambda>text.
     bind_res (eh_frame_pointer_encoding_size (hdr_encoding hdr)) (\<lambda>enc_size.
     let row_size = enc_size * 2 in
     bind_res (hdr_search n (\<lambda>i. hdr_entry obj hdr (fa_addr text) row_size i 0) address 0
         (hdr_count hdr - 1)) (\<lambda>i.
     bind_res (hdr_entry obj hdr (fa_addr text) row_size i enc_size) (\<lambda>off. Inr (Some off)))))"


section \<open>Call frame instructions\<close>

datatype cfa_rule = Cfa_register u32 u64 | Cfa_expr span

datatype reg_rule =
    Undefined_rule
  | Same_rule
  | Offset_rule u64
  | Val_offset_rule u64
  | Register_rule u32
  | Expr_rule span
  | Val_expr_rule span

type_synonym ruleset = "(u32 \<times> reg_rule) list"

record unwind_context =
  ctx_cur :: cursor
  ctx_location :: file_addr
  ctx_cfa_rule :: cfa_rule
  cie_register_rules :: ruleset
  register_rules :: ruleset
  rule_stack :: "(ruleset \<times> cfa_rule) list"

definition initial_context :: unwind_context where
  "initial_context =
     \<lparr>ctx_cur = \<lparr>cur_data = null_span, cur_pos = None\<rparr>, ctx_location = null_file_addr,
      ctx_cfa_rule = Cfa_register 0 0, cie_register_rules = [], register_rules = [], rule_stack = []\<rparr>"

text \<open>\<open>unordered_map::emplace\<close> leaves an existing rule in place.\<close>

definition emplace_rule :: "u32 \<Rightarrow> reg_rule \<Rightarrow> unwind_context \<Rightarrow> unwind_context" where
  "emplace_rule r rule ctx =
     (if map_of (register_rules ctx) r = None
      then ctx\<lparr>register_rules := register_rules ctx @ [(r, rule)]\<rparr> else ctx)"

text \<open>A product of two signed 64-bit integers; the overflow is undefined.\<close>

definition signed_mul :: "u64 \<Rightarrow> u64 \<Rightarrow> u64 result" where
  "signed_mul a b =
     (let p = sint a * sint b in
      if - (2 ^ 63) \<le> p \<and> p < 2 ^ 63 then Inr (word_of_int p)
      else undefined_behaviour ''signed overflow'')"

definition ctx_read ::
  "(cursor \<Rightarrow> ('w \<times> cursor) result) \<Rightarrow> unwind_context \<Rightarrow>
   ('w \<Rightarrow> unwind_context \<Rightarrow> unwind_context result) \<Rightarrow> unwind_context result" where
  "ctx_read rd ctx f = bind_res (rd (ctx_cur ctx)) (\<lambda>(w, c). f w (ctx\<lparr>ctx_cur := c\<rparr>))"

definition advance_location :: "u64 \<Rightarrow> unwind_context \<Rightarrow> unwind_context" where
  "advance_location n ctx = ctx\<lparr>ctx_location := file_addr_add (ctx_location ctx) n\<rparr>"

definition restore_rule :: "u32 \<Rightarrow> unwind_context \<Rightarrow> unwind_context result" where
  "restore_rule r ctx =
     bind_res (map_at (map_of (cie_register_rules ctx)) r) (\<lambda>rule. Inr (emplace_rule r rule ctx))"

definition cfi_primary ::
  "elf \<Rightarrow> frame_description_entry \<Rightarrow> byte \<Rightarrow> unwind_context \<Rightarrow> unwind_context result" where
  "cfi_primary obj fde opcode ctx =
     (let img = storage obj; cie = fde_cie fde;
          primary = opcode AND 0xc0; extended = opcode AND 0x3f in
      if primary = DW_CFA_advance_loc then
        Inr (advance_location (ucast extended * code_alignment_factor cie) ctx)
      else if primary = DW_CFA_offset then
        ctx_read (cur_uleb128 img) ctx (\<lambda>n ctx.
        bind_res (signed_mul n (data_alignment_factor cie)) (\<lambda>off.
        Inr (emplace_rule (ucast extended) (Offset_rule off) ctx)))
      else if primary = DW_CFA_restore then restore_rule (ucast extended) ctx
      else Inr ctx)"

definition cfi_location ::
  "elf \<Rightarrow> frame_description_entry \<Rightarrow> u64 \<Rightarrow> byte \<Rightarrow> unwind_context \<Rightarrow> unwind_context result option" where
  "cfi_location obj fde text_start opcode ctx =
     (let img = storage obj; cie = fde_cie fde in
      if opcode = DW_CFA_set_loc then
        Some (bind_res (data_pointer_as_file_offset (cur_pos (ctx_cur ctx))) (\<lambda>here.
              bind_res (parse_eh_frame_pointer obj (ctx_cur ctx) (fde_pointer_encoding cie) here
                  text_start (fa_addr (section_start_or_null obj ''.got.plt''))
                  (fa_addr (initial_location fde))) (\<lambda>(loc, c).
              Inr (ctx\<lparr>ctx_cur := c, ctx_location := elf_file_addr obj loc\<rparr>))))
      else if opcode = DW_CFA_advance_loc1 then
        Some (ctx_read (cur_u8 img) ctx (\<lambda>n ctx.
              Inr (advance_location (ucast n * code_alignment_factor cie) ctx)))
      else if opcode = DW_CFA_advance_loc2 then
        Some (ctx_read (cur_u16 img) ctx (\<lambda>n ctx.
              Inr (advance_location (ucast n * code_alignment_factor cie) ctx)))
      else if opcode = DW_CFA_advance_loc4 then
        Some (ctx_read (cur_u32 img) ctx (\<lambda>n ctx.
              Inr (advance_location (ucast n * code_alignment_factor cie) ctx)))
      else None)"

definition with_cfa_register ::
  "(u32 \<Rightarrow> u64 \<Rightarrow> cfa_rule) \<Rightarrow> unwind_context \<Rightarrow> unwind_context result" where
  "with_cfa_register f ctx =
     (case ctx_cfa_rule ctx of
        Cfa_register r off \<Rightarrow> Inr (ctx\<lparr>ctx_cfa_rule := f r off\<rparr>)
      | Cfa_expr _ \<Rightarrow> Inl Bad_Variant_Access)"

definition expr_block :: "cursor \<Rightarrow> u64 \<Rightarrow> span" where
  "expr_block c n = span_between (cur_pos c) (map_option (\<lambda>p. p + n) (cur_pos c))"

definition cfi_cfa ::
  "byte list \<Rightarrow> common_information_entry \<Rightarrow> byte \<Rightarrow> unwind_context \<Rightarrow> unwind_context result option" where
  "cfi_cfa img cie opcode ctx =
     (if opcode = DW_CFA_def_cfa then
        Some (ctx_read (cur_uleb128 img) ctx (\<lambda>r ctx.
              ctx_read (cur_uleb128 img) ctx (\<lambda>off ctx.
              Inr (ctx\<lparr>ctx_cfa_rule := Cfa_register (ucast r) (ucast (ucast off :: u32))\<rparr>))))
      else if opcode = DW_CFA_def_cfa_sf then
        Some (ctx_read (cur_uleb128 img) ctx (\<lambda>r ctx.
              ctx_read (cur_sleb128 img) ctx (\<lambda>n ctx.
              bind_res (signed_mul n (data_alignment_factor cie)) (\<lambda>off.
              Inr (ctx\<lparr>ctx_cfa_rule := Cfa_register (ucast r) off\<rparr>)))))
      else if opcode = DW_CFA_def_cfa_register then
        Some (ctx_read (cur_uleb128 img) ctx (\<lambda>r ctx.
              with_cfa_register (\<lambda>_ off. Cfa_register (ucast r) off) ctx))
      else if opcode = DW_CFA_def_cfa_offset then
        Some (ctx_read (cur_uleb128 img) ctx (\<lambda>off ctx.
              with_cfa_register (\<lambda>r _. Cfa_register r off) ctx))
      else if opcode = DW_CFA_def_cfa_offset_sf then
        Some (ctx_read (cur_sleb128 img) ctx (\<lambda>n ctx.
              bind_res (signed_mul n (data_alignment_factor cie)) (\<lambda>off.
              with_cfa_register (\<lambda>r _. Cfa_register r off) ctx)))
      else if opcode = DW_CFA_def_cfa_expression then
        Some (ctx_read (cur_uleb128 img) ctx (\<lambda>n ctx.
              Inr (ctx\<lparr>ctx_cfa_rule := Cfa_expr (expr_block (ctx_cur ctx) n)\<rparr>)))
      else None)"

definition emplace_offset ::
  "byte list \<Rightarrow> (byte list \<Rightarrow> cursor \<Rightarrow> (u64 \<times> cursor) result) \<Rightarrow> common_information_entry \<Rightarrow>
   (u64 \<Rightarrow> reg_rule) \<Rightarrow> unwind_context \<Rightarrow> unwind_context result" where
  "emplace_offset img rd cie rule ctx =
     ctx_read (cur_uleb128 img) ctx (\<lambda>r ctx.
     ctx_read (rd img) ctx (\<lambda>n ctx.
     bind_res (signed_mul n (data_alignment_factor cie)) (\<lambda>off.
     Inr (emplace_rule (ucast r) (rule off) ctx))))"

definition emplace_expr ::
  "byte list \<Rightarrow> (span \<Rightarrow> reg_rule) \<Rightarrow> unwind_context \<Rightarrow> unwind_context result" where
  "emplace_expr img rule ctx =
     ctx_read (cur_uleb128 img) ctx (\<lambda>r ctx.
     ctx_read (cur_uleb128 img) ctx (\<lambda>n ctx.
     Inr (emplace_rule (ucast r) (rule (expr_block (ctx_cur ctx) n)) ctx)))"

definition cfi_register ::
  "byte list \<Rightarrow> common_information_entry \<Rightarrow> byte \<Rightarrow> unwind_context \<Rightarrow> unwind_context result option" where
  "cfi_register img cie opcode ctx =
     (if opcode = DW_CFA_expression then Some (emplace_expr img Expr_rule ctx)
      else if opcode = DW_CFA_val_expression then Some (emplace_expr img Val_expr_rule ctx)
      else if opcode = DW_CFA_undefined then
        Some (ctx_read (cur_uleb128 img) ctx (\<lambda>r ctx. Inr (emplace_rule (ucast r) Undefined_rule ctx)))
      else if opcode = DW_CFA_same_value then
        Some (ctx_read (cur_uleb128 img) ctx (\<lambda>r ctx. Inr (emplace_rule (ucast r) Same_rule ctx)))
      else if opcode = DW_CFA_offset_extended then
        Some (emplace_offset img cur_uleb128 cie Offset_rule ctx)
      else if opcode = DW_CFA_offset_extended_sf then
        Some (emplace_offset img cur_sleb128 cie Offset_rule ctx)
      else if opcode = DW_CFA_val_offset then
        Some (emplace_offset img cur_uleb128 cie Val_offset_rule ctx)
      else if opcode = DW_CFA_val_offset_sf then
        Some (emplace_offset img cur_sleb128 cie Val_offset_rule ctx)
      else if opcode = DW_CFA_register then
        Some (ctx_read (cur_uleb128 img) ctx (\<lambda>r ctx.
              ctx_read (cur_uleb128 img) ctx (\<lambda>other ctx.
              Inr (emplace_rule (ucast r) (Register_rule (ucast other)) ctx))))
      else if opcode = DW_CFA_restore_extended then
        Some (ctx_read (cur_uleb128 img) ctx (\<lambda>r ctx. restore_rule (ucast r) ctx))
      else None)"

definition cfi_state :: "byte \<Rightarrow> unwind_context \<Rightarrow> unwind_context result option" where
  "cfi_state opcode ctx =
     (if opcode = DW_CFA_remember_state then
        Some (Inr (ctx\<lparr>rule_stack := (register_rules ctx, ctx_cfa_rule ctx) # rule_stack ctx\<rparr>))
      else if opcode = DW_CFA_restore_state then
        Some (case rule_stack ctx of
                [] \<Rightarrow> undefined_behaviour ''empty stack''
              | (rules, cfa) # rest \<Rightarrow>
                  Inr (ctx\<lparr>register_rules := rules, ctx_cfa_rule := cfa, rule_stack := rest\<rparr>))
      else None)"

definition cfi_dispatch ::
  "elf \<Rightarrow> frame_description_entry \<Rightarrow> u64 \<Rightarrow> byte \<Rightarrow> unwind_context \<Rightarrow> unwind_context result" where
  "cfi_dispatch obj fde text_start opcode ctx =
     (if opcode AND 0xc0 \<noteq> 0 then cfi_primary obj fde opcode ctx
      else
        let extended = opcode AND 0x3f in
        if extended \<noteq> 0 then
          first_of [cfi_location obj fde text_start extended ctx,
                    cfi_cfa (storage obj) (fde_cie fde) extended ctx,
                    cfi_register (storage obj) (fde_cie fde) extended ctx,
                    cfi_state extended ctx] (Inr ctx)
        else Inr ctx)"

definition execute_cfi_instruction ::
  "elf \<Rightarrow> frame_description_entry \<Rightarrow> unwind_context \<Rightarrow> unwind_context result" where
  "execute_cfi_instruction obj fde ctx =
     bind_res (opt_deref (get_section_start_address obj ''.text'')) (\<lambda>text.
     ctx_read (cur_u8 (storage obj)) ctx (cfi_dispatch obj fde (fa_addr text)))"

section \<open>Termination\<close>

text \<open>An instruction consumes at least its opcode, so both loops over instructions end.\<close>

lemma ctx_cur_emplace [simp]: "ctx_cur (emplace_rule r rule ctx) = ctx_cur ctx"
  by (simp add: emplace_rule_def)

lemma ctx_cur_advance [simp]: "ctx_cur (advance_location n ctx) = ctx_cur ctx"
  by (simp add: advance_location_def)

lemma ctx_cur_restore: "restore_rule r ctx = Inr ctx' \<Longrightarrow> ctx_cur ctx' = ctx_cur ctx"
  by (auto simp: restore_rule_def res_simps)

lemma ctx_cur_with_cfa: "with_cfa_register f ctx = Inr ctx' \<Longrightarrow> ctx_cur ctx' = ctx_cur ctx"
  by (auto simp: with_cfa_register_def split: cfa_rule.splits)

lemma eh_pointer_measure:
  "parse_eh_frame_pointer_with_base img c enc base = Inr (w, c') \<Longrightarrow> cur_measure img c' \<le> cur_measure img c"
  unfolding parse_eh_frame_pointer_with_base_def with_base_def Let_def
  by (auto simp: res_simps split: if_splits dest!: cur_int_measure_le)

text \<open>A computation on a context that does not move the cursor back.\<close>

definition forward :: "byte list \<Rightarrow> cursor \<Rightarrow> unwind_context result \<Rightarrow> bool" where
  "forward img c r \<longleftrightarrow> (\<forall>ctx. r = Inr ctx \<longrightarrow> cur_measure img (ctx_cur ctx) \<le> cur_measure img c)"

lemma forward_read:
  assumes "\<And>w c'. rd (ctx_cur ctx) = Inr (w, c') \<Longrightarrow> cur_measure img c' \<le> cur_measure img (ctx_cur ctx)"
    "\<And>w c'. forward img c' (f w (ctx\<lparr>ctx_cur := c'\<rparr>))"
  shows "forward img (ctx_cur ctx) (ctx_read rd ctx f)"
  unfolding forward_def
proof (intro allI impI)
  fix ctx'
  assume "ctx_read rd ctx f = Inr ctx'"
  then obtain w c' where "rd (ctx_cur ctx) = Inr (w, c')" "f w (ctx\<lparr>ctx_cur := c'\<rparr>) = Inr ctx'"
    by (auto simp: ctx_read_def res_simps)
  with assms(1) assms(2) [of c' w] show "cur_measure img (ctx_cur ctx') \<le> cur_measure img (ctx_cur ctx)"
    by (auto simp: forward_def intro: order_trans)
qed

lemma forward_simps [simp]:
  "forward img c (Inr ctx) \<longleftrightarrow> cur_measure img (ctx_cur ctx) \<le> cur_measure img c"
  "forward img c (Inl e)"
  "forward img c (send w)" "forward img c (undefined_behaviour w)"
  by (simp_all add: forward_def send_def undefined_behaviour_def)

lemma forward_bind: "(\<And>x. m = Inr x \<Longrightarrow> forward img c (f x)) \<Longrightarrow> forward img c (bind_res m f)"
  by (auto simp: forward_def res_simps)

lemma forward_helpers:
  "forward img (ctx_cur ctx) (restore_rule r ctx)"
  "forward img (ctx_cur ctx) (with_cfa_register f ctx)"
  by (auto simp: forward_def dest: ctx_cur_restore ctx_cur_with_cfa)

lemma forward_read_leb:
  assumes "\<And>w c'. forward img c' (f w (ctx\<lparr>ctx_cur := c'\<rparr>))" "c = ctx_cur ctx"
  shows "forward img c (ctx_read (cur_uleb128 img) ctx f)" "forward img c (ctx_read (cur_sleb128 img) ctx f)"
  using assms by (auto intro!: forward_read dest: cur_int_measure_le)

lemma forward_read_int:
  assumes "\<And>w c'. forward img c' (f w (ctx\<lparr>ctx_cur := c'\<rparr>))" "c = ctx_cur ctx"
  shows "forward img c (ctx_read (cur_u8 img) ctx f)"
  using assms by (auto intro!: forward_read dest: cur_int_measure_le)

lemma forward_helpers_at:
  "forward img c (restore_rule r (ctx\<lparr>ctx_cur := c\<rparr>))"
  "forward img c (with_cfa_register f (ctx\<lparr>ctx_cur := c\<rparr>))"
  using forward_helpers [of img "ctx\<lparr>ctx_cur := c\<rparr>"] by simp_all

lemma cfi_primary_forward: "forward (storage obj) (ctx_cur ctx) (cfi_primary obj fde opcode ctx)"
  unfolding cfi_primary_def Let_def
  by (auto intro!: forward_read_leb forward_bind forward_helpers)

lemma cfi_location_forward:
  "cfi_location obj fde t opcode ctx = Some r \<Longrightarrow> forward (storage obj) (ctx_cur ctx) r"
  unfolding cfi_location_def Let_def parse_eh_frame_pointer_def
  by (auto intro!: forward_read forward_bind split: if_splits dest: cur_int_measure_le eh_pointer_measure
      simp: res_simps)

lemma cfi_cfa_forward: "cfi_cfa img cie opcode ctx = Some r \<Longrightarrow> forward img (ctx_cur ctx) r"
  unfolding cfi_cfa_def
  by (auto intro!: forward_read_leb forward_bind forward_helpers_at split: if_splits)

lemma cfi_register_forward: "cfi_register img cie opcode ctx = Some r \<Longrightarrow> forward img (ctx_cur ctx) r"
  unfolding cfi_register_def emplace_expr_def emplace_offset_def
  by (auto intro!: forward_read_leb forward_bind forward_helpers_at split: if_splits)

lemma cfi_state_forward: "cfi_state opcode ctx = Some r \<Longrightarrow> forward img (ctx_cur ctx) r"
  unfolding cfi_state_def by (auto split: if_splits list.splits)

lemma cfi_dispatch_forward:
  "forward (storage obj) (ctx_cur ctx) (cfi_dispatch obj fde t opcode ctx)"
proof -
  have groups: "forward (storage obj) (ctx_cur ctx) r"
    if "first_of [cfi_location obj fde t x ctx, cfi_cfa (storage obj) (fde_cie fde) x ctx,
       cfi_register (storage obj) (fde_cie fde) x ctx, cfi_state x ctx] (Inr ctx) = r" for x r
    by (rule first_of_cases [OF that])
      (auto dest: cfi_location_forward [OF sym] cfi_cfa_forward [OF sym] cfi_register_forward [OF sym]
        cfi_state_forward [OF sym, where img = "storage obj"])
  then show ?thesis
    using cfi_primary_forward [of obj ctx fde opcode] by (simp add: cfi_dispatch_def Let_def)
qed

lemma execute_cfi_instruction_measure:
  assumes "execute_cfi_instruction obj fde ctx = Inr ctx'"
  shows "cur_measure (storage obj) (ctx_cur ctx') < cur_measure (storage obj) (ctx_cur ctx)"
proof -
  obtain t opcode c where u: "cur_u8 (storage obj) (ctx_cur ctx) = Inr (opcode, c)"
      "cfi_dispatch obj fde t opcode (ctx\<lparr>ctx_cur := c\<rparr>) = Inr ctx'"
    using assms by (auto simp: execute_cfi_instruction_def ctx_read_def res_simps)
  with cfi_dispatch_forward [of obj "ctx\<lparr>ctx_cur := c\<rparr>" fde t opcode] cur_measures(2) [OF u(1)]
  show ?thesis by simp
qed

section \<open>Running the instructions\<close>

function run_cie :: "elf \<Rightarrow> frame_description_entry \<Rightarrow> unwind_context \<Rightarrow> unwind_context result" where
  "run_cie obj fde ctx =
     (if cur_finished (ctx_cur ctx) then Inr ctx
      else bind_res (execute_cfi_instruction obj fde ctx) (run_cie obj fde))"
  by pat_completeness auto
termination
  by (relation "measure (\<lambda>(obj, fde, ctx). cur_measure (storage obj) (ctx_cur ctx))")
    (auto dest!: execute_cfi_instruction_measure)

function run_fde ::
  "elf \<Rightarrow> frame_description_entry \<Rightarrow> file_addr \<Rightarrow> unwind_context \<Rightarrow> unwind_context result" where
  "run_fde obj fde pc ctx =
     (if cur_finished (ctx_cur ctx) then Inr ctx
      else bind_res (file_addr_le (ctx_location ctx) pc) (\<lambda>go.
           if go then bind_res (execute_cfi_instruction obj fde ctx) (run_fde obj fde pc)
           else Inr ctx))"
  by pat_completeness auto
termination
  by (relation "measure (\<lambda>(obj, fde, pc, ctx). cur_measure (storage obj) (ctx_cur ctx))")
    (auto dest!: execute_cfi_instruction_measure)

declare run_cie.simps [simp del] run_fde.simps [simp del]

text \<open>The rules in force at \<open>pc\<close>: the instructions of the common entry, then those of the frame.\<close>

definition unwind_rules ::
  "elf \<Rightarrow> frame_description_entry \<Rightarrow> file_addr \<Rightarrow> unwind_context result" where
  "unwind_rules obj fde pc =
     bind_res (run_cie obj fde (initial_context\<lparr>ctx_cur := cursor_of (cie_instructions (fde_cie fde))\<rparr>)) (\<lambda>ctx.
     run_fde obj fde pc
       (ctx\<lparr>cie_register_rules := register_rules ctx,
            ctx_cur := cursor_of (fde_instructions fde),
            ctx_location := initial_location fde\<rparr>))"

section \<open>Applying the rules\<close>

text \<open>
  The loops over instructions build expression rules with a \<open>dwarf_expression\<close> whose parent is a
  temporary: \<open>sdb::dwarf_expression{ elf, ... }\<close> converts the object file to a fresh \<open>dwarf\<close> that
  is destroyed at the end of the statement.  Evaluating such a rule reads through the dangling
  pointer.
\<close>

definition dangling_expression :: "span \<Rightarrow> u64 result" where
  "dangling_expression data = undefined_behaviour ''expression outlives its parent''"

definition cfa_value :: "native \<Rightarrow> registers \<Rightarrow> cfa_rule \<Rightarrow> u64 result" where
  "cfa_value m old rule =
     (case rule of
        Cfa_register r off \<Rightarrow>
          bind_res (register_info_by_dwarf m (sint r)) (\<lambda>info.
          bind_res (bind_res (reg_read m old info) as_u64) (\<lambda>w. Inr (w + off)))
      | Cfa_expr data \<Rightarrow> dangling_expression data)"

definition write_word :: "native \<Rightarrow> registers \<Rightarrow> register_info \<Rightarrow> u64 \<Rightarrow> registers result" where
  "write_word m rs info w = bind_res (reg_write m rs info (V_u64 w) False) (\<lambda>(rs', _). Inr rs')"

definition read_word :: "(u64 \<Rightarrow> nat \<Rightarrow> byte list result) \<Rightarrow> u64 \<Rightarrow> u64 result" where
  "read_word mem a = bind_res (mem a 8) (\<lambda>bs. Inr (from_bytes bs))"

definition apply_rule ::
  "native \<Rightarrow> (u64 \<Rightarrow> nat \<Rightarrow> byte list result) \<Rightarrow> registers \<Rightarrow> u64 \<Rightarrow> registers \<Rightarrow> u32 \<times> reg_rule \<Rightarrow> registers result"
where
  "apply_rule m mem old cfa out = (\<lambda>(r, rule).
     bind_res (register_info_by_dwarf m (sint r)) (\<lambda>info.
     case rule of
       Undefined_rule \<Rightarrow> undefine m out (reg_id info)
     | Same_rule \<Rightarrow> Inr out
     | Register_rule other \<Rightarrow>
         bind_res (register_info_by_dwarf m (sint other)) (\<lambda>other_info.
         bind_res (reg_read m old other_info) (\<lambda>v.
         bind_res (reg_write m out info v False) (\<lambda>(out', _). Inr out')))
     | Offset_rule off \<Rightarrow> bind_res (read_word mem (cfa + off)) (write_word m out info)
     | Val_offset_rule off \<Rightarrow> write_word m out info (cfa + off)
     | Expr_rule data \<Rightarrow>
         bind_res (dangling_expression data) (\<lambda>a.
         bind_res (read_word mem a) (write_word m out info))
     | Val_expr_rule data \<Rightarrow> bind_res (dangling_expression data) (write_word m out info)))"

fun apply_rules ::
  "native \<Rightarrow> (u64 \<Rightarrow> nat \<Rightarrow> byte list result) \<Rightarrow> registers \<Rightarrow> u64 \<Rightarrow> registers \<Rightarrow> ruleset \<Rightarrow> registers result"
where
  "apply_rules m mem old cfa out [] = Inr out"
| "apply_rules m mem old cfa out (x # rules) =
     bind_res (apply_rule m mem old cfa out x) (\<lambda>out'. apply_rules m mem old cfa out' rules)"

text \<open>The result and the old registers, whose CFA is set.\<close>

definition execute_unwind_rules ::
  "(ruleset \<Rightarrow> ruleset) \<Rightarrow> native \<Rightarrow> (u64 \<Rightarrow> nat \<Rightarrow> byte list result) \<Rightarrow> unwind_context \<Rightarrow> registers \<Rightarrow>
   (registers \<times> registers) result" where
  "execute_unwind_rules order m mem ctx old =
     bind_res (cfa_value m old (ctx_cfa_rule ctx)) (\<lambda>cfa.
     let old' = old\<lparr>regs_cfa := cfa\<rparr> in
     bind_res (write_by_id m old SP (V_u64 cfa) False) (\<lambda>(out, _).
     bind_res (apply_rules m mem old' cfa out (order (register_rules ctx))) (\<lambda>out'.
     Inr (out', old'))))"

section \<open>Instructions and their encoding\<close>

datatype cfi_op =
    Advance_loc byte
  | Advance_loc4 u32
  | Def_cfa u64 u64
  | Def_cfa_register u64
  | Def_cfa_offset u64
  | Offset byte u64
  | Same_value u64
  | Set_undefined u64
  | In_register u64 u64
  | Restore byte
  | Remember_state
  | Restore_state
  | Cfi_nop

fun cfi_bytes :: "cfi_op \<Rightarrow> byte list" where
  "cfi_bytes (Advance_loc d) = [DW_CFA_advance_loc OR d]"
| "cfi_bytes (Advance_loc4 d) = DW_CFA_advance_loc4 # nat_le 4 (unat d)"
| "cfi_bytes (Def_cfa r off) = DW_CFA_def_cfa # uleb_encode (unat r) @ uleb_encode (unat off)"
| "cfi_bytes (Def_cfa_register r) = DW_CFA_def_cfa_register # uleb_encode (unat r)"
| "cfi_bytes (Def_cfa_offset off) = DW_CFA_def_cfa_offset # uleb_encode (unat off)"
| "cfi_bytes (Offset r n) = (DW_CFA_offset OR r) # uleb_encode (unat n)"
| "cfi_bytes (Same_value r) = DW_CFA_same_value # uleb_encode (unat r)"
| "cfi_bytes (Set_undefined r) = DW_CFA_undefined # uleb_encode (unat r)"
| "cfi_bytes (In_register r q) = DW_CFA_register # uleb_encode (unat r) @ uleb_encode (unat q)"
| "cfi_bytes (Restore r) = [DW_CFA_restore OR r]"
| "cfi_bytes Remember_state = [DW_CFA_remember_state]"
| "cfi_bytes Restore_state = [DW_CFA_restore_state]"
| "cfi_bytes Cfi_nop = [0]"

fun cfi_op_ok :: "cfi_op \<Rightarrow> bool" where
  "cfi_op_ok (Advance_loc d) = (d < 64)"
| "cfi_op_ok (Offset r n) = (r < 64)"
| "cfi_op_ok (Restore r) = (r < 64)"
| "cfi_op_ok _ = True"

text \<open>The effect of an instruction on the rules, without the cursor.\<close>

fun cfi_after :: "common_information_entry \<Rightarrow> cfi_op \<Rightarrow> unwind_context \<Rightarrow> unwind_context result" where
  "cfi_after cie (Advance_loc d) ctx = Inr (advance_location (ucast d * code_alignment_factor cie) ctx)"
| "cfi_after cie (Advance_loc4 d) ctx = Inr (advance_location (ucast d * code_alignment_factor cie) ctx)"
| "cfi_after cie (Def_cfa r off) ctx =
     Inr (ctx\<lparr>ctx_cfa_rule := Cfa_register (ucast r) (ucast (ucast off :: u32))\<rparr>)"
| "cfi_after cie (Def_cfa_register r) ctx = with_cfa_register (\<lambda>_ off. Cfa_register (ucast r) off) ctx"
| "cfi_after cie (Def_cfa_offset off) ctx = with_cfa_register (\<lambda>r _. Cfa_register r off) ctx"
| "cfi_after cie (Offset r n) ctx =
     bind_res (signed_mul n (data_alignment_factor cie)) (\<lambda>off.
     Inr (emplace_rule (ucast r) (Offset_rule off) ctx))"
| "cfi_after cie (Same_value r) ctx = Inr (emplace_rule (ucast r) Same_rule ctx)"
| "cfi_after cie (Set_undefined r) ctx = Inr (emplace_rule (ucast r) Undefined_rule ctx)"
| "cfi_after cie (In_register r q) ctx = Inr (emplace_rule (ucast r) (Register_rule (ucast q)) ctx)"
| "cfi_after cie (Restore r) ctx = restore_rule (ucast r) ctx"
| "cfi_after cie Remember_state ctx =
     Inr (ctx\<lparr>rule_stack := (register_rules ctx, ctx_cfa_rule ctx) # rule_stack ctx\<rparr>)"
| "cfi_after cie Restore_state ctx =
     (case rule_stack ctx of
        [] \<Rightarrow> undefined_behaviour ''empty stack''
      | (rules, cfa) # rest \<Rightarrow>
          Inr (ctx\<lparr>register_rules := rules, ctx_cfa_rule := cfa, rule_stack := rest\<rparr>))"
| "cfi_after cie Cfi_nop ctx = Inr ctx"

text \<open>A program up to the first instruction past \<open>pc\<close>.\<close>

fun cfi_run ::
  "common_information_entry \<Rightarrow> file_addr \<Rightarrow> cfi_op list \<Rightarrow> unwind_context \<Rightarrow> unwind_context result" where
  "cfi_run cie pc [] ctx = Inr ctx"
| "cfi_run cie pc (x # xs) ctx =
     bind_res (file_addr_le (ctx_location ctx) pc) (\<lambda>go.
     if go then bind_res (cfi_after cie x ctx) (cfi_run cie pc xs) else Inr ctx)"

text \<open>Two contexts that agree but for the cursor.\<close>

definition same_rules :: "unwind_context \<Rightarrow> unwind_context \<Rightarrow> bool" where
  "same_rules a b \<longleftrightarrow> a\<lparr>ctx_cur := ctx_cur b\<rparr> = b"

fun same_outcome :: "unwind_context result \<Rightarrow> unwind_context result \<Rightarrow> bool" where
  "same_outcome (Inl e) r = (r = Inl e)"
| "same_outcome (Inr a) r = (\<exists>b. r = Inr b \<and> same_rules a b)"

lemma emplace_rule_cursor: "emplace_rule r rule (ctx\<lparr>ctx_cur := c\<rparr>) = (emplace_rule r rule ctx)\<lparr>ctx_cur := c\<rparr>"
  by (simp add: emplace_rule_def)

lemma cfi_after_cursor:
  "cfi_after cie x (ctx\<lparr>ctx_cur := c\<rparr>) = bind_res (cfi_after cie x ctx) (\<lambda>ctx'. Inr (ctx'\<lparr>ctx_cur := c\<rparr>))"
  by (cases x)
    (simp_all add: advance_location_def emplace_rule_cursor restore_rule_def with_cfa_register_def
      bind_res_assoc split: option.split cfa_rule.split list.split)

lemma primary_masks:
  assumes "(x :: byte) < 64"
  shows "(0x40 OR x) AND 0xc0 = 0x40" "(0x80 OR x) AND 0xc0 = 0x80" "(0xc0 OR x) AND 0xc0 = 0xc0"
    "(0x40 OR x) AND 0x3f = x" "(0x80 OR x) AND 0x3f = x" "(0xc0 OR x) AND 0x3f = x"
proof -
  have "\<forall>x \<in> set (map word_of_nat [0..<64]) :: byte set.
      (0x40 OR x) AND 0xc0 = 0x40 \<and> (0x80 OR x) AND 0xc0 = 0x80 \<and> (0xc0 OR x) AND 0xc0 = 0xc0 \<and>
      (0x40 OR x) AND 0x3f = x \<and> (0x80 OR x) AND 0x3f = x \<and> (0xc0 OR x) AND 0x3f = x"
    by (simp add: upt_rec)
  moreover have "x \<in> set (map word_of_nat [0..<64])"
    using assms by (auto simp: word_less_nat_alt intro!: image_eqI [of _ _ "unat x"])
  ultimately show "(0x40 OR x) AND 0xc0 = 0x40" "(0x80 OR x) AND 0xc0 = 0x80" "(0xc0 OR x) AND 0xc0 = 0xc0"
    "(0x40 OR x) AND 0x3f = x" "(0x80 OR x) AND 0x3f = x" "(0xc0 OR x) AND 0x3f = x"
    by blast+
qed

lemma cur_ready_word4:
  assumes "cur_ready img e c (nat_le 4 (unat (w :: u32)) @ ys)"
  shows "\<exists>c'. cur_u32 img c = Inr (w, c') \<and> cur_ready img e c' ys"
proof -
  have "unat w < 2 ^ 32" using unsigned_less [of w] by simp
  then have "from_bytes (nat_le 4 (unat w)) = w" by (simp add: from_bytes_def le_nat_nat_le)
  with cur_ready_u32 [OF assms] show ?thesis by simp
qed

lemma cfi_dispatch_operands:
  assumes "cfi_op_ok x" "cfi_bytes x = b # bs" "cur_ready (storage obj) e (ctx_cur ctx) (bs @ ys)" "bs \<noteq> []"
  shows "\<exists>c'. cur_ready (storage obj) e c' ys \<and>
     cfi_dispatch obj fde t b ctx = cfi_after (fde_cie fde) x (ctx\<lparr>ctx_cur := c'\<rparr>)"
proof (cases x)
  case (Advance_loc4 d)
  with assms cur_ready_word4 [of "storage obj" e "ctx_cur ctx" d ys] show ?thesis
    by (auto simp: cfi_dispatch_def cfi_location_def ctx_read_def)
next
  case (Def_cfa r off)
  with assms obtain c1 where "cur_uleb128 (storage obj) (ctx_cur ctx) = Inr (r, c1)"
      "cur_ready (storage obj) e c1 (uleb_encode (unat off) @ ys)"
    using cur_ready_uleb128 [of "storage obj" e "ctx_cur ctx" r "uleb_encode (unat off) @ ys"] by auto
  with assms Def_cfa show ?thesis
    by (auto simp: cfi_dispatch_def cfi_location_def cfi_cfa_def ctx_read_def dest!: cur_ready_uleb128)
next
  case (In_register r q)
  with assms obtain c1 where "cur_uleb128 (storage obj) (ctx_cur ctx) = Inr (r, c1)"
      "cur_ready (storage obj) e c1 (uleb_encode (unat q) @ ys)"
    using cur_ready_uleb128 [of "storage obj" e "ctx_cur ctx" r "uleb_encode (unat q) @ ys"] by auto
  with assms In_register show ?thesis
    by (auto simp: cfi_dispatch_def cfi_location_def cfi_cfa_def cfi_register_def ctx_read_def
        dest!: cur_ready_uleb128)
qed (use assms in \<open>auto simp: cfi_dispatch_def cfi_primary_def cfi_location_def cfi_cfa_def cfi_register_def
      ctx_read_def primary_masks dest!: cur_ready_uleb128\<close>)

text \<open>Decoding one instruction: its operands are read and its effect applied.\<close>

lemma cfi_dispatch_op:
  assumes "cfi_op_ok x" "cfi_bytes x = b # bs" "cur_ready (storage obj) e (ctx_cur ctx) (bs @ ys)"
  shows "\<exists>c'. cur_ready (storage obj) e c' ys \<and>
     cfi_dispatch obj fde t b ctx = cfi_after (fde_cie fde) x (ctx\<lparr>ctx_cur := c'\<rparr>)"
proof (cases "bs = []")
  case True
  then have "cfi_dispatch obj fde t b ctx = cfi_after (fde_cie fde) x ctx"
    using assms(1,2)
    by (cases x) (auto simp: cfi_dispatch_def cfi_primary_def cfi_location_def cfi_cfa_def
        cfi_register_def cfi_state_def primary_masks uleb_encode_nonempty nat_le_numeral split: list.split)
  with assms(3) True show ?thesis by (intro exI [of _ "ctx_cur ctx"]) simp
next
  case False
  then show ?thesis using assms cfi_dispatch_operands [OF assms] by simp
qed

lemma run_fde_op:
  assumes "get_section_start_address obj ''.text'' = Some t" "cfi_op_ok x"
    "cur_ready (storage obj) e (ctx_cur ctx) (cfi_bytes x @ ys)"
  shows "\<exists>c'. cur_ready (storage obj) e c' ys \<and>
     run_fde obj fde pc ctx =
       bind_res (file_addr_le (ctx_location ctx) pc) (\<lambda>go.
       if go then bind_res (cfi_after (fde_cie fde) x (ctx\<lparr>ctx_cur := c'\<rparr>)) (run_fde obj fde pc)
       else Inr ctx)"
proof -
  obtain b bs where b: "cfi_bytes x = b # bs" by (cases x) auto
  then obtain c1 where c1: "cur_u8 (storage obj) (ctx_cur ctx) = Inr (b, c1)"
      "cur_ready (storage obj) e c1 (bs @ ys)"
    using cur_ready_u8 [of "storage obj" e "ctx_cur ctx" b "bs @ ys"] assms(3) by auto
  have "\<not> cur_finished (ctx_cur ctx)" using cur_ready_not_finished assms(3) b by fastforce
  obtain c' where c': "cur_ready (storage obj) e c' ys"
      "cfi_dispatch obj fde (fa_addr t) b (ctx\<lparr>ctx_cur := c1\<rparr>) = cfi_after (fde_cie fde) x (ctx\<lparr>ctx_cur := c'\<rparr>)"
    using cfi_dispatch_op [OF assms(2) b, of obj e "ctx\<lparr>ctx_cur := c1\<rparr>" ys fde "fa_addr t"] c1(2) by auto
  have "execute_cfi_instruction obj fde ctx = cfi_after (fde_cie fde) x (ctx\<lparr>ctx_cur := c'\<rparr>)"
    using c1(1) c'(2) assms(1) by (simp add: execute_cfi_instruction_def ctx_read_def)
  with c'(1) \<open>\<not> cur_finished (ctx_cur ctx)\<close> show ?thesis
    by (intro exI [of _ c'] conjI) (simp_all add: run_fde.simps [of obj fde pc ctx] cong: if_cong)
qed

lemma run_fde_program:
  "get_section_start_address obj ''.text'' = Some t \<Longrightarrow> list_all cfi_op_ok xs \<Longrightarrow>
   cur_ready (storage obj) e (ctx_cur ctx) (concat (map cfi_bytes xs)) \<Longrightarrow>
   same_outcome (cfi_run (fde_cie fde) pc xs (ctx\<lparr>ctx_cur := c0\<rparr>)) (run_fde obj fde pc ctx)"
proof (induction xs arbitrary: ctx)
  case Nil
  then show ?case
    using cur_ready_finished by (subst run_fde.simps) (auto simp: same_rules_def)
next
  case (Cons x xs)
  obtain c' where c': "cur_ready (storage obj) e c' (concat (map cfi_bytes xs))"
      "run_fde obj fde pc ctx =
       bind_res (file_addr_le (ctx_location ctx) pc) (\<lambda>go.
       if go then bind_res (cfi_after (fde_cie fde) x (ctx\<lparr>ctx_cur := c'\<rparr>)) (run_fde obj fde pc)
       else Inr ctx)"
    using run_fde_op [OF Cons.prems(1), of x e ctx "concat (map cfi_bytes xs)" fde pc] Cons.prems by auto
  show ?case
  proof (cases "file_addr_le (ctx_location ctx) pc = Inr True")
    case False
    with c'(2) show ?thesis
      by (cases "file_addr_le (ctx_location ctx) pc") (auto simp: same_rules_def)
  next
    case True
    show ?thesis
    proof (cases "cfi_after (fde_cie fde) x ctx")
      case (Inl err)
      with True c'(2) show ?thesis by (simp add: cfi_after_cursor)
    next
      case (Inr ctx1)
      with Cons.IH [of "ctx1\<lparr>ctx_cur := c'\<rparr>"] Cons.prems True c' show ?thesis
        by (simp add: cfi_after_cursor)
    qed
  qed
qed

section \<open>The cache of common information entries\<close>

text \<open>Every entry of the cache is what parsing at an offset with that key would return.\<close>

definition cie_at :: "elf \<Rightarrow> u64 \<Rightarrow> common_information_entry result" where
  "cie_at obj offset =
     parse_cie (storage obj)
       (cursor_between (Some offset) (span_end (get_section_contents obj ''.eh_frame'')))"

definition cie_map_ok :: "elf \<Rightarrow> cie_map \<Rightarrow> bool" where
  "cie_map_ok obj cies \<longleftrightarrow>
     (\<forall>k cie. cies k = Some cie \<longrightarrow> cie_at obj (ucast k) = Inr cie)"


section \<open>The effect of the rules\<close>

text \<open>The update that a rule asks for, over the words of the register file.\<close>

fun rule_update ::
  "native \<Rightarrow> (u64 \<Rightarrow> nat \<Rightarrow> byte list result) \<Rightarrow> registers \<Rightarrow> u64 \<Rightarrow> reg_rule \<Rightarrow> u64 reg_update result" where
  "rule_update m mem old cfa Undefined_rule = Inr Drop"
| "rule_update m mem old cfa Same_rule = Inr Keep"
| "rule_update m mem old cfa (Offset_rule off) = bind_res (read_word mem (cfa + off)) (\<lambda>w. Inr (Put w))"
| "rule_update m mem old cfa (Val_offset_rule off) = Inr (Put (cfa + off))"
| "rule_update m mem old cfa (Register_rule other) =
     (if unat other < 33 then bind_res (reg_word m old (unat other)) (\<lambda>w. Inr (Put w))
      else send ''not a general register'')"
| "rule_update m mem old cfa (Expr_rule data) = bind_res (dangling_expression data) (\<lambda>w. Inr (Put w))"
| "rule_update m mem old cfa (Val_expr_rule data) = bind_res (dangling_expression data) (\<lambda>w. Inr (Put w))"

definition ruleset_updates ::
  "native \<Rightarrow> (u64 \<Rightarrow> nat \<Rightarrow> byte list result) \<Rightarrow> registers \<Rightarrow> u64 \<Rightarrow> ruleset \<Rightarrow> (nat \<times> u64 reg_update) list result"
where
  "ruleset_updates m mem old cfa =
     map_res (\<lambda>(r, rule). bind_res (rule_update m mem old cfa rule) (\<lambda>u. Inr (unat r, u)))"

lemma register_info_by_dwarf_word:
  "k < 33 \<Longrightarrow> register_info_by_dwarf m (int k) = Inr (g_register_infos m ! k)"
  by (auto simp: register_info_by_dwarf_cases g_register_infos_def nth_append
      simp del: upt_Suc upt_rec_numeral)

lemma small_register:
  assumes "unat (r :: u32) < 33"
  shows "register_info_by_dwarf m (sint r) = Inr (g_register_infos m ! unat r)"
proof -
  have "uint r < 33" by (subst uint_nat) (use assms in linarith)
  moreover have "- (2 ^ 31) \<le> uint r" by (rule order_trans [of _ 0]) simp_all
  ultimately have "signed_take_bit 31 (uint r) = uint r"
    by (intro signed_take_bit_int_eq_self) simp_all
  then have "sint r = int (unat r)" by (simp add: sint_uint)
  with register_info_by_dwarf_word [OF assms, of m] show ?thesis by (simp only:)
qed

lemma reg_word_read: "reg_word m rs k = Inr w \<Longrightarrow> reg_read m rs (g_register_infos m ! k) = Inr (V_u64 w)"
proof -
  assume "reg_word m rs k = Inr w"
  then obtain v where "reg_read m rs (g_register_infos m ! k) = Inr v" "as_u64 v = Inr w"
    by (auto simp: reg_word_def res_simps)
  then show ?thesis by (cases v) auto
qed

lemma apply_rule_update:
  assumes "unat r < 33" "rule_update m mem old cfa rule = Inr u"
  shows "apply_rule m mem (old\<lparr>regs_cfa := a\<rparr>) cfa out (r, rule) =
     register_file.update (reg_put m) (reg_drop m) out (unat r, u)"
proof -
  have same: "reg_read m (old\<lparr>regs_cfa := a\<rparr>) i = reg_read m old i" for i
    by (simp add: reg_read_def is_undefined_def cong: if_cong)
  note info = small_register [OF assms(1), of m]
  show ?thesis
    using assms(2) info same
    by (cases rule)
      (auto simp: apply_rule_def res_simps write_word_def reg_put_def reg_drop_def dangling_expression_def
        small_register rf.update.simps split: if_splits dest!: reg_word_read)
qed

lemma apply_rules_updates:
  "list_all (\<lambda>(r, rule). unat r < 33) rules \<Longrightarrow> ruleset_updates m mem old cfa rules = Inr us \<Longrightarrow>
   apply_rules m mem (old\<lparr>regs_cfa := a\<rparr>) cfa out rules =
     register_file.updates (reg_put m) (reg_drop m) out us"
proof (induction rules arbitrary: us out)
  case Nil
  then show ?case by (simp add: ruleset_updates_def rf.updates.simps)
next
  case (Cons x rules)
  obtain r rule where x: "x = (r, rule)" by (cases x)
  with Cons.prems obtain u us' where u: "rule_update m mem old cfa rule = Inr u"
      "ruleset_updates m mem old cfa rules = Inr us'" "us = (unat r, u) # us'" "unat r < 33"
    by (auto simp: ruleset_updates_def res_simps)
  with Cons x apply_rule_update [OF u(4,1)] show ?case by (auto simp: rf.updates.simps)
qed

lemma ruleset_updates_keys:
  "ruleset_updates m mem old cfa rules = Inr us \<Longrightarrow> map fst us = map (unat \<circ> fst) rules"
  by (induction rules arbitrary: us) (auto simp: ruleset_updates_def res_simps)

lemma map_res_set: "map_res f xs = Inr ys \<Longrightarrow> set ys = {y. \<exists>x \<in> set xs. f x = Inr y}"
  by (induction xs arbitrary: ys) (auto simp: res_simps)

lemma ruleset_updates_set:
  "ruleset_updates m mem old cfa rules = Inr us \<Longrightarrow>
   set us = {x. \<exists>(r, rule) \<in> set rules. bind_res (rule_update m mem old cfa rule) (\<lambda>u. Inr (unat r, u)) = Inr x}"
  unfolding ruleset_updates_def by (drule map_res_set) (simp add: case_prod_unfold)

lemma ruleset_updates_total:
  assumes "ruleset_updates m mem old cfa rules = Inr us" "set rules' \<subseteq> set rules"
  shows "\<exists>us'. ruleset_updates m mem old cfa rules' = Inr us'"
proof -
  have "\<exists>u. rule_update m mem old cfa rule = Inr u" if "(r, rule) \<in> set rules" for r rule
    using assms(1) that by (induction rules arbitrary: us) (auto simp: ruleset_updates_def res_simps)
  with assms(2) show ?thesis
    by (induction rules') (fastforce simp: ruleset_updates_def res_simps)+
qed

text \<open>What a register holds after the unwinding, given the updates.\<close>

definition unwound_word ::
  "native \<Rightarrow> registers \<Rightarrow> u64 \<Rightarrow> (nat \<times> u64 reg_update) list \<Rightarrow> nat \<Rightarrow> u64 result" where
  "unwound_word m old cfa us k =
     (case map_of us k of
        Some (Put v) \<Rightarrow> Inr v
      | Some Drop \<Rightarrow> Inl (Sdb_Error ''Register is undefined'')
      | _ \<Rightarrow> if k = 31 then Inr cfa else reg_word m old k)"

lemma write_sp:
  assumes "regs_ok m rs" "reg_live m rs 31"
  shows "\<exists>out ops. write_by_id m rs SP (V_u64 w) False = Inr (out, ops) \<and> regs_ok m out \<and>
     regs_undefined out = regs_undefined rs \<and>
     (\<forall>k < 33. reg_word m out k = (if k = 31 then Inr w else reg_word m rs k))"
proof -
  have sp: "reg_id (g_register_infos m ! 31) = SP"
    by (simp add: g_register_infos_def nth_append del: upt_Suc upt_rec_numeral)
  obtain out where out: "reg_put m rs 31 w = Inr out" using rf.put_total [of m rs 31 w] assms(1) by auto
  then obtain ops where "reg_write m rs (g_register_infos m ! 31) (V_u64 w) False = Inr (out, ops)"
    using reg_put_write [of 31 m rs w out] by auto
  then have "write_by_id m rs SP (V_u64 w) False = Inr (out, ops)"
    using register_info_by_id_info [OF word_info(1) [of 31 m]] by (simp add: write_by_id_def sp)
  moreover have "reg_word m out k = (if k = 31 then Inr w else reg_word m rs k)" if "k < 33" for k
    using reg_put_same [OF assms(1) _ assms(2) out] reg_put_other [OF assms(1) _ that _ out] by auto
  ultimately show ?thesis using reg_put_keeps [OF assms(1) _ out] by auto
qed

lemma unwound_word_value_after:
  assumes "\<forall>k < 33. reg_word m out k = (if k = 31 then Inr cfa else reg_word m old k)" "k < 33"
  shows "rf.value_after m out k (map_of us k) = unwound_word m old cfa us k"
  using assms by (auto simp: rf.value_after_def unwound_word_def split: option.split reg_update.split)

lemma execute_unwind_rules_effect:
  assumes "regs_ok m old" "regs_undefined old = []"
    "cfa_value m old (ctx_cfa_rule ctx) = Inr cfa"
    "distinct (map fst (register_rules ctx))" "list_all (\<lambda>(r, rule). unat r < 33) (register_rules ctx)"
    "ruleset_updates m mem old cfa (register_rules ctx) = Inr us"
    "set (order (register_rules ctx)) = set (register_rules ctx)"
    "distinct (map fst (order (register_rules ctx)))"
  shows "\<exists>out. execute_unwind_rules order m mem ctx old = Inr (out, old\<lparr>regs_cfa := cfa\<rparr>) \<and>
     (\<forall>k < 33. reg_word m out k = unwound_word m old cfa us k)"
proof -
  let ?rules = "order (register_rules ctx)"
  have keys: "list_all (\<lambda>(r, rule). unat r < 33) ?rules" using assms(5,7) by (simp add: list_all_iff)
  obtain us' where us': "ruleset_updates m mem old cfa ?rules = Inr us'"
    using ruleset_updates_total [OF assms(6)] assms(7) by blast
  have inj: "inj (unat :: u32 \<Rightarrow> nat)" by (rule injI) (simp add: word_unat_eq_iff)
  have d: "distinct (map fst us')" "distinct (map fst us)"
    using assms(4,8) ruleset_updates_keys [OF us'] ruleset_updates_keys [OF assms(6)]
    by (simp_all add: distinct_map inj_on_subset [OF inj] comp_inj_on flip: map_map)
  have "map_of us' = map_of us"
    using d ruleset_updates_set [OF us'] ruleset_updates_set [OF assms(6)] assms(7)
    by (simp add: map_of_inject_set)
  have "fst ` set us' \<subseteq> {k. k < 33}"
    using keys ruleset_updates_set [OF us'] by (auto simp: list_all_iff res_simps)
  obtain out ops where out: "write_by_id m old SP (V_u64 cfa) False = Inr (out, ops)" "regs_ok m out"
      "regs_undefined out = []" "\<forall>k < 33. reg_word m out k = (if k = 31 then Inr cfa else reg_word m old k)"
    using write_sp [OF assms(1), of cfa] assms(2) by (auto simp: reg_live_def)
  obtain out' where "register_file.updates (reg_put m) (reg_drop m) out us' = Inr out'"
      "\<forall>k < 33. reg_word m out' k = rf.value_after m out k (map_of us' k)"
    using rf.updates_effect [OF out(2) d(1) \<open>fst ` set us' \<subseteq> {k. k < 33}\<close>] out(3)
    by (auto simp: reg_live_def)
  with apply_rules_updates [OF keys us', of cfa out] out(1) assms(3) \<open>map_of us' = map_of us\<close>
    unwound_word_value_after [OF out(4)]
  show ?thesis by (auto simp: execute_unwind_rules_def)
qed

section \<open>Rules are never replaced\<close>

definition keeps_rule :: "u32 \<Rightarrow> reg_rule \<Rightarrow> unwind_context result \<Rightarrow> bool" where
  "keeps_rule r rule res \<longleftrightarrow> (\<forall>ctx. res = Inr ctx \<longrightarrow> map_of (register_rules ctx) r = Some rule)"

lemma keeps_simps [simp]:
  "keeps_rule r rule (Inr ctx) \<longleftrightarrow> map_of (register_rules ctx) r = Some rule"
  "keeps_rule r rule (Inl e)" "keeps_rule r rule (send w)" "keeps_rule r rule (undefined_behaviour w)"
  by (simp_all add: keeps_rule_def send_def undefined_behaviour_def)

lemma keeps_emplace [simp]:
  "map_of (register_rules ctx) r = Some rule \<Longrightarrow>
   map_of (register_rules (emplace_rule k rl ctx)) r = Some rule"
  by (auto simp: emplace_rule_def map_add_def)

lemma keeps_rule_bind: "(\<And>x. keeps_rule r rule (f x)) \<Longrightarrow> keeps_rule r rule (bind_res m f)"
  by (auto simp: keeps_rule_def res_simps)

lemma keeps_read:
  assumes "\<And>w c. keeps_rule r rule (f w (ctx\<lparr>ctx_cur := c\<rparr>))"
  shows "keeps_rule r rule (ctx_read rd ctx f)"
  unfolding ctx_read_def using assms by (auto intro!: keeps_rule_bind)

lemma keeps_helpers:
  assumes "map_of (register_rules ctx) r = Some rule"
  shows "keeps_rule r rule (restore_rule k ctx)" "keeps_rule r rule (with_cfa_register f ctx)"
  using assms by (auto simp: restore_rule_def with_cfa_register_def intro!: keeps_rule_bind split: cfa_rule.split)

lemma groups_keep:
  assumes "map_of (register_rules ctx) r = Some rule"
  shows "keeps_rule r rule (cfi_primary obj fde opcode ctx)"
    "cfi_location obj fde t opcode ctx = Some res \<Longrightarrow> keeps_rule r rule res"
    "cfi_cfa img cie opcode ctx = Some res \<Longrightarrow> keeps_rule r rule res"
    "cfi_register img cie opcode ctx = Some res \<Longrightarrow> keeps_rule r rule res"
    "cfi_state opcode ctx = Some res \<Longrightarrow> opcode \<noteq> DW_CFA_restore_state \<Longrightarrow> keeps_rule r rule res"
  unfolding cfi_primary_def cfi_location_def cfi_cfa_def cfi_register_def cfi_state_def
    emplace_expr_def emplace_offset_def Let_def
  using assms
  by (auto intro!: keeps_read keeps_rule_bind keeps_helpers simp: advance_location_def split: if_splits)

lemma opcode_low: "(x :: byte) AND 0xc0 = 0 \<Longrightarrow> x AND 0x3f = x"
proof -
  assume a: "x AND 0xc0 = 0"
  have m: "(0xc0 OR 0x3f :: byte) = - 1" by simp
  from bit.conj_disj_distrib [of x "0xc0" "0x3f"] have "x = (x AND 0xc0) OR (x AND 0x3f)"
    unfolding m by simp
  with a show ?thesis by simp
qed

lemma cfi_dispatch_keeps:
  assumes "map_of (register_rules ctx) r = Some rule" "opcode \<noteq> DW_CFA_restore_state"
  shows "keeps_rule r rule (cfi_dispatch obj fde t opcode ctx)"
proof -
  note keep = groups_keep [OF assms(1)]
  have groups: "keeps_rule r rule res"
    if "first_of [cfi_location obj fde t opcode ctx, cfi_cfa (storage obj) (fde_cie fde) opcode ctx,
       cfi_register (storage obj) (fde_cie fde) opcode ctx, cfi_state opcode ctx] (Inr ctx) = res" for res
    by (rule first_of_cases [OF that])
      (use assms in \<open>auto dest: keep(2-4) [OF sym] keep(5) [OF sym]\<close>)
  with keep(1) assms(1) opcode_low [of opcode] show ?thesis by (simp add: cfi_dispatch_def Let_def)
qed

section \<open>Properties\<close>


lemma same_rulesD:
  "same_rules a b \<Longrightarrow> ctx_cfa_rule b = ctx_cfa_rule a \<and> register_rules b = register_rules a"
  by (cases a; cases b) (simp add: same_rules_def)

definition demo_cie :: common_information_entry where
  "demo_cie = \<lparr>cie_length = 24, code_alignment_factor = 4, data_alignment_factor = - 8,
     fde_has_augmentation = True, fde_pointer_encoding = 0x10, cie_instructions = null_span\<rparr>"

definition demo_fde :: frame_description_entry where
  "demo_fde = \<lparr>fde_length = 32, fde_cie = demo_cie, initial_location = elf_file_addr demo_elf 0x100003000,
     address_range = 0x40, fde_instructions = \<lparr>sp_data = Some 0, sp_size = 13\<rparr>\<rparr>"

definition demo_cfi :: "cfi_op list" where
  "demo_cfi = [Def_cfa 31 0, Advance_loc 1, Def_cfa_offset 32, Offset 30 1, Offset 29 2, Advance_loc 8,
     Set_undefined 19]"

definition demo_cfi_elf :: elf where
  "demo_cfi_elf = demo_elf\<lparr>storage := concat (map cfi_bytes demo_cfi),
     section_map := [''.text'' \<mapsto> text_section]\<rparr>"

definition demo_ctx :: unwind_context where
  "demo_ctx = initial_context\<lparr>ctx_cur := cursor_of (fde_instructions demo_fde),
     ctx_location := initial_location demo_fde\<rparr>"

lemma demo_cfi_bytes:
  "concat (map cfi_bytes demo_cfi) = [0x0c, 31, 0, 0x41, 0x0e, 32, 0x9e, 1, 0x9d, 2, 0x48, 7, 19]"
  by (simp add: demo_cfi_def uleb_encode.simps)

lemma demo_cfi_hyps:
  "get_section_start_address demo_cfi_elf ''.text'' = Some (elf_file_addr demo_cfi_elf 0x100003000)"
  "list_all cfi_op_ok demo_cfi"
  by (simp_all add: demo_cfi_elf_def get_section_start_address_def get_section_def text_section_def
      demo_cfi_def elf_file_addr_def)

lemma demo_cfi_ready:
  "cur_ready (storage demo_cfi_elf) (Some 13) (ctx_cur demo_ctx) (concat (map cfi_bytes demo_cfi))"
  by (simp add: demo_cfi_elf_def demo_cfi_bytes demo_ctx_def demo_fde_def cur_ready_def cur_wf_def
      cur_rest_def cursor_of_def span_end_def)



definition demo_memory :: "u64 \<Rightarrow> nat \<Rightarrow> byte list result" where
  "demo_memory a n = (if a < 0x8000 then Inr (nat_le n (unat a + 1)) else send ''Could not read memory'')"

definition demo_rules :: unwind_context where
  "demo_rules = initial_context\<lparr>ctx_cfa_rule := Cfa_register 31 0x20,
     register_rules := [(30, Offset_rule (- 8)), (19, Undefined_rule)]\<rparr>"

definition demo_sp_regs :: registers where
  "demo_sp_regs = \<lparr>regs_data = replicate 248 0 @ word_bytes (0x7000 :: u64) @ replicate 1064 0,
     regs_undefined = [], regs_cfa = 0\<rparr>"

lemma demo_sp_regs_ok: "regs_ok darwin_arm64 demo_sp_regs"
  by (simp add: regs_ok_def demo_sp_regs_def darwin_arm64_def layout_ok_def)

lemma demo_sp_word: "reg_word darwin_arm64 demo_sp_regs 31 = Inr 0x7000"
proof -
  have "bytes_at 248 8 (regs_data demo_sp_regs) = word_bytes (0x7000 :: u64)"
    by (simp add: bytes_at_def demo_sp_regs_def)
  then show ?thesis
    using is_undefined_info [OF word_info(1), of 31 darwin_arm64] word_info [of 31 darwin_arm64]
      le_word_word_bytes [where 'a = 64 and k = 8, of "0x7000"]
    by (simp add: reg_word_def reg_read_def demo_sp_regs_def darwin_arm64_def)
qed


text \<open>
  The first rule of a register stays.  \<open>unordered_map::emplace\<close> does not replace a rule, so no
  instruction but \<open>DW_CFA_restore_state\<close> changes the rule of a register once it has one: a second
  \<open>DW_CFA_offset\<close>, a \<open>DW_CFA_same_value\<close> or a \<open>DW_CFA_restore\<close> of that register has no effect.
\<close>

theorem register_rule_first_wins:
  assumes "cfi_dispatch obj fde t opcode ctx = Inr ctx'" "opcode \<noteq> DW_CFA_restore_state"
    "map_of (register_rules ctx) r = Some rule"
  shows "map_of (register_rules ctx') r = Some rule"
  using cfi_dispatch_keeps [OF assms(3,2), of obj fde t] assms(1) by (simp add: keeps_rule_def)

theorem register_rule_first_wins_witness:
  "\<exists>ctx'. cfi_dispatch demo_cfi_elf demo_fde 0x100003000 0xd3
       (demo_rules\<lparr>cie_register_rules := [(19, Same_rule)]\<rparr>) = Inr ctx' \<and>
     map_of (register_rules ctx') 19 = Some Undefined_rule"
proof -
  have "cfi_dispatch demo_cfi_elf demo_fde 0x100003000 0xd3
       (demo_rules\<lparr>cie_register_rules := [(19, Same_rule)]\<rparr>) =
      Inr (demo_rules\<lparr>cie_register_rules := [(19, Same_rule)]\<rparr>)"
    by (simp add: cfi_dispatch_def cfi_primary_def restore_rule_def emplace_rule_def demo_rules_def)
  from this register_rule_first_wins [OF this, of 19 Undefined_rule] show ?thesis
    by (simp add: demo_rules_def)
qed

text \<open>
  The cache of common information entries is transparent.  For offsets below \<open>2 ^ 32\<close>, the range of
  its keys, \<open>get_cie\<close> returns what parsing the entry at the offset returns, and fails when parsing
  fails; it keeps the cache consistent, so every later lookup does too.
\<close>

theorem get_cie_transparent:
  assumes "cie_map_ok obj cies" "unat offset < 2 ^ 32"
  shows "case cie_at obj offset of
      Inl e \<Rightarrow> get_cie obj cies offset = Inl e
    | Inr cie \<Rightarrow> \<exists>cies'. get_cie obj cies offset = Inr (cie, cies') \<and> cie_map_ok obj cies'"
proof -
  have key: "ucast (ucast offset :: u32) = offset"
    using assms(2) by (simp add: word_unat_eq_iff unsigned_ucast_eq unsigned_take_bit_eq take_bit_nat_eq_self)
  show ?thesis
  proof (cases "cies (ucast offset)")
    case (Some cie)
    with assms(1) key have "cie_at obj offset = Inr cie" unfolding cie_map_ok_def by metis
    with Some assms(1) show ?thesis by (simp add: get_cie_def)
  next
    case None
    show ?thesis
    proof (cases "cie_at obj offset")
      case (Inr cie)
      with None assms(1) key show ?thesis by (auto simp: get_cie_def cie_at_def cie_map_ok_def)
    qed (use None in \<open>simp add: get_cie_def cie_at_def\<close>)
  qed
qed

definition demo_eh_elf :: elf where
  "demo_eh_elf = demo_elf\<lparr>
     storage := [13, 0, 0, 0, 0, 0, 0, 0, 1, 122, 82, 0, 4, 0x78, 30, 1, 0x10],
     section_map := [''.eh_frame'' \<mapsto> demo_section 0 17]\<rparr>"

lemma demo_chars: "char_of (82 :: nat) = CHR ''R''" "char_of (122 :: nat) = CHR ''z''"
  by (simp_all add: char_of_def bit_iff_odd)

lemma demo_mask: "120 OR NOT (mask 7) = (- 8 :: u64)"
  by (simp add: mask_eq_exp_minus_1)

lemma demo_cie_parsed:
  "cie_at demo_eh_elf 0 = Inr \<lparr>cie_length = 17, code_alignment_factor = 4, data_alignment_factor = - 8,
     fde_has_augmentation = True, fde_pointer_encoding = 0x10,
     cie_instructions = \<lparr>sp_data = Some 17, sp_size = 0\<rparr>\<rparr>"
  by (simp add: cie_at_def parse_cie_def demo_eh_elf_def demo_section_def get_section_contents_def
      get_section_def cursor_between_def span_of_ptrs_def span_end_def cur_u32_def cur_u8_def
      fixed_int_def fixed_bytes_def cur_left_def read_bytes_def from_bytes_def cur_string_def
      find_zero.simps chars_of_def cur_uleb128_def cur_sleb128_def leb128_loop.simps cie_address_sizes_def
      span_between_def demo_chars demo_mask)

theorem get_cie_transparent_witness:
  "\<exists>cie cies'. get_cie demo_eh_elf Map.empty 0 = Inr (cie, cies') \<and> code_alignment_factor cie = 4 \<and>
     cie_map_ok demo_eh_elf cies'"
  using get_cie_transparent [of demo_eh_elf Map.empty 0] demo_cie_parsed
  by (auto simp: cie_map_ok_def)

end
