(* ===== verification/Unwind.thy ===== *)
theory Unwind
  imports Cfi
begin

text \<open>
  Stack unwinding: Apple's compact unwind tables (\<^verbatim>\<open>src/src/unwind.cpp\<close>) and
  \<open>call_frame_information::unwind\<close> (\<^verbatim>\<open>src/src/dwarf.cpp\<close>), which tries the compact tables, then the
  frame description entries of \<^verbatim>\<open>.eh_frame\<close>, then the chain of frame pointers.

  The structures and constants of the compact tables come from the system header
  \<^verbatim>\<open>mach-o/compact_unwind_encoding.h\<close>; they are a record of decoding functions, sizes and constants.
  Offsets into the section are computed at the width the code computes them.
\<close>

section \<open>Compact unwind tables\<close>

record unwind_header =
  uh_version :: u32
  uh_common_offset :: u32
  uh_common_count :: u32
  uh_index_offset :: u32
  uh_index_count :: u32

record unwind_index =
  ui_function_offset :: u32
  ui_pages_offset :: u32

record unwind_page =
  up_entry_offset :: u16
  up_entry_count :: u16
  up_encodings_offset :: u16
  up_encodings_count :: u16

record unwind_entry =
  ue_function_offset :: u32
  ue_encoding :: u32

record compact_abi =
  header_size :: nat
  decode_header :: "byte list \<Rightarrow> unwind_header"
  index_size :: nat
  decode_index :: "byte list \<Rightarrow> unwind_index"
  regular_header_size :: nat
  decode_regular :: "byte list \<Rightarrow> unwind_page"
  regular_entry_size :: nat
  decode_regular_entry :: "byte list \<Rightarrow> unwind_entry"
  compressed_header_size :: nat
  decode_compressed :: "byte list \<Rightarrow> unwind_page"
  second_level_regular :: u32
  second_level_compressed :: u32
  mode_mask :: u32
  mode_dwarf :: u32
  mode_frameless :: u32
  mode_frame :: u32
  stack_size_mask :: u32

text \<open>\<open>read<T>(bytes, offset)\<close>: the bytes of a structure of the given size, checked against the section.\<close>

definition compact_read :: "byte list \<Rightarrow> span \<Rightarrow> nat \<Rightarrow> u64 \<Rightarrow> byte list result" where
  "compact_read img bytes n offset =
     (if offset > sp_size bytes \<or> word_of_nat n > sp_size bytes - offset
      then send ''Truncated compact unwind info''
      else case sp_data bytes of
             None \<Rightarrow> undefined_behaviour ''read through a null pointer''
           | Some d \<Rightarrow> read_bytes img (d + offset) n)"

definition compact_word :: "byte list \<Rightarrow> span \<Rightarrow> u64 \<Rightarrow> u32 result" where
  "compact_word img bytes offset =
     bind_res (compact_read img bytes 4 offset) (\<lambda>bs. Inr (from_bytes bs))"

text \<open>What the search has found: the encoding and the start of the function.\<close>

type_synonym compact_hit = "(u32 \<times> u64) option"

text \<open>The loop over the entries of a regular page; \<open>left\<close> entries remain, \<open>j\<close> is the next.\<close>

fun regular_search ::
  "compact_abi \<Rightarrow> byte list \<Rightarrow> span \<Rightarrow> u64 \<Rightarrow> u32 \<Rightarrow> nat \<Rightarrow> nat \<Rightarrow> compact_hit \<Rightarrow> compact_hit result" where
  "regular_search abi img bytes relative entries 0 j hit = Inr hit"
| "regular_search abi img bytes relative entries (Suc left) j hit =
     bind_res (compact_read img bytes (regular_entry_size abi)
         (ucast entries + word_of_nat j * word_of_nat (regular_entry_size abi))) (\<lambda>bs.
     let e = decode_regular_entry abi bs in
     if relative < ucast (ue_function_offset e) then Inr hit
     else regular_search abi img bytes relative entries left (Suc j)
            (Some (ue_encoding e, ucast (ue_function_offset e))))"

definition compressed_encoding ::
  "byte list \<Rightarrow> span \<Rightarrow> unwind_header \<Rightarrow> unwind_page \<Rightarrow> u32 \<Rightarrow> u32 \<Rightarrow> u32 result" where
  "compressed_encoding img bytes hdr p page key =
     (if key < uh_common_count hdr
      then compact_word img bytes (ucast (uh_common_offset hdr + key * 4))
      else
        let key' = key - uh_common_count hdr in
        if key' \<ge> ucast (up_encodings_count p) then send ''Invalid compact unwind encoding index''
        else compact_word img bytes (ucast (page + ucast (up_encodings_offset p) + key' * 4)))"

fun compressed_search ::
  "byte list \<Rightarrow> span \<Rightarrow> unwind_header \<Rightarrow> unwind_index \<Rightarrow> unwind_page \<Rightarrow> u32 \<Rightarrow> u64 \<Rightarrow> nat \<Rightarrow> nat \<Rightarrow>
   compact_hit \<Rightarrow> compact_hit result" where
  "compressed_search img bytes hdr idx p page relative 0 j hit = Inr hit"
| "compressed_search img bytes hdr idx p page relative (Suc left) j hit =
     bind_res (compact_word img bytes (ucast (page + ucast (up_entry_offset p) + word_of_nat j * 4))) (\<lambda>e.
     let address = ui_function_offset idx + (e AND 0xffffff) in
     if relative < ucast address then Inr hit
     else bind_res (compressed_encoding img bytes hdr p page (drop_bit 24 e)) (\<lambda>encoding.
          compressed_search img bytes hdr idx p page relative left (Suc j) (Some (encoding, ucast address))))"

definition page_search ::
  "compact_abi \<Rightarrow> byte list \<Rightarrow> span \<Rightarrow> unwind_header \<Rightarrow> unwind_index \<Rightarrow> u64 \<Rightarrow> compact_hit result" where
  "page_search abi img bytes hdr idx relative =
     (let page = ui_pages_offset idx in
      if page = 0 then Inr None
      else bind_res (compact_word img bytes (ucast page)) (\<lambda>kind.
        if kind = second_level_regular abi then
          bind_res (compact_read img bytes (regular_header_size abi) (ucast page)) (\<lambda>bs.
          let p = decode_regular abi bs in
          regular_search abi img bytes relative (page + ucast (up_entry_offset p))
            (unat (up_entry_count p)) 0 None)
        else if kind = second_level_compressed abi then
          bind_res (compact_read img bytes (compressed_header_size abi) (ucast page)) (\<lambda>bs.
          let p = decode_compressed abi bs in
          compressed_search img bytes hdr idx p page relative (unat (up_entry_count p)) 0 None)
        else send ''Invalid compact unwind page kind''))"

text \<open>The loop over the first level; it leaves at the first index entry that covers the address.\<close>

fun index_search ::
  "compact_abi \<Rightarrow> byte list \<Rightarrow> span \<Rightarrow> unwind_header \<Rightarrow> u64 \<Rightarrow> nat \<Rightarrow> nat \<Rightarrow> compact_hit result" where
  "index_search abi img bytes hdr relative 0 i = Inr None"
| "index_search abi img bytes hdr relative (Suc left) i =
     (let at = (\<lambda>k. ucast (uh_index_offset hdr) + word_of_nat k * word_of_nat (index_size abi)) in
      bind_res (compact_read img bytes (index_size abi) (at i)) (\<lambda>bs.
      bind_res (compact_read img bytes (index_size abi) (at (Suc i))) (\<lambda>bs'.
      let idx = decode_index abi bs; nxt = decode_index abi bs' in
      if relative < ucast (ui_function_offset idx) \<or> relative \<ge> ucast (ui_function_offset nxt)
      then index_search abi img bytes hdr relative left (Suc i)
      else page_search abi img bytes hdr idx relative)))"

definition compact_lookup :: "compact_abi \<Rightarrow> elf \<Rightarrow> span \<Rightarrow> u64 \<Rightarrow> compact_hit result" where
  "compact_lookup abi obj bytes relative =
     bind_res (compact_read (storage obj) bytes (header_size abi) 0) (\<lambda>bs.
     let hdr = decode_header abi bs in
     if uh_version hdr \<noteq> 1 then send ''Unsupported compact unwind version''
     else index_search abi (storage obj) bytes hdr relative (unat (uh_index_count hdr) - 1) 0)"

section \<open>Restoring registers\<close>

definition write_named :: "native \<Rightarrow> string \<Rightarrow> reg_value \<Rightarrow> registers \<Rightarrow> registers result" where
  "write_named m name v rs =
     bind_res (register_info_by_name m name) (\<lambda>info.
     bind_res (reg_write m rs info v False) (\<lambda>(rs', _). Inr rs'))"

definition put_by_id :: "native \<Rightarrow> register_id \<Rightarrow> u64 \<Rightarrow> registers \<Rightarrow> registers result" where
  "put_by_id m r w rs = bind_res (write_by_id m rs r (V_u64 w) False) (\<lambda>(rs', _). Inr rs')"

definition restore_word ::
  "native \<Rightarrow> (u64 \<Rightarrow> nat \<Rightarrow> byte list result) \<Rightarrow> nat \<Rightarrow> u64 \<Rightarrow> registers \<Rightarrow> registers result" where
  "restore_word m mem k a rs =
     bind_res (read_word mem a) (\<lambda>w. write_named m (''x'' @ decimal k) (V_u64 w) rs)"

definition restore_vector ::
  "native \<Rightarrow> (u64 \<Rightarrow> nat \<Rightarrow> byte list result) \<Rightarrow> nat \<Rightarrow> u64 \<Rightarrow> registers \<Rightarrow> registers result" where
  "restore_vector m mem k a rs =
     bind_res (mem a 8) (\<lambda>raw. write_named m (''v'' @ decimal k) (V_byte128 (raw @ replicate 8 0)) rs)"

text \<open>
  The pairs of saved registers below the frame pointer; a pair is saved when its bit of the
  encoding is set.  \<open>restore\<close> reads one register at an address.
\<close>

fun restore_pairs ::
  "(nat \<Rightarrow> u64 \<Rightarrow> registers \<Rightarrow> registers result) \<Rightarrow> u32 \<Rightarrow> nat \<Rightarrow> nat \<Rightarrow> nat list \<Rightarrow>
   u64 \<times> registers \<Rightarrow> (u64 \<times> registers) result" where
  "restore_pairs restore encoding first_bit first_reg [] st = Inr st"
| "restore_pairs restore encoding first_bit first_reg (pair # pairs) (saved, rs) =
     (if bit encoding (pair + first_bit) then
        let saved' = saved - 16 in
        bind_res (restore (first_reg + pair * 2) saved' rs) (\<lambda>rs1.
        bind_res (restore (first_reg + pair * 2 + 1) (saved' + 8) rs1) (\<lambda>rs2.
        restore_pairs restore encoding first_bit first_reg pairs (saved', rs2)))
      else restore_pairs restore encoding first_bit first_reg pairs (saved, rs))"

text \<open>The frame mode: the new registers, the CFA and the return address.\<close>

definition restore_frame ::
  "native \<Rightarrow> (u64 \<Rightarrow> nat \<Rightarrow> byte list result) \<Rightarrow> u32 \<Rightarrow> u64 \<Rightarrow> registers \<Rightarrow> (registers \<times> u64 \<times> u64) result" where
  "restore_frame m mem encoding fp out =
     (if fp = 0 \<or> fp mod 16 \<noteq> 0 then send ''Invalid frame pointer''
      else
        bind_res (read_word mem (fp + 8)) (\<lambda>ret.
        bind_res (read_word mem fp) (\<lambda>next_fp.
        bind_res (put_by_id m FP next_fp out) (\<lambda>out1.
        bind_res (restore_pairs (restore_word m mem) encoding 0 19 [0..<5] (fp, out1)) (\<lambda>st.
        bind_res (restore_pairs (restore_vector m mem) encoding 8 8 [0..<4] st) (\<lambda>(_, out2).
        Inr (out2, fp + 16, ret)))))))"

definition return_mask :: u64 where
  "return_mask = 0x0000ffffffffffff"

definition apply_compact ::
  "compact_abi \<Rightarrow> native \<Rightarrow> (u64 \<Rightarrow> nat \<Rightarrow> byte list result) \<Rightarrow> u32 \<Rightarrow> bool \<Rightarrow> registers \<Rightarrow>
   (registers \<times> registers) option result" where
  "apply_compact abi m mem encoding at_start regs =
     (let mode = encoding AND mode_mask abi in
      if mode = mode_dwarf abi then Inr None
      else
        bind_res (read_by_id_as_u64 m regs SP) (\<lambda>sp.
        bind_res (read_by_id_as_u64 m regs FP) (\<lambda>fp.
        bind_res (read_by_id_as_u64 m regs LR) (\<lambda>lr.
        bind_res
          (if at_start then Inr (Some (regs, sp, lr))
           else if mode = mode_frameless abi then
             Inr (Some (regs, sp + ucast (drop_bit 12 (encoding AND stack_size_mask abi) * 16), lr))
           else if mode = mode_frame abi then
             bind_res (restore_frame m mem encoding fp regs) (\<lambda>r. Inr (Some r))
           else Inr None) (\<lambda>found.
        case found of
          None \<Rightarrow> Inr None
        | Some (out, cfa, ret) \<Rightarrow>
            bind_res (put_by_id m SP cfa out) (\<lambda>out1.
            bind_res (put_by_id m PC (ret AND return_mask) out1) (\<lambda>out2.
            Inr (Some (out2, regs\<lparr>regs_cfa := cfa\<rparr>)))))))))"

definition unwind_compact ::
  "compact_abi \<Rightarrow> native \<Rightarrow> (u64 \<Rightarrow> nat \<Rightarrow> byte list result) \<Rightarrow> elf \<Rightarrow> file_addr \<Rightarrow> registers \<Rightarrow>
   (registers \<times> registers) option result" where
  "unwind_compact abi m mem obj pc regs =
     (if fa_elf pc \<noteq> Some (elf_id obj) then undefined_behaviour ''address of another file''
      else
        let bytes = get_section_contents obj ''.unwind_info'' in
        if sp_size bytes = 0 then Inr None
        else
          let relative = fa_addr pc - preferred_base obj in
          bind_res (compact_lookup abi obj bytes relative) (\<lambda>hit.
          case hit of
            None \<Rightarrow> Inr None
          | Some (encoding, start) \<Rightarrow> apply_compact abi m mem encoding (relative = start) regs))"

section \<open>Unwinding a frame\<close>

text \<open>The scan of \<open>.eh_frame\<close>; the position advances by a 32-bit sum.\<close>

fun find_fde ::
  "nat \<Rightarrow> elf \<Rightarrow> cie_map \<Rightarrow> file_addr \<Rightarrow> u64 \<Rightarrow> u64 \<Rightarrow> (u64 option \<times> cie_map) result" where
  "find_fde 0 obj cies pc e p = Inl Out_Of_Fuel"
| "find_fde (Suc n) obj cies pc e p =
     (if sint (e - p) < 8 then Inr (None, cies)
      else
        bind_res (read_bytes (storage obj) p 4) (\<lambda>bs.
        let len = from_bytes bs :: u32 in
        if len = 0 then Inr (None, cies)
        else if len = 0xffffffff \<or> len < 4 \<or> uint len > sint (e - p) - 4
          then send ''Invalid CFI record length''
        else
          bind_res (read_bytes (storage obj) (p + 4) 4) (\<lambda>ident.
          bind_res
            (if from_bytes ident \<noteq> (0 :: u32) then
               bind_res (parse_fde obj cies (cursor_between (Some p) (Some (p + ucast len + 4)))) (\<lambda>(fde, cies').
               bind_res (file_addr_le (initial_location fde) pc) (\<lambda>lo.
               bind_res (if lo then file_addr_less pc (file_addr_add (initial_location fde) (address_range fde))
                         else Inr False) (\<lambda>hit. Inr (hit, cies'))))
             else Inr (False, cies)) (\<lambda>(hit, cies').
          if hit then Inr (Some p, cies') else find_fde n obj cies' pc e (p + ucast (len + 4))))))"

text \<open>The chain of frame pointers: the new registers and the old ones with their CFA.\<close>

definition unwind_frame_pointer ::
  "native \<Rightarrow> (u64 \<Rightarrow> nat \<Rightarrow> byte list result) \<Rightarrow> registers \<Rightarrow> (registers \<times> registers) result" where
  "unwind_frame_pointer m mem regs =
     bind_res (read_by_id_as_u64 m regs FP) (\<lambda>fp.
     if fp = 0 \<or> fp mod 16 \<noteq> 0 then bind_res (put_by_id m PC 0 regs) (\<lambda>out. Inr (out, regs))
     else
       bind_res (read_word mem fp) (\<lambda>next_fp.
       bind_res (read_word mem (fp + 8)) (\<lambda>ret.
       bind_res (put_by_id m SP (fp + 16) regs) (\<lambda>out1.
       bind_res (put_by_id m FP next_fp out1) (\<lambda>out2.
       bind_res (put_by_id m PC (ret AND return_mask) out2) (\<lambda>out3.
       Inr (out3, regs\<lparr>regs_cfa := fp + 16\<rparr>)))))))"

definition unwind_fde ::
  "(ruleset \<Rightarrow> ruleset) \<Rightarrow> native \<Rightarrow> (u64 \<Rightarrow> nat \<Rightarrow> byte list result) \<Rightarrow> elf \<Rightarrow> cie_map \<Rightarrow> file_addr \<Rightarrow> u64 \<Rightarrow>
   registers \<Rightarrow> (registers \<times> registers \<times> cie_map) result" where
  "unwind_fde order m mem obj cies pc fde_start regs =
     bind_res (parse_fde obj cies
         (cursor_between (Some fde_start) (span_end (get_section_contents obj ''.eh_frame'')))) (\<lambda>(fde, cies').
     bind_res (file_addr_less pc (initial_location fde)) (\<lambda>below.
     bind_res (if below then Inr True
               else bind_res (file_addr_less pc (file_addr_add (initial_location fde) (address_range fde)))
                      (\<lambda>inside. Inr (\<not> inside))) (\<lambda>outside.
     if outside then send ''No unwind information at PC''
     else
       bind_res (unwind_rules obj fde pc) (\<lambda>ctx.
       bind_res (execute_unwind_rules order m mem ctx regs) (\<lambda>(out, regs').
       bind_res (read_by_id_as_u64 m out LR) (\<lambda>lr.
       bind_res (put_by_id m PC (lr AND return_mask) out) (\<lambda>out'.
       Inr (out', regs', cies'))))))))"

definition unwind ::
  "nat \<Rightarrow> compact_abi \<Rightarrow> (ruleset \<Rightarrow> ruleset) \<Rightarrow> native \<Rightarrow> (u64 \<Rightarrow> nat \<Rightarrow> byte list result) \<Rightarrow> elf \<Rightarrow> cie_map \<Rightarrow>
   file_addr \<Rightarrow> registers \<Rightarrow> (registers \<times> registers \<times> cie_map) result" where
  "unwind n abi order m mem obj cies pc regs =
     bind_res (unwind_compact abi m mem obj pc regs) (\<lambda>compact.
     case compact of
       Some (out, regs') \<Rightarrow> Inr (out, regs', cies)
     | None \<Rightarrow>
         let section = get_section_contents obj ''.eh_frame'' in
         bind_res
           (case (sp_data section, span_end section) of
              (Some p, Some e) \<Rightarrow> find_fde n obj cies pc e p
            | _ \<Rightarrow> Inr (None, cies)) (\<lambda>(fde_start, cies').
         case fde_start of
           None \<Rightarrow> bind_res (unwind_frame_pointer m mem regs) (\<lambda>(out, regs'). Inr (out, regs', cies'))
         | Some p \<Rightarrow> unwind_fde order m mem obj cies' pc p regs))"


section \<open>Registers by name\<close>

fun dec_value :: "nat \<Rightarrow> string \<Rightarrow> nat" where
  "dec_value a [] = a"
| "dec_value a (c # cs) = dec_value (a * 10 + (of_char c - 48)) cs"

lemma dec_value_append: "dec_value a (xs @ ys) = dec_value (dec_value a xs) ys"
  by (induction xs arbitrary: a) auto

lemma dec_value_decimal: "dec_value 0 (decimal n) = n"
proof (induction n rule: decimal.induct)
  case (1 n)
  then show ?case by (subst decimal.simps) (auto simp: dec_value_append)
qed

lemma decimal_inject: "decimal a = decimal b \<Longrightarrow> a = b"
  by (metis dec_value_decimal)

lemma find_map_index:
  assumes "\<And>i j. f i = f j \<Longrightarrow> i = j" "k < n" "\<And>i. P (g i) = f i"
  shows "find (\<lambda>x. P x = f k) (map g [0..<n]) = Some (g k)"
  using assms(2)
proof (induction n)
  case (Suc n)
  have "find (\<lambda>x. P x = f k) (map g [0..<n]) = None" if "k = n"
    using that assms(3) by (auto simp: find_None_iff dest!: assms(1))
  with Suc assms(3) show ?case
    by (cases "k = n") (auto simp: find_append)
qed simp

lemma register_by_name_x: "k < 29 \<Longrightarrow> register_info_by_name m (''x'' @ decimal k) = Inr (g_register_infos m ! k)"
proof -
  assume k: "k < 29"
  have "find (\<lambda>i. reg_name i = ''x'' @ decimal k) (map (info_x m) [0..<29]) = Some (info_x m k)"
    by (rule find_map_index [OF _ k]) (auto simp: info_x_def dest: decimal_inject)
  moreover have "g_register_infos m ! k = info_x m k"
    using k by (simp add: g_register_infos_def nth_append del: upt_Suc upt_rec_numeral)
  ultimately show ?thesis
    by (simp add: register_info_by_name_def register_info_by_def g_register_infos_def find_append
        del: upt_Suc upt_rec_numeral)
qed

lemma register_by_name_v: "k < 32 \<Longrightarrow> register_info_by_name m (''v'' @ decimal k) = Inr (info_v m k)"
proof -
  assume k: "k < 32"
  have v: "find (\<lambda>i. reg_name i = ''v'' @ decimal k) (map (info_v m) [0..<32]) = Some (info_v m k)"
    by (rule find_map_index [OF _ k]) (auto simp: info_v_def dest: decimal_inject)
  have x: "find (\<lambda>i. reg_name i = ''v'' @ decimal k) (map (info_x m) [0..<29]) = None"
    "find (\<lambda>i. reg_name i = ''v'' @ decimal k) (map (info_w m) [0..<29]) = None"
    by (auto simp: find_None_iff info_x_def info_w_def)
  show ?thesis
    using v x by (simp add: register_info_by_name_def register_info_by_def g_register_infos_def find_append
        del: upt_Suc upt_rec_numeral)
qed

section \<open>The effect of compact frame unwinding\<close>

text \<open>The slots of the saved registers, as register and address.\<close>

fun pair_slots :: "u32 \<Rightarrow> nat \<Rightarrow> nat \<Rightarrow> nat list \<Rightarrow> u64 \<Rightarrow> (nat \<times> u64) list" where
  "pair_slots encoding first_bit first_reg [] saved = []"
| "pair_slots encoding first_bit first_reg (p # ps) saved =
     (if bit encoding (p + first_bit)
      then (first_reg + p * 2, saved - 16) # (first_reg + p * 2 + 1, saved - 8) #
           pair_slots encoding first_bit first_reg ps (saved - 16)
      else pair_slots encoding first_bit first_reg ps saved)"

fun restore_slots ::
  "(nat \<Rightarrow> u64 \<Rightarrow> registers \<Rightarrow> registers result) \<Rightarrow> (nat \<times> u64) list \<Rightarrow> registers \<Rightarrow> registers result" where
  "restore_slots restore [] rs = Inr rs"
| "restore_slots restore ((k, a) # slots) rs = bind_res (restore k a rs) (restore_slots restore slots)"

fun pairs_end :: "u32 \<Rightarrow> nat \<Rightarrow> nat list \<Rightarrow> u64 \<Rightarrow> u64" where
  "pairs_end encoding first_bit [] saved = saved"
| "pairs_end encoding first_bit (p # ps) saved =
     pairs_end encoding first_bit ps (if bit encoding (p + first_bit) then saved - 16 else saved)"

lemma restore_pairs_slots:
  "restore_pairs restore encoding b r ps (saved, rs) =
     bind_res (restore_slots restore (pair_slots encoding b r ps saved) rs) (\<lambda>rs'.
     Inr (pairs_end encoding b ps saved, rs'))"
  by (induction ps arbitrary: saved rs) (simp_all add: bind_res_assoc Let_def)

lemma put_by_id_word:
  "put_by_id m FP = (\<lambda>w rs. reg_put m rs 29 w)" "put_by_id m SP = (\<lambda>w rs. reg_put m rs 31 w)"
  "put_by_id m PC = (\<lambda>w rs. reg_put m rs 32 w)"
proof -
  have ids: "reg_id (g_register_infos m ! 29) = FP" "reg_id (g_register_infos m ! 31) = SP"
      "reg_id (g_register_infos m ! 32) = PC"
    by (simp_all add: g_register_infos_def nth_append del: upt_Suc upt_rec_numeral)
  show "put_by_id m FP = (\<lambda>w rs. reg_put m rs 29 w)" "put_by_id m SP = (\<lambda>w rs. reg_put m rs 31 w)"
    "put_by_id m PC = (\<lambda>w rs. reg_put m rs 32 w)"
    using register_info_by_id_info [OF word_info(1) [of 29 m]] register_info_by_id_info [OF word_info(1) [of 31 m]]
      register_info_by_id_info [OF word_info(1) [of 32 m]]
    by (auto simp: fun_eq_iff put_by_id_def write_by_id_def reg_put_def ids)
qed

lemma read_by_id_word:
  "read_by_id_as_u64 m rs FP = reg_word m rs 29" "read_by_id_as_u64 m rs LR = reg_word m rs 30"
  "read_by_id_as_u64 m rs SP = reg_word m rs 31" "read_by_id_as_u64 m rs PC = reg_word m rs 32"
proof -
  have ids: "reg_id (g_register_infos m ! 29) = FP" "reg_id (g_register_infos m ! 30) = LR"
      "reg_id (g_register_infos m ! 31) = SP" "reg_id (g_register_infos m ! 32) = PC"
    by (simp_all add: g_register_infos_def nth_append del: upt_Suc upt_rec_numeral)
  show "read_by_id_as_u64 m rs FP = reg_word m rs 29" "read_by_id_as_u64 m rs LR = reg_word m rs 30"
    "read_by_id_as_u64 m rs SP = reg_word m rs 31" "read_by_id_as_u64 m rs PC = reg_word m rs 32"
    using register_info_by_id_info [OF word_info(1) [of 29 m]] register_info_by_id_info [OF word_info(1) [of 30 m]]
      register_info_by_id_info [OF word_info(1) [of 31 m]] register_info_by_id_info [OF word_info(1) [of 32 m]]
    by (auto simp: read_by_id_as_u64_def reg_word_def ids)
qed

text \<open>A memory that can be read everywhere, and the words in it.\<close>

definition readable :: "(u64 \<Rightarrow> nat \<Rightarrow> byte list result) \<Rightarrow> (u64 \<Rightarrow> u64) \<Rightarrow> bool" where
  "readable mem word_at \<longleftrightarrow>
     (\<forall>a. \<exists>bs. mem a 8 = Inr bs \<and> length bs = 8 \<and> from_bytes bs = word_at a)"

lemma readable_word: "readable mem word_at \<Longrightarrow> read_word mem a = Inr (word_at a)"
  by (auto simp: readable_def read_word_def) (metis bind_res.simps(2))

lemma restore_words:
  "readable mem word_at \<Longrightarrow> list_all (\<lambda>(k, a). k < 29) slots \<Longrightarrow>
   restore_slots (restore_word m mem) slots rs =
     register_file.updates (reg_put m) (reg_drop m) rs (map (\<lambda>(k, a). (k, Put (word_at a))) slots)"
proof (induction slots arbitrary: rs)
  case (Cons x slots)
  obtain k a where x: "x = (k, a)" by (cases x)
  have "restore_word m mem k a rs = reg_put m rs k (word_at a)"
    using Cons.prems x register_by_name_x [of k m]
    by (simp add: restore_word_def readable_word write_named_def reg_put_def)
  moreover have "restore_slots (restore_word m mem) slots =
      (\<lambda>rs. rf.updates m rs (map (\<lambda>(k, a). (k, Put (word_at a))) slots))"
    using Cons by (simp add: fun_eq_iff)
  ultimately show ?case using x by (simp add: rf.updates.simps rf.update.simps)
qed (simp add: rf.updates.simps)

lemma info_v_in: "k < 32 \<Longrightarrow> info_v m k \<in> set (g_register_infos m)"
  by (auto simp: g_register_infos_def)

text \<open>Restoring a vector register does not touch the words.\<close>

lemma restore_vector_words:
  assumes "readable mem word_at" "k < 32" "regs_ok m rs"
  shows "\<exists>rs'. restore_vector m mem k a rs = Inr rs' \<and> regs_ok m rs' \<and>
     regs_undefined rs' = regs_undefined rs \<and> (\<forall>j < 33. reg_word m rs' j = reg_word m rs j)"
proof -
  obtain raw where raw: "mem a 8 = Inr raw" "length raw = 8" using assms(1) by (auto simp: readable_def)
  let ?v = "V_byte128 (raw @ replicate 8 0)" and ?i = "info_v m k"
  obtain rs' ops where w: "reg_write m rs ?i ?v False = Inr (rs', ops)"
    by (simp add: reg_write_def info_v_def Let_def)
  have ok: "layout_ok m" "length (regs_data rs) = user_size m" using assms(3) by (simp_all add: regs_ok_def)
  note b = reg_write_bytes [OF ok(1) info_v_in [OF assms(2)] ok(2) w]
  have "reg_word m rs' j = reg_word m rs j" if j: "j < 33" for j
  proof -
    let ?j = "g_register_infos m ! j"
    have "reg_offset ?j \<noteq> reg_offset ?i"
      using ok(1) word_info(6) [OF j, of m] j by (auto simp: layout_ok_def info_v_def less_Suc_eq numeral_eq_Suc)
    then have "reg_offset ?j + reg_slot ?j \<le> reg_offset ?i \<or> reg_offset ?i + reg_slot ?i \<le> reg_offset ?j"
      by (rule reg_slots_disjoint [OF ok(1) word_info(1) [OF j] info_v_in [OF assms(2)]])
    then have "bytes_at (reg_offset ?j) 8 (regs_data rs') = bytes_at (reg_offset ?j) 8 (regs_data rs)"
      by (intro b(2)) (simp add: word_slot [OF j])
    with b(4) show ?thesis
      using is_undefined_info [OF word_info(1) [OF j, of m]] word_info [OF j, of m]
      by (simp add: reg_word_def reg_read_def)
  qed
  moreover have "restore_vector m mem k a rs = Inr rs'"
    using raw w register_by_name_v [OF assms(2), of m] by (simp add: restore_vector_def write_named_def)
  ultimately show ?thesis using b(3,4) ok(1) by (auto simp: regs_ok_def)
qed

lemma restore_vectors:
  "readable mem word_at \<Longrightarrow> list_all (\<lambda>(k, a). k < 32) slots \<Longrightarrow> regs_ok m rs \<Longrightarrow>
   \<exists>rs'. restore_slots (restore_vector m mem) slots rs = Inr rs' \<and> regs_ok m rs' \<and>
     regs_undefined rs' = regs_undefined rs \<and> (\<forall>j < 33. reg_word m rs' j = reg_word m rs j)"
proof (induction slots arbitrary: rs)
  case (Cons x slots)
  obtain k a where x: "x = (k, a)" by (cases x)
  obtain rs1 where r: "restore_vector m mem k a rs = Inr rs1" "regs_ok m rs1"
      "regs_undefined rs1 = regs_undefined rs" "\<forall>j < 33. reg_word m rs1 j = reg_word m rs j"
    using restore_vector_words [of mem word_at k m rs a] Cons.prems x by auto
  with Cons.IH [of rs1] Cons.prems x show ?case by auto
qed simp

lemma pair_slots_regs:
  "\<forall>p \<in> set ps. p < n \<Longrightarrow> list_all (\<lambda>(k, a). r \<le> k \<and> k < r + 2 * n) (pair_slots encoding b r ps saved)"
  by (induction ps arbitrary: saved) auto

lemma pair_slots_key:
  "(k, a) \<in> set (pair_slots encoding b r ps saved) \<Longrightarrow> (k - r) div 2 \<in> set ps"
  by (induction ps arbitrary: saved) (auto split: if_splits)

lemma pair_slots_distinct:
  "distinct ps \<Longrightarrow> distinct (map fst (pair_slots encoding b r ps saved))"
proof (induction ps arbitrary: saved)
  case (Cons p ps)
  have "r + p * 2 \<notin> fst ` set (pair_slots encoding b r ps s)"
      "Suc (r + p * 2) \<notin> fst ` set (pair_slots encoding b r ps s)" for s
    using Cons.prems pair_slots_key [of "r + p * 2" _ encoding b r ps s]
      pair_slots_key [of "Suc (r + p * 2)" _ encoding b r ps s] by (auto simp: Suc_diff_le)
  with Cons show ?case by auto
qed simp

text \<open>The words that the frame mode restores: the frame pointer and the saved pairs.\<close>

definition frame_words :: "(u64 \<Rightarrow> u64) \<Rightarrow> u32 \<Rightarrow> u64 \<Rightarrow> (nat \<times> u64) list" where
  "frame_words word_at encoding fp =
     (29, word_at fp) # map (\<lambda>(k, a). (k, word_at a)) (pair_slots encoding 0 19 [0..<5] fp)"

lemma map_of_put:
  "map_of (map (\<lambda>(k, a). (k, Put (word_at a))) slots) k =
     map_option Put (map_of (map (\<lambda>(k, a). (k, word_at a)) slots) k)"
  by (induction slots) auto

lemma restore_frame_effect:
  assumes "readable mem word_at" "regs_ok m out" "regs_undefined out = []" "fp \<noteq> 0" "fp mod 16 = 0"
  shows "\<exists>out'. restore_frame m mem encoding fp out = Inr (out', fp + 16, word_at (fp + 8)) \<and>
     regs_ok m out' \<and> reg_live m out' 31 \<and> reg_live m out' 32 \<and>
     (\<forall>k < 33. reg_word m out' k =
        (case map_of (frame_words word_at encoding fp) k of Some w \<Rightarrow> Inr w | None \<Rightarrow> reg_word m out k))"
proof -
  let ?slots = "pair_slots encoding 0 19 [0..<5] fp"
  let ?vslots = "\<lambda>s. pair_slots encoding 8 8 [0..<4] s"
  let ?us = "map (\<lambda>(k, a). (k, Put (word_at a))) ?slots"
  obtain out1 where out1: "reg_put m out 29 (word_at fp) = Inr out1"
    using rf.put_total [of m out 29] assms(2) by auto
  note put = reg_put_keeps [OF assms(2) _ out1, simplified] reg_put_same [OF assms(2) _ _ out1, simplified]
    reg_put_other [OF assms(2) _ _ _ out1, simplified]
  have regs: "list_all (\<lambda>(k, a). 19 \<le> k \<and> k < 29) ?slots"
    using pair_slots_regs [of "[0..<5]" 5 19 encoding 0 fp] by (simp add: list_all_iff)
  then have regs29: "list_all (\<lambda>(k, a). k < 29) ?slots" by (auto simp: list_all_iff)
  have vregs: "list_all (\<lambda>(k, a). k < 32) (?vslots s)" for s
    using pair_slots_regs [of "[0..<4]" 4 8 encoding 8 s] by (auto simp: list_all_iff)
  have dist: "distinct (map fst ?us)"
    using pair_slots_distinct [of "[0..<5]" encoding 0 19 fp] by (simp add: case_prod_unfold comp_def)
  have keys: "fst ` set ?us \<subseteq> {k. k < 33}" "31 \<notin> fst ` set ?us" "32 \<notin> fst ` set ?us" "29 \<notin> fst ` set ?us"
    using regs by (auto simp: list_all_iff)
  have live: "\<forall>k \<in> fst ` set ?us. reg_live m out1 k" using put(2) assms(3) by (simp add: reg_live_def)
  obtain out2 where out2: "rf.updates m out1 ?us = Inr out2" "regs_ok m out2"
      "\<forall>k \<in> {k. k < 33}. reg_word m out2 k = rf.value_after m out1 k (map_of ?us k)"
      "\<forall>j \<in> {k. k < 33} - fst ` set ?us. reg_live m out2 j = reg_live m out1 j"
    using rf.updates_effect [OF put(1) dist keys(1) live] by blast
  have lives: "reg_live m out2 31" "reg_live m out2 32"
    using out2(4) keys put(2) assms(3) by (auto simp: reg_live_def)
  obtain out3 where out3: "restore_slots (restore_vector m mem) (?vslots (pairs_end encoding 0 [0..<5] fp)) out2 = Inr out3"
      "regs_ok m out3" "regs_undefined out3 = regs_undefined out2" "\<forall>j < 33. reg_word m out3 j = reg_word m out2 j"
    using restore_vectors [OF assms(1) vregs out2(2)] by blast
  have "restore_frame m mem encoding fp out = Inr (out3, fp + 16, word_at (fp + 8))"
    using assms(4,5) out1 out2(1) out3(1)
    by (simp add: restore_frame_def readable_word [OF assms(1)] put_by_id_word restore_pairs_slots
        restore_words [OF assms(1) regs29] del: upt_rec_numeral)
  moreover have "reg_word m out3 k =
      (case map_of (frame_words word_at encoding fp) k of Some w \<Rightarrow> Inr w | None \<Rightarrow> reg_word m out k)"
    if "k < 33" for k
  proof (cases "k = 29")
    case True
    then have "map_of ?us 29 = None" using keys(4) by (simp add: map_of_eq_None_iff)
    with True out2(3) out3(4) put(3) assms(3) show ?thesis
      by (simp add: frame_words_def rf.value_after_def reg_live_def)
  next
    case False
    with that out2(3) out3(4) put(4) [of k] show ?thesis
      by (auto simp: frame_words_def rf.value_after_def map_of_put split: option.split)
  qed
  ultimately show ?thesis using out3(2,3) lives by (auto simp: reg_live_def)
qed

text \<open>
  What the compact encoding promises: the restored words, the CFA and the return address, from the
  stack pointer, frame pointer and link register of the frame and the words on the stack.
\<close>

definition compact_promise ::
  "compact_abi \<Rightarrow> u32 \<Rightarrow> bool \<Rightarrow> (u64 \<Rightarrow> u64) \<Rightarrow> u64 \<Rightarrow> u64 \<Rightarrow> u64 \<Rightarrow> (nat \<times> u64) list \<times> u64 \<times> u64" where
  "compact_promise abi encoding at_start word_at sp fp lr =
     (if at_start then ([], sp, lr)
      else if encoding AND mode_mask abi = mode_frameless abi
        then ([], sp + ucast (drop_bit 12 (encoding AND stack_size_mask abi) * 16), lr)
      else (frame_words word_at encoding fp, fp + 16, word_at (fp + 8)))"

definition known_mode :: "compact_abi \<Rightarrow> u32 \<Rightarrow> bool" where
  "known_mode abi encoding \<longleftrightarrow>
     (let mode = encoding AND mode_mask abi in
      mode \<noteq> mode_dwarf abi \<and> (mode = mode_frameless abi \<or> mode = mode_frame abi))"

definition restored_word :: "native \<Rightarrow> registers \<Rightarrow> (nat \<times> u64) list \<times> u64 \<times> u64 \<Rightarrow> nat \<Rightarrow> u64 result" where
  "restored_word m regs = (\<lambda>(words, cfa, ret) k.
     if k = 32 then Inr (ret AND return_mask)
     else if k = 31 then Inr cfa
     else case map_of words k of Some w \<Rightarrow> Inr w | None \<Rightarrow> reg_word m regs k)"

text \<open>Setting the stack pointer and the program counter, which every way of unwinding ends with.\<close>

lemma put_sp_pc:
  assumes "regs_ok m out" "reg_live m out 31" "reg_live m out 32"
    "\<forall>k < 33. reg_word m out k = (case map_of words k of Some w \<Rightarrow> Inr w | None \<Rightarrow> reg_word m regs k)"
  shows "\<exists>out1 out2. put_by_id m SP cfa out = Inr out1 \<and> put_by_id m PC (ret AND return_mask) out1 = Inr out2 \<and>
     (\<forall>k < 33. reg_word m out2 k = restored_word m regs (words, cfa, ret) k)"
proof -
  obtain out1 where out1: "reg_put m out 31 cfa = Inr out1" using rf.put_total [of m out 31] assms(1) by auto
  note k1 = reg_put_keeps [OF assms(1) _ out1, simplified]
  obtain out2 where out2: "reg_put m out1 32 (ret AND return_mask) = Inr out2"
    using rf.put_total [of m out1 32] k1(1) by auto
  have live: "reg_live m out1 32" using assms(3) k1(2) by (simp add: reg_live_def)
  have "reg_word m out2 k = restored_word m regs (words, cfa, ret) k" if "k < 33" for k
    using that assms(4) reg_put_same [OF k1(1) _ live out2] reg_put_other [OF k1(1) _ that _ out2]
      reg_put_same [OF assms(1) _ assms(2) out1] reg_put_other [OF assms(1) _ that _ out1]
    by (simp add: restored_word_def)
  with out1 out2 show ?thesis by (auto simp: put_by_id_word)
qed

section \<open>The scan of the frame description entries\<close>

text \<open>Each record moves the scan at least eight bytes on, so the fuel beyond that is not used.\<close>

lemma scan_advance:
  assumes "unat (p :: u64) \<le> unat e" "unat e < 2 ^ 32" "\<not> sint (e - p) < 8"
    "\<not> (len < (4 :: u32) \<or> uint len > sint (e - p) - 4)"
  shows "unat (p + ucast (len + 4)) \<le> unat e" "unat p + 8 \<le> unat (p + ucast (len + 4))"
proof -
  have d: "unat (e - p) = unat e - unat p" using assms(1) by (simp add: unat_sub word_le_nat_alt)
  have "uint (e - p) < 2 ^ 32" unfolding uint_nat d using assms(2) by simp
  moreover have "- (2 ^ 63) \<le> uint (e - p)" by (rule order_trans [of _ 0]) simp_all
  ultimately have "sint (e - p) = uint (e - p)" by (simp add: sint_uint signed_take_bit_int_eq_self)
  also have "\<dots> = int (unat e - unat p)" unfolding uint_nat d by (rule refl)
  finally have s: "sint (e - p) = int (unat e - unat p)" .
  have l: "uint len = int (unat len)" by (rule uint_nat)
  have "4 \<le> unat len" using assms(4) by (simp add: word_less_nat_alt)
  then have len: "unat len + 4 \<le> unat e - unat p" "8 \<le> unat len + 4"
    using assms(3,4) unfolding s l by linarith+
  have n: "unat (ucast (len + 4) :: u64) = unat len + 4"
  proof -
    have "unat (len + 4) = unat len + 4" using len(1) assms(2) by (simp add: unat_plus_if')
    moreover have "unat (len + 4) < 2 ^ 64" using calculation len(1) assms(2) by simp
    then have "unat (ucast (len + 4) :: u64) = unat (len + 4)"
      by (simp add: unsigned_ucast_eq take_bit_nat_eq_self)
    ultimately show ?thesis by simp
  qed
  then have "unat (p + ucast (len + 4)) = unat p + (unat len + 4)"
    using len(1) assms(1,2) by (simp add: unat_plus_if')
  with len assms(1) show "unat (p + ucast (len + 4)) \<le> unat e" "unat p + 8 \<le> unat (p + ucast (len + 4))"
    by simp_all
qed

lemma find_fde_fuel:
  "unat p \<le> unat e \<Longrightarrow> unat e < 2 ^ 32 \<Longrightarrow> (unat e - unat p) div 8 < n \<Longrightarrow> (unat e - unat p) div 8 < n' \<Longrightarrow>
   find_fde n obj cies pc e p = find_fde n' obj cies pc e p"
proof (induction n arbitrary: n' cies p)
  case (Suc n)
  then obtain k where n': "n' = Suc k" by (cases n') auto
  have step: "find_fde n obj cies' pc e (p + ucast (len + 4)) = find_fde k obj cies' pc e (p + ucast (len + 4))"
    if "\<not> sint (e - p) < 8" "\<not> (len < (4 :: u32) \<or> uint len > sint (e - p) - 4)" for len cies'
  proof -
    note adv = scan_advance [OF Suc.prems(1,2) that]
    have "(unat e - unat (p + ucast (len + 4))) div 8 < (unat e - unat p) div 8" using adv by linarith
    with Suc.prems(3,4) n' show ?thesis by (intro Suc.IH) (use adv Suc.prems(2) in auto)
  qed
  show ?case
    unfolding n' find_fde.simps Let_def
    by (intro if_cong bind_res_cong refl) (auto simp: step intro!: bind_res_cong)
qed simp

section \<open>Properties\<close>


text \<open>
  The scan of \<^verbatim>\<open>.eh_frame\<close> ends.  In a section that lies below \<open>2 ^ 32\<close> every record moves the scan on
  by at least eight bytes, so one iteration per eight bytes of the section is enough: with more the
  result is the same.
\<close>

theorem find_fde_terminates:
  assumes "unat p \<le> unat e" "unat e < 2 ^ 32" "(unat e - unat p) div 8 < n" "n \<le> n'"
  shows "find_fde n obj cies pc e p = find_fde n' obj cies pc e p"
  using assms by (intro find_fde_fuel) auto

text \<open>The constants and structures of the system header.\<close>

definition apple_abi :: compact_abi where
  "apple_abi = \<lparr>
     header_size = 28,
     decode_header = (\<lambda>bs. \<lparr>uh_version = from_bytes (take 4 bs), uh_common_offset = from_bytes (take 4 (drop 4 bs)),
       uh_common_count = from_bytes (take 4 (drop 8 bs)), uh_index_offset = from_bytes (take 4 (drop 20 bs)),
       uh_index_count = from_bytes (take 4 (drop 24 bs))\<rparr>),
     index_size = 12,
     decode_index = (\<lambda>bs. \<lparr>ui_function_offset = from_bytes (take 4 bs), ui_pages_offset = from_bytes (take 4 (drop 4 bs))\<rparr>),
     regular_header_size = 8,
     decode_regular = (\<lambda>bs. \<lparr>up_entry_offset = from_bytes (take 2 (drop 4 bs)),
       up_entry_count = from_bytes (take 2 (drop 6 bs)), up_encodings_offset = 0, up_encodings_count = 0\<rparr>),
     regular_entry_size = 8,
     decode_regular_entry = (\<lambda>bs. \<lparr>ue_function_offset = from_bytes (take 4 bs), ue_encoding = from_bytes (take 4 (drop 4 bs))\<rparr>),
     compressed_header_size = 12,
     decode_compressed = (\<lambda>bs. \<lparr>up_entry_offset = from_bytes (take 2 (drop 4 bs)),
       up_entry_count = from_bytes (take 2 (drop 6 bs)), up_encodings_offset = from_bytes (take 2 (drop 8 bs)),
       up_encodings_count = from_bytes (take 2 (drop 10 bs))\<rparr>),
     second_level_regular = 2, second_level_compressed = 3, mode_mask = 0x0f000000,
     mode_dwarf = 0x03000000, mode_frameless = 0x02000000, mode_frame = 0x04000000,
     stack_size_mask = 0x00fff000\<rparr>"

definition demo_stack :: "u64 \<Rightarrow> nat \<Rightarrow> byte list result" where
  "demo_stack a n = Inr (nat_le n (unat (a * 3)))"

definition demo_frame_regs :: registers where
  "demo_frame_regs = \<lparr>regs_data = replicate 232 0 @ word_bytes (0x6ff0 :: u64) @ word_bytes (0x4242 :: u64) @
     word_bytes (0x6f00 :: u64) @ replicate 1064 0, regs_undefined = [], regs_cfa = 0\<rparr>"

lemma demo_stack_readable: "readable demo_stack (\<lambda>a. a * 3)"
proof -
  have "unat (a * 3) < 2 ^ 64" for a :: u64 using unsigned_less [of "a * 3"] by simp
  then show ?thesis by (simp add: readable_def demo_stack_def from_bytes_def le_nat_nat_le)
qed

lemma demo_frame_words:
  "reg_word darwin_arm64 demo_frame_regs 29 = Inr 0x6ff0" "reg_word darwin_arm64 demo_frame_regs 30 = Inr 0x4242"
  "reg_word darwin_arm64 demo_frame_regs 31 = Inr 0x6f00"
proof -
  have b: "bytes_at 232 8 (regs_data demo_frame_regs) = word_bytes (0x6ff0 :: u64)"
      "bytes_at 240 8 (regs_data demo_frame_regs) = word_bytes (0x4242 :: u64)"
      "bytes_at 248 8 (regs_data demo_frame_regs) = word_bytes (0x6f00 :: u64)"
    by (simp_all add: bytes_at_def demo_frame_regs_def)
  have w: "le_word (word_bytes w) = w" for w :: u64 using le_word_word_bytes [where 'a = 64 and k = 8] by simp
  show "reg_word darwin_arm64 demo_frame_regs 29 = Inr 0x6ff0" "reg_word darwin_arm64 demo_frame_regs 30 = Inr 0x4242"
    "reg_word darwin_arm64 demo_frame_regs 31 = Inr 0x6f00"
    using b is_undefined_info [OF word_info(1), of _ darwin_arm64] word_info [of _ darwin_arm64]
    by (simp_all add: reg_word_def reg_read_def demo_frame_regs_def darwin_arm64_def w)
qed


end
