(* ===== verification/Stateful.thy ===== *)
theory Stateful
  imports Sdb_Prelude
begin

text \<open>
  Operations on a mutable object.  An operation takes the object and returns its result together
  with the object afterwards; when it throws, the changes made before the throw stay, as they do
  in C++.
\<close>

type_synonym ('s, 'a) op = "'s \<Rightarrow> 'a result \<times> 's"

definition op_return :: "'a \<Rightarrow> ('s, 'a) op" where
  "op_return x s = (Inr x, s)"

definition op_fail :: "failure \<Rightarrow> ('s, 'a) op" where
  "op_fail e s = (Inl e, s)"

definition op_send :: "string \<Rightarrow> ('s, 'a) op" where
  "op_send what = op_fail (Sdb_Error what)"

definition op_lift :: "'a result \<Rightarrow> ('s, 'a) op" where
  "op_lift r s = (r, s)"

definition op_gets :: "('s \<Rightarrow> 'a) \<Rightarrow> ('s, 'a) op" where
  "op_gets f s = (Inr (f s), s)"

definition op_modify :: "('s \<Rightarrow> 's) \<Rightarrow> ('s, unit) op" where
  "op_modify f s = (Inr (), f s)"

definition op_bind :: "('s, 'a) op \<Rightarrow> ('a \<Rightarrow> ('s, 'b) op) \<Rightarrow> ('s, 'b) op" where
  "op_bind m f s = (case m s of (Inl e, s') \<Rightarrow> (Inl e, s') | (Inr x, s') \<Rightarrow> f x s')"

text \<open>\<open>try { m } catch (...) { h }\<close>: the handler runs on exceptions only, then what it returns counts.\<close>

fun is_exception :: "failure \<Rightarrow> bool" where
  "is_exception (Sdb_Error m) = True"
| "is_exception Out_Of_Range = True"
| "is_exception Bad_Variant_Access = True"
| "is_exception Bad_Optional_Access = True"
| "is_exception Terminate = False"
| "is_exception (Undefined m) = False"
| "is_exception Out_Of_Fuel = False"

definition op_catch :: "('s, 'a) op \<Rightarrow> (failure \<Rightarrow> ('s, 'a) op) \<Rightarrow> ('s, 'a) op" where
  "op_catch m h s = (case m s of (Inl e, s') \<Rightarrow> if is_exception e then h e s' else (Inl e, s') | (Inr x, s') \<Rightarrow> (Inr x, s'))"

text \<open>A loop over a list.\<close>

primrec op_each :: "('a \<Rightarrow> ('s, unit) op) \<Rightarrow> 'a list \<Rightarrow> ('s, unit) op" where
  "op_each f [] = op_return ()"
| "op_each f (x # xs) = op_bind (f x) (\<lambda>_. op_each f xs)"

section \<open>Laws\<close>

named_theorems op_simps \<open>evaluation of operations\<close>

lemma op_basic [op_simps]:
  "op_return x s = (Inr x, s)" "op_fail e s = (Inl e, s)" "op_send w s = (Inl (Sdb_Error w), s)"
  "op_lift r s = (r, s)" "op_gets f s = (Inr (f s), s)" "op_modify g s = (Inr (), g s)"
  by (simp_all add: op_return_def op_fail_def op_send_def op_lift_def op_gets_def op_modify_def)

lemma op_bind_run [op_simps]:
  "op_bind m f s = (case m s of (Inl e, s') \<Rightarrow> (Inl e, s') | (Inr x, s') \<Rightarrow> f x s')"
  by (simp add: op_bind_def)

lemma op_bind_cong [fundef_cong]:
  "m s = m' s' \<Longrightarrow> (\<And>x t. m' s' = (Inr x, t) \<Longrightarrow> f x t = f' x t) \<Longrightarrow> s = s' \<Longrightarrow> op_bind m f s = op_bind m' f' s'"
  by (auto simp: op_bind_def split: prod.splits sum.splits)

lemma op_bind_Inr_iff:
  "op_bind m f s = (Inr y, t) \<longleftrightarrow> (\<exists>x u. m s = (Inr x, u) \<and> f x u = (Inr y, t))"
  by (auto simp: op_bind_def split: prod.splits sum.splits)

lemma op_bind_step: "m s = (Inr x, u) \<Longrightarrow> op_bind m f s = f x u"
  by (simp add: op_bind_def)

lemma op_bind_fail: "m s = (Inl e, u) \<Longrightarrow> op_bind m f s = (Inl e, u)"
  by (simp add: op_bind_def)

text \<open>An invariant that an operation keeps, whether it returns or fails.\<close>

definition preserves :: "('s \<Rightarrow> bool) \<Rightarrow> ('s, 'a) op \<Rightarrow> bool" where
  "preserves I m \<longleftrightarrow> (\<forall>s. I s \<longrightarrow> I (snd (m s)))"

lemma preservesD: "preserves I m \<Longrightarrow> I s \<Longrightarrow> m s = (r, s') \<Longrightarrow> I s'"
  by (metis preserves_def snd_conv)

lemma preserves_basic [simp]:
  "preserves I (op_return x)" "preserves I (op_fail e)" "preserves I (op_send w)"
  "preserves I (op_lift r)" "preserves I (op_gets f)"
  by (auto simp: preserves_def op_simps)

lemma preserves_modify: "(\<And>s. I s \<Longrightarrow> I (g s)) \<Longrightarrow> preserves I (op_modify g)"
  by (auto simp: preserves_def op_simps)

lemma preserves_bind: "preserves I m \<Longrightarrow> (\<And>x. preserves I (f x)) \<Longrightarrow> preserves I (op_bind m f)"
  unfolding preserves_def op_bind_def by (auto split: prod.splits sum.splits)

lemma preserves_catch: "preserves I m \<Longrightarrow> (\<And>e. preserves I (h e)) \<Longrightarrow> preserves I (op_catch m h)"
  unfolding preserves_def op_catch_def by (auto split: prod.splits sum.splits)

lemma preserves_each: "(\<And>x. x \<in> set xs \<Longrightarrow> preserves I (f x)) \<Longrightarrow> preserves I (op_each f xs)"
  by (induction xs) (auto intro!: preserves_bind)

end
