(* ===== verification/Stoppoints.thy ===== *)
theory Stoppoints
  imports Stateful
begin

text \<open>
  The class template \<open>stoppoint_collection\<close> of \<^verbatim>\<open>include/libsdb/stoppoint_collection.hpp\<close>: a vector
  of stoppoints searched by id and by address.  Its member functions use four members of their
  template argument, which are the fields of \<open>stoppoint_class\<close>.  A reference or an iterator into
  the collection is an index; the end iterator is the length.  Dereferencing the end iterator, as
  the two remove functions do for an absent stoppoint, is undefined behaviour.
\<close>

section \<open>The template\<close>

record 's stoppoint_class =
  sp_id :: "'s \<Rightarrow> int"
  sp_at_address :: "'s \<Rightarrow> u64 \<Rightarrow> bool"
  sp_in_range :: "'s \<Rightarrow> u64 \<Rightarrow> u64 \<Rightarrow> bool"
  sp_is_enabled :: "'s \<Rightarrow> bool"

primrec find_if :: "('s \<Rightarrow> bool) \<Rightarrow> 's list \<Rightarrow> nat" where
  "find_if P [] = 0"
| "find_if P (x # xs) = (if P x then 0 else Suc (find_if P xs))"

definition push :: "'s \<Rightarrow> 's list \<Rightarrow> 's list" where
  "push bs points = points @ [bs]"

definition find_by_id :: "'s stoppoint_class \<Rightarrow> int \<Rightarrow> 's list \<Rightarrow> nat" where
  "find_by_id C n points = find_if (\<lambda>point. sp_id C point = n) points"

definition find_by_address :: "'s stoppoint_class \<Rightarrow> u64 \<Rightarrow> 's list \<Rightarrow> nat" where
  "find_by_address C a points = find_if (\<lambda>point. sp_at_address C point a) points"

definition contains_id :: "'s stoppoint_class \<Rightarrow> int \<Rightarrow> 's list \<Rightarrow> bool" where
  "contains_id C n points \<longleftrightarrow> find_by_id C n points \<noteq> length points"

definition contains_address :: "'s stoppoint_class \<Rightarrow> u64 \<Rightarrow> 's list \<Rightarrow> bool" where
  "contains_address C a points \<longleftrightarrow> find_by_address C a points \<noteq> length points"

definition get_by_id :: "'s stoppoint_class \<Rightarrow> int \<Rightarrow> 's list \<Rightarrow> nat result" where
  "get_by_id C n points =
     (let i = find_by_id C n points in if i = length points then send ''Invalid stoppoint id'' else Inr i)"

definition get_by_address :: "'s stoppoint_class \<Rightarrow> u64 \<Rightarrow> 's list \<Rightarrow> nat result" where
  "get_by_address C a points =
     (let i = find_by_address C a points
      in if i = length points then send ''Stoppoint with given address not found'' else Inr i)"

definition enabled_stoppoint_at_address :: "'s stoppoint_class \<Rightarrow> u64 \<Rightarrow> 's list \<Rightarrow> bool" where
  "enabled_stoppoint_at_address C a points \<longleftrightarrow>
     contains_address C a points \<and>
     (case get_by_address C a points of Inr i \<Rightarrow> sp_is_enabled C (points ! i) | Inl e \<Rightarrow> False)"

definition get_in_region :: "'s stoppoint_class \<Rightarrow> u64 \<Rightarrow> u64 \<Rightarrow> 's list \<Rightarrow> 's list" where
  "get_in_region C low high points = filter (\<lambda>site. sp_in_range C site low high) points"

definition erase :: "nat \<Rightarrow> 's list \<Rightarrow> 's list" where
  "erase i points = take i points @ drop (Suc i) points"

text \<open>
  Removing disables the stoppoint first, which works on the object that owns the collection:
  \<open>points\<close> reads the collection of the owner and \<open>update\<close> changes it.
\<close>

definition remove_found ::
  "('p \<Rightarrow> 's list) \<Rightarrow> (('s list \<Rightarrow> 's list) \<Rightarrow> 'p \<Rightarrow> 'p) \<Rightarrow> (nat \<Rightarrow> ('p, unit) op) \<Rightarrow> nat \<Rightarrow> ('p, unit) op" where
  "remove_found points update disable it =
     op_bind (op_gets points) (\<lambda>ps.
     if it < length ps then op_bind (disable it) (\<lambda>_. op_modify (update (erase it)))
     else op_lift (undefined_behaviour ''end iterator dereferenced''))"

definition remove_by_id ::
  "'s stoppoint_class \<Rightarrow> ('p \<Rightarrow> 's list) \<Rightarrow> (('s list \<Rightarrow> 's list) \<Rightarrow> 'p \<Rightarrow> 'p) \<Rightarrow> (nat \<Rightarrow> ('p, unit) op) \<Rightarrow> int \<Rightarrow>
   ('p, unit) op" where
  "remove_by_id C points update disable n =
     op_bind (op_gets points) (\<lambda>ps. remove_found points update disable (find_by_id C n ps))"

definition remove_by_address ::
  "'s stoppoint_class \<Rightarrow> ('p \<Rightarrow> 's list) \<Rightarrow> (('s list \<Rightarrow> 's list) \<Rightarrow> 'p \<Rightarrow> 'p) \<Rightarrow> (nat \<Rightarrow> ('p, unit) op) \<Rightarrow> u64 \<Rightarrow>
   ('p, unit) op" where
  "remove_by_address C points update disable a =
     op_bind (op_gets points) (\<lambda>ps. remove_found points update disable (find_by_address C a ps))"

section \<open>Searching\<close>

lemma find_if_le: "find_if P xs \<le> length xs"
  by (induction xs) auto

lemma find_if_end_iff: "find_if P xs = length xs \<longleftrightarrow> (\<forall>x \<in> set xs. \<not> P x)"
  by (induction xs) auto

lemma find_if_found: "find_if P xs < length xs \<Longrightarrow> P (xs ! find_if P xs)"
  by (induction xs) auto

lemma find_if_first: "i < find_if P xs \<Longrightarrow> \<not> P (xs ! i)"
proof (induction xs arbitrary: i)
  case (Cons x xs)
  then show ?case by (cases i) (auto split: if_splits)
qed simp

lemma find_if_cong: "map P xs = map Q ys \<Longrightarrow> find_if P xs = find_if Q ys"
  by (induction xs arbitrary: ys) auto

lemma set_erase_subset: "set (erase i xs) \<subseteq> set xs"
  by (auto simp: erase_def dest: in_set_takeD in_set_dropD)

lemma set_erase_distinct:
  assumes "distinct (map f xs)" "i < length xs"
  shows "set (erase i xs) = {x \<in> set xs. f x \<noteq> f (xs ! i)}"
proof -
  have xs: "xs = take i xs @ xs ! i # drop (Suc i) xs" using assms(2) by (rule id_take_nth_drop)
  have "distinct (map f (take i xs @ xs ! i # drop (Suc i) xs))" using assms(1) xs by simp
  then have "f (xs ! i) \<notin> f ` set (erase i xs)" by (auto simp: erase_def)
  moreover have "set xs = insert (xs ! i) (set (erase i xs))"
    by (subst xs) (simp add: erase_def)
  ultimately show ?thesis by (auto simp: image_iff)
qed

lemma distinct_erase: "distinct (map f xs) \<Longrightarrow> distinct (map f (erase i xs))"
proof -
  assume d: "distinct (map f xs)"
  show ?thesis
  proof (cases "i < length xs")
    case True
    then have "map f xs = map f (take i xs) @ f (xs ! i) # map f (drop (Suc i) xs)"
      by (metis id_take_nth_drop list.simps(9) map_append)
    with d show ?thesis by (simp add: erase_def)
  next
    case False
    with d show ?thesis by (simp add: erase_def)
  qed
qed

section \<open>The contract of a collection with one address per stoppoint\<close>

text \<open>
  A class of stoppoints that live at one address each.  Collections of such a class behave as
  finite maps from addresses as long as no address occurs twice, which pushing a stoppoint at an
  address that is not contained, and removing, keep.
\<close>

locale addressed_stoppoints =
  fixes C :: "'s stoppoint_class" and address :: "'s \<Rightarrow> u64"
  assumes at_address: "sp_at_address C s a \<longleftrightarrow> address s = a"
    and in_range: "sp_in_range C s low high \<longleftrightarrow> low \<le> address s \<and> address s < high"
begin

lemma contains_address_iff: "contains_address C a xs \<longleftrightarrow> a \<in> address ` set xs"
  by (auto simp: contains_address_def find_by_address_def find_if_end_iff at_address)

lemma get_by_address_ok:
  assumes "get_by_address C a xs = Inr i"
  shows "i < length xs" "address (xs ! i) = a"
proof -
  have i: "i = find_if (\<lambda>s. sp_at_address C s a) xs" "i \<noteq> length xs"
    using assms by (auto simp: get_by_address_def find_by_address_def Let_def split: if_splits)
  then show less: "i < length xs" using find_if_le [of "\<lambda>s. sp_at_address C s a" xs] by simp
  then show "address (xs ! i) = a" using find_if_found [of "\<lambda>s. sp_at_address C s a" xs] i by (simp add: at_address)
qed

lemma get_by_address_total: "contains_address C a xs \<longleftrightarrow> (\<exists>i. get_by_address C a xs = Inr i)"
  by (auto simp: contains_address_def get_by_address_def Let_def)

lemma get_by_address_unique:
  assumes "distinct (map address xs)" "i < length xs"
  shows "get_by_address C (address (xs ! i)) xs = Inr i"
proof -
  obtain j where j: "get_by_address C (address (xs ! i)) xs = Inr j"
    using assms(2) get_by_address_total contains_address_iff by fastforce
  then have "j < length xs" "address (xs ! j) = address (xs ! i)" by (rule get_by_address_ok)+
  with assms j show ?thesis by (auto simp: distinct_conv_nth)
qed

lemma enabled_at_iff:
  assumes "distinct (map address xs)"
  shows "enabled_stoppoint_at_address C a xs \<longleftrightarrow> (\<exists>s \<in> set xs. address s = a \<and> sp_is_enabled C s)"
proof
  assume "enabled_stoppoint_at_address C a xs"
  then obtain i where "get_by_address C a xs = Inr i" "sp_is_enabled C (xs ! i)"
    by (auto simp: enabled_stoppoint_at_address_def split: sum.splits)
  with get_by_address_ok show "\<exists>s \<in> set xs. address s = a \<and> sp_is_enabled C s" by (metis nth_mem)
next
  assume "\<exists>s \<in> set xs. address s = a \<and> sp_is_enabled C s"
  then obtain i where i: "i < length xs" "address (xs ! i) = a" "sp_is_enabled C (xs ! i)"
    by (metis in_set_conv_nth)
  then show "enabled_stoppoint_at_address C a xs"
    using get_by_address_unique [OF assms i(1)]
    by (simp add: enabled_stoppoint_at_address_def get_by_address_total)
qed

lemma push_distinct:
  "distinct (map address xs) \<Longrightarrow> \<not> contains_address C (address s) xs \<Longrightarrow> distinct (map address (push s xs))"
  by (simp add: push_def contains_address_iff)

lemma erase_removes:
  assumes "distinct (map address xs)" "get_by_address C a xs = Inr i"
  shows "contains_address C b (erase i xs) \<longleftrightarrow> contains_address C b xs \<and> b \<noteq> a"
  using set_erase_distinct [OF assms(1) get_by_address_ok(1) [OF assms(2)]] get_by_address_ok(2) [OF assms(2)]
  by (auto simp: contains_address_iff)

lemma get_in_region_iff:
  "s \<in> set (get_in_region C low high xs) \<longleftrightarrow> s \<in> set xs \<and> low \<le> address s \<and> address s < high"
  by (auto simp: get_in_region_def in_range)

end

end
