(* ===== verification/Process.thy ===== *)
theory Process
  imports Stoppoints Registers
begin

text \<open>
  The process under debug: its memory, its stoppoints and the debug registers
  (\<^verbatim>\<open>src/src/process.cpp\<close>, \<^verbatim>\<open>src/src/breakpoint_site.cpp\<close>, \<^verbatim>\<open>src/src/watchpoint.cpp\<close> and their
  headers).  Waiting, stepping and resuming are in \<open>Process_Control\<close>.

  The Mach and ptrace system calls are parameters, the fields of a record \<open>mach\<close>: each takes the
  state \<open>'w\<close> of the system outside the debugger and returns the new one.  A \<open>kern_return_t\<close> is
  \<open>None\<close> for success and otherwise the text of \<open>mach_error_string\<close>.  The order in which a loop
  visits the unordered map of threads is a parameter as well.

  Loops that end only if the system makes progress carry fuel \<open>n\<close>.
\<close>

section \<open>Data\<close>

type_synonym kern = "string option"

record region =
  rgn_start :: u64
  rgn_size :: u64
  rgn_protection :: u32

record debug_state =
  dbg_bvr :: "u64 list"
  dbg_bcr :: "u64 list"
  dbg_wvr :: "u64 list"
  dbg_wcr :: "u64 list"
  dbg_mdscr :: u64

datatype ptrace_request = PT_TRACE_ME | PT_CONTINUE | PT_STEP | PT_KILL | PT_ATTACH | PT_DETACH

record 'w mach =
  mach_native :: native
  vm_read :: "'w \<Rightarrow> u64 \<Rightarrow> nat \<Rightarrow> string + byte list"
  vm_region :: "'w \<Rightarrow> u64 \<Rightarrow> string + region"
  vm_protect :: "'w \<Rightarrow> u64 \<Rightarrow> u64 \<Rightarrow> u32 \<Rightarrow> kern \<times> 'w"
  vm_write :: "'w \<Rightarrow> u64 \<Rightarrow> byte list \<Rightarrow> kern \<times> 'w"
  set_debug :: "'w \<Rightarrow> nat \<Rightarrow> debug_state \<Rightarrow> kern \<times> 'w"
  set_gprs :: "'w \<Rightarrow> nat \<Rightarrow> byte list \<Rightarrow> kern \<times> 'w"
  set_fprs :: "'w \<Rightarrow> nat \<Rightarrow> byte list \<Rightarrow> kern \<times> 'w"
  get_gprs :: "'w \<Rightarrow> nat \<Rightarrow> string + byte list"
  get_fprs :: "'w \<Rightarrow> nat \<Rightarrow> string + byte list"
  get_exception :: "'w \<Rightarrow> nat \<Rightarrow> (u32 \<times> u64) option"
  suspend_thread :: "'w \<Rightarrow> nat \<Rightarrow> kern \<times> 'w"
  resume_thread :: "'w \<Rightarrow> nat \<Rightarrow> kern \<times> 'w"
  ptrace :: "'w \<Rightarrow> ptrace_request \<Rightarrow> int \<Rightarrow> kern \<times> 'w"
  wait_pid :: "'w \<Rightarrow> (string + u32) \<times> 'w"
  task_for_pid :: "'w \<Rightarrow> int \<Rightarrow> kern \<times> 'w"
  task_threads :: "'w \<Rightarrow> string + (nat \<times> u64 option) list"
  deallocate_port :: "'w \<Rightarrow> nat \<Rightarrow> kern \<times> 'w"
  visit :: "int list \<Rightarrow> int list"

datatype stoppoint_mode = Write | Read_write | Execute

record breakpoint_site =
  site_id :: int
  site_address :: u64
  site_enabled :: bool
  saved_data :: u32
  site_hardware :: bool
  site_internal :: bool
  site_register_index :: int
  site_parent :: "nat option"

record watchpoint =
  wp_id :: int
  wp_address :: u64
  wp_mode :: stoppoint_mode
  wp_size :: u64
  wp_enabled :: bool
  wp_register_index :: int
  wp_data :: u64
  wp_previous_data :: u64

datatype catch_mode = Catch_none | Catch_some | Catch_all

record syscall_catch_policy =
  catch_mode :: catch_mode
  to_catch :: "int list"

definition catch_all :: syscall_catch_policy where
  "catch_all = \<lparr>catch_mode = Catch_all, to_catch = []\<rparr>"

definition catch_none :: syscall_catch_policy where
  "catch_none = \<lparr>catch_mode = Catch_none, to_catch = []\<rparr>"

definition catch_some :: "int list \<Rightarrow> syscall_catch_policy" where
  "catch_some ids = \<lparr>catch_mode = Catch_some, to_catch = ids\<rparr>"

text \<open>The union of \<open>syscall_information\<close> holds the arguments at the entry and the result at the exit.\<close>

datatype syscall_payload = Syscall_args "u64 list" | Syscall_ret u64

record syscall_information =
  syscall_id :: u16
  syscall_entry :: bool
  syscall_payload :: syscall_payload

datatype process_state = Stopped | Running | Exited | Terminated

datatype trap_type = Single_step | Software_break | Hardware_break | Syscall | Clone | Unknown

record stop_reason =
  reason :: process_state
  info :: byte
  trap_reason :: "trap_type option"
  syscall_info :: "syscall_information option"
  stop_tid :: int

record thread_state =
  thread_regs :: registers
  thread_reason :: stop_reason
  thread_run_state :: process_state
  pending_sigstop :: bool

record 'w process =
  world :: 'w
  has_task :: bool
  ports :: "(int \<times> nat) list"
  threads :: "(int \<times> thread_state) list"
  stepping :: bool
  main_thread :: int
  pending_signal :: int
  tracing_syscalls :: bool
  queued_stop :: "stop_reason option"
  debug_regs :: debug_state
  hit_slot :: int
  pid :: int
  terminate_on_end :: bool
  run_state :: process_state
  is_attached :: bool
  breakpoint_sites :: "breakpoint_site list"
  watchpoints :: "watchpoint list"
  catch_policy :: syscall_catch_policy
  expecting_syscall_exit :: bool
  current_thread :: int
  last_site_id :: int
  last_watchpoint_id :: int

definition site_class :: "breakpoint_site stoppoint_class" where
  "site_class = \<lparr>sp_id = site_id, sp_at_address = (\<lambda>s a. site_address s = a),
     sp_in_range = (\<lambda>s low high. low \<le> site_address s \<and> high > site_address s), sp_is_enabled = site_enabled\<rparr>"

definition watchpoint_class :: "watchpoint stoppoint_class" where
  "watchpoint_class = \<lparr>sp_id = wp_id, sp_at_address = (\<lambda>w a. wp_address w = a),
     sp_in_range = (\<lambda>w low high. low \<le> wp_address w \<and> high > wp_address w), sp_is_enabled = wp_enabled\<rparr>"

section \<open>System calls\<close>

definition check :: "kern \<Rightarrow> string \<Rightarrow> unit result" where
  "check k what = (case k of None \<Rightarrow> Inr () | Some msg \<Rightarrow> send (what @ '': '' @ msg))"

definition sys_call :: "('w \<Rightarrow> kern \<times> 'w) \<Rightarrow> ('w process, kern) op" where
  "sys_call f p = (case f (world p) of (k, w) \<Rightarrow> (Inr k, p\<lparr>world := w\<rparr>))"

definition checked_call :: "('w \<Rightarrow> kern \<times> 'w) \<Rightarrow> string \<Rightarrow> ('w process, unit) op" where
  "checked_call f what = op_bind (sys_call f) (\<lambda>k. op_lift (check k what))"

text \<open>The ports of the threads in the order in which a loop over \<open>ports_\<close> visits them.\<close>

definition port_order :: "'w mach \<Rightarrow> 'w process \<Rightarrow> (int \<times> nat) list" where
  "port_order K p = map (\<lambda>t. (t, the (map_of (ports p) t))) (visit K (map fst (ports p)))"

definition port_at :: "'w process \<Rightarrow> int \<Rightarrow> nat result" where
  "port_at p t = map_at (map_of (ports p)) t"

section \<open>Memory\<close>

definition read_memory :: "'w mach \<Rightarrow> 'w process \<Rightarrow> u64 \<Rightarrow> nat \<Rightarrow> byte list result" where
  "read_memory K p a n =
     (if n = 0 then Inr []
      else case vm_read K (world p) a n of
             Inl msg \<Rightarrow> send (''read memory: '' @ msg)
           | Inr bs \<Rightarrow> if length bs \<noteq> n then send ''Short memory read'' else Inr bs)"

definition read_memory_as_u32 :: "'w mach \<Rightarrow> 'w process \<Rightarrow> u64 \<Rightarrow> u32 result" where
  "read_memory_as_u32 K p a = bind_res (read_memory K p a 4) (\<lambda>bs. Inr (le_word bs))"

text \<open>The protection bits of the Mach headers.\<close>

definition VM_PROT_WRITE :: u32 where "VM_PROT_WRITE = 2"

definition VM_PROT_READ_WRITE_COPY :: u32 where "VM_PROT_READ_WRITE_COPY = 0x13"

definition write_chunk :: "'w mach \<Rightarrow> u64 \<Rightarrow> byte list \<Rightarrow> nat \<Rightarrow> region \<Rightarrow> ('w process, nat) op" where
  "write_chunk K at data offset r =
     (let amount = min (length data - offset) (unat (rgn_start r + rgn_size r - at));
          protect = rgn_protection r AND VM_PROT_WRITE = 0
      in
      op_bind (if protect
               then checked_call (\<lambda>w. vm_protect K w at (word_of_nat amount) VM_PROT_READ_WRITE_COPY) ''make memory writable''
               else op_return ()) (\<lambda>_.
      op_bind (sys_call (\<lambda>w. vm_write K w at (take (unat (word_of_nat amount :: u32)) (drop offset data)))) (\<lambda>written.
      op_bind (if protect then sys_call (\<lambda>w. vm_protect K w at (word_of_nat amount) (rgn_protection r))
               else op_return None) (\<lambda>restored.
      op_bind (op_lift (check written ''write memory'')) (\<lambda>_.
      op_bind (op_lift (check restored ''restore memory protection'')) (\<lambda>_.
      op_return (offset + amount)))))))"

fun write_memory_loop :: "nat \<Rightarrow> 'w mach \<Rightarrow> u64 \<Rightarrow> byte list \<Rightarrow> nat \<Rightarrow> ('w process, unit) op" where
  "write_memory_loop 0 K addr data offset = op_fail Out_Of_Fuel"
| "write_memory_loop (Suc n) K addr data offset =
     (if offset < length data then
        let at = addr + word_of_nat offset in
        op_bind (op_gets (\<lambda>p. vm_region K (world p) at)) (\<lambda>found.
        case found of
          Inl msg \<Rightarrow> op_send (''find memory region: '' @ msg)
        | Inr r \<Rightarrow>
            if at < rgn_start r then op_send ''Write crosses unmapped memory''
            else op_bind (write_chunk K at data offset r) (write_memory_loop n K addr data))
      else op_return ())"

definition write_memory :: "nat \<Rightarrow> 'w mach \<Rightarrow> u64 \<Rightarrow> byte list \<Rightarrow> ('w process, unit) op" where
  "write_memory n K addr data = write_memory_loop n K addr data 0"

definition restore_byte :: "u64 \<Rightarrow> nat \<Rightarrow> breakpoint_site \<Rightarrow> nat \<Rightarrow> byte list \<Rightarrow> byte list" where
  "restore_byte a n bp i bs =
     (let x = site_address bp + word_of_nat i
      in if a \<le> x \<and> unat (x - a) < n then bs[unat (x - a) := word_bytes (saved_data bp) ! i] else bs)"

definition restore_site :: "u64 \<Rightarrow> nat \<Rightarrow> breakpoint_site \<Rightarrow> byte list \<Rightarrow> byte list" where
  "restore_site a n bp bs =
     (if \<not> site_enabled bp \<or> site_hardware bp then bs else fold (restore_byte a n bp) [0..<4] bs)"

definition read_memory_without_traps :: "'w mach \<Rightarrow> 'w process \<Rightarrow> u64 \<Rightarrow> nat \<Rightarrow> byte list result" where
  "read_memory_without_traps K p a n =
     bind_res (read_memory K p a n) (\<lambda>bs. Inr (fold (restore_site a n) (breakpoint_sites p) bs))"

fun read_string_loop :: "'w mach \<Rightarrow> 'w process \<Rightarrow> u64 \<Rightarrow> nat \<Rightarrow> nat \<Rightarrow> string \<Rightarrow> string result" where
  "read_string_loop K p a i 0 s = send ''Unterminated target string''"
| "read_string_loop K p a i (Suc k) s =
     bind_res (read_memory K p (a + word_of_nat i) 1) (\<lambda>c.
     if hd c = 0 then Inr s
     else read_string_loop K p a (Suc i) k (s @ [char_of (unat (hd c))]))"

definition read_string :: "'w mach \<Rightarrow> 'w process \<Rightarrow> u64 \<Rightarrow> string result" where
  "read_string K p a = read_string_loop K p a 0 (1024 * 1024) []"

section \<open>Debug registers\<close>

definition control_word :: "stoppoint_mode \<Rightarrow> u64 \<Rightarrow> nat \<Rightarrow> u64" where
  "control_word mode a sz =
     (if mode = Execute then 1 OR push_bit 1 2 OR push_bit 5 15
      else 1 OR push_bit 1 2 OR push_bit 3 (if mode = Write then 2 else 3)
           OR push_bit 5 (push_bit (unat (a mod 8)) (push_bit sz 1 - 1)))"

definition install_slot :: "stoppoint_mode \<Rightarrow> u64 \<Rightarrow> nat \<Rightarrow> nat \<Rightarrow> debug_state \<Rightarrow> debug_state" where
  "install_slot mode a sz i d =
     (if mode = Execute
      then d\<lparr>dbg_bvr := (dbg_bvr d)[i := a], dbg_bcr := (dbg_bcr d)[i := control_word mode a sz]\<rparr>
      else d\<lparr>dbg_wvr := (dbg_wvr d)[i := a AND NOT 7], dbg_wcr := (dbg_wcr d)[i := control_word mode a sz]\<rparr>)"

text \<open>\<open>thread_set_state\<close> on every thread, stopping at the first failure, or ignoring failures.\<close>

definition commit_debug :: "'w mach \<Rightarrow> string \<Rightarrow> ('w process, unit) op" where
  "commit_debug K what =
     op_bind (op_gets (port_order K)) (\<lambda>ps.
     op_each (\<lambda>(t, port). op_bind (op_gets debug_regs) (\<lambda>d. checked_call (\<lambda>w. set_debug K w port d) what)) ps)"

definition force_debug :: "'w mach \<Rightarrow> ('w process, unit) op" where
  "force_debug K =
     op_bind (op_gets (port_order K)) (\<lambda>ps.
     op_each (\<lambda>(t, port). op_bind (op_gets debug_regs) (\<lambda>d.
        op_bind (sys_call (\<lambda>w. set_debug K w port d)) (\<lambda>_. op_return ()))) ps)"

definition free_slot :: "u64 list \<Rightarrow> nat option" where
  "free_slot control = find (\<lambda>i. control ! i AND 1 = 0) [0..<16]"

definition set_hardware_stoppoint :: "'w mach \<Rightarrow> u64 \<Rightarrow> stoppoint_mode \<Rightarrow> u64 \<Rightarrow> ('w process, int) op" where
  "set_hardware_stoppoint K a mode sz =
     (if sz \<noteq> 1 \<and> sz \<noteq> 2 \<and> sz \<noteq> 4 \<and> sz \<noteq> 8 then op_send ''Watchpoint size must be 1, 2, 4, or 8''
      else if mode = Execute \<and> a mod 4 \<noteq> 0 then op_send ''Hardware breakpoint must be instruction aligned''
      else if mode \<noteq> Execute \<and> a mod sz \<noteq> 0 then op_send ''Watchpoint must be aligned to its size''
      else
        op_bind (op_gets debug_regs) (\<lambda>old.
        case free_slot (if mode = Execute then dbg_bcr old else dbg_wcr old) of
          None \<Rightarrow> op_send ''No hardware stoppoint slots available''
        | Some i \<Rightarrow>
            op_bind (op_modify (\<lambda>p. p\<lparr>debug_regs := install_slot mode a (unat sz) i old\<rparr>)) (\<lambda>_.
            op_bind (op_catch (commit_debug K ''set hardware stoppoint'') (\<lambda>e.
                op_bind (op_modify (\<lambda>p. p\<lparr>debug_regs := old\<rparr>)) (\<lambda>_.
                op_bind (force_debug K) (\<lambda>_. op_fail e)))) (\<lambda>_.
            op_return (if mode = Execute then int i else int i + 16)))))"

definition set_hardware_breakpoint :: "'w mach \<Rightarrow> u64 \<Rightarrow> ('w process, int) op" where
  "set_hardware_breakpoint K a = set_hardware_stoppoint K a Execute 4"

definition set_watchpoint :: "'w mach \<Rightarrow> u64 \<Rightarrow> stoppoint_mode \<Rightarrow> u64 \<Rightarrow> ('w process, int) op" where
  "set_watchpoint K a mode n = set_hardware_stoppoint K a mode n"

definition clear_slot :: "nat \<Rightarrow> debug_state \<Rightarrow> debug_state" where
  "clear_slot i d =
     (if i < 16 then d\<lparr>dbg_bcr := (dbg_bcr d)[i := 0]\<rparr> else d\<lparr>dbg_wcr := (dbg_wcr d)[i - 16 := 0]\<rparr>)"

definition clear_hardware_stoppoint :: "'w mach \<Rightarrow> int \<Rightarrow> ('w process, unit) op" where
  "clear_hardware_stoppoint K i =
     (if i < 0 \<or> 32 \<le> i then op_send ''Invalid hardware slot''
      else
        op_bind (op_modify (\<lambda>p. p\<lparr>debug_regs := clear_slot (nat i) (debug_regs p)\<rparr>)) (\<lambda>_.
        commit_debug K ''clear hardware stoppoint''))"

section \<open>Breakpoint sites\<close>

definition trap_instruction :: u32 where
  "trap_instruction = 0xd4200000"

definition modify_site :: "nat \<Rightarrow> (breakpoint_site \<Rightarrow> breakpoint_site) \<Rightarrow> ('w process, unit) op" where
  "modify_site i f = op_modify (\<lambda>p. p\<lparr>breakpoint_sites := (breakpoint_sites p)[i := f (breakpoint_sites p ! i)]\<rparr>)"

definition insert_trap :: "nat \<Rightarrow> 'w mach \<Rightarrow> nat \<Rightarrow> breakpoint_site \<Rightarrow> ('w process, unit) op" where
  "insert_trap n K i s =
     (if site_address s mod 4 \<noteq> 0 then op_send ''ARM64 breakpoints require a 4-byte aligned address''
      else
        op_bind (op_gets (\<lambda>p. read_memory_as_u32 K p (site_address s))) (\<lambda>found.
        op_bind (op_lift found) (\<lambda>d.
        op_bind (modify_site i (\<lambda>s. s\<lparr>saved_data := d\<rparr>)) (\<lambda>_.
        write_memory n K (site_address s) (word_bytes trap_instruction)))))"

definition enable_site :: "nat \<Rightarrow> 'w mach \<Rightarrow> nat \<Rightarrow> ('w process, unit) op" where
  "enable_site n K i =
     op_bind (op_gets (\<lambda>p. breakpoint_sites p ! i)) (\<lambda>s.
     if site_enabled s then op_return ()
     else
       op_bind (if site_hardware s
                then op_bind (set_hardware_breakpoint K (site_address s)) (\<lambda>k.
                     modify_site i (\<lambda>s. s\<lparr>site_register_index := k\<rparr>))
                else insert_trap n K i s) (\<lambda>_.
       modify_site i (\<lambda>s. s\<lparr>site_enabled := True\<rparr>)))"

definition disable_site :: "nat \<Rightarrow> 'w mach \<Rightarrow> nat \<Rightarrow> ('w process, unit) op" where
  "disable_site n K i =
     op_bind (op_gets (\<lambda>p. breakpoint_sites p ! i)) (\<lambda>s.
     if \<not> site_enabled s then op_return ()
     else
       op_bind (if site_hardware s then clear_hardware_stoppoint K (site_register_index s)
                else write_memory n K (site_address s) (word_bytes (saved_data s))) (\<lambda>_.
       modify_site i (\<lambda>s. s\<lparr>site_enabled := False\<rparr>)))"

text \<open>The counter behind \<open>get_next_id\<close> is a signed 32-bit integer.\<close>

definition next_id :: "int \<Rightarrow> int result" where
  "next_id k = (if k = 2 ^ 31 - 1 then undefined_behaviour ''id overflow'' else Inr (k + 1))"

definition new_site :: "nat option \<Rightarrow> int \<Rightarrow> u64 \<Rightarrow> bool \<Rightarrow> bool \<Rightarrow> breakpoint_site" where
  "new_site parent k a hardware internal =
     \<lparr>site_id = k, site_address = a, site_enabled = False, saved_data = 0, site_hardware = hardware,
      site_internal = internal, site_register_index = -1, site_parent = parent\<rparr>"

definition push_site :: "breakpoint_site \<Rightarrow> ('w process, nat) op" where
  "push_site s =
     op_bind (op_modify (\<lambda>p. p\<lparr>breakpoint_sites := push s (breakpoint_sites p)\<rparr>)) (\<lambda>_.
     op_gets (\<lambda>p. length (breakpoint_sites p) - 1))"

definition create_breakpoint_site :: "u64 \<Rightarrow> bool \<Rightarrow> bool \<Rightarrow> ('w process, nat) op" where
  "create_breakpoint_site a hardware internal =
     op_bind (op_gets (\<lambda>p. contains_address site_class a (breakpoint_sites p))) (\<lambda>taken.
     if taken then op_send (''Breakpoint site already created at address '' @ decimal (unat a))
     else if internal then push_site (new_site None (-1) a hardware internal)
     else
       op_bind (op_gets last_site_id) (\<lambda>last.
       op_bind (op_lift (next_id last)) (\<lambda>k.
       op_bind (op_modify (\<lambda>p. p\<lparr>last_site_id := k\<rparr>)) (\<lambda>_.
       push_site (new_site None k a hardware internal)))))"

definition create_parent_site :: "nat \<Rightarrow> int \<Rightarrow> u64 \<Rightarrow> bool \<Rightarrow> bool \<Rightarrow> ('w process, nat) op" where
  "create_parent_site parent k a hardware internal =
     op_bind (op_gets (\<lambda>p. contains_address site_class a (breakpoint_sites p))) (\<lambda>taken.
     if taken then op_send (''Breakpoint site already created at address '' @ decimal (unat a))
     else push_site (new_site (Some parent) k a hardware internal))"

definition update_sites :: "(breakpoint_site list \<Rightarrow> breakpoint_site list) \<Rightarrow> 'w process \<Rightarrow> 'w process" where
  "update_sites f p = p\<lparr>breakpoint_sites := f (breakpoint_sites p)\<rparr>"

definition remove_site_by_address :: "nat \<Rightarrow> 'w mach \<Rightarrow> u64 \<Rightarrow> ('w process, unit) op" where
  "remove_site_by_address n K = remove_by_address site_class breakpoint_sites update_sites (disable_site n K)"

definition remove_site_by_id :: "nat \<Rightarrow> 'w mach \<Rightarrow> int \<Rightarrow> ('w process, unit) op" where
  "remove_site_by_id n K = remove_by_id site_class breakpoint_sites update_sites (disable_site n K)"

section \<open>Watchpoints\<close>

definition modify_watchpoint :: "nat \<Rightarrow> (watchpoint \<Rightarrow> watchpoint) \<Rightarrow> ('w process, unit) op" where
  "modify_watchpoint i f = op_modify (\<lambda>p. p\<lparr>watchpoints := (watchpoints p)[i := f (watchpoints p ! i)]\<rparr>)"

definition enable_watchpoint :: "'w mach \<Rightarrow> nat \<Rightarrow> ('w process, unit) op" where
  "enable_watchpoint K i =
     op_bind (op_gets (\<lambda>p. watchpoints p ! i)) (\<lambda>s.
     if wp_enabled s then op_return ()
     else
       op_bind (set_watchpoint K (wp_address s) (wp_mode s) (wp_size s)) (\<lambda>k.
       modify_watchpoint i (\<lambda>s. s\<lparr>wp_register_index := k, wp_enabled := True\<rparr>)))"

definition disable_watchpoint :: "'w mach \<Rightarrow> nat \<Rightarrow> ('w process, unit) op" where
  "disable_watchpoint K i =
     op_bind (op_gets (\<lambda>p. watchpoints p ! i)) (\<lambda>s.
     if \<not> wp_enabled s then op_return ()
     else
       op_bind (clear_hardware_stoppoint K (wp_register_index s)) (\<lambda>_.
       modify_watchpoint i (\<lambda>s. s\<lparr>wp_enabled := False\<rparr>)))"

text \<open>\<open>update_data\<close> copies \<open>size_\<close> bytes into a 64-bit variable.\<close>

definition updated_data :: "'w mach \<Rightarrow> 'w process \<Rightarrow> watchpoint \<Rightarrow> watchpoint result" where
  "updated_data K p s =
     bind_res (read_memory K p (wp_address s) (unat (wp_size s))) (\<lambda>bs.
     if length bs \<le> 8
     then Inr (s\<lparr>wp_previous_data := wp_data s, wp_data := le_word bs\<rparr>)
     else undefined_behaviour ''memcpy past the end of new_data'')"

definition new_watchpoint :: "int \<Rightarrow> u64 \<Rightarrow> stoppoint_mode \<Rightarrow> u64 \<Rightarrow> watchpoint" where
  "new_watchpoint k a mode sz =
     \<lparr>wp_id = k, wp_address = a, wp_mode = mode, wp_size = sz, wp_enabled = False,
      wp_register_index = -1, wp_data = 0, wp_previous_data = 0\<rparr>"

definition create_watchpoint :: "'w mach \<Rightarrow> u64 \<Rightarrow> stoppoint_mode \<Rightarrow> u64 \<Rightarrow> ('w process, nat) op" where
  "create_watchpoint K a mode sz =
     op_bind (op_gets (\<lambda>p. contains_address watchpoint_class a (watchpoints p))) (\<lambda>taken.
     if taken then op_send (''Watchpoint already created at address '' @ decimal (unat a))
     else if a AND (sz - 1) \<noteq> 0 then op_send ''Watchpoint must be aligned to size''
     else
       op_bind (op_gets last_watchpoint_id) (\<lambda>last.
       op_bind (op_lift (next_id last)) (\<lambda>k.
       op_bind (op_modify (\<lambda>p. p\<lparr>last_watchpoint_id := k\<rparr>)) (\<lambda>_.
       op_bind (op_gets (\<lambda>p. updated_data K p (new_watchpoint k a mode sz))) (\<lambda>made.
       op_bind (op_lift made) (\<lambda>s.
       op_bind (op_modify (\<lambda>p. p\<lparr>watchpoints := push s (watchpoints p)\<rparr>)) (\<lambda>_.
       op_gets (\<lambda>p. length (watchpoints p) - 1))))))))"

definition update_watchpoints :: "(watchpoint list \<Rightarrow> watchpoint list) \<Rightarrow> 'w process \<Rightarrow> 'w process" where
  "update_watchpoints f p = p\<lparr>watchpoints := f (watchpoints p)\<rparr>"

definition remove_watchpoint_by_id :: "'w mach \<Rightarrow> int \<Rightarrow> ('w process, unit) op" where
  "remove_watchpoint_by_id K = remove_by_id watchpoint_class watchpoints update_watchpoints (disable_watchpoint K)"

section \<open>Registers of a thread\<close>

definition registers_at :: "'w process \<Rightarrow> int \<Rightarrow> registers result" where
  "registers_at p t = bind_res (map_at (map_of (threads p)) t) (\<lambda>s. Inr (thread_regs s))"

definition get_registers :: "'w process \<Rightarrow> int option \<Rightarrow> registers result" where
  "get_registers p t = registers_at p (case t of None \<Rightarrow> current_thread p | Some t \<Rightarrow> t)"

definition get_pc :: "'w mach \<Rightarrow> 'w process \<Rightarrow> int option \<Rightarrow> u64 result" where
  "get_pc K p t = bind_res (get_registers p t) (\<lambda>rs. read_by_id_as_u64 (mach_native K) rs PC)"

text \<open>The stoppoint that raised the trap: later matches replace earlier ones.\<close>

definition hardware_sites :: "'w mach \<Rightarrow> 'w process \<Rightarrow> int option \<Rightarrow> breakpoint_site list \<Rightarrow> (int + int) option \<Rightarrow>
    (int + int) option result" where
  "hardware_sites K p t sites result =
     foldl (\<lambda>acc b. bind_res acc (\<lambda>found.
        if site_enabled b \<and> site_hardware b
        then bind_res (get_pc K p t) (\<lambda>pc. Inr (if site_address b = pc then Some (Inl (site_id b)) else found))
        else Inr found)) (Inr result) sites"

definition get_current_hardware_stoppoint :: "'w mach \<Rightarrow> 'w process \<Rightarrow> int option \<Rightarrow> (int + int) result" where
  "get_current_hardware_stoppoint K p t =
     bind_res (hardware_sites K p t (breakpoint_sites p) None) (\<lambda>found.
     let found' = foldl (\<lambda>acc w. if wp_enabled w \<and> wp_register_index w = hit_slot p then Some (Inr (wp_id w)) else acc)
                    found (watchpoints p)
     in case found' of None \<Rightarrow> send ''No matching hardware stoppoint'' | Some r \<Rightarrow> Inr r)"

section \<open>The two collections\<close>

text \<open>Both classes keep the contract of a stoppoint with one address.\<close>

interpretation site_coll: addressed_stoppoints site_class site_address
  by unfold_locales (auto simp: site_class_def)

interpretation watch_coll: addressed_stoppoints watchpoint_class wp_address
  by unfold_locales (auto simp: watchpoint_class_def)

end
