(* ===== verification/Process_Traps.thy ===== *)
theory Process_Traps
  imports Process
begin

text \<open>
  Memory and software breakpoints.  A software breakpoint replaces an instruction by a trap, keeps
  the instruction in \<open>saved_data\<close> and puts it back.  The theory states what the memory calls of the
  kernel do (\<open>kernel_memory\<close>), shows what \<open>write_memory\<close> does, and proves the invariant behind
  transparent breakpoints: the memory is always the program's own memory with the traps of the
  enabled sites laid over it.
\<close>

section \<open>Memory as a partial function\<close>

definition mapped :: "(u64 \<Rightarrow> byte option) \<Rightarrow> u64 \<Rightarrow> nat \<Rightarrow> bool" where
  "mapped M a n \<longleftrightarrow> (\<forall>i < n. M (a + word_of_nat i) \<noteq> None)"

definition contents :: "(u64 \<Rightarrow> byte option) \<Rightarrow> u64 \<Rightarrow> nat \<Rightarrow> byte list" where
  "contents M a n = map (\<lambda>i. the (M (a + word_of_nat i))) [0..<n]"

definition store :: "(u64 \<Rightarrow> byte option) \<Rightarrow> u64 \<Rightarrow> byte list \<Rightarrow> u64 \<Rightarrow> byte option" where
  "store M a bs x = (if unat (x - a) < length bs then Some (bs ! unat (x - a)) else M x)"

text \<open>
  What the documentation of the memory calls promises, for a view \<open>mem\<close> of the memory of the task:
  a read succeeds exactly on mapped memory and delivers its bytes; the region found for a mapped
  address contains it; changing the protection keeps the bytes; a write to mapped memory replaces
  exactly the bytes written; setting the debug state of a thread does not touch memory.
\<close>

definition kernel_memory :: "'w mach \<Rightarrow> ('w \<Rightarrow> u64 \<Rightarrow> byte option) \<Rightarrow> bool" where
  "kernel_memory K mem \<longleftrightarrow>
     (\<forall>w a n bs. 0 < n \<longrightarrow> (vm_read K w a n = Inr bs \<longleftrightarrow> mapped (mem w) a n \<and> bs = contents (mem w) a n)) \<and>
     (\<forall>w a. mem w a \<noteq> None \<longrightarrow>
        (\<exists>r. vm_region K w a = Inr r \<and> unat (rgn_start r) \<le> unat a \<and> unat a < unat (rgn_start r) + unat (rgn_size r))) \<and>
     (\<forall>w a k prot. \<exists>w'. vm_protect K w a k prot = (None, w') \<and> mem w' = mem w) \<and>
     (\<forall>w a bs. mapped (mem w) a (length bs) \<longrightarrow>
        (\<exists>w'. vm_write K w a bs = (None, w') \<and> mem w' = store (mem w) a bs)) \<and>
     (\<forall>w port d. mem (snd (set_debug K w port d)) = mem w)"

lemma kernel_memoryD:
  assumes "kernel_memory K mem"
  shows kernel_read: "0 < n \<Longrightarrow> vm_read K w a n = Inr bs \<longleftrightarrow> mapped (mem w) a n \<and> bs = contents (mem w) a n"
    and kernel_region: "mem w a \<noteq> None \<Longrightarrow> \<exists>r. vm_region K w a = Inr r \<and> unat (rgn_start r) \<le> unat a \<and>
      unat a < unat (rgn_start r) + unat (rgn_size r)"
    and kernel_protect: "\<exists>w'. vm_protect K w a k prot = (None, w') \<and> mem w' = mem w"
    and kernel_write: "mapped (mem w) a (length bs) \<Longrightarrow>
      \<exists>w'. vm_write K w a bs = (None, w') \<and> mem w' = store (mem w) a bs"
    and kernel_debug: "mem (snd (set_debug K w port d)) = mem w"
  using assms by (auto simp: kernel_memory_def)

lemma length_contents [simp]: "length (contents M a n) = n"
  by (simp add: contents_def)

lemma contents_nth [simp]: "i < n \<Longrightarrow> contents M a n ! i = the (M (a + word_of_nat i))"
  by (simp add: contents_def)

lemma unat_nat_u64: "i < 2 ^ 64 \<Longrightarrow> unat (word_of_nat i :: u64) = i"
  by (simp add: unat_of_nat)

lemma store_at:
  "i < length bs \<Longrightarrow> length bs \<le> 2 ^ 64 \<Longrightarrow> store M a bs (a + word_of_nat i) = Some (bs ! i)"
  by (simp add: store_def unat_of_nat)

lemma store_Nil [simp]: "store M a [] = M"
  by (auto simp: store_def)

lemma unat_diff_offset:
  fixes x a :: u64
  assumes "off < 2 ^ 64"
  shows "unat (x - (a + word_of_nat off)) =
    (if off \<le> unat (x - a) then unat (x - a) - off else unat (x - a) + 2 ^ 64 - off)"
proof -
  have "unat (word_of_nat off :: u64) = off" using assms by (simp add: unat_of_nat)
  moreover have "unat ((x - a) - word_of_nat off) = (if unat (word_of_nat off :: u64) \<le> unat (x - a)
      then unat (x - a) - unat (word_of_nat off :: u64) else unat (x - a) + 2 ^ 64 - unat (word_of_nat off :: u64))"
    using unat_sub_if' [of "x - a" "word_of_nat off"] by simp
  ultimately show ?thesis unfolding diff_diff_eq [symmetric] by (simp cong: if_cong)
qed

lemma store_chunk:
  assumes "off + k \<le> length d" "length d < 2 ^ 32"
  shows "store (store M a (take off d)) (a + word_of_nat off) (take k (drop off d)) = store M a (take (off + k) d)"
proof
  fix x
  have off: "off < 2 ^ 64" using assms by simp
  show "store (store M a (take off d)) (a + word_of_nat off) (take k (drop off d)) x = store M a (take (off + k) d) x"
    using assms unat_diff_offset [OF off, of x a] by (auto simp: store_def)
qed

lemma mapped_store: "mapped M a n \<Longrightarrow> mapped (store M b bs) a n"
  by (auto simp: mapped_def store_def)

lemma mapped_shift: "mapped M a n \<Longrightarrow> off + k \<le> n \<Longrightarrow> mapped M (a + word_of_nat off) k"
proof -
  assume "mapped M a n" "off + k \<le> n"
  then have "M (a + word_of_nat (off + i)) \<noteq> None" if "i < k" for i
    using that unfolding mapped_def by (metis add_strict_left_mono less_le_trans)
  then show ?thesis by (simp add: mapped_def add.assoc)
qed

section \<open>Writing memory\<close>

lemma region_left:
  fixes at :: u64
  assumes "unat (rgn_start r) \<le> unat at" "unat at < unat (rgn_start r) + unat (rgn_size r)"
  shows "0 < unat (rgn_start r + rgn_size r - at)"
proof -
  have "unat (at - rgn_start r) = unat at - unat (rgn_start r)"
    using assms(1) by (intro unat_sub) (simp add: word_le_nat_alt)
  then have "at - rgn_start r < rgn_size r" using assms by (simp add: word_less_nat_alt)
  then have "rgn_size r - (at - rgn_start r) \<noteq> 0" by auto
  then have "rgn_start r + rgn_size r - at \<noteq> 0" by (simp add: algebra_simps)
  then show ?thesis by (simp add: unat_gt_0)
qed

lemma write_chunk_ok:
  assumes "kernel_memory K mem" "mapped (mem (world p)) (a + word_of_nat off) (length d - off)" "length d < 2 ^ 32"
    "unat (rgn_start r) \<le> unat (a + word_of_nat off)"
    "unat (a + word_of_nat off) < unat (rgn_start r) + unat (rgn_size r)" "off < length d"
  shows "\<exists>k w'. write_chunk K (a + word_of_nat off) d off r p = (Inr (off + k), p\<lparr>world := w'\<rparr>) \<and>
    0 < k \<and> off + k \<le> length d \<and> mem w' = store (mem (world p)) (a + word_of_nat off) (take k (drop off d))"
proof -
  let ?at = "a + word_of_nat off :: u64"
  define k where "k = min (length d - off) (unat (rgn_start r + rgn_size r - ?at))"
  have k: "0 < k" "off + k \<le> length d" using region_left [OF assms(4,5)] assms(6) by (auto simp: k_def)
  then have trunc: "unat (word_of_nat k :: u32) = k" using assms(3) by (simp add: unat_of_nat)
  let ?bs = "take k (drop off d)"
  have bs: "length ?bs = k" using k by simp
  show ?thesis
  proof (cases "rgn_protection r AND VM_PROT_WRITE = 0")
    case True
    obtain w1 where w1: "vm_protect K (world p) ?at (word_of_nat k) VM_PROT_READ_WRITE_COPY = (None, w1)"
        "mem w1 = mem (world p)"
      using kernel_protect [OF assms(1)] by blast
    have "mapped (mem w1) ?at (length ?bs)" using assms(2) w1(2) bs k(2) by (auto simp: mapped_def)
    then obtain w2 where w2: "vm_write K w1 ?at ?bs = (None, w2)" "mem w2 = store (mem w1) ?at ?bs"
      using kernel_write [OF assms(1)] by blast
    obtain w3 where w3: "vm_protect K w2 ?at (word_of_nat k) (rgn_protection r) = (None, w3)" "mem w3 = mem w2"
      using kernel_protect [OF assms(1)] by blast
    have "write_chunk K ?at d off r p = (Inr (off + k), p\<lparr>world := w3\<rparr>)"
      unfolding write_chunk_def Let_def k_def [symmetric] trunc
      using True w1 w2 w3 by (simp add: op_simps checked_call_def sys_call_def check_def)
    with k w1 w2 w3 show ?thesis by auto
  next
    case False
    have "mapped (mem (world p)) ?at (length ?bs)" using assms(2) bs k(2) by (auto simp: mapped_def)
    then obtain w2 where w2: "vm_write K (world p) ?at ?bs = (None, w2)" "mem w2 = store (mem (world p)) ?at ?bs"
      using kernel_write [OF assms(1)] by blast
    have "write_chunk K ?at d off r p = (Inr (off + k), p\<lparr>world := w2\<rparr>)"
      unfolding write_chunk_def Let_def k_def [symmetric] trunc
      using False w2 by (simp add: op_simps checked_call_def sys_call_def check_def)
    with k w2 show ?thesis by auto
  qed
qed

lemma write_memory_loop_ok:
  assumes "kernel_memory K mem" "mapped M a (length d)" "length d < 2 ^ 32"
  shows "off \<le> length d \<Longrightarrow> length d - off < n \<Longrightarrow> mem (world p) = store M a (take off d) \<Longrightarrow>
    \<exists>w'. write_memory_loop n K a d off p = (Inr (), p\<lparr>world := w'\<rparr>) \<and> mem w' = store M a d"
proof (induction n arbitrary: off p)
  case (Suc n)
  show ?case
  proof (cases "off < length d")
    case False
    with Suc.prems show ?thesis by (intro exI [of _ "world p"]) (simp add: op_simps)
  next
    case True
    let ?at = "a + word_of_nat off :: u64"
    have m: "mapped (mem (world p)) ?at (length d - off)"
      unfolding Suc.prems(3) using True by (intro mapped_store mapped_shift [OF assms(2)]) simp
    then have "mem (world p) ?at \<noteq> None" using True by (force simp: mapped_def)
    then obtain r where r: "vm_region K (world p) ?at = Inr r" "unat (rgn_start r) \<le> unat ?at"
        "unat ?at < unat (rgn_start r) + unat (rgn_size r)"
      using kernel_region [OF assms(1)] by blast
    obtain k w where k: "write_chunk K ?at d off r p = (Inr (off + k), p\<lparr>world := w\<rparr>)"
        "0 < k" "off + k \<le> length d" "mem w = store (mem (world p)) ?at (take k (drop off d))"
      using write_chunk_ok [OF assms(1) m assms(3) r(2,3) True] by blast
    have "mem (world (p\<lparr>world := w\<rparr>)) = store M a (take (off + k) d)"
      using k(4) Suc.prems(3) store_chunk [OF k(3) assms(3)] by simp
    moreover have less: "length d - (off + k) < n" using Suc.prems(2) k(2) True by linarith
    ultimately obtain w' where "write_memory_loop n K a d (off + k) (p\<lparr>world := w\<rparr>) = (Inr (), p\<lparr>world := w\<rparr>\<lparr>world := w'\<rparr>)"
        "mem w' = store M a d"
      using Suc.IH [OF k(3), of "p\<lparr>world := w\<rparr>"] less by auto
    with k(1) r True show ?thesis by (auto simp: op_simps Let_def word_less_nat_alt not_less)
  qed
qed simp

lemma write_memory_ok:
  assumes "kernel_memory K mem" "mapped (mem (world p)) a (length d)" "length d < 2 ^ 32" "length d < n"
  shows "\<exists>w'. write_memory n K a d p = (Inr (), p\<lparr>world := w'\<rparr>) \<and> mem w' = store (mem (world p)) a d"
  unfolding write_memory_def using write_memory_loop_ok [OF assms(1-3), of 0] assms(4) by simp

lemma read_memory_ok:
  assumes "kernel_memory K mem"
  shows "read_memory K p a n = Inr bs \<longleftrightarrow> mapped (mem (world p)) a n \<and> bs = contents (mem (world p)) a n"
proof (cases "n = 0")
  case True
  then show ?thesis by (auto simp: read_memory_def mapped_def contents_def)
next
  case False
  then have n: "0 < n" by simp
  show ?thesis
  proof (cases "vm_read K (world p) a n")
    case (Inl e)
    then show ?thesis using kernel_read [OF assms n, of "world p" a bs] False by (auto simp: read_memory_def)
  next
    case (Inr x)
    then show ?thesis using kernel_read [OF assms n, of "world p" a x] False by (auto simp: read_memory_def)
  qed
qed

section \<open>Instructions and traps\<close>

text \<open>The address of the instruction that a byte belongs to.\<close>

definition insn_of :: "u64 \<Rightarrow> u64" where
  "insn_of x = x - x mod 4"

lemma unat_mod_4: "unat (x mod 4 :: u64) = unat x mod 4"
  by (simp add: unat_mod)

lemma mod_4_iff: "(a :: u64) mod 4 = 0 \<longleftrightarrow> unat a mod 4 = 0"
  by (metis unat_mod_4 unat_eq_zero)

lemma aligned_covers:
  fixes a x :: u64
  assumes "a mod 4 = 0"
  shows "unat (x - a) < 4 \<longleftrightarrow> insn_of x = a" "insn_of x = a \<Longrightarrow> unat (x - a) = unat x mod 4"
proof -
  show diff: "insn_of x = a \<Longrightarrow> unat (x - a) = unat x mod 4"
    by (auto simp: insn_of_def unat_mod_4)
  have "insn_of x = a" if less: "unat (x - a) < 4"
  proof -
    have "4 dvd unat a" using assms mod_4_iff by (simp add: mod_eq_0_iff_dvd)
    then obtain k where k: "unat a = 4 * k" ..
    have "unat a < 2 ^ LENGTH(64)" by (rule unsigned_less)
    with k less have "unat a + unat (x - a) < 2 ^ LENGTH(64)" by simp
    then have "unat (a + (x - a)) = unat a + unat (x - a)" unfolding unat_plus_if' by simp
    then have "unat x = 4 * k + unat (x - a)" using k by simp
    then have "unat x mod 4 = unat (x - a)" using less by simp
    then have "x mod 4 = x - a" by (simp add: word_unat_eq_iff unat_mod_4)
    then show ?thesis by (simp add: insn_of_def)
  qed
  moreover have "unat (x - a) < 4" if "insn_of x = a" using diff [OF that] by simp
  ultimately show "unat (x - a) < 4 \<longleftrightarrow> insn_of x = a" by blast
qed

lemma insn_of_offset: "a mod 4 = 0 \<Longrightarrow> i < 4 \<Longrightarrow> insn_of (a + word_of_nat i) = a"
  by (subst aligned_covers(1) [symmetric]) (simp_all add: unat_of_nat)

lemma insn_of_aligned: "insn_of x mod 4 = 0"
proof -
  have "unat (x - x mod 4) = unat x - unat x mod 4"
    by (subst unat_sub) (simp_all add: word_le_nat_alt unat_mod_4)
  then show ?thesis by (simp add: mod_4_iff insn_of_def)
qed

lemma length_word_bytes_u32 [simp]: "length (word_bytes (w :: u32)) = 4"
  by (simp add: word_bytes_def)

text \<open>The memory \<open>M\<close> with the instructions at the addresses \<open>A\<close> replaced by traps.\<close>

definition with_traps :: "u64 set \<Rightarrow> (u64 \<Rightarrow> byte option) \<Rightarrow> u64 \<Rightarrow> byte option" where
  "with_traps A M x = (if insn_of x \<in> A then Some (word_bytes trap_instruction ! (unat x mod 4)) else M x)"

lemma with_traps_empty [simp]: "with_traps {} M = M"
  by (auto simp: with_traps_def)

lemma store_trap:
  assumes "a mod 4 = 0"
  shows "store (with_traps A M) a (word_bytes trap_instruction) = with_traps (insert a A) M"
proof
  fix x
  show "store (with_traps A M) a (word_bytes trap_instruction) x = with_traps (insert a A) M x"
    using aligned_covers [OF assms, of x] by (cases "insn_of x = a") (auto simp: store_def with_traps_def)
qed

lemma store_original:
  assumes "a mod 4 = 0" "mapped M a 4"
  shows "store (with_traps A M) a (contents M a 4) = with_traps (A - {a}) M"
proof
  fix x
  show "store (with_traps A M) a (contents M a 4) x = with_traps (A - {a}) M x"
  proof (cases "insn_of x = a")
    case True
    then have less: "unat (x - a) < 4" using aligned_covers [OF assms(1)] by blast
    have x: "a + word_of_nat (unat (x - a)) = x" by simp
    then have "M x \<noteq> None" using assms(2) less unfolding mapped_def by metis
    then show ?thesis using True less x by (auto simp: store_def with_traps_def)
  next
    case False
    then show ?thesis using aligned_covers [OF assms(1), of x] by (auto simp: store_def with_traps_def)
  qed
qed

lemma contents_with_traps:
  assumes "a mod 4 = 0" "a \<notin> A"
  shows "contents (with_traps A M) a 4 = contents M a 4" "mapped (with_traps A M) a 4 \<longleftrightarrow> mapped M a 4"
  using assms insn_of_offset [OF assms(1)] by (auto simp: contents_def mapped_def with_traps_def)

lemma word_bytes_le_word:
  assumes "length bs = 4"
  shows "word_bytes (le_word bs :: u32) = bs"
proof -
  have "le_nat bs < 2 ^ 32" using le_nat_less [of bs] assms by simp
  then have "unat (word_of_nat (le_nat bs) :: u32) = le_nat bs" by (simp add: unat_of_nat)
  then show ?thesis using nat_le_le_nat [of bs] assms by (simp add: word_bytes_def le_word_def)
qed

section \<open>The invariant\<close>

definition is_trap :: "breakpoint_site \<Rightarrow> bool" where
  "is_trap s \<longleftrightarrow> site_enabled s \<and> \<not> site_hardware s"

definition trap_addresses :: "breakpoint_site list \<Rightarrow> u64 set" where
  "trap_addresses sites = {site_address s | s. s \<in> set sites \<and> is_trap s}"

text \<open>
  \<open>overlay mem M p\<close>: no two sites share an address, every trap stands at an aligned address and
  keeps the instruction of \<open>M\<close> it replaced, and the memory of the task is \<open>M\<close> with the traps of the
  enabled software sites.
\<close>

definition overlay :: "('w \<Rightarrow> u64 \<Rightarrow> byte option) \<Rightarrow> (u64 \<Rightarrow> byte option) \<Rightarrow> 'w process \<Rightarrow> bool" where
  "overlay mem M p \<longleftrightarrow>
     distinct (map site_address (breakpoint_sites p)) \<and>
     (\<forall>s \<in> set (breakpoint_sites p). is_trap s \<longrightarrow>
        site_address s mod 4 = 0 \<and> mapped M (site_address s) 4 \<and>
        word_bytes (saved_data s) = contents M (site_address s) 4) \<and>
     mem (world p) = with_traps (trap_addresses (breakpoint_sites p)) M"

lemma trap_addresses_update:
  assumes "distinct (map site_address sites)" "i < length sites" "site_address s = site_address (sites ! i)"
  shows "trap_addresses (sites[i := s]) =
    (if is_trap s then insert (site_address s) (trap_addresses sites) else trap_addresses sites - {site_address s})"
proof -
  have others: "site_address (sites ! j) \<noteq> site_address (sites ! i)" if "j < length sites" "j \<noteq> i" for j
    using assms(1,2) that by (auto simp: distinct_conv_nth)
  have "trap_addresses (sites[i := s]) =
      {site_address (sites[i := s] ! j) | j. j < length sites \<and> is_trap (sites[i := s] ! j)}"
    by (auto simp: trap_addresses_def in_set_conv_nth)
  also have "\<dots> = (if is_trap s then {site_address s} else {}) \<union>
      {site_address (sites ! j) | j. j < length sites \<and> j \<noteq> i \<and> is_trap (sites ! j)}"
    using assms(2) by (auto simp: nth_list_update split: if_splits)
  also have "{site_address (sites ! j) | j. j < length sites \<and> j \<noteq> i \<and> is_trap (sites ! j)} =
      trap_addresses sites - {site_address s}"
    using others assms(3) by (auto simp: trap_addresses_def in_set_conv_nth)
  finally show ?thesis by auto
qed

lemma trap_addresses_iff:
  assumes "distinct (map site_address sites)" "i < length sites"
  shows "site_address (sites ! i) \<in> trap_addresses sites \<longleftrightarrow> is_trap (sites ! i)"
  using assms by (auto simp: trap_addresses_def in_set_conv_nth distinct_conv_nth)

lemma map_update_same: "i < length xs \<Longrightarrow> f y = f (xs ! i) \<Longrightarrow> map f (xs[i := y]) = map f xs"
  by (metis list_update_id map_update)

text \<open>Replacing a site by one at the same address, with the memory that belongs to it.\<close>

lemma overlay_update:
  assumes "overlay mem M p" "i < length (breakpoint_sites p)"
    "site_address s = site_address (breakpoint_sites p ! i)"
    "is_trap s \<Longrightarrow> site_address s mod 4 = 0 \<and> mapped M (site_address s) 4 \<and> word_bytes (saved_data s) = contents M (site_address s) 4"
    "mem (world q) = with_traps (if is_trap s then insert (site_address s) (trap_addresses (breakpoint_sites p))
       else trap_addresses (breakpoint_sites p) - {site_address s}) M"
    "breakpoint_sites q = (breakpoint_sites p)[i := s]"
  shows "overlay mem M q"
  unfolding overlay_def
proof (intro conjI ballI impI)
  have d: "distinct (map site_address (breakpoint_sites p))" using assms(1) by (simp add: overlay_def)
  then show "distinct (map site_address (breakpoint_sites q))"
    using assms(2,3,6) by (simp add: map_update_same)
  show "mem (world q) = with_traps (trap_addresses (breakpoint_sites q)) M"
    using trap_addresses_update [OF d assms(2,3)] assms(5,6) by simp
  fix t assume t: "t \<in> set (breakpoint_sites q)" "is_trap t"
  have "t = s \<or> t \<in> set (breakpoint_sites p)"
    using set_update_subset_insert [of "breakpoint_sites p" i s] t(1) unfolding assms(6) by blast
  moreover have "\<forall>u \<in> set (breakpoint_sites p). is_trap u \<longrightarrow> site_address u mod 4 = 0 \<and> mapped M (site_address u) 4 \<and>
      word_bytes (saved_data u) = contents M (site_address u) 4"
    using assms(1) unfolding overlay_def by blast
  ultimately have "site_address t mod 4 = 0 \<and> mapped M (site_address t) 4 \<and>
      word_bytes (saved_data t) = contents M (site_address t) 4"
    using t(2) assms(4) by blast
  then show "site_address t mod 4 = 0" "mapped M (site_address t) 4"
      "word_bytes (saved_data t) = contents M (site_address t) 4"
    by blast+
qed

section \<open>The operations keep it\<close>

text \<open>Setting debug registers touches neither the memory nor the sites.\<close>

definition same_traps :: "('w \<Rightarrow> u64 \<Rightarrow> byte option) \<Rightarrow> (u64 \<Rightarrow> byte option) \<Rightarrow> breakpoint_site list \<Rightarrow> 'w process \<Rightarrow> bool" where
  "same_traps mem M sites p \<longleftrightarrow> mem (world p) = M \<and> breakpoint_sites p = sites"

lemma same_traps_set_debug:
  assumes "kernel_memory K mem"
  shows "preserves (same_traps mem M sites) (sys_call (\<lambda>w. set_debug K w port d))"
  using kernel_debug [OF assms]
  by (auto simp: preserves_def same_traps_def sys_call_def split: prod.splits) (metis snd_conv)+

lemma same_traps_debug_regs: "preserves (same_traps mem M sites) (op_modify (\<lambda>p. p\<lparr>debug_regs := f p\<rparr>))"
  by (rule preserves_modify) (simp add: same_traps_def)

lemma same_traps_commit:
  assumes "kernel_memory K mem"
  shows "preserves (same_traps mem M sites) (commit_debug K what)" "preserves (same_traps mem M sites) (force_debug K)"
  unfolding commit_debug_def force_debug_def checked_call_def
  by (auto intro!: preserves_bind preserves_each same_traps_set_debug [OF assms] split: prod.splits)

lemma same_traps_hardware:
  assumes "kernel_memory K mem"
  shows "preserves (same_traps mem M sites) (set_hardware_stoppoint K a mode sz)"
    and "preserves (same_traps mem M sites) (clear_hardware_stoppoint K i)"
  unfolding set_hardware_stoppoint_def clear_hardware_stoppoint_def
  by (auto intro!: preserves_bind preserves_catch same_traps_debug_regs same_traps_commit [OF assms] split: option.splits)

lemma overlay_same_traps:
  assumes "overlay mem M p" "preserves (same_traps mem (mem (world p)) (breakpoint_sites p)) m" "m p = (r, q)"
  shows "overlay mem M q" "breakpoint_sites q = breakpoint_sites p"
proof -
  have "same_traps mem (mem (world p)) (breakpoint_sites p) q"
    using preservesD [OF assms(2) _ assms(3)] by (simp add: same_traps_def)
  with assms(1) show "overlay mem M q" "breakpoint_sites q = breakpoint_sites p"
    by (auto simp: overlay_def same_traps_def)
qed

lemma overlay_modify_site:
  assumes "overlay mem M p" "i < length (breakpoint_sites p)"
    "site_address (f (breakpoint_sites p ! i)) = site_address (breakpoint_sites p ! i)"
    "is_trap (f (breakpoint_sites p ! i)) \<longleftrightarrow> is_trap (breakpoint_sites p ! i)"
    "is_trap (breakpoint_sites p ! i) \<Longrightarrow> saved_data (f (breakpoint_sites p ! i)) = saved_data (breakpoint_sites p ! i)"
  shows "overlay mem M (snd (modify_site i f p))"
proof -
  let ?s = "breakpoint_sites p ! i"
  have d: "distinct (map site_address (breakpoint_sites p))"
    and m: "mem (world p) = with_traps (trap_addresses (breakpoint_sites p)) M"
    and t: "is_trap ?s \<Longrightarrow> site_address ?s mod 4 = 0 \<and> mapped M (site_address ?s) 4 \<and>
        word_bytes (saved_data ?s) = contents M (site_address ?s) 4"
    using assms(1,2) by (auto simp: overlay_def)
  have "(if is_trap (f ?s) then insert (site_address (f ?s)) (trap_addresses (breakpoint_sites p))
      else trap_addresses (breakpoint_sites p) - {site_address (f ?s)}) = trap_addresses (breakpoint_sites p)"
    using trap_addresses_iff [OF d assms(2)] assms(3,4) by auto
  then show ?thesis
    using t assms(3-5) m
    by (intro overlay_update [OF assms(1,2), where s = "f ?s"]) (auto simp: modify_site_def op_simps)
qed

lemma insert_trap_effect:
  assumes K: "kernel_memory K mem" "4 < n" and p: "overlay mem M p" "i < length (breakpoint_sites p)"
    and s: "s = breakpoint_sites p ! i" "\<not> site_enabled s" "\<not> site_hardware s"
  shows "case insert_trap n K i s p of
      (Inl e, q) \<Rightarrow> overlay mem M q
    | (Inr _, q) \<Rightarrow> overlay mem M (snd (modify_site i (\<lambda>s. s\<lparr>site_enabled := True\<rparr>) q))"
proof (cases "site_address s mod 4 = 0")
  case False
  then show ?thesis using p(1) by (simp add: insert_trap_def op_simps)
next
  case aligned: True
  let ?a = "site_address s" and ?A = "trap_addresses (breakpoint_sites p)"
  have d: "distinct (map site_address (breakpoint_sites p))" and mem: "mem (world p) = with_traps ?A M"
    using p(1) by (simp_all add: overlay_def)
  have out: "?a \<notin> ?A" using trap_addresses_iff [OF d p(2)] s by (simp add: is_trap_def)
  show ?thesis
  proof (cases "read_memory_as_u32 K p ?a")
    case (Inl e)
    then show ?thesis using aligned p(1) by (simp add: insert_trap_def op_simps)
  next
    case (Inr v)
    then have "mapped (mem (world p)) ?a 4" "v = le_word (contents (mem (world p)) ?a 4)"
      by (auto simp: read_memory_as_u32_def res_simps read_memory_ok [OF K(1)])
    then have read: "mapped M ?a 4" "v = le_word (contents M ?a 4)"
      using contents_with_traps [OF aligned out] by (simp_all add: mem)
    define p1 where "p1 = p\<lparr>breakpoint_sites := (breakpoint_sites p)[i := s\<lparr>saved_data := v\<rparr>]\<rparr>"
    obtain w where w: "write_memory n K ?a (word_bytes trap_instruction) p1 = (Inr (), p1\<lparr>world := w\<rparr>)"
        "mem w = store (mem (world p)) ?a (word_bytes trap_instruction)"
      using write_memory_ok [OF K(1), of p1 ?a "word_bytes trap_instruction" n] K(2) \<open>mapped (mem (world p)) ?a 4\<close>
      by (auto simp: p1_def)
    have "insert_trap n K i s p = (Inr (), p1\<lparr>world := w\<rparr>)"
      using aligned Inr w(1) s(1) by (simp add: insert_trap_def op_simps modify_site_def p1_def)
    moreover have "overlay mem M (snd (modify_site i (\<lambda>s. s\<lparr>site_enabled := True\<rparr>) (p1\<lparr>world := w\<rparr>)))"
      using aligned read w(2) s p(2) store_trap [OF aligned, of ?A M] mem
      by (intro overlay_update [OF p, where s = "s\<lparr>saved_data := v, site_enabled := True\<rparr>"])
        (auto simp: modify_site_def op_simps p1_def is_trap_def word_bytes_le_word)
    ultimately show ?thesis by simp
  qed
qed

lemma enable_site_overlay:
  assumes K: "kernel_memory K mem" "4 < n" and p: "overlay mem M p" "i < length (breakpoint_sites p)"
  shows "overlay mem M (snd (enable_site n K i p))"
proof -
  let ?s = "breakpoint_sites p ! i"
  consider "site_enabled ?s" | (hw) "\<not> site_enabled ?s" "site_hardware ?s" | (sw) "\<not> site_enabled ?s" "\<not> site_hardware ?s"
    by blast
  then show ?thesis
  proof cases
    case 1
    then show ?thesis using p by (simp add: enable_site_def op_simps)
  next
    case hw
    obtain r q where q: "set_hardware_breakpoint K (site_address ?s) p = (r, q)" by fastforce
    have ov: "overlay mem M q" "breakpoint_sites q = breakpoint_sites p"
      using overlay_same_traps [OF p(1) same_traps_hardware(1) [OF K(1)]] q
      by (simp_all add: set_hardware_breakpoint_def)
    show ?thesis
    proof (cases r)
      case (Inr k)
      have "overlay mem M (snd (modify_site i (\<lambda>s. s\<lparr>site_register_index := k, site_enabled := True\<rparr>) q))"
        using hw ov p(2) by (intro overlay_modify_site) (auto simp: is_trap_def)
      with hw q Inr ov p(2) show ?thesis by (simp add: enable_site_def op_simps modify_site_def)
    qed (use hw q ov in \<open>simp add: enable_site_def op_simps\<close>)
  next
    case sw
    show ?thesis
      using insert_trap_effect [OF K p refl sw] sw
      by (auto simp: enable_site_def op_simps modify_site_def split: prod.splits sum.splits)
  qed
qed

lemma disable_site_overlay:
  assumes K: "kernel_memory K mem" "4 < n" and p: "overlay mem M p" "i < length (breakpoint_sites p)"
  shows "overlay mem M (snd (disable_site n K i p))"
    and "fst (disable_site n K i p) = Inr () \<Longrightarrow> i < length (breakpoint_sites (snd (disable_site n K i p))) \<and>
      \<not> site_enabled (breakpoint_sites (snd (disable_site n K i p)) ! i)"
proof -
  let ?s = "breakpoint_sites p ! i" and ?r = "disable_site n K i p"
  consider "\<not> site_enabled ?s" | (hw) "site_enabled ?s" "site_hardware ?s" | (sw) "site_enabled ?s" "\<not> site_hardware ?s"
    by blast
  then have "overlay mem M (snd ?r) \<and> (fst ?r = Inr () \<longrightarrow> i < length (breakpoint_sites (snd ?r)) \<and>
      \<not> site_enabled (breakpoint_sites (snd ?r) ! i))"
  proof cases
    case 1
    then show ?thesis using p by (simp add: disable_site_def op_simps)
  next
    case hw
    obtain r q where q: "clear_hardware_stoppoint K (site_register_index ?s) p = (r, q)" by fastforce
    have ov: "overlay mem M q" "breakpoint_sites q = breakpoint_sites p"
      using overlay_same_traps [OF p(1) same_traps_hardware(2) [OF K(1)] q] by simp_all
    show ?thesis
    proof (cases r)
      case (Inr k)
      have "overlay mem M (snd (modify_site i (\<lambda>s. s\<lparr>site_enabled := False\<rparr>) q))"
        using hw ov p(2) by (intro overlay_modify_site) (auto simp: is_trap_def)
      with hw q Inr ov p(2) show ?thesis by (simp add: disable_site_def op_simps modify_site_def)
    qed (use hw q ov in \<open>simp add: disable_site_def op_simps\<close>)
  next
    case sw
    let ?a = "site_address ?s" and ?A = "trap_addresses (breakpoint_sites p)"
    have mem: "mem (world p) = with_traps ?A M" and s: "?a mod 4 = 0" "mapped M ?a 4"
        "word_bytes (saved_data ?s) = contents M ?a 4"
      using p sw by (auto simp: overlay_def is_trap_def)
    have "mapped (mem (world p)) ?a 4" using s(2) unfolding mem by (auto simp: mapped_def with_traps_def)
    then obtain w where w: "write_memory n K ?a (word_bytes (saved_data ?s)) p = (Inr (), p\<lparr>world := w\<rparr>)"
        "mem w = store (mem (world p)) ?a (contents M ?a 4)"
      using write_memory_ok [OF K(1), of p ?a "word_bytes (saved_data ?s)" n] K(2) s(3) by auto
    have "overlay mem M (snd (modify_site i (\<lambda>s. s\<lparr>site_enabled := False\<rparr>) (p\<lparr>world := w\<rparr>)))"
      using s w(2) store_original [OF s(1,2), of ?A] mem
      by (intro overlay_update [OF p, where s = "?s\<lparr>site_enabled := False\<rparr>"])
        (auto simp: modify_site_def op_simps is_trap_def)
    with sw w(1) p(2) show ?thesis by (simp add: disable_site_def op_simps modify_site_def)
  qed
  then show "overlay mem M (snd ?r)" "fst ?r = Inr () \<Longrightarrow> i < length (breakpoint_sites (snd ?r)) \<and>
      \<not> site_enabled (breakpoint_sites (snd ?r) ! i)"
    by blast+
qed

lemma trap_addresses_push: "\<not> is_trap s \<Longrightarrow> trap_addresses (push s sites) = trap_addresses sites"
  by (auto simp: trap_addresses_def push_def)

lemma overlay_push:
  assumes "overlay mem M p" "\<not> contains_address site_class (site_address s) (breakpoint_sites p)" "\<not> is_trap s"
    "world q = world p" "breakpoint_sites q = push s (breakpoint_sites p)"
  shows "overlay mem M q"
  using assms site_coll.push_distinct [of "breakpoint_sites p" s]
  by (auto simp: overlay_def trap_addresses_push) (auto simp: push_def)

lemma create_site_overlay:
  assumes "overlay mem M p"
  shows "overlay mem M (snd (create_breakpoint_site a hardware internal p))"
    and "overlay mem M (snd (create_parent_site parent k a hardware internal p))"
proof -
  have new: "site_address (new_site parent k a hardware internal) = a" "\<not> is_trap (new_site parent k a hardware internal)"
    for parent k by (simp_all add: new_site_def is_trap_def)
  have pushed: "overlay mem M (q\<lparr>breakpoint_sites := push (new_site parent k a hardware internal) (breakpoint_sites p)\<rparr>)"
    if "\<not> contains_address site_class a (breakpoint_sites p)" "world q = world p" for q parent k
    using overlay_push [OF assms, of "new_site parent k a hardware internal"] that new by simp
  have last: "overlay mem M (p\<lparr>last_site_id := k\<rparr>)" for k using assms by (simp add: overlay_def)
  show "overlay mem M (snd (create_breakpoint_site a hardware internal p))"
    using assms pushed last
    by (auto simp: create_breakpoint_site_def op_simps push_site_def next_id_def undefined_behaviour_def)
  show "overlay mem M (snd (create_parent_site parent k a hardware internal p))"
    using assms pushed by (auto simp: create_parent_site_def op_simps push_site_def)
qed

lemma overlay_erase:
  assumes "overlay mem M p" "i < length (breakpoint_sites p)" "\<not> site_enabled (breakpoint_sites p ! i)"
  shows "overlay mem M (update_sites (erase i) p)"
proof -
  have d: "distinct (map site_address (breakpoint_sites p))" using assms(1) by (simp add: overlay_def)
  have "trap_addresses (erase i (breakpoint_sites p)) = trap_addresses (breakpoint_sites p)"
    using trap_addresses_iff [OF d assms(2)] assms(3) set_erase_distinct [OF d assms(2)]
    by (auto simp: trap_addresses_def is_trap_def)
  with assms(1) show ?thesis
    using distinct_erase [OF d] set_erase_subset [of i "breakpoint_sites p"]
    by (auto simp: overlay_def update_sites_def)
qed

lemma remove_found_overlay:
  assumes "kernel_memory K mem" "4 < n" "overlay mem M p" "i < length (breakpoint_sites p)"
  shows "overlay mem M (snd (remove_found breakpoint_sites update_sites (disable_site n K) i p))"
proof -
  obtain r q where q: "disable_site n K i p = (r, q)" by fastforce
  note ov = disable_site_overlay [OF assms]
  show ?thesis
  proof (cases r)
    case (Inl e)
    then show ?thesis using q ov(1) assms(4) by (simp add: remove_found_def op_simps)
  next
    case (Inr x)
    then have "i < length (breakpoint_sites q)" "\<not> site_enabled (breakpoint_sites q ! i)" using ov(2) q by simp_all
    with ov(1) q have "overlay mem M (update_sites (erase i) q)" by (intro overlay_erase) auto
    then show ?thesis using q Inr assms(4) by (simp add: remove_found_def op_simps)
  qed
qed

section \<open>Sequences of operations\<close>

text \<open>
  What a user of the process can do with breakpoint sites, in any order and whether an operation
  returns or throws.  Removing requires the site to exist, as the code does.
\<close>

inductive site_step :: "nat \<Rightarrow> 'w mach \<Rightarrow> 'w process \<Rightarrow> 'w process \<Rightarrow> bool" for n K where
  create: "site_step n K p (snd (create_breakpoint_site a hardware internal p))"
| create_for: "site_step n K p (snd (create_parent_site parent k a hardware internal p))"
| enable: "i < length (breakpoint_sites p) \<Longrightarrow> site_step n K p (snd (enable_site n K i p))"
| disable: "i < length (breakpoint_sites p) \<Longrightarrow> site_step n K p (snd (disable_site n K i p))"
| remove_address: "contains_address site_class a (breakpoint_sites p) \<Longrightarrow>
    site_step n K p (snd (remove_site_by_address n K a p))"
| remove_id: "contains_id site_class k (breakpoint_sites p) \<Longrightarrow>
    site_step n K p (snd (remove_site_by_id n K k p))"

lemma site_step_overlay:
  assumes "kernel_memory K mem" "4 < n" "site_step n K p q" "overlay mem M p"
  shows "overlay mem M q"
  using assms(3,4)
proof cases
  case (remove_address a)
  then have "find_by_address site_class a (breakpoint_sites p) < length (breakpoint_sites p)"
    using find_if_le [of "\<lambda>s. sp_at_address site_class s a" "breakpoint_sites p"]
    by (simp add: contains_address_def find_by_address_def)
  then show ?thesis
    using remove_found_overlay [OF assms(1,2,4)] remove_address
    by (simp add: remove_site_by_address_def remove_by_address_def op_simps)
next
  case (remove_id k)
  then have "find_by_id site_class k (breakpoint_sites p) < length (breakpoint_sites p)"
    using find_if_le [of "\<lambda>s. sp_id site_class s = k" "breakpoint_sites p"]
    by (simp add: contains_id_def find_by_id_def)
  then show ?thesis
    using remove_found_overlay [OF assms(1,2,4)] remove_id
    by (simp add: remove_site_by_id_def remove_by_id_def op_simps)
qed (use assms create_site_overlay enable_site_overlay disable_site_overlay(1) in \<open>auto\<close>)

lemma site_steps_overlay:
  assumes "kernel_memory K mem" "4 < n" "(site_step n K)\<^sup>*\<^sup>* p q" "overlay mem M p"
  shows "overlay mem M q"
  using assms(3,4) by (induction rule: rtranclp_induct) (auto intro: site_step_overlay [OF assms(1,2)])

section \<open>Reading without traps\<close>

lemma offset_iff:
  fixes x a :: u64
  assumes "i < 2 ^ 64"
  shows "x = a + word_of_nat i \<longleftrightarrow> unat (x - a) = i"
proof
  assume "unat (x - a) = i"
  then have "a + word_of_nat (unat (x - a)) = a + word_of_nat i" by simp
  then show "x = a + word_of_nat i" by simp
qed (use assms in \<open>simp add: unat_of_nat\<close>)

lemma length_restore_byte [simp]: "length (restore_byte a n bp i bs) = length bs"
  by (simp add: restore_byte_def Let_def)

lemma restore_byte_nth:
  assumes "j < n" "length bs = n" "unat a + n \<le> 2 ^ 64" "i < 4"
  shows "restore_byte a n bp i bs ! j =
    (if a + word_of_nat j = site_address bp + word_of_nat i then word_bytes (saved_data bp) ! i else bs ! j)"
proof -
  let ?x = "site_address bp + word_of_nat i :: u64"
  have j: "unat (word_of_nat j :: u64) = j" using assms(1,3) by (simp add: unat_of_nat)
  have low: "a \<le> a + word_of_nat j" using assms(1,3) j by (simp add: word_le_nat_alt unat_plus_if')
  have "unat (?x - a) = j \<longleftrightarrow> a + word_of_nat j = ?x"
    using offset_iff [of j ?x a] assms(1,3) by auto
  then show ?thesis using assms(1,2) low j
    by (auto simp: restore_byte_def Let_def nth_list_update)
qed

lemma restore_site_nth:
  assumes "j < n" "length bs = n" "unat a + n \<le> 2 ^ 64" "is_trap bp \<Longrightarrow> site_address bp mod 4 = 0"
  shows "length (restore_site a n bp bs) = n" "restore_site a n bp bs ! j =
    (if is_trap bp \<and> insn_of (a + word_of_nat j) = site_address bp
     then word_bytes (saved_data bp) ! (unat (a + word_of_nat j) mod 4) else bs ! j)"
proof -
  let ?x = "a + word_of_nat j :: u64"
  have len: "length (fold (restore_byte a n bp) is bs) = n" for "is" using assms(2)
    by (induction "is" arbitrary: bs) auto
  then show "length (restore_site a n bp bs) = n" using assms(2) by (simp add: restore_site_def)
  show "restore_site a n bp bs ! j = (if is_trap bp \<and> insn_of ?x = site_address bp
     then word_bytes (saved_data bp) ! (unat ?x mod 4) else bs ! j)"
  proof (cases "is_trap bp")
    case False
    then show ?thesis by (auto simp: restore_site_def is_trap_def)
  next
    case True
    have "fold (restore_byte a n bp) [0..<k] bs ! j =
        (if unat (?x - site_address bp) < k then word_bytes (saved_data bp) ! unat (?x - site_address bp) else bs ! j)"
      if "k \<le> 4" for k
      using that
    proof (induction k)
      case (Suc k)
      have "?x = site_address bp + word_of_nat k \<longleftrightarrow> unat (?x - site_address bp) = k"
        using Suc.prems by (intro offset_iff) simp
      then show ?case using Suc restore_byte_nth [OF assms(1) len assms(3), of k] by (auto simp: less_Suc_eq)
    qed simp
    from this [of 4] True show ?thesis
      using aligned_covers [OF assms(4) [OF True], of ?x] by (auto simp: restore_site_def is_trap_def)
  qed
qed

lemma fold_restore_nth:
  assumes "j < n" "unat a + n \<le> 2 ^ 64"
    "\<forall>s \<in> set sites. is_trap s \<longrightarrow> site_address s mod 4 = 0 \<and> word_bytes (saved_data s) = contents M (site_address s) 4"
  shows "length bs = n \<Longrightarrow> length (fold (restore_site a n) sites bs) = n \<and> fold (restore_site a n) sites bs ! j =
    (if insn_of (a + word_of_nat j) \<in> trap_addresses sites then the (M (a + word_of_nat j)) else bs ! j)"
  using assms(3)
proof (induction sites arbitrary: bs)
  case (Cons s sites)
  let ?x = "a + word_of_nat j :: u64"
  have site: "is_trap s \<Longrightarrow> site_address s mod 4 = 0" and saved: "is_trap s \<Longrightarrow> word_bytes (saved_data s) = contents M (site_address s) 4"
    using Cons.prems(2) by auto
  note r = restore_site_nth [OF assms(1) Cons.prems(1) assms(2) site]
  have "word_bytes (saved_data s) ! (unat ?x mod 4) = the (M ?x)" if "is_trap s" "insn_of ?x = site_address s"
  proof -
    have "unat (?x - site_address s) = unat ?x mod 4" using aligned_covers(2) [OF site] that by simp
    moreover have "site_address s + word_of_nat (unat (?x - site_address s)) = ?x" by simp
    ultimately have "site_address s + word_of_nat (unat ?x mod 4) = ?x" by simp
    then show ?thesis using saved [OF that(1)] contents_nth [of "unat ?x mod 4" 4 M "site_address s"] by simp
  qed
  moreover have "trap_addresses (s # sites) = (if is_trap s then insert (site_address s) (trap_addresses sites) else trap_addresses sites)"
    by (auto simp: trap_addresses_def)
  ultimately show ?case using Cons.IH [OF r(1)] Cons.prems(2) r(2) by auto
qed (auto simp: trap_addresses_def)

lemma read_without_traps_ok:
  assumes "kernel_memory K mem" "overlay mem M p" "mapped M a n" "unat a + n \<le> 2 ^ 64"
  shows "read_memory_without_traps K p a n = Inr (contents M a n)"
proof -
  let ?A = "trap_addresses (breakpoint_sites p)"
  have mem: "mem (world p) = with_traps ?A M" using assms(2) by (simp add: overlay_def)
  have "mapped (mem (world p)) a n" using assms(3) by (auto simp: mem mapped_def with_traps_def)
  then have "read_memory K p a n = Inr (contents (mem (world p)) a n)" using read_memory_ok [OF assms(1)] by blast
  moreover have "fold (restore_site a n) (breakpoint_sites p) (contents (mem (world p)) a n) = contents M a n"
  proof (rule nth_equalityI)
    have sites: "\<forall>s \<in> set (breakpoint_sites p). is_trap s \<longrightarrow>
        site_address s mod 4 = 0 \<and> word_bytes (saved_data s) = contents M (site_address s) 4"
      using assms(2) by (simp add: overlay_def)
    note nth = fold_restore_nth [OF _ assms(4) sites, of _ "contents (mem (world p)) a n"]
    show len: "length (fold (restore_site a n) (breakpoint_sites p) (contents (mem (world p)) a n)) = length (contents M a n)"
      using nth by (cases n) (auto simp: contents_def restore_site_def restore_byte_def fold_invariant
          [where P = "\<lambda>bs. bs = []" and Q = "\<lambda>x. True"])
    fix j assume "j < length (fold (restore_site a n) (breakpoint_sites p) (contents (mem (world p)) a n))"
    then have "j < n" using len by simp
    then show "fold (restore_site a n) (breakpoint_sites p) (contents (mem (world p)) a n) ! j = contents M a n ! j"
      using nth [of j] by (auto simp: mem with_traps_def)
  qed
  ultimately show ?thesis by (simp add: read_memory_without_traps_def)
qed

section \<open>Properties\<close>

text \<open>
  Writing memory.  On mapped memory \<open>write_memory\<close> returns, in no more iterations of its loop than
  there are bytes to write and one, and has then replaced exactly those bytes, however the range is
  cut into regions and whether or not they had to be made writable; nothing else of the process
  changes.
\<close>

theorem write_memory_correct:
  assumes "kernel_memory K mem" "mapped (mem (world p)) a (length d)" "length d < 2 ^ 32" "length d < n"
  shows "\<exists>w. write_memory n K a d p = (Inr (), p\<lparr>world := w\<rparr>) \<and> mem w = store (mem (world p)) a d"
  by (rule write_memory_ok [OF assms])


text \<open>A kernel whose state is the memory of the task, one region per byte, all of it read-only.\<close>

definition demo_kernel :: "(u64 \<Rightarrow> byte option) mach" where
  "demo_kernel = \<lparr>mach_native = darwin_arm64,
     vm_read = (\<lambda>w a n. if mapped w a n then Inr (contents w a n) else Inl ''(os/kern) invalid address''),
     vm_region = (\<lambda>w a. Inr \<lparr>rgn_start = a, rgn_size = 1, rgn_protection = 5\<rparr>),
     vm_protect = (\<lambda>w a k prot. (None, w)),
     vm_write = (\<lambda>w a bs. (None, store w a bs)),
     set_debug = (\<lambda>w port d. (None, w)), set_gprs = (\<lambda>w port bs. (None, w)), set_fprs = (\<lambda>w port bs. (None, w)),
     get_gprs = (\<lambda>w port. Inr (replicate 272 0)), get_fprs = (\<lambda>w port. Inr (replicate 528 0)), get_exception = (\<lambda>w port. None),
     suspend_thread = (\<lambda>w port. (None, w)), resume_thread = (\<lambda>w port. (None, w)),
     ptrace = (\<lambda>w req sig. (None, w)), wait_pid = (\<lambda>w. (Inr 0, w)),
     task_for_pid = (\<lambda>w k. (None, w)), task_threads = (\<lambda>w. Inr [(7, Some 1)]),
     deallocate_port = (\<lambda>w port. (None, w)), visit = id\<rparr>"

lemma demo_kernel_memory: "kernel_memory demo_kernel id"
  by (auto simp: kernel_memory_def demo_kernel_def)

definition demo_process :: "(u64 \<Rightarrow> byte option) process" where
  "demo_process = \<lparr>world = (\<lambda>x. if x < 0x2000 then Some (ucast x) else None), has_task = True, ports = [(1, 7)], threads = [],
     stepping = False, main_thread = 1, pending_signal = 0, tracing_syscalls = False, queued_stop = None,
     debug_regs = \<lparr>dbg_bvr = replicate 16 0, dbg_bcr = replicate 16 0, dbg_wvr = replicate 16 0,
       dbg_wcr = replicate 16 0, dbg_mdscr = 0\<rparr>,
     hit_slot = -1, pid = 42, terminate_on_end = True, run_state = Stopped, is_attached = True,
     breakpoint_sites = [], watchpoints = [], catch_policy = catch_none, expecting_syscall_exit = False,
     current_thread = 1, last_site_id = 0, last_watchpoint_id = 0\<rparr>"

lemma demo_mapped: "mapped (world demo_process) 0x1000 4"
proof -
  have "(0x1000 :: u64) + word_of_nat i < 0x2000" if "i < 4" for i
  proof -
    from that consider "i = 0" | "i = 1" | "i = 2" | "i = 3" by linarith
    then show ?thesis by cases simp_all
  qed
  then show ?thesis by (simp add: mapped_def demo_process_def)
qed

theorem write_memory_correct_witness:
  "\<exists>w. write_memory 5 demo_kernel 0x1000 [1, 2, 3, 4] demo_process = (Inr (), demo_process\<lparr>world := w\<rparr>) \<and>
     id w = store (id (world demo_process)) 0x1000 [1, 2, 3, 4]"
proof (rule write_memory_correct [OF demo_kernel_memory])
  show "mapped (id (world demo_process)) 0x1000 (length [1, 2, 3, 4 :: byte])"
    using demo_mapped by (simp add: numeral_eq_Suc)
qed simp_all

definition demo_trapped :: "(u64 \<Rightarrow> byte option) process" where
  "demo_trapped = snd (enable_site 5 demo_kernel 0 (snd (create_breakpoint_site 0x1000 False False demo_process)))"


section \<open>What stoppoints leave alone\<close>

text \<open>
  What the operations on memory and debug registers ask of a property of the process so that they keep it: the three system calls they
  make keep it, and it does not look at the debug registers.
\<close>

locale system_frame =
  fixes K :: "'w mach" and I :: "'w process \<Rightarrow> bool"
  assumes protect: "I p \<Longrightarrow> I (p\<lparr>world := snd (vm_protect K (world p) a n x)\<rparr>)"
    and mem_write: "I p \<Longrightarrow> I (p\<lparr>world := snd (vm_write K (world p) a bs)\<rparr>)"
    and debug: "I p \<Longrightarrow> I (p\<lparr>world := snd (set_debug K (world p) port s)\<rparr>)"
    and regs: "I p \<Longrightarrow> I (p\<lparr>debug_regs := d\<rparr>)"
begin

lemma calls:
  "preserves I (sys_call (\<lambda>w. vm_protect K w a n x))" "preserves I (sys_call (\<lambda>w. vm_write K w a bs))"
  "preserves I (sys_call (\<lambda>w. set_debug K w port s))"
  using protect mem_write debug by (auto simp: preserves_def sys_call_def split: prod.splits) (metis snd_conv)+

lemma memory: "preserves I (write_memory n K a data)"
proof -
  have "preserves I (write_memory_loop n K a data off)" for off
  proof (induction n arbitrary: off)
    case (Suc n)
    show ?case
      unfolding write_memory_loop.simps Let_def write_chunk_def checked_call_def
      by (auto intro!: preserves_bind calls Suc split: sum.splits)
  qed simp
  then show ?thesis by (simp add: write_memory_def)
qed

lemma hardware: "preserves I (set_hardware_stoppoint K a mode sz)" "preserves I (clear_hardware_stoppoint K i)"
proof -
  have commit: "preserves I (commit_debug K what)" "preserves I (force_debug K)" for what
    unfolding commit_debug_def force_debug_def checked_call_def
    by (auto intro!: preserves_bind preserves_each calls split: prod.splits)
  show "preserves I (set_hardware_stoppoint K a mode sz)" "preserves I (clear_hardware_stoppoint K i)"
    unfolding set_hardware_stoppoint_def clear_hardware_stoppoint_def
    by (auto intro!: preserves_bind preserves_catch preserves_modify commit regs split: option.splits)
qed

end

text \<open>The operations on breakpoint sites also ask that the property does not look at the sites.\<close>

locale stoppoint_frame = system_frame +
  assumes sites: "I p \<Longrightarrow> I (p\<lparr>breakpoint_sites := S\<rparr>)"
begin

lemma toggle: "preserves I (enable_site k K i)" "preserves I (disable_site k K i)"
proof -
  have site: "preserves I (modify_site i f)" for f
    unfolding modify_site_def by (intro preserves_modify sites)
  show "preserves I (enable_site k K i)"
    unfolding enable_site_def insert_trap_def set_hardware_breakpoint_def by (auto intro!: preserves_bind site memory hardware)
  show "preserves I (disable_site k K i)"
    unfolding disable_site_def by (auto intro!: preserves_bind site memory hardware)
qed

lemma push: "preserves I (push_site s)" "preserves I (create_parent_site key b a hw intl)"
proof -
  show push: "preserves I (push_site s)" for s
    unfolding push_site_def by (auto intro!: preserves_bind preserves_modify sites)
  show "preserves I (create_parent_site key b a hw intl)"
    unfolding create_parent_site_def by (auto intro!: preserves_bind push)
qed

end

end
