(* ===== verification/Process_Hardware.thy ===== *)
theory Process_Hardware
  imports Process_Traps "HOL-Library.Multiset"
begin

text \<open>
  Hardware stoppoints.  The processor has sixteen slots for breakpoints and sixteen for
  watchpoints; \<open>set_hardware_stoppoint\<close> looks for a free one, and \<open>clear_hardware_stoppoint\<close> frees
  it again.  The theory shows that every enabled hardware stoppoint owns a slot of its own that
  holds its address and its control word, that the slots run out with an error, and that a failed
  installation is rolled back.
\<close>

section \<open>Claims on slots\<close>

datatype claim = Claim (claim_slot: int) (claim_mode: stoppoint_mode) (claim_address: u64) (claim_size: nat)

definition site_claim :: "breakpoint_site \<Rightarrow> claim" where
  "site_claim s = Claim (site_register_index s) Execute (site_address s) 4"

definition wp_claim :: "watchpoint \<Rightarrow> claim" where
  "wp_claim w = Claim (wp_register_index w) (wp_mode w) (wp_address w) (unat (wp_size w))"

definition claims :: "breakpoint_site list \<Rightarrow> watchpoint list \<Rightarrow> claim multiset" where
  "claims sites wps =
     image_mset site_claim (filter_mset (\<lambda>s. site_enabled s \<and> site_hardware s) (mset sites)) +
     image_mset wp_claim (filter_mset wp_enabled (mset wps))"

text \<open>The slot of a claim exists and contains its address and its control word.\<close>

definition granted :: "debug_state \<Rightarrow> claim \<Rightarrow> bool" where
  "granted d c \<longleftrightarrow>
     (let k = claim_slot c; a = claim_address c; w = control_word (claim_mode c) a (claim_size c) in
      if claim_mode c = Execute
      then 0 \<le> k \<and> k < 16 \<and> dbg_bvr d ! nat k = a \<and> dbg_bcr d ! nat k = w
      else 16 \<le> k \<and> k < 32 \<and> dbg_wvr d ! nat (k - 16) = a AND NOT 7 \<and> dbg_wcr d ! nat (k - 16) = w)"

definition slots_ok :: "debug_state \<Rightarrow> claim multiset \<Rightarrow> bool" where
  "slots_ok d C \<longleftrightarrow>
     length (dbg_bvr d) = 16 \<and> length (dbg_bcr d) = 16 \<and> length (dbg_wvr d) = 16 \<and> length (dbg_wcr d) = 16 \<and>
     (\<forall>k. count (image_mset claim_slot C) k \<le> 1) \<and> (\<forall>c. c \<in># C \<longrightarrow> granted d c)"

definition hardware_ok :: "'w process \<Rightarrow> bool" where
  "hardware_ok p \<longleftrightarrow> slots_ok (debug_regs p) (claims (breakpoint_sites p) (watchpoints p))"

lemma control_word_busy: "control_word mode a sz AND 1 \<noteq> 0"
proof -
  have "bit (control_word mode a sz AND 1) 0" by (simp add: control_word_def bit_simps)
  then show ?thesis by (metis bit_0_eq bot_apply bot_bool_def)
qed

lemma free_slot_Some: "free_slot control = Some i \<Longrightarrow> i < 16 \<and> control ! i AND 1 = 0"
  by (auto simp: free_slot_def find_Some_iff)

definition new_claim :: "stoppoint_mode \<Rightarrow> u64 \<Rightarrow> nat \<Rightarrow> nat \<Rightarrow> claim" where
  "new_claim mode a sz i = Claim (if mode = Execute then int i else int i + 16) mode a sz"

lemma install_slot_ok:
  assumes "slots_ok d C" "i < 16" "(if mode = Execute then dbg_bcr d else dbg_wcr d) ! i AND 1 = 0"
  shows "slots_ok (install_slot mode a sz i d) (add_mset (new_claim mode a sz i) C)"
proof -
  let ?c = "new_claim mode a sz i" and ?d = "install_slot mode a sz i d"
  have new: "granted ?d ?c" using assms(1,2)
    by (auto simp: granted_def install_slot_def new_claim_def slots_ok_def Let_def)
  have other: "claim_slot c \<noteq> claim_slot ?c \<and> granted ?d c" if "c \<in># C" for c
  proof -
    have g: "granted d c" using assms(1) that by (simp add: slots_ok_def)
    have "\<not> (claim_mode c = Execute \<longleftrightarrow> mode = Execute) \<or> claim_slot c \<noteq> claim_slot ?c"
      using g assms(3) control_word_busy [of "claim_mode c" "claim_address c" "claim_size c"]
      by (auto simp: granted_def new_claim_def Let_def split: if_splits)
    with g assms(2) show ?thesis
      by (auto simp: granted_def new_claim_def install_slot_def Let_def nth_list_update split: if_splits)
  qed
  have "claim_slot ?c \<notin># image_mset claim_slot C" using other by fastforce
  then have "count (image_mset claim_slot C) (claim_slot ?c) = 0" by (simp only: not_in_iff)
  then have "count (image_mset claim_slot (add_mset ?c C)) k \<le> 1" for k
    using assms(1) by (auto simp: slots_ok_def)
  then show ?thesis
    using assms(1) new other by (auto simp: slots_ok_def install_slot_def)
qed

lemma clear_slot_ok:
  assumes "slots_ok d (add_mset c C)"
  shows "0 \<le> claim_slot c" "claim_slot c < 32" "slots_ok (clear_slot (nat (claim_slot c)) d) C"
proof -
  have c: "granted d c" using assms by (simp add: slots_ok_def)
  then show range: "0 \<le> claim_slot c" "claim_slot c < 32" by (auto simp: granted_def Let_def split: if_splits)
  have "granted (clear_slot (nat (claim_slot c)) d) e" if "e \<in># C" for e
  proof -
    have e: "granted d e" using assms that by (simp add: slots_ok_def)
    have "count (image_mset claim_slot (add_mset c C)) (claim_slot c) \<le> 1" using assms by (simp only: slots_ok_def)
    then have "count (image_mset claim_slot C) (claim_slot c) = 0" by simp
    then have "claim_slot e \<noteq> claim_slot c" using that by (metis count_eq_zero_iff image_eqI set_image_mset)
    with e range show ?thesis
      by (auto simp: granted_def clear_slot_def Let_def nth_list_update nat_eq_iff split: if_splits)
  qed
  moreover have "count (image_mset claim_slot C) k \<le> 1" for k
    using assms unfolding slots_ok_def by (metis (mono_tags) count_add_mset image_mset_add_mset le_SucI le_trans order_refl
        le_less nat_less_le lessI)
  ultimately show "slots_ok (clear_slot (nat (claim_slot c)) d) C"
    using assms by (auto simp: slots_ok_def clear_slot_def)
qed

section \<open>Claims of updated collections\<close>

lemma filter_update_add:
  assumes "i < length xs" "\<not> P (xs ! i)" "P y"
  shows "filter_mset P (mset (xs[i := y])) = add_mset y (filter_mset P (mset xs))"
  using assms by (simp add: mset_update)

lemma filter_update_remove:
  assumes "i < length xs" "P (xs ! i)" "\<not> P y"
  shows "filter_mset P (mset xs) = add_mset (xs ! i) (filter_mset P (mset (xs[i := y])))"
  using assms by (simp add: mset_update)

lemma filter_update_none:
  assumes "i < length xs" "\<not> P (xs ! i)" "\<not> P y"
  shows "filter_mset P (mset (xs[i := y])) = filter_mset P (mset xs)"
  using assms by (simp add: mset_update)

lemma mset_erase: "i < length xs \<Longrightarrow> mset xs = add_mset (xs ! i) (mset (erase i xs))"
proof -
  assume "i < length xs"
  then have "mset xs = mset (take i xs @ xs ! i # drop (Suc i) xs)" by (metis id_take_nth_drop)
  then show ?thesis by (simp add: erase_def)
qed

section \<open>What the operations do\<close>

text \<open>Everything but the operations on debug registers and stoppoints leaves them alone.\<close>

definition same_hardware :: "debug_state \<Rightarrow> breakpoint_site list \<Rightarrow> watchpoint list \<Rightarrow> 'w process \<Rightarrow> bool" where
  "same_hardware D S wps p \<longleftrightarrow> debug_regs p = D \<and> breakpoint_sites p = S \<and> watchpoints p = wps"

lemma same_hardware_call: "preserves (same_hardware D S wps) (sys_call f)"
  by (auto simp: preserves_def sys_call_def same_hardware_def split: prod.splits)

lemma same_hardware_checked: "preserves (same_hardware D S wps) (checked_call f what)"
  unfolding checked_call_def by (auto intro!: preserves_bind same_hardware_call)

lemma same_hardware_write: "preserves (same_hardware D S wps) (write_memory_loop n K a d off)"
proof (induction n arbitrary: off)
  case (Suc n)
  show ?case
    unfolding write_memory_loop.simps Let_def write_chunk_def
    by (auto intro!: preserves_bind same_hardware_call same_hardware_checked Suc split: sum.splits)
qed simp

lemma same_hardware_commit:
  "preserves (same_hardware D S wps) (commit_debug K what)" "preserves (same_hardware D S wps) (force_debug K)"
  unfolding commit_debug_def force_debug_def
  by (auto intro!: preserves_bind preserves_each same_hardware_call same_hardware_checked split: prod.splits)

lemma op_each_exception:
  "\<forall>x \<in> set xs. \<forall>s e t. f x s = (Inl e, t) \<longrightarrow> is_exception e \<Longrightarrow> op_each f xs s = (Inl e, t) \<Longrightarrow> is_exception e"
proof (induction xs arbitrary: s)
  case (Cons x xs)
  obtain r u where u: "f x s = (r, u)" by fastforce
  show ?case
  proof (cases r)
    case (Inl e')
    then show ?thesis using Cons.prems u by (auto simp: op_simps)
  next
    case (Inr y)
    then show ?thesis using Cons.prems Cons.IH [of u] u by (simp add: op_simps)
  qed
qed (simp add: op_simps)

lemma commit_exception: "commit_debug K what p = (Inl e, q) \<Longrightarrow> is_exception e"
proof -
  have "is_exception e" if "checked_call f what s = (Inl e, t)" for f s e and t :: "'a process"
    using that by (auto simp: checked_call_def op_simps sys_call_def check_def send_def split: prod.splits option.splits)
  then show "commit_debug K what p = (Inl e, q) \<Longrightarrow> ?thesis"
    unfolding commit_debug_def op_simps
    by (auto simp: op_simps elim!: op_each_exception [rotated])
qed

lemma force_debug_total: "\<exists>q. force_debug K p = (Inr (), q)"
proof -
  have "\<exists>q. op_each (\<lambda>(t, port). op_bind (op_gets debug_regs) (\<lambda>d.
        op_bind (sys_call (\<lambda>w. set_debug K w port d)) (\<lambda>_. op_return ()))) ps p = (Inr (), q)" for ps p
    by (induction ps arbitrary: p) (auto simp: op_simps sys_call_def split: prod.splits)
  then show ?thesis by (simp add: force_debug_def op_simps)
qed

lemma set_hardware_effect:
  assumes "set_hardware_stoppoint K a mode sz p = (r, q)"
  shows "breakpoint_sites q = breakpoint_sites p \<and> watchpoints q = watchpoints p \<and>
    (case r of
       Inl e \<Rightarrow> debug_regs q = debug_regs p
     | Inr k \<Rightarrow> \<exists>i < 16. (if mode = Execute then dbg_bcr (debug_regs p) else dbg_wcr (debug_regs p)) ! i AND 1 = 0 \<and>
         debug_regs q = install_slot mode a (unat sz) i (debug_regs p) \<and>
         k = (if mode = Execute then int i else int i + 16))"
proof (cases "free_slot (if mode = Execute then dbg_bcr (debug_regs p) else dbg_wcr (debug_regs p))")
  case None
  then show ?thesis using assms by (auto simp: set_hardware_stoppoint_def op_simps split: if_splits)
next
  case (Some i)
  let ?d = "install_slot mode a (unat sz) i (debug_regs p)" and ?p = "p\<lparr>debug_regs := install_slot mode a (unat sz) i (debug_regs p)\<rparr>"
  obtain s t where c: "commit_debug K ''set hardware stoppoint'' ?p = (s, t)" by fastforce
  have t: "same_hardware ?d (breakpoint_sites p) (watchpoints p) t"
    by (rule preservesD [OF same_hardware_commit(1) _ c]) (simp add: same_hardware_def)
  obtain u where u: "force_debug K (t\<lparr>debug_regs := debug_regs p\<rparr>) = (Inr (), u)" using force_debug_total by blast
  have "same_hardware (debug_regs p) (breakpoint_sites p) (watchpoints p) u"
    by (rule preservesD [OF same_hardware_commit(2) _ u]) (use t in \<open>simp add: same_hardware_def\<close>)
  with assms Some c t u show ?thesis
    using free_slot_Some [OF Some] commit_exception [of K _ ?p]
    by (auto simp: set_hardware_stoppoint_def op_simps op_catch_def same_hardware_def split: if_splits sum.splits)
qed

lemma clear_hardware_effect:
  assumes "clear_hardware_stoppoint K i p = (r, q)"
  shows "breakpoint_sites q = breakpoint_sites p" "watchpoints q = watchpoints p"
    "r = Inr () \<Longrightarrow> debug_regs q = clear_slot (nat i) (debug_regs p)"
proof -
  let ?D = "if i < 0 \<or> 32 \<le> i then debug_regs p else clear_slot (nat i) (debug_regs p)"
  have "same_hardware ?D (breakpoint_sites p) (watchpoints p) q"
  proof (cases "i < 0 \<or> 32 \<le> i")
    case True
    then show ?thesis using assms by (auto simp: clear_hardware_stoppoint_def op_simps same_hardware_def)
  next
    case False
    then have "commit_debug K ''clear hardware stoppoint'' (p\<lparr>debug_regs := ?D\<rparr>) = (r, q)"
      using assms by (simp add: clear_hardware_stoppoint_def op_simps)
    then show ?thesis by (rule preservesD [OF same_hardware_commit(1), rotated]) (simp add: same_hardware_def)
  qed
  moreover have "\<not> (i < 0 \<or> 32 \<le> i)" if "r = Inr ()"
    using assms that by (auto simp: clear_hardware_stoppoint_def op_simps)
  ultimately show "breakpoint_sites q = breakpoint_sites p" "watchpoints q = watchpoints p"
    "r = Inr () \<Longrightarrow> debug_regs q = clear_slot (nat i) (debug_regs p)"
    by (auto simp: same_hardware_def)
qed

definition hardware_site :: "breakpoint_site \<Rightarrow> bool" where
  "hardware_site s \<longleftrightarrow> site_enabled s \<and> site_hardware s"

lemma claims_alt:
  "claims sites wps = image_mset site_claim (filter_mset hardware_site (mset sites)) +
     image_mset wp_claim (filter_mset wp_enabled (mset wps))"
  by (simp add: claims_def hardware_site_def [abs_def])

lemma write_memory_same_hardware:
  assumes "write_memory n K a d p = (r, q)"
  shows "debug_regs q = debug_regs p" "breakpoint_sites q = breakpoint_sites p" "watchpoints q = watchpoints p"
  using preservesD [OF same_hardware_write _ assms [unfolded write_memory_def], of "debug_regs p" "breakpoint_sites p" "watchpoints p"]
  by (auto simp: same_hardware_def)

lemma insert_trap_hardware:
  assumes "insert_trap n K i (breakpoint_sites p ! i) p = (r, q)" "\<not> site_hardware (breakpoint_sites p ! i)"
  shows "debug_regs q = debug_regs p \<and> watchpoints q = watchpoints p \<and>
    (\<exists>t. breakpoint_sites q = (breakpoint_sites p)[i := t] \<and> \<not> site_hardware t)"
proof (cases "site_address (breakpoint_sites p ! i) mod 4 = 0 \<and> (\<exists>v. read_memory_as_u32 K p (site_address (breakpoint_sites p ! i)) = Inr v)")
  case True
  let ?s = "breakpoint_sites p ! i"
  obtain v where "read_memory_as_u32 K p (site_address ?s) = Inr v" using True by blast
  with True assms(1) have "write_memory n K (site_address ?s) (word_bytes trap_instruction)
      (p\<lparr>breakpoint_sites := (breakpoint_sites p)[i := ?s\<lparr>saved_data := v\<rparr>]\<rparr>) = (r, q)"
    by (simp add: insert_trap_def op_simps modify_site_def)
  from write_memory_same_hardware [OF this] assms(2) show ?thesis by auto
next
  case False
  then have "q = p" using assms(1) by (auto simp: insert_trap_def op_simps split: sum.splits if_splits)
  then show ?thesis using assms(2) by (metis list_update_id)
qed

lemma enable_site_hardware:
  assumes p: "hardware_ok p" "i < length (breakpoint_sites p)"
  shows "hardware_ok (snd (enable_site n K i p))"
proof -
  let ?s = "breakpoint_sites p ! i"
  consider "site_enabled ?s" | (hw) "\<not> site_enabled ?s" "site_hardware ?s" | (sw) "\<not> site_enabled ?s" "\<not> site_hardware ?s"
    by blast
  then show ?thesis
  proof cases
    case 1
    then show ?thesis using p by (simp add: enable_site_def op_simps)
  next
    case hw
    obtain r q where q: "set_hardware_stoppoint K (site_address ?s) Execute 4 p = (r, q)" by fastforce
    note eff = set_hardware_effect [OF q]
    show ?thesis
    proof (cases r)
      case (Inl e)
      then show ?thesis using p(1) q eff hw by (simp add: enable_site_def set_hardware_breakpoint_def op_simps hardware_ok_def)
    next
      case (Inr k)
      then obtain j where j: "j < 16" "dbg_bcr (debug_regs p) ! j AND 1 = 0" "k = int j"
          "debug_regs q = install_slot Execute (site_address ?s) 4 j (debug_regs p)"
        using eff by auto
      let ?new = "?s\<lparr>site_register_index := k, site_enabled := True\<rparr>"
      have "claims ((breakpoint_sites p)[i := ?new]) (watchpoints p) =
          add_mset (new_claim Execute (site_address ?s) 4 j) (claims (breakpoint_sites p) (watchpoints p))"
        using hw filter_update_add [OF p(2), of hardware_site ?new] j(3)
        by (simp add: claims_alt hardware_site_def site_claim_def new_claim_def)
      then have "slots_ok (debug_regs q) (claims ((breakpoint_sites p)[i := ?new]) (watchpoints p))"
        using install_slot_ok [OF p(1) [unfolded hardware_ok_def] j(1), of Execute] j(2,4) by simp
      then show ?thesis using q eff hw Inr p(2)
        by (simp add: enable_site_def set_hardware_breakpoint_def op_simps hardware_ok_def modify_site_def)
    qed
  next
    case sw
    obtain r q where q: "insert_trap n K i ?s p = (r, q)" by fastforce
    obtain t where t: "debug_regs q = debug_regs p" "watchpoints q = watchpoints p"
        "breakpoint_sites q = (breakpoint_sites p)[i := t]" "\<not> site_hardware t"
      using insert_trap_hardware [OF q sw(2)] by blast
    have soft: "claims ((breakpoint_sites p)[i := u]) (watchpoints p) = claims (breakpoint_sites p) (watchpoints p)"
      if "\<not> site_hardware u" for u
      using sw that filter_update_none [OF p(2), of hardware_site u] by (simp add: claims_alt hardware_site_def)
    show ?thesis
    proof (cases r)
      case (Inl e)
      then show ?thesis using p(1) q sw t soft [OF t(4)] by (simp add: enable_site_def op_simps hardware_ok_def)
    next
      case (Inr x)
      then show ?thesis using p q sw t soft [of "t\<lparr>site_enabled := True\<rparr>"]
        by (simp add: enable_site_def op_simps hardware_ok_def modify_site_def)
    qed
  qed
qed

lemma disable_site_hardware:
  assumes "hardware_ok p" "i < length (breakpoint_sites p)" "disable_site n K i p = (Inr (), q)"
  shows "hardware_ok q" "i < length (breakpoint_sites q)" "\<not> site_enabled (breakpoint_sites q ! i)"
proof -
  let ?s = "breakpoint_sites p ! i" and ?off = "(breakpoint_sites p ! i)\<lparr>site_enabled := False\<rparr>"
  consider "\<not> site_enabled ?s" | (hw) "site_enabled ?s" "site_hardware ?s" | (sw) "site_enabled ?s" "\<not> site_hardware ?s"
    by blast
  then have "hardware_ok q \<and> i < length (breakpoint_sites q) \<and> \<not> site_enabled (breakpoint_sites q ! i)"
  proof cases
    case 1
    then show ?thesis using assms by (simp add: disable_site_def op_simps)
  next
    case hw
    obtain t where t: "clear_hardware_stoppoint K (site_register_index ?s) p = (Inr (), t)"
        "q = t\<lparr>breakpoint_sites := (breakpoint_sites t)[i := (breakpoint_sites t ! i)\<lparr>site_enabled := False\<rparr>]\<rparr>"
      using assms(3) hw by (auto simp: disable_site_def op_simps modify_site_def split: prod.splits sum.splits)
    note eff = clear_hardware_effect [OF t(1)]
    have "claims (breakpoint_sites p) (watchpoints p) =
        add_mset (site_claim ?s) (claims ((breakpoint_sites p)[i := ?off]) (watchpoints p))"
      using hw filter_update_remove [OF assms(2), of hardware_site ?off] by (simp add: claims_alt hardware_site_def)
    then have "slots_ok (clear_slot (nat (site_register_index ?s)) (debug_regs p)) (claims ((breakpoint_sites p)[i := ?off]) (watchpoints p))"
      using clear_slot_ok(3) [of "debug_regs p" "site_claim ?s"] assms(1) by (simp add: hardware_ok_def site_claim_def)
    then show ?thesis using eff t(2) assms(2) by (simp add: hardware_ok_def)
  next
    case sw
    obtain t where t: "write_memory n K (site_address ?s) (word_bytes (saved_data ?s)) p = (Inr (), t)"
        "q = t\<lparr>breakpoint_sites := (breakpoint_sites t)[i := (breakpoint_sites t ! i)\<lparr>site_enabled := False\<rparr>]\<rparr>"
      using assms(3) sw by (auto simp: disable_site_def op_simps modify_site_def split: prod.splits sum.splits)
    note eff = write_memory_same_hardware [OF t(1)]
    have "claims ((breakpoint_sites p)[i := ?off]) (watchpoints p) = claims (breakpoint_sites p) (watchpoints p)"
      using sw filter_update_none [OF assms(2), of hardware_site ?off] by (simp add: claims_alt hardware_site_def)
    then show ?thesis using eff t(2) assms(1,2) by (simp add: hardware_ok_def)
  qed
  then show "hardware_ok q" "i < length (breakpoint_sites q)" "\<not> site_enabled (breakpoint_sites q ! i)" by blast+
qed

lemma enable_watchpoint_hardware:
  assumes p: "hardware_ok p" "i < length (watchpoints p)"
  shows "hardware_ok (snd (enable_watchpoint K i p))"
proof (cases "wp_enabled (watchpoints p ! i)")
  case True
  then show ?thesis using p by (simp add: enable_watchpoint_def op_simps)
next
  case False
  let ?s = "watchpoints p ! i"
  obtain r q where q: "set_hardware_stoppoint K (wp_address ?s) (wp_mode ?s) (wp_size ?s) p = (r, q)" by fastforce
  note eff = set_hardware_effect [OF q]
  show ?thesis
  proof (cases r)
    case (Inl e)
    then show ?thesis using p(1) q eff False by (simp add: enable_watchpoint_def set_watchpoint_def op_simps hardware_ok_def)
  next
    case (Inr k)
    then obtain j where j: "j < 16"
        "(if wp_mode ?s = Execute then dbg_bcr (debug_regs p) else dbg_wcr (debug_regs p)) ! j AND 1 = 0"
        "k = (if wp_mode ?s = Execute then int j else int j + 16)"
        "debug_regs q = install_slot (wp_mode ?s) (wp_address ?s) (unat (wp_size ?s)) j (debug_regs p)"
      using eff by auto
    let ?new = "?s\<lparr>wp_register_index := k, wp_enabled := True\<rparr>"
    have "claims (breakpoint_sites p) ((watchpoints p)[i := ?new]) =
        add_mset (new_claim (wp_mode ?s) (wp_address ?s) (unat (wp_size ?s)) j) (claims (breakpoint_sites p) (watchpoints p))"
      using False filter_update_add [OF p(2), of wp_enabled ?new] j(3)
      by (simp add: claims_alt wp_claim_def new_claim_def)
    then have "slots_ok (debug_regs q) (claims (breakpoint_sites p) ((watchpoints p)[i := ?new]))"
      using install_slot_ok [OF p(1) [unfolded hardware_ok_def] j(1,2)] j(4) by simp
    then show ?thesis using q eff False Inr p(2)
      by (simp add: enable_watchpoint_def set_watchpoint_def op_simps hardware_ok_def modify_watchpoint_def)
  qed
qed

lemma disable_watchpoint_hardware:
  assumes "hardware_ok p" "i < length (watchpoints p)" "disable_watchpoint K i p = (Inr (), q)"
  shows "hardware_ok q" "i < length (watchpoints q)" "\<not> wp_enabled (watchpoints q ! i)"
proof -
  let ?s = "watchpoints p ! i" and ?off = "(watchpoints p ! i)\<lparr>wp_enabled := False\<rparr>"
  have "hardware_ok q \<and> i < length (watchpoints q) \<and> \<not> wp_enabled (watchpoints q ! i)"
  proof (cases "wp_enabled ?s")
    case False
    then show ?thesis using assms by (simp add: disable_watchpoint_def op_simps)
  next
    case True
    obtain t where t: "clear_hardware_stoppoint K (wp_register_index ?s) p = (Inr (), t)"
        "q = t\<lparr>watchpoints := (watchpoints t)[i := (watchpoints t ! i)\<lparr>wp_enabled := False\<rparr>]\<rparr>"
      using assms(3) True by (auto simp: disable_watchpoint_def op_simps modify_watchpoint_def split: prod.splits sum.splits)
    note eff = clear_hardware_effect [OF t(1)]
    have "claims (breakpoint_sites p) (watchpoints p) =
        add_mset (wp_claim ?s) (claims (breakpoint_sites p) ((watchpoints p)[i := ?off]))"
      using True filter_update_remove [OF assms(2), of wp_enabled ?off] by (simp add: claims_alt)
    then have "slots_ok (clear_slot (nat (wp_register_index ?s)) (debug_regs p)) (claims (breakpoint_sites p) ((watchpoints p)[i := ?off]))"
      using clear_slot_ok(3) [of "debug_regs p" "wp_claim ?s"] assms(1) by (simp add: hardware_ok_def wp_claim_def)
    then show ?thesis using eff t(2) assms(2) by (simp add: hardware_ok_def)
  qed
  then show "hardware_ok q" "i < length (watchpoints q)" "\<not> wp_enabled (watchpoints q ! i)" by blast+
qed

lemma claims_push: "\<not> site_enabled s \<Longrightarrow> claims (push s sites) wps = claims sites wps"
  "\<not> wp_enabled w \<Longrightarrow> claims sites (push w wps) = claims sites wps"
  by (simp_all add: claims_def push_def)

lemma claims_erase:
  "i < length sites \<Longrightarrow> \<not> site_enabled (sites ! i) \<Longrightarrow> claims (erase i sites) wps = claims sites wps"
  "i < length wps \<Longrightarrow> \<not> wp_enabled (wps ! i) \<Longrightarrow> claims sites (erase i wps) = claims sites wps"
  by (simp_all add: claims_def mset_erase)

lemma create_hardware:
  assumes "hardware_ok p"
  shows "hardware_ok (snd (create_breakpoint_site a hardware internal p))"
    and "hardware_ok (snd (create_parent_site parent k a hardware internal p))"
    and "hardware_ok (snd (create_watchpoint K a mode sz p))"
proof -
  have new: "\<not> site_enabled (new_site parent k a hardware internal)" for parent k by (simp add: new_site_def)
  show "hardware_ok (snd (create_breakpoint_site a hardware internal p))"
    using assms new
    by (auto simp: create_breakpoint_site_def op_simps push_site_def next_id_def undefined_behaviour_def hardware_ok_def claims_push)
  show "hardware_ok (snd (create_parent_site parent k a hardware internal p))"
    using assms new by (auto simp: create_parent_site_def op_simps push_site_def hardware_ok_def claims_push)
  have made: "\<not> wp_enabled s" if "updated_data K q (new_watchpoint k a mode sz) = Inr s" for q k s
    using that by (auto simp: updated_data_def new_watchpoint_def res_simps split: if_splits)
  show "hardware_ok (snd (create_watchpoint K a mode sz p))"
    using assms made
    by (auto simp: create_watchpoint_def op_simps next_id_def undefined_behaviour_def hardware_ok_def claims_push split: sum.splits)
qed

lemma remove_hardware:
  assumes "hardware_ok p"
  shows "remove_found breakpoint_sites update_sites (disable_site n K) i p = (Inr (), q) \<Longrightarrow> hardware_ok q"
    and "remove_found watchpoints update_watchpoints (disable_watchpoint K) i p = (Inr (), q) \<Longrightarrow> hardware_ok q"
proof -
  assume "remove_found breakpoint_sites update_sites (disable_site n K) i p = (Inr (), q)"
  then obtain t where t: "i < length (breakpoint_sites p)" "disable_site n K i p = (Inr (), t)" "q = update_sites (erase i) t"
    by (auto simp: remove_found_def op_simps undefined_behaviour_def split: if_splits prod.splits sum.splits)
  from disable_site_hardware [OF assms t(1,2)] t(3) show "hardware_ok q"
    by (simp add: hardware_ok_def update_sites_def claims_erase)
next
  assume "remove_found watchpoints update_watchpoints (disable_watchpoint K) i p = (Inr (), q)"
  then obtain t where t: "i < length (watchpoints p)" "disable_watchpoint K i p = (Inr (), t)" "q = update_watchpoints (erase i) t"
    by (auto simp: remove_found_def op_simps undefined_behaviour_def split: if_splits prod.splits sum.splits)
  from disable_watchpoint_hardware [OF assms t(1,2)] t(3) show "hardware_ok q"
    by (simp add: hardware_ok_def update_watchpoints_def claims_erase)
qed

section \<open>Sequences of operations\<close>

text \<open>
  The operations on breakpoint sites and watchpoints, in any order.  Creating and enabling may
  fail; of disabling and removing the successful ones are considered, because a failed
  \<open>clear_hardware_stoppoint\<close> has already released its slot.
\<close>

inductive stoppoint_step :: "nat \<Rightarrow> 'w mach \<Rightarrow> 'w process \<Rightarrow> 'w process \<Rightarrow> bool" for n K where
  new_site: "stoppoint_step n K p (snd (create_breakpoint_site a hardware internal p))"
| new_parent_site: "stoppoint_step n K p (snd (create_parent_site parent k a hardware internal p))"
| new_watch: "stoppoint_step n K p (snd (create_watchpoint K a mode sz p))"
| site_on: "i < length (breakpoint_sites p) \<Longrightarrow> stoppoint_step n K p (snd (enable_site n K i p))"
| site_off: "i < length (breakpoint_sites p) \<Longrightarrow> disable_site n K i p = (Inr (), q) \<Longrightarrow> stoppoint_step n K p q"
| watch_on: "i < length (watchpoints p) \<Longrightarrow> stoppoint_step n K p (snd (enable_watchpoint K i p))"
| watch_off: "i < length (watchpoints p) \<Longrightarrow> disable_watchpoint K i p = (Inr (), q) \<Longrightarrow> stoppoint_step n K p q"
| site_gone: "remove_site_by_address n K a p = (Inr (), q) \<Longrightarrow> stoppoint_step n K p q"
| site_gone_id: "remove_site_by_id n K k p = (Inr (), q) \<Longrightarrow> stoppoint_step n K p q"
| watch_gone: "remove_watchpoint_by_id K k p = (Inr (), q) \<Longrightarrow> stoppoint_step n K p q"

lemma stoppoint_step_hardware:
  assumes "stoppoint_step n K p q" "hardware_ok p"
  shows "hardware_ok q"
  using assms
  by cases (auto simp: remove_site_by_address_def remove_site_by_id_def remove_watchpoint_by_id_def
      remove_by_address_def remove_by_id_def op_simps
      intro: create_hardware enable_site_hardware enable_watchpoint_hardware disable_site_hardware(1) disable_watchpoint_hardware(1) remove_hardware)

lemma stoppoint_steps_hardware: "(stoppoint_step n K)\<^sup>*\<^sup>* p q \<Longrightarrow> hardware_ok p \<Longrightarrow> hardware_ok q"
  by (induction rule: rtranclp_induct) (auto intro: stoppoint_step_hardware)

section \<open>Properties\<close>


text \<open>
  A failed installation leaves no trace.  When \<open>set_hardware_stoppoint\<close> throws, for a bad size or
  alignment, because all slots are taken or because a thread refuses the new debug state, the
  debug registers the debugger keeps are what they were; when it returns, it has taken a slot that
  was free and left the others alone.
\<close>

theorem hardware_stoppoint_rollback:
  assumes "set_hardware_stoppoint K a mode sz p = (r, q)"
  shows "case r of
      Inl e \<Rightarrow> debug_regs q = debug_regs p
    | Inr k \<Rightarrow> \<exists>i < 16. (if mode = Execute then dbg_bcr (debug_regs p) else dbg_wcr (debug_regs p)) ! i AND 1 = 0 \<and>
        debug_regs q = install_slot mode a (unat sz) i (debug_regs p) \<and>
        k = (if mode = Execute then int i else int i + 16)"
  using set_hardware_effect [OF assms] by blast

text \<open>
  New watchpoints.  At an address that is aligned, not watched yet and mapped, a watchpoint of at
  most eight bytes is added to the collection, disabled, with the value now in memory; a larger
  size, which neither the constructor nor the command that sets watchpoints rejects, makes
  \<open>update_data\<close> write past the end of a 64-bit variable.
\<close>

theorem create_watchpoint_outcome:
  assumes "kernel_memory K mem" "mapped (mem (world p)) a (unat sz)" "a AND (sz - 1) = 0"
    "a \<notin> wp_address ` set (watchpoints p)" "last_watchpoint_id p < 2 ^ 31 - 1"
  shows "if unat sz \<le> 8
    then create_watchpoint K a mode sz p =
      (Inr (length (watchpoints p)),
       p\<lparr>last_watchpoint_id := last_watchpoint_id p + 1,
         watchpoints := watchpoints p @
           [new_watchpoint (last_watchpoint_id p + 1) a mode sz\<lparr>wp_data := le_word (contents (mem (world p)) a (unat sz))\<rparr>]\<rparr>)
    else fst (create_watchpoint K a mode sz p) = undefined_behaviour ''memcpy past the end of new_data''"
proof -
  have "read_memory K q a (unat sz) = Inr (contents (mem (world p)) a (unat sz))" if "world q = world p" for q
    using read_memory_ok [OF assms(1)] assms(2) that by metis
  then show ?thesis
    using assms(3-5)
    by (simp add: create_watchpoint_def watch_coll.contains_address_iff op_simps next_id_def updated_data_def
        new_watchpoint_def push_def undefined_behaviour_def)
qed

text \<open>A kernel that refuses to set the debug state of a thread.\<close>

definition demo_refusing :: "(u64 \<Rightarrow> byte option) mach" where
  "demo_refusing = demo_kernel\<lparr>set_debug := (\<lambda>w port d. (Some ''denied'', w))\<rparr>"

lemma demo_refused:
  "set_hardware_stoppoint demo_refusing 0x1000 Execute 4 demo_process =
   (Inl (Sdb_Error ''set hardware stoppoint: denied''), demo_process)"
  by (simp add: set_hardware_stoppoint_def op_simps op_catch_def commit_debug_def force_debug_def port_order_def
      free_slot_def upt_rec checked_call_def sys_call_def check_def send_def demo_refusing_def demo_kernel_def demo_process_def install_slot_def)

theorem hardware_stoppoint_rollback_witness:
  "case fst (set_hardware_stoppoint demo_refusing 0x1000 Execute 4 demo_process) of
     Inl e \<Rightarrow> debug_regs (snd (set_hardware_stoppoint demo_refusing 0x1000 Execute 4 demo_process)) = debug_regs demo_process
   | Inr k \<Rightarrow> False"
  using hardware_stoppoint_rollback [OF demo_refused] by (simp add: demo_refused)

definition demo_hardware :: "(u64 \<Rightarrow> byte option) process" where
  "demo_hardware = snd (enable_site 5 demo_kernel 0 (snd (create_breakpoint_site 0x1000 True False demo_process)))"


theorem create_watchpoint_outcome_witness:
  "fst (create_watchpoint demo_kernel 0x1000 Write 16 demo_process) = undefined_behaviour ''memcpy past the end of new_data''"
proof -
  have "(0x1000 :: u64) + word_of_nat i < 0x2000" if "i < 16" for i
    using that by (simp add: word_less_nat_alt unat_word_ariths unat_of_nat)
  then have "mapped (id (world demo_process)) 0x1000 (unat (16 :: u64))"
    by (simp add: mapped_def demo_process_def)
  with create_watchpoint_outcome [where K = demo_kernel and mem = id and p = demo_process and a = "0x1000" and sz = 16 and mode = Write] demo_kernel_memory show ?thesis
    by (simp add: demo_process_def)
qed

end
