(* ===== verification/Process_Control.thy ===== *)
theory Process_Control
  imports Process_Hardware
begin

text \<open>
  Running the process: the thread table, stop reasons, resuming, single-stepping, waiting and
  calling functions of the debuggee (the rest of \<^verbatim>\<open>src/src/process.cpp\<close>).

  The process calls back into its owner: the target is told of stops and of threads that appear
  and disappear, and breakpoints have hit handlers that the owner installs.  These calls are the
  fields of \<open>hooks\<close>, operations on the process whose effect is not fixed here.  The pointer to the
  breakpoint site that \<open>step_instruction\<close> keeps is the address of the site.
\<close>

section \<open>Parameters\<close>

record 'w hooks =
  has_target :: bool
  notify_stop :: "stop_reason \<Rightarrow> ('w process, unit) op"
  notify_thread :: "stop_reason \<Rightarrow> ('w process, unit) op"
  notify_hit :: "nat \<Rightarrow> ('w process, bool) op"

text \<open>The signal numbers of the platform.\<close>

definition SIGTRAP :: byte where "SIGTRAP = 5"

definition SIGSTOP :: byte where "SIGSTOP = 17"

section \<open>Stop reasons\<close>

definition plain_reason :: "int \<Rightarrow> process_state \<Rightarrow> byte \<Rightarrow> stop_reason" where
  "plain_reason t st i = \<lparr>reason = st, info = i, trap_reason = None, syscall_info = None, stop_tid = t\<rparr>"

text \<open>The macros of \<^verbatim>\<open>sys/wait.h\<close> split a wait status.\<close>

definition WSTATUS :: "u32 \<Rightarrow> u32" where "WSTATUS s = s AND 0x7f"

definition stop_reason_of :: "int \<Rightarrow> u32 \<Rightarrow> stop_reason" where
  "stop_reason_of t s =
     (if WSTATUS s = 0 then plain_reason t Exited (ucast (drop_bit 8 s AND 0xff))
      else if WSTATUS s \<noteq> 0x7f \<and> WSTATUS s \<noteq> 0 then plain_reason t Terminated (ucast (WSTATUS s))
      else plain_reason t Stopped (ucast (drop_bit 8 s)))"

definition is_step :: "stop_reason \<Rightarrow> bool" where
  "is_step r \<longleftrightarrow> reason r = Stopped \<and> info r = SIGTRAP \<and> trap_reason r = Some Single_step"

definition is_breakpoint :: "stop_reason \<Rightarrow> bool" where
  "is_breakpoint r \<longleftrightarrow>
     reason r = Stopped \<and> info r = SIGTRAP \<and> (trap_reason r = Some Software_break \<or> trap_reason r = Some Hardware_break)"

section \<open>Registers of threads\<close>

definition modify_thread :: "int \<Rightarrow> (thread_state \<Rightarrow> thread_state) \<Rightarrow> ('w process, unit) op" where
  "modify_thread t f =
     op_bind (op_gets (\<lambda>p. map_at (map_of (threads p)) t)) (\<lambda>found.
     op_bind (op_lift found) (\<lambda>_.
     op_modify (\<lambda>p. p\<lparr>threads := map (\<lambda>(k, s). (k, if k = t then f s else s)) (threads p)\<rparr>)))"

definition port_op :: "int \<Rightarrow> ('w process, nat) op" where
  "port_op t = op_bind (op_gets (\<lambda>p. port_at p t)) op_lift"

definition put_user :: "int \<Rightarrow> nat \<Rightarrow> byte list \<Rightarrow> ('w process, unit) op" where
  "put_user t off bs =
     modify_thread t (\<lambda>s. s\<lparr>thread_regs := (thread_regs s)\<lparr>regs_data := overwrite off bs (regs_data (thread_regs s))\<rparr>\<rparr>)"

definition read_all_registers :: "'w mach \<Rightarrow> int \<Rightarrow> ('w process, unit) op" where
  "read_all_registers K t =
     op_bind (op_gets (\<lambda>p. registers_at p t)) (\<lambda>found.
     op_bind (op_lift found) (\<lambda>_.
     op_bind (port_op t) (\<lambda>port.
     op_bind (op_gets (\<lambda>p. get_gprs K (world p) port)) (\<lambda>gprs.
     case gprs of
       Inl msg \<Rightarrow> op_send (''read ARM registers: '' @ msg)
     | Inr bs \<Rightarrow>
         op_bind (put_user t 0 bs) (\<lambda>_.
         op_bind (op_gets (\<lambda>p. get_fprs K (world p) port)) (\<lambda>fprs.
         case fprs of
           Inl msg \<Rightarrow> op_send (''read NEON registers: '' @ msg)
         | Inr bs' \<Rightarrow> put_user t (off_v (mach_native K)) bs'))))))"

text \<open>Sending a register file to the kernel, as \<open>write_gprs\<close> and \<open>write_fprs\<close> do.\<close>

definition commit_regs :: "'w mach \<Rightarrow> int \<Rightarrow> reg_commit \<Rightarrow> ('w process, unit) op" where
  "commit_regs K t c =
     op_bind (port_op t) (\<lambda>port.
     case c of
       Write_gprs bs \<Rightarrow> checked_call (\<lambda>w. set_gprs K w port (take (off_v (mach_native K)) bs)) ''write ARM registers''
     | Write_fprs bs \<Rightarrow> checked_call (\<lambda>w. set_fprs K w port (drop (off_v (mach_native K)) bs)) ''write NEON registers'')"

definition write_register :: "'w mach \<Rightarrow> int \<Rightarrow> register_id \<Rightarrow> reg_value \<Rightarrow> ('w process, unit) op" where
  "write_register K t r v =
     op_bind (op_gets (\<lambda>p. bind_res (registers_at p t) (\<lambda>rs. write_by_id (mach_native K) rs r v True))) (\<lambda>written.
     op_bind (op_lift written) (\<lambda>(rs, commits).
     op_bind (modify_thread t (\<lambda>s. s\<lparr>thread_regs := rs\<rparr>)) (\<lambda>_.
     op_each (commit_regs K t) commits)))"

definition set_pc :: "'w mach \<Rightarrow> int \<Rightarrow> u64 \<Rightarrow> ('w process, unit) op" where
  "set_pc K t pc = write_register K t PC (V_u64 pc)"

definition restore_registers :: "'w mach \<Rightarrow> int \<Rightarrow> registers \<Rightarrow> ('w process, unit) op" where
  "restore_registers K t rs =
     op_bind (modify_thread t (\<lambda>s. s\<lparr>thread_regs := rs\<rparr>)) (\<lambda>_. op_each (commit_regs K t) (reg_flush rs))"

definition write_user_area :: "'w mach \<Rightarrow> int \<Rightarrow> nat \<Rightarrow> u64 \<Rightarrow> ('w process, unit) op" where
  "write_user_area K t offset v =
     op_bind (op_gets (\<lambda>p. registers_at p t)) (\<lambda>found.
     op_bind (op_lift found) (\<lambda>_.
     if off_v (mach_native K) < offset + 8 then op_send ''Invalid register offset''
     else
       op_bind (put_user t offset (word_bytes v)) (\<lambda>_.
       op_bind (op_gets (\<lambda>p. registers_at p t)) (\<lambda>now.
       op_bind (op_lift now) (\<lambda>rs. commit_regs K t (Write_gprs (regs_data rs)))))))"

section \<open>Threads\<close>

definition new_thread :: "'w mach \<Rightarrow> int \<Rightarrow> thread_state" where
  "new_thread K t =
     \<lparr>thread_regs = \<lparr>regs_data = replicate (user_size (mach_native K)) 0, regs_undefined = [], regs_cfa = 0\<rparr>,
      thread_reason = plain_reason 0 Stopped 0, thread_run_state = Stopped, pending_sigstop = False\<rparr>"

definition ignore_call :: "('w \<Rightarrow> kern \<times> 'w) \<Rightarrow> ('w process, unit) op" where
  "ignore_call f = op_bind (sys_call f) (\<lambda>_. op_return ())"

definition add_thread :: "'w mach \<Rightarrow> 'w hooks \<Rightarrow> int \<Rightarrow> nat \<Rightarrow> ('w process, unit) op" where
  "add_thread K H t port =
     op_bind (op_modify (\<lambda>p. p\<lparr>ports := ports p @ [(t, port)], threads := threads p @ [(t, new_thread K t)]\<rparr>)) (\<lambda>_.
     op_bind (op_modify (\<lambda>p. if current_thread p \<in> fst ` set (ports p) then p else p\<lparr>current_thread := t\<rparr>)) (\<lambda>_.
     if has_target H then notify_thread H (plain_reason t Stopped SIGSTOP) else op_return ()))"

text \<open>One thread of the list; the result says which id it has, if it is usable.\<close>

definition see_thread :: "'w mach \<Rightarrow> 'w hooks \<Rightarrow> nat \<times> u64 option \<Rightarrow> ('w process, int option) op" where
  "see_thread K H = (\<lambda>(port, found).
     case found of
       None \<Rightarrow> op_bind (ignore_call (\<lambda>w. deallocate_port K w port)) (\<lambda>_. op_return None)
     | Some k \<Rightarrow>
         if 0x7fffffff < k
         then op_bind (ignore_call (\<lambda>w. deallocate_port K w port)) (\<lambda>_. op_return None)
         else
           let t = uint k in
           op_bind (op_modify (\<lambda>p. if main_thread p = 0 then p\<lparr>main_thread := t\<rparr> else p)) (\<lambda>_.
           op_bind (op_gets (\<lambda>p. t \<in> fst ` set (ports p))) (\<lambda>known.
           op_bind (if known then ignore_call (\<lambda>w. deallocate_port K w port) else add_thread K H t port) (\<lambda>_.
           op_bind (read_all_registers K t) (\<lambda>_. op_return (Some t))))))"

fun see_threads :: "'w mach \<Rightarrow> 'w hooks \<Rightarrow> (nat \<times> u64 option) list \<Rightarrow> int list \<Rightarrow> ('w process, int list) op" where
  "see_threads K H [] live = op_return live"
| "see_threads K H (x # xs) live =
     op_bind (see_thread K H x) (\<lambda>seen.
     see_threads K H xs (case seen of None \<Rightarrow> live | Some t \<Rightarrow> t # live))"

definition drop_thread :: "'w mach \<Rightarrow> 'w hooks \<Rightarrow> int \<times> nat \<Rightarrow> ('w process, unit) op" where
  "drop_thread K H = (\<lambda>(t, port).
     op_bind (notify_thread H (plain_reason t Exited 0)) (\<lambda>_.
     op_bind (op_modify (\<lambda>p. p\<lparr>threads := filter (\<lambda>(k, s). k \<noteq> t) (threads p)\<rparr>)) (\<lambda>_.
     op_bind (ignore_call (\<lambda>w. deallocate_port K w port)) (\<lambda>_.
     op_modify (\<lambda>p. p\<lparr>ports := filter (\<lambda>(k, s). k \<noteq> t) (ports p)\<rparr>)))))"

definition populate_existing_threads :: "'w mach \<Rightarrow> 'w hooks \<Rightarrow> ('w process, unit) op" where
  "populate_existing_threads K H =
     op_bind (op_gets is_attached) (\<lambda>attached.
     if \<not> attached then op_return ()
     else
       op_bind (op_gets (\<lambda>p. (has_task p, pid p))) (\<lambda>(known, k).
       op_bind (if known then op_return ()
                else op_bind (checked_call (\<lambda>w. task_for_pid K w k)
                       ''task_for_pid (sign sdb with its debugger entitlement)'') (\<lambda>_.
                     op_modify (\<lambda>p. p\<lparr>has_task := True\<rparr>))) (\<lambda>_.
       op_bind (op_gets (\<lambda>p. task_threads K (world p))) (\<lambda>listed.
       case listed of
         Inl msg \<Rightarrow> op_send (''task_threads: '' @ msg)
       | Inr xs \<Rightarrow>
           op_bind (see_threads K H xs []) (\<lambda>live.
           op_bind (op_gets (\<lambda>p. filter (\<lambda>(t, port). t \<notin> set live) (port_order K p))) (\<lambda>gone.
           op_bind (op_each (drop_thread K H) gone) (\<lambda>_.
           op_modify (\<lambda>p. if ports p \<noteq> [] \<and> current_thread p \<notin> fst ` set (ports p)
                            then p\<lparr>current_thread := fst (hd (port_order K p))\<rparr> else p))))))))"

section \<open>Waiting and running\<close>

definition send_continue :: "'w mach \<Rightarrow> ('w process, unit) op" where
  "send_continue K =
     op_bind (op_gets pending_signal) (\<lambda>sig.
     op_bind (op_modify (\<lambda>p. p\<lparr>pending_signal := 0\<rparr>)) (\<lambda>_.
     op_bind (checked_call (\<lambda>w. ptrace K w PT_CONTINUE sig) ''ptrace'') (\<lambda>_.
     op_modify (\<lambda>p. p\<lparr>run_state := Running,
       threads := map (\<lambda>(t, s). (t, s\<lparr>thread_run_state := Running\<rparr>)) (threads p)\<rparr>))))"

definition pc_op :: "'w mach \<Rightarrow> int \<Rightarrow> ('w process, u64) op" where
  "pc_op K t = op_bind (op_gets (\<lambda>p. get_pc K p (Some t))) op_lift"

definition enabled_site_op :: "u64 \<Rightarrow> ('w process, bool) op" where
  "enabled_site_op pc = op_gets (\<lambda>p. enabled_stoppoint_at_address site_class pc (breakpoint_sites p))"

definition site_at_op :: "u64 \<Rightarrow> ('w process, nat) op" where
  "site_at_op a = op_bind (op_gets (\<lambda>p. get_by_address site_class a (breakpoint_sites p))) op_lift"

text \<open>The watchpoints that the fault address of a thread lies in.\<close>

definition check_watchpoint :: "'w mach \<Rightarrow> u64 \<Rightarrow> nat \<Rightarrow> ('w process, unit) op" where
  "check_watchpoint K far i =
     op_bind (op_gets (\<lambda>p. watchpoints p ! i)) (\<lambda>w.
     if wp_enabled w \<and> wp_address w \<le> far \<and> far < wp_address w + wp_size w then
       op_bind (op_modify (\<lambda>p. p\<lparr>hit_slot := wp_register_index w\<rparr>)) (\<lambda>_.
       op_bind (op_gets (\<lambda>p. updated_data K p w)) (\<lambda>updated.
       op_bind (op_lift updated) (\<lambda>w'. modify_watchpoint i (\<lambda>_. w'))))
     else op_return ())"

definition check_exception :: "'w mach \<Rightarrow> int \<Rightarrow> stop_reason \<Rightarrow> ('w process, stop_reason) op" where
  "check_exception K t r =
     op_bind (port_op t) (\<lambda>port.
     op_bind (op_gets (\<lambda>p. get_exception K (world p) port)) (\<lambda>found.
     case found of
       None \<Rightarrow> op_return r
     | Some (esr, far) \<Rightarrow>
         let ec = drop_bit 26 esr in
         if ec = 0x34 \<or> ec = 0x35 then
           op_bind (op_gets (\<lambda>p. length (watchpoints p))) (\<lambda>n.
           op_bind (op_each (check_watchpoint K far) [0..<n]) (\<lambda>_.
           op_bind (op_gets hit_slot) (\<lambda>slot.
           op_return (if 0 \<le> slot then r\<lparr>stop_tid := t, trap_reason := Some Hardware_break\<rparr> else r))))
         else op_return r))"

fun check_exceptions :: "'w mach \<Rightarrow> int list \<Rightarrow> stop_reason \<Rightarrow> ('w process, stop_reason) op" where
  "check_exceptions K [] r = op_return r"
| "check_exceptions K (t # ts) r = op_bind (check_exception K t r) (check_exceptions K ts)"

fun find_breakpoint_hit :: "'w mach \<Rightarrow> int list \<Rightarrow> stop_reason \<Rightarrow> ('w process, stop_reason) op" where
  "find_breakpoint_hit K [] r = op_return r"
| "find_breakpoint_hit K (t # ts) r =
     op_bind (pc_op K t) (\<lambda>pc.
     op_bind (enabled_site_op pc) (\<lambda>hit.
     if hit then
       op_bind (site_at_op pc) (\<lambda>i.
       op_bind (op_gets (\<lambda>p. site_hardware (breakpoint_sites p ! i))) (\<lambda>hw.
       op_return (r\<lparr>stop_tid := t, trap_reason := Some (if hw then Hardware_break else Software_break)\<rparr>)))
     else find_breakpoint_hit K ts r))"

definition thread_order :: "'w mach \<Rightarrow> 'w process \<Rightarrow> int list" where
  "thread_order K p = visit K (map fst (threads p))"

definition classify_trap :: "'w mach \<Rightarrow> stop_reason \<Rightarrow> ('w process, stop_reason) op" where
  "classify_trap K r =
     (if info r = SIGTRAP then
        op_bind (op_gets stepping) (\<lambda>step.
        op_bind (op_modify (\<lambda>p. p\<lparr>hit_slot := -1\<rparr>)) (\<lambda>_.
        op_bind (op_gets (thread_order K)) (\<lambda>ts.
        op_bind (check_exceptions K ts (r\<lparr>trap_reason := Some (if step then Single_step else Unknown)\<rparr>)) (\<lambda>r1.
        op_bind (op_gets (thread_order K)) (\<lambda>ts'.
        find_breakpoint_hit K ts' r1)))))
      else op_return r)"

definition record_stop :: "stop_reason \<Rightarrow> ('w process, unit) op" where
  "record_stop r =
     op_bind (op_modify (\<lambda>p. p\<lparr>current_thread := stop_tid r\<rparr>)) (\<lambda>_.
     op_bind (modify_thread (stop_tid r) (\<lambda>s. s\<lparr>thread_reason := r\<rparr>)) (\<lambda>_.
     op_modify (\<lambda>p. p\<lparr>threads := map (\<lambda>(t, s). (t, s\<lparr>thread_run_state := run_state p\<rparr>)) (threads p),
       pending_signal := (if info r \<noteq> SIGTRAP \<and> info r \<noteq> SIGSTOP then int (unat (info r)) else pending_signal p)\<rparr>)))"

text \<open>One stop of the process, up to the question whether to go on.\<close>

definition receive_stop :: "'w mach \<Rightarrow> 'w hooks \<Rightarrow> ('w process, stop_reason) op" where
  "receive_stop K H =
     op_bind (\<lambda>p. case wait_pid K (world p) of (r, w) \<Rightarrow> (case r of Inl msg \<Rightarrow> send (''waitpid: '' @ msg) | Inr s \<Rightarrow> Inr s, p\<lparr>world := w\<rparr>)) (\<lambda>status.
     op_bind (op_gets (\<lambda>p. stop_reason_of (current_thread p) status)) (\<lambda>r.
     op_bind (op_modify (\<lambda>p. p\<lparr>run_state := reason r\<rparr>)) (\<lambda>_.
     if reason r \<noteq> Stopped then op_return r
     else
       op_bind (populate_existing_threads K H) (\<lambda>_.
       op_bind (op_gets current_thread) (\<lambda>t.
       op_bind (classify_trap K (r\<lparr>stop_tid := t\<rparr>)) (\<lambda>r1.
       op_bind (record_stop r1) (\<lambda>_. op_return r1)))))))"

text \<open>Whether the hit handler of the breakpoint asks to go on.\<close>

definition hit_resumes :: "'w mach \<Rightarrow> 'w hooks \<Rightarrow> stop_reason \<Rightarrow> ('w process, bool) op" where
  "hit_resumes K H r =
     (if trap_reason r = Some Software_break then
        op_bind (op_gets current_thread) (\<lambda>t.
        op_bind (pc_op K t) (\<lambda>pc.
        op_bind (site_at_op pc) (\<lambda>i.
        op_bind (op_gets (\<lambda>p. site_parent (breakpoint_sites p ! i))) (\<lambda>parent.
        case parent of None \<Rightarrow> op_return False | Some b \<Rightarrow> notify_hit H b))))
      else op_return False)"

section \<open>Stepping\<close>

definition suspend_others :: "'w mach \<Rightarrow> int \<Rightarrow> ('w process, nat list) op" where
  "suspend_others K t =
     op_bind (op_gets (port_order K)) (\<lambda>ps.
     let others = map snd (filter (\<lambda>(k, port). k \<noteq> t) ps) in
     op_bind (op_each (\<lambda>port. checked_call (\<lambda>w. suspend_thread K w port) ''suspend other thread for step'') others) (\<lambda>_.
     op_return others))"

text \<open>Up to the moment the process runs: the breakpoint under the program counter is taken away.\<close>

definition begin_step :: "nat \<Rightarrow> 'w mach \<Rightarrow> int \<Rightarrow> ('w process, u64 option \<times> nat list) op" where
  "begin_step k K t =
     op_bind (op_modify (\<lambda>p. p\<lparr>current_thread := t\<rparr>)) (\<lambda>_.
     op_bind (pc_op K t) (\<lambda>pc.
     op_bind (enabled_site_op pc) (\<lambda>hit.
     op_bind (if hit then op_bind (site_at_op pc) (\<lambda>i. op_bind (disable_site k K i) (\<lambda>_. op_return (Some pc)))
              else op_return None) (\<lambda>bp.
     op_bind (suspend_others K t) (\<lambda>suspended.
     op_bind (port_op t) (\<lambda>port.
     op_bind (op_gets debug_regs) (\<lambda>d.
     op_bind (checked_call (\<lambda>w. set_debug K w port (d\<lparr>dbg_mdscr := dbg_mdscr d OR 1\<rparr>)) ''enable selected-thread step'') (\<lambda>_.
     op_bind (op_modify (\<lambda>p. p\<lparr>stepping := True\<rparr>)) (\<lambda>_.
     op_bind (op_gets (\<lambda>p. if t = main_thread p then PT_STEP else PT_CONTINUE)) (\<lambda>req.
     op_bind (checked_call (\<lambda>w. ptrace K w req 0) ''ptrace'') (\<lambda>_.
     op_bind (op_modify (\<lambda>p. p\<lparr>run_state := Running\<rparr>)) (\<lambda>_.
     op_return (bp, suspended)))))))))))))"

definition reenable :: "nat \<Rightarrow> 'w mach \<Rightarrow> u64 option \<Rightarrow> ('w process, unit) op" where
  "reenable k K bp =
     op_bind (op_gets run_state) (\<lambda>st.
     case bp of
       Some a \<Rightarrow>
         if st = Stopped then
           op_bind (op_gets (\<lambda>p. get_by_address site_class a (breakpoint_sites p))) (\<lambda>found.
           case found of
             Inr i \<Rightarrow> enable_site k K i
           | Inl e \<Rightarrow> op_lift (undefined_behaviour ''breakpoint site destroyed during a step''))
         else op_return ()
     | None \<Rightarrow> op_return ())"

definition end_step :: "nat \<Rightarrow> 'w mach \<Rightarrow> int \<Rightarrow> u64 option \<times> nat list \<Rightarrow> ('w process, unit) op" where
  "end_step k K t = (\<lambda>(bp, suspended).
     op_bind (op_modify (\<lambda>p. p\<lparr>stepping := False\<rparr>)) (\<lambda>_.
     op_bind (op_gets (\<lambda>p. run_state p = Stopped \<and> t \<in> fst ` set (ports p))) (\<lambda>here.
     op_bind (if here then
                op_bind (port_op t) (\<lambda>port.
                op_bind (op_gets debug_regs) (\<lambda>d.
                checked_call (\<lambda>w. set_debug K w port d) ''disable selected-thread step''))
              else op_return ()) (\<lambda>_.
     op_bind (op_each (\<lambda>port. ignore_call (\<lambda>w. resume_thread K w port)) suspended) (\<lambda>_.
     reenable k K bp)))))"

section \<open>Tracing system calls\<close>

definition syscall_args :: "'w mach \<Rightarrow> registers \<Rightarrow> u64 list result" where
  "syscall_args K rs =
     map_res (\<lambda>i. bind_res (register_info_by_name (mach_native K) (''x'' @ decimal i)) (\<lambda>r.
       bind_res (reg_read (mach_native K) rs r) as_u64)) [0..<6]"

definition syscall_stop :: "int \<Rightarrow> syscall_information \<Rightarrow> stop_reason" where
  "syscall_stop t sc = \<lparr>reason = Stopped, info = SIGTRAP, trap_reason = Some Syscall, syscall_info = Some sc, stop_tid = t\<rparr>"

text \<open>The system call the thread is about to make, if it is at one that is to be caught.\<close>

definition syscall_here :: "'w mach \<Rightarrow> int \<Rightarrow> ('w process, bool \<times> u64) op" where
  "syscall_here K t =
     op_bind (pc_op K t) (\<lambda>pc.
     op_bind (op_gets (\<lambda>p. read_memory_as_u32 K p pc)) (\<lambda>read.
     op_bind (op_lift read) (\<lambda>instruction.
     op_bind (op_gets (\<lambda>p. bind_res (registers_at p t) (\<lambda>rs. read_by_id_as_u64 (mach_native K) rs (X 16)))) (\<lambda>x16.
     op_bind (op_lift x16) (\<lambda>k.
     op_bind (op_gets catch_policy) (\<lambda>policy.
     op_return
       (instruction AND 0xffe0001f = 0xd4000001 \<and>
        (catch_mode policy = Catch_all \<or> sint (ucast k :: u32) \<in> set (to_catch policy)), k)))))))"

definition queue_entry :: "'w mach \<Rightarrow> int \<Rightarrow> u64 \<Rightarrow> ('w process, unit) op" where
  "queue_entry K t k =
     op_bind (op_gets (\<lambda>p. bind_res (registers_at p t) (syscall_args K))) (\<lambda>found.
     op_bind (op_lift found) (\<lambda>args.
     op_modify (\<lambda>p. p\<lparr>expecting_syscall_exit := True,
       queued_stop := Some (syscall_stop t \<lparr>syscall_id = ucast k, syscall_entry = True, syscall_payload = Syscall_args args\<rparr>)\<rparr>)))"

definition queue_exit :: "'w mach \<Rightarrow> int \<Rightarrow> u64 \<Rightarrow> ('w process, unit) op" where
  "queue_exit K t k =
     op_bind (op_gets (\<lambda>p. bind_res (registers_at p t) (\<lambda>rs. read_by_id_as_u64 (mach_native K) rs (X 0)))) (\<lambda>found.
     op_bind (op_lift found) (\<lambda>x0.
     op_modify (\<lambda>p. p\<lparr>expecting_syscall_exit := False,
       queued_stop := Some (syscall_stop t \<lparr>syscall_id = ucast k, syscall_entry = False, syscall_payload = Syscall_ret x0\<rparr>)\<rparr>)))"

definition finish_tracing :: "'w hooks \<Rightarrow> ('w process, unit) op" where
  "finish_tracing H =
     op_bind (op_gets queued_stop) (\<lambda>q.
     if has_target H then
       case q of
         None \<Rightarrow> op_lift (undefined_behaviour ''empty optional dereferenced'')
       | Some r \<Rightarrow> if reason r = Stopped then notify_stop H r else op_return ()
     else op_return ())"

section \<open>Resuming, stepping and waiting\<close>

text \<open>
  The operations call each other: waiting resumes when a hit handler asks for it, resuming steps
  over a breakpoint or traces system calls, stepping waits.  Each body is written over the
  operations \<open>c\<close> it calls, and \<open>control\<close> ties the knot: every call uses one unit of the fuel \<open>n\<close>.
  The fuel of memory writes is \<open>k\<close>.
\<close>

record 'w calls =
  c_wait_loop :: "('w process, stop_reason) op"
  c_resume :: "int option \<Rightarrow> ('w process, unit) op"
  c_trace :: "int \<Rightarrow> ('w process, unit) op"
  c_step :: "int option \<Rightarrow> ('w process, stop_reason) op"

definition wait_body :: "'w calls \<Rightarrow> ('w process, stop_reason) op" where
  "wait_body c =
     op_bind (op_gets queued_stop) (\<lambda>q.
     case q of
       Some r \<Rightarrow> op_bind (op_modify (\<lambda>p. p\<lparr>queued_stop := None\<rparr>)) (\<lambda>_. op_return r)
     | None \<Rightarrow> c_wait_loop c)"

definition wait_loop_body :: "'w mach \<Rightarrow> 'w hooks \<Rightarrow> 'w calls \<Rightarrow> ('w process, stop_reason) op" where
  "wait_loop_body K H c =
     op_bind (receive_stop K H) (\<lambda>r.
     if reason r \<noteq> Stopped then op_return r
     else
       op_bind (hit_resumes K H r) (\<lambda>go_on.
       if go_on then op_bind (c_resume c None) (\<lambda>_. c_wait_loop c)
       else
         op_bind (op_gets tracing_syscalls) (\<lambda>tracing.
         op_bind (if has_target H \<and> \<not> tracing then notify_stop H r else op_return ()) (\<lambda>_.
         op_return r))))"

definition step_over_breakpoint :: "'w mach \<Rightarrow> 'w calls \<Rightarrow> int \<Rightarrow> ('w process, unit) op" where
  "step_over_breakpoint K c t =
     op_bind (pc_op K t) (\<lambda>pc.
     op_bind (enabled_site_op pc) (\<lambda>hit.
     if hit then op_bind (c_step c (Some t)) (\<lambda>_. op_return ()) else op_return ()))"

definition resume_body :: "'w mach \<Rightarrow> 'w hooks \<Rightarrow> 'w calls \<Rightarrow> int option \<Rightarrow> ('w process, unit) op" where
  "resume_body K H c tid =
     op_bind (op_gets run_state) (\<lambda>st.
     if st \<noteq> Stopped then op_send ''Process is not stopped''
     else
       op_bind (op_gets (\<lambda>p. case tid of Some t \<Rightarrow> t | None \<Rightarrow> current_thread p)) (\<lambda>t.
       op_bind (op_gets (\<lambda>p. catch_mode (catch_policy p) \<noteq> Catch_none \<and> \<not> tracing_syscalls p)) (\<lambda>catching.
       if catching then
         op_bind (op_modify (\<lambda>p. p\<lparr>tracing_syscalls := True\<rparr>)) (\<lambda>_.
         op_bind (op_catch (c_trace c t) (\<lambda>e.
             op_bind (op_modify (\<lambda>p. p\<lparr>tracing_syscalls := False\<rparr>)) (\<lambda>_. op_fail e))) (\<lambda>_.
         op_bind (op_modify (\<lambda>p. p\<lparr>tracing_syscalls := False\<rparr>)) (\<lambda>_.
         finish_tracing H)))
       else
         op_bind (step_over_breakpoint K c t) (\<lambda>_.
         send_continue K))))"

definition trace_body :: "'w mach \<Rightarrow> 'w calls \<Rightarrow> int \<Rightarrow> ('w process, unit) op" where
  "trace_body K c t =
     op_bind (syscall_here K t) (\<lambda>(matches, sysno).
     op_bind (op_gets expecting_syscall_exit) (\<lambda>inside.
     if matches \<and> \<not> inside then queue_entry K t sysno
     else
       op_bind (c_step c (Some t)) (\<lambda>r.
       op_bind (op_gets expecting_syscall_exit) (\<lambda>inside'.
       if inside' \<and> is_step r then queue_exit K t sysno
       else if \<not> is_step r then op_modify (\<lambda>p. p\<lparr>queued_stop := Some r\<rparr>)
       else c_trace c t))))"

definition step_body :: "nat \<Rightarrow> 'w mach \<Rightarrow> 'w calls \<Rightarrow> int option \<Rightarrow> ('w process, stop_reason) op" where
  "step_body k K c tid =
     op_bind (op_gets (\<lambda>p. case tid of Some t \<Rightarrow> t | None \<Rightarrow> current_thread p)) (\<lambda>t.
     op_bind (begin_step k K t) (\<lambda>saved.
     op_bind (wait_body c) (\<lambda>r.
     op_bind (end_step k K t saved) (\<lambda>_.
     op_return r))))"

primrec control :: "nat \<Rightarrow> nat \<Rightarrow> 'w mach \<Rightarrow> 'w hooks \<Rightarrow> 'w calls" where
  "control 0 k K H =
     \<lparr>c_wait_loop = op_fail Out_Of_Fuel, c_resume = (\<lambda>_. op_fail Out_Of_Fuel),
      c_trace = (\<lambda>_. op_fail Out_Of_Fuel), c_step = (\<lambda>_. op_fail Out_Of_Fuel)\<rparr>"
| "control (Suc n) k K H =
     (let c = control n k K H in
      \<lparr>c_wait_loop = wait_loop_body K H c, c_resume = resume_body K H c,
       c_trace = trace_body K c, c_step = step_body k K c\<rparr>)"

definition wait_on_signal :: "nat \<Rightarrow> nat \<Rightarrow> 'w mach \<Rightarrow> 'w hooks \<Rightarrow> ('w process, stop_reason) op" where
  "wait_on_signal n k K H = wait_body (control n k K H)"

definition resume :: "nat \<Rightarrow> nat \<Rightarrow> 'w mach \<Rightarrow> 'w hooks \<Rightarrow> int option \<Rightarrow> ('w process, unit) op" where
  "resume n k K H = c_resume (control n k K H)"

definition step_instruction :: "nat \<Rightarrow> nat \<Rightarrow> 'w mach \<Rightarrow> 'w hooks \<Rightarrow> int option \<Rightarrow> ('w process, stop_reason) op" where
  "step_instruction n k K H = c_step (control n k K H)"

definition resume_all_threads :: "nat \<Rightarrow> nat \<Rightarrow> 'w mach \<Rightarrow> 'w hooks \<Rightarrow> ('w process, unit) op" where
  "resume_all_threads n k K H = resume n k K H None"

section \<open>Calling functions of the debuggee\<close>

definition release_return_site :: "nat \<Rightarrow> 'w mach \<Rightarrow> bool \<Rightarrow> bool \<Rightarrow> u64 \<Rightarrow> ('w process, unit) op" where
  "release_return_site k K created enabled ret =
     (if created then remove_site_by_address k K ret
      else if \<not> enabled then op_bind (site_at_op ret) (disable_site k K)
      else op_return ())"

definition inferior_call ::
  "nat \<Rightarrow> nat \<Rightarrow> 'w mach \<Rightarrow> 'w hooks \<Rightarrow> u64 \<Rightarrow> u64 \<Rightarrow> registers \<Rightarrow> int option \<Rightarrow> ('w process, registers) op" where
  "inferior_call n k K H func ret restore tid =
     op_bind (op_gets (\<lambda>p. case tid of Some t \<Rightarrow> t | None \<Rightarrow> current_thread p)) (\<lambda>t.
     op_bind (op_gets (\<lambda>p. registers_at p t)) (\<lambda>found.
     op_bind (op_lift found) (\<lambda>_.
     op_bind (op_gets (\<lambda>p. \<not> contains_address site_class ret (breakpoint_sites p))) (\<lambda>created.
     op_bind (if created then create_breakpoint_site ret False True else site_at_op ret) (\<lambda>i.
     op_bind (op_gets (\<lambda>p. site_enabled (breakpoint_sites p ! i))) (\<lambda>enabled.
     op_bind (enable_site k K i) (\<lambda>_.
     op_catch
       (op_bind (write_register K t LR (V_u64 ret)) (\<lambda>_.
        op_bind (set_pc K t func) (\<lambda>_.
        op_bind (resume n k K H (Some t)) (\<lambda>_.
        op_bind (wait_on_signal n k K H) (\<lambda>r.
        op_bind (if reason r \<noteq> Stopped then op_return True else op_bind (pc_op K t) (\<lambda>pc. op_return (pc \<noteq> ret))) (\<lambda>lost.
        if lost then op_send ''Inferior call did not reach its return breakpoint''
        else
          op_bind (op_gets (\<lambda>p. registers_at p t)) (\<lambda>now.
          op_bind (op_lift now) (\<lambda>result.
          op_bind (restore_registers K t restore) (\<lambda>_.
          op_bind (release_return_site k K created enabled ret) (\<lambda>_.
          op_bind (if has_target H then notify_stop H r else op_return ()) (\<lambda>_.
          op_return result)))))))))))
       (\<lambda>e.
        op_bind (op_gets run_state) (\<lambda>st.
        op_bind (if st = Stopped
                 then op_bind (restore_registers K t restore) (\<lambda>_. release_return_site k K created enabled ret)
                 else op_return ()) (\<lambda>_.
        op_fail e))))))))))"

section \<open>Stepping over a breakpoint\<close>

text \<open>What only touches the state of the system keeps a property that does not look at it.\<close>

lemma preserves_call:
  assumes "\<And>p w. I p \<Longrightarrow> I (p\<lparr>world := w\<rparr>)"
  shows "preserves I (sys_call f)" "preserves I (checked_call f what)" "preserves I (ignore_call f)"
proof -
  show call: "preserves I (sys_call f)" for f
    using assms by (auto simp: preserves_def sys_call_def split: prod.splits)
  show "preserves I (checked_call f what)" "preserves I (ignore_call f)"
    unfolding checked_call_def ignore_call_def by (auto intro!: preserves_bind call)
qed

lemma preserves_write_memory:
  assumes "\<And>p w. I p \<Longrightarrow> I (p\<lparr>world := w\<rparr>)"
  shows "preserves I (write_memory n K a d)"
proof -
  have "preserves I (write_memory_loop n K a d off)" for off
  proof (induction n arbitrary: off)
    case (Suc n)
    show ?case
      unfolding write_memory_loop.simps Let_def write_chunk_def
      by (auto intro!: preserves_bind preserves_call assms Suc split: sum.splits)
  qed simp
  then show ?thesis by (simp add: write_memory_def)
qed

lemma preserves_hardware:
  assumes "\<And>p w. I p \<Longrightarrow> I (p\<lparr>world := w\<rparr>)" "\<And>p d. I p \<Longrightarrow> I (p\<lparr>debug_regs := d\<rparr>)"
  shows "preserves I (set_hardware_stoppoint K a mode sz)" "preserves I (clear_hardware_stoppoint K i)"
proof -
  have commit: "preserves I (commit_debug K what)" "preserves I (force_debug K)" for what
    unfolding commit_debug_def force_debug_def
    by (auto intro!: preserves_bind preserves_each preserves_call assms(1) split: prod.splits)
  show "preserves I (set_hardware_stoppoint K a mode sz)" "preserves I (clear_hardware_stoppoint K i)"
    unfolding set_hardware_stoppoint_def clear_hardware_stoppoint_def
    by (auto intro!: preserves_bind preserves_catch preserves_modify commit assms(2) split: option.splits)
qed

text \<open>Enabling and disabling a site changes neither the run state nor the addresses of the sites.\<close>

definition same_addresses :: "process_state \<Rightarrow> u64 list \<Rightarrow> 'w process \<Rightarrow> bool" where
  "same_addresses st as p \<longleftrightarrow> run_state p = st \<and> map site_address (breakpoint_sites p) = as"

lemma same_addresses_modify_site:
  assumes "\<And>s. site_address (f s) = site_address s"
  shows "preserves (same_addresses st as) (modify_site i f)"
proof -
  have "map site_address (xs[i := f (xs ! i)]) = map site_address xs" for xs
    using map_update_same [of i xs site_address "f (xs ! i)"] assms by (cases "i < length xs") (auto simp: list_update_beyond)
  then show ?thesis unfolding modify_site_def by (auto simp: preserves_def op_simps same_addresses_def)
qed

lemma same_addresses_toggle:
  "preserves (same_addresses st as) (enable_site k K i)" "preserves (same_addresses st as) (disable_site k K i)"
proof -
  have w: "same_addresses st as p \<Longrightarrow> same_addresses st as (p\<lparr>world := w\<rparr>)"
    "same_addresses st as p \<Longrightarrow> same_addresses st as (p\<lparr>debug_regs := d\<rparr>)" for p :: "'a process" and w d
    by (simp_all add: same_addresses_def)
  note keep = preserves_bind same_addresses_modify_site preserves_write_memory preserves_hardware w
  show "preserves (same_addresses st as) (enable_site k K i)"
    unfolding enable_site_def insert_trap_def set_hardware_breakpoint_def by (auto intro!: keep)
  show "preserves (same_addresses st as) (disable_site k K i)"
    unfolding disable_site_def by (auto intro!: keep)
qed

lemma enable_site_enables:
  assumes "enable_site k K i p = (Inr (), q)" "i < length (breakpoint_sites p)"
  shows "site_enabled (breakpoint_sites q ! i)"
proof (cases "site_enabled (breakpoint_sites p ! i)")
  case True
  then show ?thesis using assms by (simp add: enable_site_def op_simps)
next
  case False
  have "length (breakpoint_sites q) = length (breakpoint_sites p)"
    using preservesD [OF same_addresses_toggle(1) _ assms(1), of "run_state p" "map site_address (breakpoint_sites p)"]
    by (auto simp: same_addresses_def dest: map_eq_imp_length_eq)
  with False assms show ?thesis
    by (auto simp: enable_site_def op_bind_Inr_iff modify_site_def op_basic)
qed

lemma find_by_address_map:
  "map site_address xs = map site_address ys \<Longrightarrow> find_by_address site_class a xs = find_by_address site_class a ys"
proof -
  assume eq: "map site_address xs = map site_address ys"
  have "map (\<lambda>s. site_address s = a) xs = map (\<lambda>s. site_address s = a) ys"
    using arg_cong [OF eq, of "map (\<lambda>x. x = a)"] by (simp add: o_def)
  then show ?thesis
    unfolding find_by_address_def site_class_def by simp (rule find_if_cong)
qed

lemma reenable_enables:
  assumes "reenable k K (Some a) p = (Inr (), q)" "run_state q = Stopped"
  shows "enabled_stoppoint_at_address site_class a (breakpoint_sites q)"
proof -
  have keep: "preserves (same_addresses st as) (reenable k K (Some a))" for st as
    unfolding reenable_def by (auto intro!: preserves_bind same_addresses_toggle split: sum.splits)
  have "same_addresses (run_state p) (map site_address (breakpoint_sites p)) q"
    using preservesD [OF keep _ assms(1)] by (simp add: same_addresses_def)
  then have st: "run_state p = Stopped" and map: "map site_address (breakpoint_sites q) = map site_address (breakpoint_sites p)"
    using assms(2) by (simp_all add: same_addresses_def)
  obtain i where i: "get_by_address site_class a (breakpoint_sites p) = Inr i" "enable_site k K i p = (Inr (), q)"
    using assms(1) st
    by (cases "get_by_address site_class a (breakpoint_sites p)") (auto simp: reenable_def op_bind_def op_basic undefined_behaviour_def)
  have "i < length (breakpoint_sites p)" using site_coll.get_by_address_ok(1) [OF i(1)] .
  then have "site_enabled (breakpoint_sites q ! i)" using enable_site_enables i(2) by blast
  moreover have "get_by_address site_class a (breakpoint_sites q) = Inr i"
    using i(1) find_by_address_map [OF map, of a] map_eq_imp_length_eq [OF map] by (simp add: get_by_address_def)
  moreover have "sp_is_enabled site_class = site_enabled" by (simp add: site_class_def)
  ultimately show ?thesis
    using site_coll.get_by_address_total [of a "breakpoint_sites q"] by (simp add: enabled_stoppoint_at_address_def)
qed

lemma begin_step_takes:
  assumes "begin_step k K t p = (Inr (bp, suspended), q)" "get_pc K p (Some t) = Inr pc"
    "enabled_stoppoint_at_address site_class pc (breakpoint_sites p)"
  shows "bp = Some pc"
proof -
  have "get_pc K (p\<lparr>current_thread := t\<rparr>) (Some t) = Inr pc"
    using assms(2) by (simp add: get_pc_def get_registers_def registers_at_def)
  with assms(1,3) show ?thesis
    by (auto simp: begin_step_def op_bind_Inr_iff op_basic pc_op_def enabled_site_op_def)
qed

section \<open>The thread table\<close>

text \<open>The ids of the threads in a list of the kernel that the debugger can represent.\<close>

definition listed_ids :: "(nat \<times> u64 option) list \<Rightarrow> int set" where
  "listed_ids xs = {uint k | port k. (port, Some k) \<in> set xs \<and> k \<le> 0x7fffffff}"

text \<open>Both maps have the keys \<open>ks\<close>.\<close>

definition keyed :: "int list \<Rightarrow> 'w process \<Rightarrow> bool" where
  "keyed ks p \<longleftrightarrow> map fst (ports p) = ks \<and> map fst (threads p) = ks"

text \<open>What the owner may do when it is told of a thread: anything but change the table.\<close>

definition table_hooks :: "'w hooks \<Rightarrow> bool" where
  "table_hooks H \<longleftrightarrow> (\<forall>r p. ports (snd (notify_thread H r p)) = ports p \<and> threads (snd (notify_thread H r p)) = threads p)"

lemma keyed_world: "keyed ks p \<Longrightarrow> keyed ks (p\<lparr>world := w\<rparr>)"
  by (simp add: keyed_def)

lemma keyed_hook: "table_hooks H \<Longrightarrow> preserves (keyed ks) (notify_thread H r)"
  by (auto simp: preserves_def table_hooks_def keyed_def)

lemma keyed_modify_thread: "preserves (keyed ks) (modify_thread t f)"
proof -
  have "fst \<circ> (\<lambda>(k, s). (k, if k = t then f s else s)) = fst" by auto
  then show ?thesis unfolding modify_thread_def
    by (intro preserves_bind preserves_basic preserves_modify) (simp add: keyed_def)
qed

lemma keyed_read_all_registers: "preserves (keyed ks) (read_all_registers K t)"
  unfolding read_all_registers_def put_user_def port_op_def
  by (auto intro!: preserves_bind keyed_modify_thread split: sum.splits)

lemma add_thread_keyed:
  assumes "table_hooks H" "keyed ks p" "add_thread K H t port p = (r, q)"
  shows "keyed (ks @ [t]) q"
proof -
  define p' where "p' = p\<lparr>ports := ports p @ [(t, port)], threads := threads p @ [(t, new_thread K t)]\<rparr>"
  have "keyed (ks @ [t]) p'" using assms(2) by (simp add: p'_def keyed_def)
  moreover have "preserves (keyed (ks @ [t])) (op_bind (op_modify (\<lambda>p. if current_thread p \<in> fst ` set (ports p) then p else p\<lparr>current_thread := t\<rparr>)) (\<lambda>_.
     if has_target H then notify_thread H (plain_reason t Stopped SIGSTOP) else op_return ()))"
    using keyed_hook [OF assms(1)] by (auto intro!: preserves_bind preserves_modify simp: keyed_def)
  ultimately show ?thesis
    using assms(3) preservesD by (fastforce simp: add_thread_def op_simps p'_def)
qed

lemma see_thread_keyed:
  assumes "table_hooks H" "keyed ks p" "see_thread K H x p = (Inr seen, q)"
  shows "keyed (case seen of None \<Rightarrow> ks | Some t \<Rightarrow> if t \<in> set ks then ks else ks @ [t]) q"
    "set_option seen = listed_ids [x]"
proof -
  obtain port found where x: "x = (port, found)" by fastforce
  have drop: "keyed ks q'" if "ignore_call (\<lambda>w. deallocate_port K w port) p' = (r, q')" "keyed ks p'" for r p' q' ks
    by (rule preservesD [of "keyed ks", OF preserves_call(3) that(2,1)]) (rule keyed_world)
  show "keyed (case seen of None \<Rightarrow> ks | Some t \<Rightarrow> if t \<in> set ks then ks else ks @ [t]) q"
  proof (cases "\<exists>k. found = Some k \<and> k \<le> 0x7fffffff")
    case False
    with assms(3) have "seen = None" "\<exists>r. ignore_call (\<lambda>w. deallocate_port K w port) p = (r, q)"
      by (auto simp: see_thread_def x op_bind_Inr_iff op_basic split: option.splits if_splits)
    with drop assms(2) show ?thesis by auto
  next
    case True
    then obtain k where k: "found = Some k" "k \<le> 0x7fffffff" by blast
    define t where "t = uint k"
    define p0 where "p0 = (if main_thread p = 0 then p\<lparr>main_thread := t\<rparr> else p)"
    have p0: "keyed ks p0" using assms(2) by (simp add: p0_def keyed_def)
    then have ks: "fst ` set (ports p0) = set ks" by (metis keyed_def list.set_map)
    obtain p1 where p1: "(if t \<in> set ks then ignore_call (\<lambda>w. deallocate_port K w port) else add_thread K H t port) p0 = (Inr (), p1)"
        "read_all_registers K t p1 = (Inr (), q)" "seen = Some t"
      using assms(3) k ks
      by (auto simp: see_thread_def x op_bind_Inr_iff op_basic Let_def t_def [symmetric] p0_def [symmetric] split: if_splits)
    have "keyed (if t \<in> set ks then ks else ks @ [t]) p1"
      using p1(1) drop p0 add_thread_keyed [OF assms(1) p0] by (auto split: if_splits)
    then show ?thesis using preservesD [OF keyed_read_all_registers _ p1(2)] p1(3) by simp
  qed
  show "set_option seen = listed_ids [x]"
    using assms(3)
    by (auto simp: see_thread_def x op_bind_Inr_iff op_basic Let_def listed_ids_def split: option.splits if_splits)
qed

lemma see_threads_keyed:
  assumes "table_hooks H"
  shows "keyed ks p \<Longrightarrow> distinct ks \<Longrightarrow> see_threads K H xs live p = (Inr live', q) \<Longrightarrow>
    set live' = set live \<union> listed_ids xs \<and> (\<exists>ks'. keyed ks' q \<and> distinct ks' \<and> set ks' = set ks \<union> listed_ids xs)"
proof (induction xs arbitrary: ks p live)
  case Nil
  then show ?case by (auto simp: op_simps listed_ids_def)
next
  case (Cons x xs)
  then obtain seen p1 where s: "see_thread K H x p = (Inr seen, p1)"
      "see_threads K H xs (case seen of None \<Rightarrow> live | Some t \<Rightarrow> t # live) p1 = (Inr live', q)"
    by (auto simp: op_bind_Inr_iff)
  let ?ks = "case seen of None \<Rightarrow> ks | Some t \<Rightarrow> if t \<in> set ks then ks else ks @ [t]"
  note k = see_thread_keyed [OF assms Cons.prems(1) s(1)]
  have ids: "listed_ids (x # xs) = listed_ids [x] \<union> listed_ids xs" by (auto simp: listed_ids_def)
  have d: "distinct ?ks" "set ?ks = set ks \<union> set_option seen" using Cons.prems(2) by (auto split: option.splits)
  have l: "set (case seen of None \<Rightarrow> live | Some t \<Rightarrow> t # live) = set live \<union> set_option seen" by (auto split: option.splits)
  show ?case
    using Cons.IH [OF k(1) d(1) s(2)] unfolding l d(2) ids k(2) by (auto simp: Un_assoc)
qed

lemma drop_thread_keyed:
  assumes "table_hooks H" "keyed ks p" "drop_thread K H (t, port) p = (Inr (), q)"
  shows "keyed (filter (\<lambda>k. k \<noteq> t) ks) q"
proof -
  obtain r p1 where p1: "notify_thread H (plain_reason t Exited 0) p = (Inr r, p1)"
      and q: "\<exists>w. q = p1\<lparr>threads := filter (\<lambda>(k, s). k \<noteq> t) (threads p1), world := w, ports := filter (\<lambda>(k, s). k \<noteq> t) (ports p1)\<rparr>"
    using assms(3)
    by (auto simp: drop_thread_def op_bind_Inr_iff op_basic ignore_call_def sys_call_def case_prod_unfold)
  have "keyed ks p1" using preservesD [OF keyed_hook [OF assms(1)] assms(2) p1] .
  moreover have "map fst (filter (\<lambda>(k, s). k \<noteq> t) ys) = filter (\<lambda>k. k \<noteq> t) (map fst ys)" for ys :: "(int \<times> thread_state) list"
    by (induction ys) auto
  moreover have "map fst (filter (\<lambda>(k, s). k \<noteq> t) zs) = filter (\<lambda>k. k \<noteq> t) (map fst zs)" for zs :: "(int \<times> nat) list"
    by (induction zs) auto
  ultimately show ?thesis using q by (auto simp: keyed_def)
qed

lemma drop_threads_keyed:
  assumes "table_hooks H"
  shows "keyed ks p \<Longrightarrow> op_each (drop_thread K H) gone p = (Inr (), q) \<Longrightarrow>
    keyed (filter (\<lambda>k. k \<notin> fst ` set gone) ks) q"
proof (induction gone arbitrary: ks p)
  case (Cons x gone)
  obtain t port where x: "x = (t, port)" by fastforce
  obtain p1 where p1: "drop_thread K H (t, port) p = (Inr (), p1)" "op_each (drop_thread K H) gone p1 = (Inr (), q)"
    using Cons.prems(2) x by (auto simp: op_bind_Inr_iff)
  have "filter (\<lambda>k. k \<notin> fst ` set gone) (filter (\<lambda>k. k \<noteq> t) ks) = filter (\<lambda>k. k \<notin> fst ` set (x # gone)) ks"
    unfolding x by (auto intro: filter_cong)
  with Cons.IH [OF drop_thread_keyed [OF assms Cons.prems(1) p1(1)] p1(2)] show ?case by simp
qed (simp add: op_simps)

section \<open>Properties\<close>

text \<open>
  C36: a step puts the breakpoint back.  When the thread stands at an enabled breakpoint site, a step
  that returns with the process stopped leaves an enabled site at that address, whatever the kernel
  and the hit handlers did in between.
\<close>

theorem step_restores_breakpoint:
  assumes "step_instruction n k K H (Some t) p = (Inr r, q)" "run_state q = Stopped"
    "get_pc K p (Some t) = Inr pc" "enabled_stoppoint_at_address site_class pc (breakpoint_sites p)"
  shows "enabled_stoppoint_at_address site_class pc (breakpoint_sites q)"
proof (cases n)
  case 0
  then show ?thesis using assms(1) by (simp add: step_instruction_def op_simps)
next
  case (Suc m)
  then obtain bp suspended p1 p2 where b: "begin_step k K t p = (Inr (bp, suspended), p1)"
      and e: "end_step k K t (bp, suspended) p2 = (Inr (), q)"
    using assms(1) by (auto simp: step_instruction_def Let_def step_body_def op_bind_Inr_iff op_basic)
  have "bp = Some pc" using begin_step_takes [OF b assms(3,4)] .
  with e obtain p3 where "reenable k K (Some pc) p3 = (Inr (), q)"
    by (auto simp: end_step_def op_bind_Inr_iff)
  then show ?thesis using reenable_enables assms(2) by blast
qed

text \<open>
  C37: the thread table.  When the two maps of threads agree and looking up the threads returns, they
  agree again, have no thread twice, contain exactly the threads the kernel lists (with an id the
  debugger can represent), and the current thread is one of them unless there is none.
\<close>

theorem thread_table_correct:
  assumes "table_hooks H" "\<forall>ks. set (visit K ks) = set ks" "is_attached p" "has_task p"
    "map fst (threads p) = map fst (ports p)" "distinct (map fst (ports p))"
    "task_threads K (world p) = Inr xs" "populate_existing_threads K H p = (Inr (), q)"
  shows "map fst (threads q) = map fst (ports q) \<and> distinct (map fst (ports q)) \<and>
    fst ` set (ports q) = listed_ids xs \<and> (listed_ids xs \<noteq> {} \<longrightarrow> current_thread q \<in> listed_ids xs)"
proof -
  have "keyed (map fst (ports p)) p" using assms(5) by (simp add: keyed_def)
  moreover obtain live p1 p2 where run: "see_threads K H xs [] p = (Inr live, p1)"
      "op_each (drop_thread K H) (filter (\<lambda>(t, port). t \<notin> set live) (port_order K p1)) p1 = (Inr (), p2)"
      and q: "q = (if ports p2 \<noteq> [] \<and> current_thread p2 \<notin> fst ` set (ports p2)
                   then p2\<lparr>current_thread := fst (hd (port_order K p2))\<rparr> else p2)"
    using assms(3,4,7,8) by (auto simp: populate_existing_threads_def op_bind_Inr_iff op_basic)
  ultimately obtain ks where ks: "set live = listed_ids xs" "keyed ks p1" "distinct ks" "listed_ids xs \<subseteq> set ks"
    using see_threads_keyed [OF assms(1) _ assms(6) run(1)] by fastforce
  let ?gone = "filter (\<lambda>(t, port). t \<notin> set live) (port_order K p1)"
  have "fst ` set ?gone = {t \<in> set (visit K (map fst (ports p1))). t \<notin> set live}"
    by (force simp: port_order_def)
  then have "filter (\<lambda>k. k \<notin> fst ` set ?gone) ks = filter (\<lambda>k. k \<in> set live) ks"
    using ks(2) assms(2) by (auto simp: keyed_def intro: filter_cong)
  then have p2: "keyed (filter (\<lambda>k. k \<in> set live) ks) p2" using drop_threads_keyed [OF assms(1) ks(2) run(2)] by simp
  then have "set (map fst (ports p2)) = {k \<in> set ks. k \<in> set live}" by (simp only: keyed_def set_filter)
  then have set2: "fst ` set (ports p2) = listed_ids xs" using ks(1,4) by auto
  have "fst (hd (port_order K p2)) \<in> fst ` set (ports p2)" if "ports p2 \<noteq> []"
  proof -
    have "set (visit K (map fst (ports p2))) = fst ` set (ports p2)" using assms(2) by simp
    moreover from this that have "visit K (map fst (ports p2)) \<noteq> []" by auto
    ultimately show ?thesis using hd_in_set by (fastforce simp: port_order_def hd_map)
  qed
  moreover have "ports p2 \<noteq> [] \<longleftrightarrow> listed_ids xs \<noteq> {}" using set2 by auto
  ultimately have "listed_ids xs \<noteq> {} \<longrightarrow> current_thread q \<in> listed_ids xs" using set2 q by auto
  moreover have "ports q = ports p2" "threads q = threads p2" using q by simp_all
  ultimately show ?thesis using p2 ks(3) set2 by (simp add: keyed_def)
qed

text \<open>A thread that stands at an enabled breakpoint, and a kernel that reports a trap.\<close>

definition demo_stepping_kernel :: "(u64 \<Rightarrow> byte option) mach" where
  "demo_stepping_kernel = demo_kernel\<lparr>wait_pid := (\<lambda>w. (Inr 0x57f, w)),
     get_gprs := (\<lambda>w port. Inr []), get_fprs := (\<lambda>w port. Inr [])\<rparr>"

definition demo_hooks :: "'w hooks" where
  "demo_hooks = \<lparr>has_target = False, notify_stop = (\<lambda>r. op_return ()), notify_thread = (\<lambda>r. op_return ()),
     notify_hit = (\<lambda>b. op_return False)\<rparr>"

definition demo_stop_regs :: registers where
  "demo_stop_regs = \<lparr>regs_data = overwrite 256 [0, 0x10] (replicate 1320 0), regs_undefined = [], regs_cfa = 0\<rparr>"

definition demo_at_breakpoint :: "(u64 \<Rightarrow> byte option) process" where
  "demo_at_breakpoint = demo_process\<lparr>
     threads := [(1, (new_thread demo_kernel 1)\<lparr>thread_regs := demo_stop_regs\<rparr>)],
     breakpoint_sites := [(new_site None 1 0x1000 True False)\<lparr>site_enabled := True, site_register_index := 0\<rparr>]\<rparr>"

lemma demo_pc: "read_by_id_as_u64 darwin_arm64 demo_stop_regs PC = Inr 0x1000"
  by code_simp

lemma demo_reread: "demo_stop_regs\<lparr>regs_data := overwrite off [] (regs_data demo_stop_regs)\<rparr> = demo_stop_regs"
  by (simp add: overwrite_def)

lemmas demo_simps = op_simps op_catch_def demo_at_breakpoint_def demo_process_def demo_stepping_kernel_def demo_kernel_def demo_hooks_def
  demo_pc demo_reread get_pc_def get_registers_def registers_at_def new_site_def new_thread_def pc_op_def enabled_site_op_def
  site_at_op_def enabled_stoppoint_at_address_def contains_address_def get_by_address_def find_by_address_def site_class_def
  port_op_def port_at_def port_order_def checked_call_def sys_call_def ignore_call_def check_def

lemma demo_begin: "begin_step 5 demo_stepping_kernel 1 demo_at_breakpoint =
    (Inr (Some 0x1000, []), demo_at_breakpoint\<lparr>breakpoint_sites := [(new_site None 1 0x1000 True False)\<lparr>site_register_index := 0\<rparr>],
       stepping := True, run_state := Running\<rparr>)"
  by (simp add: begin_step_def demo_simps disable_site_def clear_hardware_stoppoint_def clear_slot_def
      commit_debug_def modify_site_def suspend_others_def list_update_same_conv)

lemma demo_step:
  "\<exists>r q. step_instruction 3 5 demo_stepping_kernel demo_hooks (Some 1) demo_at_breakpoint = (Inr r, q) \<and> run_state q = Stopped"
  unfolding step_instruction_def
  by (simp add: numeral_3_eq_3 Let_def step_body_def demo_begin op_simps)
    (simp add: demo_simps wait_body_def wait_loop_body_def receive_stop_def stop_reason_of_def WSTATUS_def plain_reason_def
      populate_existing_threads_def see_thread_def read_all_registers_def put_user_def modify_thread_def
      classify_trap_def SIGTRAP_def SIGSTOP_def thread_order_def check_exception_def record_stop_def hit_resumes_def
      end_step_def reenable_def enable_site_def set_hardware_breakpoint_def set_hardware_stoppoint_def free_slot_def
      install_slot_def commit_debug_def modify_site_def upt_rec)

lemma demo_populate: "\<exists>q. populate_existing_threads demo_stepping_kernel demo_hooks demo_at_breakpoint = (Inr (), q)"
  by (simp add: demo_simps populate_existing_threads_def see_thread_def read_all_registers_def put_user_def modify_thread_def)

theorem thread_table_correct_witness:
  "\<exists>q. populate_existing_threads demo_stepping_kernel demo_hooks demo_at_breakpoint = (Inr (), q) \<and>
     fst ` set (ports q) = listed_ids [(7, Some 1)]"
proof -
  obtain q where q: "populate_existing_threads demo_stepping_kernel demo_hooks demo_at_breakpoint = (Inr (), q)"
    using demo_populate by blast
  have "fst ` set (ports q) = listed_ids [(7, Some 1)]"
    using thread_table_correct [OF _ _ _ _ _ _ _ q, of "[(7, Some 1)]"]
    by (simp add: table_hooks_def demo_hooks_def op_return_def demo_stepping_kernel_def demo_kernel_def
        demo_at_breakpoint_def demo_process_def)
  with q show ?thesis by blast
qed

theorem step_restores_breakpoint_witness:
  "\<exists>r q. step_instruction 3 5 demo_stepping_kernel demo_hooks (Some 1) demo_at_breakpoint = (Inr r, q) \<and>
     enabled_stoppoint_at_address site_class 0x1000 (breakpoint_sites q)"
proof -
  obtain r q where q: "step_instruction 3 5 demo_stepping_kernel demo_hooks (Some 1) demo_at_breakpoint = (Inr r, q)" "run_state q = Stopped"
    using demo_step by blast
  have "enabled_stoppoint_at_address site_class 0x1000 (breakpoint_sites q)"
    by (rule step_restores_breakpoint [OF q]) (simp_all add: demo_simps)
  with q show ?thesis by blast
qed

text \<open>
  A step that fails to start does not put the breakpoint back: here the kernel refuses the
  single-step bit, \<open>step_instruction\<close> throws, and the breakpoint it had taken away stays disabled.
\<close>

definition demo_stuck_kernel :: "(u64 \<Rightarrow> byte option) mach" where
  "demo_stuck_kernel = demo_stepping_kernel\<lparr>set_debug := (\<lambda>w port d. (if dbg_mdscr d = 0 then None else Some ''denied'', w))\<rparr>"

lemma step_failure_keeps_breakpoint_disabled:
  "case step_instruction 3 5 demo_stuck_kernel demo_hooks (Some 1) demo_at_breakpoint of
     (r, q) \<Rightarrow> r = Inl (Sdb_Error ''enable selected-thread step: denied'') \<and> \<not> site_enabled (breakpoint_sites q ! 0)"
  unfolding step_instruction_def
  by (simp add: numeral_3_eq_3 Let_def step_body_def begin_step_def demo_stuck_kernel_def demo_simps disable_site_def
      clear_hardware_stoppoint_def clear_slot_def commit_debug_def modify_site_def suspend_others_def list_update_same_conv send_def)

end
