(* ===== verification/Disassembler.thy ===== *)
theory Disassembler
  imports Process_Traps
begin

text \<open>
  The disassembler (\<^verbatim>\<open>src/src/disassembler.cpp\<close>): instructions are read from the process with the traps of
  breakpoints taken out, decoded one by one, and their text is trimmed.  The decoder of the LLVM library is a
  parameter: \<open>llvm_decode\<close> gives the text of an instruction, or nothing when it returns 0.
\<close>

section \<open>Operations\<close>

record llvm =
  llvm_ready :: bool
  llvm_decode :: "byte list \<Rightarrow> u64 \<Rightarrow> string option"

type_synonym instruction = "u64 \<times> string"

definition TAB :: char where "TAB = CHR 0x09"

text \<open>Leading blanks go, unless there is nothing else; the tabs that are left become spaces.\<close>

definition instruction_text :: "llvm \<Rightarrow> byte list \<Rightarrow> u64 \<Rightarrow> string" where
  "instruction_text ctx bytes pc =
     (let value = (case llvm_decode ctx bytes pc of Some t \<Rightarrow> t | None \<Rightarrow> ''.word (unknown instruction)'');
          trimmed = dropWhile (\<lambda>c. c = CHR '' '' \<or> c = TAB) value
      in map (\<lambda>c. if c = TAB then CHR '' '' else c) (if trimmed = [] then value else trimmed))"

fun disassemble_loop :: "'w mach \<Rightarrow> llvm \<Rightarrow> 'w process \<Rightarrow> nat \<Rightarrow> u64 \<Rightarrow> instruction list result" where
  "disassemble_loop K ctx p 0 pc = Inr []"
| "disassemble_loop K ctx p (Suc n) pc =
     bind_res (read_memory_without_traps K p pc 4) (\<lambda>bytes.
     bind_res (disassemble_loop K ctx p n (pc + 4)) (\<lambda>rest.
     Inr ((pc, instruction_text ctx bytes pc) # rest)))"

text \<open>The program counter is read even when an address is given.\<close>

definition disassemble :: "'w mach \<Rightarrow> llvm \<Rightarrow> 'w process \<Rightarrow> nat \<Rightarrow> u64 option \<Rightarrow> instruction list result" where
  "disassemble K ctx p n addr =
     (if \<not> llvm_ready ctx then send ''Cannot initialize ARM64 disassembler''
      else bind_res (get_pc K p None) (\<lambda>pc.
           disassemble_loop K ctx p n (case addr of Some a \<Rightarrow> a | None \<Rightarrow> pc)))"

section \<open>Properties\<close>

text \<open>The listing of \<open>n\<close> instructions of a memory.\<close>

definition listing :: "llvm \<Rightarrow> (u64 \<Rightarrow> byte option) \<Rightarrow> u64 \<Rightarrow> nat \<Rightarrow> instruction list" where
  "listing ctx M a n = map (\<lambda>i. let pc = a + word_of_nat (4 * i) in (pc, instruction_text ctx (contents M pc 4) pc)) [0..<n]"

lemma listing_Suc: "listing ctx M a (Suc n) = (a, instruction_text ctx (contents M a 4) a) # listing ctx M (a + 4) n"
  unfolding listing_def by (subst upt_conv_Cons) (auto simp: Let_def map_Suc_upt [symmetric] add.assoc simp del: upt_Suc map_Suc_upt)

lemma disassemble_loop_listing:
  assumes "kernel_memory K mem" "overlay mem M q" "mapped M a (4 * n)" "unat a + 4 * n \<le> 2 ^ 64"
  shows "disassemble_loop K ctx q n a = Inr (listing ctx M a n)"
  using assms(3,4)
proof (induction n arbitrary: a)
  case 0
  then show ?case by (simp add: listing_def)
next
  case (Suc n)
  have here: "read_memory_without_traps K q a 4 = Inr (contents M a 4)"
    using Suc.prems mapped_shift [of M a "4 * Suc n" 0 4] by (intro read_without_traps_ok [OF assms(1,2)]) auto
  have "disassemble_loop K ctx q n (a + 4) = Inr (listing ctx M (a + 4) n)"
  proof (cases "n = 0")
    case False
    then have "unat (a + 4) = unat a + 4"
      using Suc.prems(2) by (subst unat_add_lem [THEN iffD1]) auto
    then show ?thesis using Suc.prems mapped_shift [of M a "4 * Suc n" 4 "4 * n"] by (intro Suc.IH) auto
  qed (simp add: listing_def)
  then show ?case by (simp add: here listing_Suc res_simps)
qed


section \<open>A breakpoint in the listing\<close>

interpretation thread_frame: stoppoint_frame K "\<lambda>p. threads p = ts \<and> current_thread p = c"
  by unfold_locales simp_all

definition demo_llvm :: llvm where
  "demo_llvm = \<lparr>llvm_ready = True, llvm_decode = (\<lambda>bs a. if bs = [0, 1, 2, 3] then Some (TAB # ''add'' @ [TAB] @ ''w0, w8, w1'') else None)\<rparr>"

definition demo_listed :: "(u64 \<Rightarrow> byte option) process" where
  "demo_listed = demo_process\<lparr>threads := [(1, \<lparr>thread_regs = \<lparr>regs_data = replicate 1320 0, regs_undefined = [], regs_cfa = 0\<rparr>,
     thread_reason = \<lparr>reason = Stopped, info = 5, trap_reason = None, syscall_info = None, stop_tid = 1\<rparr>,
     thread_run_state = Stopped, pending_sigstop = False\<rparr>)]\<rparr>"

definition demo_listed_trap :: "(u64 \<Rightarrow> byte option) process" where
  "demo_listed_trap = snd (enable_site 5 demo_kernel 0 (snd (create_breakpoint_site 0x1000 False False demo_listed)))"

lemma demo_listed_pc: "get_pc demo_kernel demo_listed_trap None = Inr 0"
proof -
  have "threads (snd (create_breakpoint_site 0x1000 False False demo_listed)) = threads demo_listed"
    "current_thread (snd (create_breakpoint_site 0x1000 False False demo_listed)) = 1"
    by (simp_all add: create_breakpoint_site_def op_simps push_site_def next_id_def push_def demo_listed_def demo_process_def
        site_coll.contains_address_iff)
  then have "threads demo_listed_trap = threads demo_listed \<and> current_thread demo_listed_trap = 1"
    using thread_frame.toggle(1) [of "threads demo_listed" 1 5 demo_kernel 0]
    unfolding demo_listed_trap_def preserves_def by blast
  moreover have "read_by_id_as_u64 darwin_arm64 \<lparr>regs_data = replicate 1320 0, regs_undefined = [], regs_cfa = 0\<rparr> PC = Inr 0"
    by code_simp
  ultimately show ?thesis
    by (simp add: get_pc_def get_registers_def registers_at_def demo_listed_def demo_kernel_def)
qed


end
