(* ===== verification/Bits.thy ===== *)
theory Bits
  imports Sdb_Prelude
begin

text \<open>
  The bit-wise copy of \<^verbatim>\<open>include/libsdb/bit.hpp\<close>, which bit fields and composite locations are put
  together with.  \<open>memcpy_bits\<close> works on two distinct arrays; an index outside one of them is undefined behaviour.  The bit
  counters are 32-bit words that wrap.
\<close>

section \<open>Copying bits\<close>

definition memcpy_bit :: "byte list \<Rightarrow> u32 \<Rightarrow> byte list \<Rightarrow> u32 \<Rightarrow> byte list result" where
  "memcpy_bit dest dest_bit src src_bit =
     (let d = unat (dest_bit div 8); s = unat (src_bit div 8);
          dest_mask = push_bit (unat (dest_bit mod 8)) (1 :: byte)
      in if d < length dest then
           if s < length src then
             let cleared = dest[d := dest ! d AND NOT dest_mask];
                 src_mask = push_bit (unat (src_bit mod 8)) (1 :: u32);
                 corresponding_src_bit_set = (ucast (src ! s) :: u32) AND src_mask
             in Inr (if corresponding_src_bit_set \<noteq> 0 then cleared[d := cleared ! d OR dest_mask] else cleared)
           else undefined_behaviour ''source bit outside its array''
         else undefined_behaviour ''destination bit outside its array'')"

function memcpy_bits :: "byte list \<Rightarrow> u32 \<Rightarrow> byte list \<Rightarrow> u32 \<Rightarrow> u32 \<Rightarrow> byte list result" where
  "memcpy_bits dest dest_bit src src_bit n_bits =
     (if n_bits = 0 then Inr dest
      else bind_res (memcpy_bit dest dest_bit src src_bit)
             (\<lambda>dest'. memcpy_bits dest' (dest_bit + 1) src (src_bit + 1) (n_bits - 1)))"
  by pat_completeness auto

termination
  by (relation "measure (\<lambda>(_, _, _, _, n). unat n)") (auto simp: unat_minus_one word_gt_0 unat_gt_0)

declare memcpy_bits.simps [simp del]

section \<open>The bits of an array\<close>

text \<open>Bit \<open>k\<close> of an array is bit \<open>k mod 8\<close> of byte \<open>k div 8\<close>, bit 0 being the lowest.\<close>

definition bit_at :: "byte list \<Rightarrow> nat \<Rightarrow> bool" where
  "bit_at bs k \<longleftrightarrow> bit (bs ! (k div 8)) (k mod 8)"

lemma unat_div_8: "unat (x div 8 :: u32) = unat x div 8"
  by (simp add: unat_div)

lemma unat_mod_8: "unat (x mod 8 :: u32) = unat x mod 8"
  by (simp add: unat_mod)

lemma mask_bit_byte:
  fixes b :: byte
  assumes "i < 8" "j < 8"
  shows "bit (b AND NOT (push_bit i 1)) j \<longleftrightarrow> bit b j \<and> j \<noteq> i"
    and "bit (b AND NOT (push_bit i 1) OR push_bit i 1) j \<longleftrightarrow> bit b j \<or> j = i"
  using assms by (auto simp: bit_simps)

lemma source_bit_set:
  fixes b :: byte
  assumes "i < 8"
  shows "(ucast b :: u32) AND push_bit i 1 \<noteq> 0 \<longleftrightarrow> bit b i"
proof
  assume "(ucast b :: u32) AND push_bit i 1 \<noteq> 0"
  then obtain k where "bit ((ucast b :: u32) AND push_bit i 1) k"
    by (metis bit_eqI bit_0_eq bot_apply bot_bool_def)
  then show "bit b i" by (auto simp: bit_simps)
next
  assume "bit b i"
  then have "bit ((ucast b :: u32) AND push_bit i 1) i" using assms by (auto simp: bit_simps)
  then show "(ucast b :: u32) AND push_bit i 1 \<noteq> 0" by (metis bit_0_eq bot_apply bot_bool_def)
qed

lemma memcpy_bit_effect:
  assumes "unat db < 8 * length dest" "unat sb < 8 * length src"
  shows "\<exists>r. memcpy_bit dest db src sb = Inr r \<and> length r = length dest \<and>
           (\<forall>k < 8 * length dest. bit_at r k = (if k = unat db then bit_at src (unat sb) else bit_at dest k))"
proof -
  let ?d = "unat db div 8" and ?i = "unat db mod 8"
  let ?b = "(if bit_at src (unat sb) then dest ! ?d AND NOT (push_bit ?i 1) OR push_bit ?i 1
             else dest ! ?d AND NOT (push_bit ?i 1))"
  have d: "?d < length dest" and s: "unat sb div 8 < length src" using assms by auto
  have eq: "memcpy_bit dest db src sb = Inr (dest[?d := ?b])"
    using d s by (simp add: memcpy_bit_def Let_def unat_div_8 unat_mod_8 source_bit_set bit_at_def
      del: push_bit_of_1)
  have "bit_at (dest[?d := ?b]) k = (if k = unat db then bit_at src (unat sb) else bit_at dest k)"
    if k: "k < 8 * length dest" for k
  proof (cases "k div 8 = ?d")
    case True
    moreover from True have "k mod 8 = ?i \<longleftrightarrow> k = unat db" by (metis div_mult_mod_eq)
    ultimately show ?thesis using d mask_bit_byte [of ?i "k mod 8" "dest ! ?d"] by (auto simp: bit_at_def)
  next
    case False
    then have "k \<noteq> unat db" by auto
    with False show ?thesis by (simp add: bit_at_def)
  qed
  with eq show ?thesis by auto
qed

lemma memcpy_bits_effect:
  assumes "unat db + unat n \<le> 8 * length dest" "unat sb + unat n \<le> 8 * length src"
    "8 * length dest < 2 ^ 32" "8 * length src < 2 ^ 32"
  shows "\<exists>r. memcpy_bits dest db src sb n = Inr r \<and> length r = length dest \<and>
           (\<forall>k < 8 * length dest. bit_at r k =
              (if unat db \<le> k \<and> k < unat db + unat n then bit_at src (unat sb + (k - unat db)) else bit_at dest k))"
  using assms
proof (induction dest db src sb n rule: memcpy_bits.induct)
  case (1 dest db src sb n)
  show ?case
  proof (cases "n = 0")
    case True
    then show ?thesis by (subst memcpy_bits.simps) auto
  next
    case False
    then have n: "unat n = Suc (unat (n - 1))" by (simp add: unat_minus_one unat_gt_0 Suc_diff_Suc)
    obtain r where r: "memcpy_bit dest db src sb = Inr r" "length r = length dest"
        "\<forall>k < 8 * length dest. bit_at r k = (if k = unat db then bit_at src (unat sb) else bit_at dest k)"
      using memcpy_bit_effect [of db dest sb src] 1(2,3) n by auto
    have up: "unat (db + 1) = Suc (unat db)" "unat (sb + 1) = Suc (unat sb)"
      using 1(2-5) n by (auto simp: unat_word_ariths)
    obtain q where q: "memcpy_bits r (db + 1) src (sb + 1) (n - 1) = Inr q" "length q = length r"
        "\<forall>k < 8 * length r. bit_at q k =
          (if unat (db + 1) \<le> k \<and> k < unat (db + 1) + unat (n - 1)
           then bit_at src (unat (sb + 1) + (k - unat (db + 1))) else bit_at r k)"
      using 1(1) [OF False r(1)] 1(2-5) n r(2) up by auto
    have "bit_at q k = (if unat db \<le> k \<and> k < unat db + unat n
            then bit_at src (unat sb + (k - unat db)) else bit_at dest k)" if "k < 8 * length dest" for k
    proof -
      have "unat (sb + 1) + (k - unat (db + 1)) = unat sb + (k - unat db)" if "unat db < k" using that up by simp
      with q(3) r(2,3) that n up show ?thesis by (auto simp: Suc_le_eq)
    qed
    with False r(1,2) q(1,2) show ?thesis by (subst memcpy_bits.simps) auto
  qed
qed

text \<open>
  C38: \<open>memcpy_bits\<close> copies exactly \<open>n\<close> bits.  Where both bit ranges lie in their arrays it returns
  an array of the same length in which the bits of the destination range are those of the source
  range in order and every other bit is as before.
\<close>

theorem memcpy_bits_correct:
  assumes "unat db + unat n \<le> 8 * length dest" "unat sb + unat n \<le> 8 * length src"
    "8 * length dest < 2 ^ 32" "8 * length src < 2 ^ 32"
  shows "\<exists>r. memcpy_bits dest db src sb n = Inr r \<and> length r = length dest \<and>
           (\<forall>k < 8 * length dest. bit_at r k =
              (if unat db \<le> k \<and> k < unat db + unat n then bit_at src (unat sb + (k - unat db)) else bit_at dest k))"
  by (rule memcpy_bits_effect [OF assms])

theorem memcpy_bits_correct_witness:
  "\<exists>r. memcpy_bits [0xff, 0, 0] 6 [0xa5, 0x0f] 3 7 = Inr r \<and> length r = length [0xff, 0, 0 :: byte] \<and>
     (\<forall>k < 8 * length [0xff, 0, 0 :: byte]. bit_at r k =
        (if unat (6 :: u32) \<le> k \<and> k < unat (6 :: u32) + unat (7 :: u32)
         then bit_at [0xa5, 0x0f] (unat (3 :: u32) + (k - unat (6 :: u32))) else bit_at [0xff, 0, 0] k))"
  by (rule memcpy_bits_correct) simp_all

end
