(* ===== verification/Types.thy ===== *)
theory Types
  imports Dwarf_Index Bits Process
begin

text \<open>
  The type system: class \<open>type\<close> and class \<open>typed_data\<close> (\<^verbatim>\<open>src/src/type.cpp\<close>,
  \<^verbatim>\<open>include/libsdb/type.hpp\<close>) and the classification of floating-point aggregates
  (\<^verbatim>\<open>src/src/abi.cpp\<close>).

  A type is an entry of the debug information or one of five built-in types.  Following references
  from type to type carries fuel \<open>n\<close>, because the references of malformed debug information can be
  cyclic; the cache of \<open>byte_size\<close> returns what computing it again returns and is left out.  Reading
  memory, reading a string from memory and printing numbers are arguments.  Data is a byte list,
  and using bytes it does not have is undefined behaviour.
\<close>

section \<open>Types\<close>

datatype builtin_type = Builtin_string | Builtin_character | Builtin_integer | Builtin_boolean | Builtin_floating_point

datatype dtype = From_dwarf die | Builtin builtin_type

definition get_die :: "dtype \<Rightarrow> die result" where
  "get_die t = (case t of From_dwarf d \<Rightarrow> Inr d | Builtin b \<Rightarrow> send ''Type is not from DWARF info'')"

definition type_of_die :: "elf \<Rightarrow> cu_header list \<Rightarrow> die \<Rightarrow> die result" where
  "type_of_die obj cus d = bind_res (die_attr d DW_AT_type) (as_type obj cus)"

fun strip :: "nat \<Rightarrow> elf \<Rightarrow> cu_header list \<Rightarrow> u64 list \<Rightarrow> die \<Rightarrow> die result" where
  "strip 0 obj cus tags d = Inl Out_Of_Fuel"
| "strip (Suc n) obj cus tags d =
     bind_res (die_tag d) (\<lambda>tag.
     if tag \<in> set tags then bind_res (type_of_die obj cus d) (strip n obj cus tags) else Inr d)"

definition cv_typedef_tags :: "u64 list" where
  "cv_typedef_tags = [DW_TAG_const_type, DW_TAG_volatile_type, DW_TAG_typedef]"

definition cvref_typedef_tags :: "u64 list" where
  "cvref_typedef_tags = cv_typedef_tags @ [DW_TAG_reference_type, DW_TAG_rvalue_reference_type]"

definition all_tags :: "u64 list" where
  "all_tags = cvref_typedef_tags @ [DW_TAG_pointer_type]"

definition strip_cv_typedef :: "nat \<Rightarrow> elf \<Rightarrow> cu_header list \<Rightarrow> die \<Rightarrow> die result" where
  "strip_cv_typedef n obj cus d = strip n obj cus cv_typedef_tags d"

definition strip_cvref_typedef :: "nat \<Rightarrow> elf \<Rightarrow> cu_header list \<Rightarrow> die \<Rightarrow> die result" where
  "strip_cvref_typedef n obj cus d = strip n obj cus cvref_typedef_tags d"

definition strip_all :: "nat \<Rightarrow> elf \<Rightarrow> cu_header list \<Rightarrow> die \<Rightarrow> die result" where
  "strip_all n obj cus d = strip n obj cus all_tags d"

section \<open>Sizes\<close>

definition builtin_size :: "builtin_type \<Rightarrow> u64" where
  "builtin_size b =
     (case b of Builtin_boolean \<Rightarrow> 1 | Builtin_character \<Rightarrow> 1 | Builtin_integer \<Rightarrow> 8
              | Builtin_floating_point \<Rightarrow> 8 | Builtin_string \<Rightarrow> 8)"

definition scale_by_subrange :: "elf \<Rightarrow> u64 \<Rightarrow> die \<Rightarrow> (u64 \<times> bool) result" where
  "scale_by_subrange obj unit_bytes child =
     bind_res (die_tag child) (\<lambda>tag.
     if tag = DW_TAG_subrange_type
     then bind_res (int_attr obj child DW_AT_upper_bound) (\<lambda>upper. Inr (unit_bytes * (upper + 1), False))
     else Inr (unit_bytes, False))"

fun compute_byte_size :: "nat \<Rightarrow> elf \<Rightarrow> cu_header list \<Rightarrow> die \<Rightarrow> u64 result" where
  "compute_byte_size 0 obj cus d = Inl Out_Of_Fuel"
| "compute_byte_size (Suc n) obj cus d =
     bind_res (die_tag d) (\<lambda>tag.
     if tag = DW_TAG_pointer_type then Inr 8
     else if tag = DW_TAG_ptr_to_member_type then
       bind_res (type_of_die obj cus d) (\<lambda>m.
       bind_res (die_tag m) (\<lambda>t. Inr (if t = DW_TAG_subroutine_type then 16 else 8)))
     else if tag = DW_TAG_array_type then
       bind_res (type_of_die obj cus d) (\<lambda>e.
       bind_res (compute_byte_size n obj cus e) (\<lambda>unit_bytes.
       fold_children n obj (scale_by_subrange obj) unit_bytes d))
     else
       bind_res (die_contains d DW_AT_byte_size) (\<lambda>sized.
       if sized then int_attr obj d DW_AT_byte_size
       else
         bind_res (die_contains d DW_AT_type) (\<lambda>typed.
         if typed then bind_res (type_of_die obj cus d) (compute_byte_size n obj cus)
         else Inr 0)))"

definition byte_size :: "nat \<Rightarrow> elf \<Rightarrow> cu_header list \<Rightarrow> dtype \<Rightarrow> u64 result" where
  "byte_size n obj cus t = (case t of Builtin b \<Rightarrow> Inr (builtin_size b) | From_dwarf d \<Rightarrow> compute_byte_size n obj cus d)"

text \<open>The conjunction binds tighter than the disjunction: an unsigned character encoding is enough.\<close>

definition is_char_type :: "nat \<Rightarrow> elf \<Rightarrow> cu_header list \<Rightarrow> die \<Rightarrow> bool result" where
  "is_char_type n obj cus d =
     bind_res (strip_cv_typedef n obj cus d) (\<lambda>stripped.
     bind_res (die_contains stripped DW_AT_encoding) (\<lambda>encoded.
     if \<not> encoded then Inr False
     else
       bind_res (int_attr obj stripped DW_AT_encoding) (\<lambda>encoding.
       bind_res (die_tag stripped) (\<lambda>tag.
       Inr (tag = DW_TAG_base_type \<and> encoding = DW_ATE_signed_char \<or> encoding = DW_ATE_unsigned_char)))))"

definition class_tag :: "u64 \<Rightarrow> bool" where
  "class_tag tag \<longleftrightarrow> tag = DW_TAG_class_type \<or> tag = DW_TAG_structure_type \<or> tag = DW_TAG_union_type"

definition is_class_type :: "nat \<Rightarrow> elf \<Rightarrow> cu_header list \<Rightarrow> die \<Rightarrow> bool result" where
  "is_class_type n obj cus d =
     bind_res (strip_cv_typedef n obj cus d) (\<lambda>stripped. bind_res (die_tag stripped) (\<lambda>tag. Inr (class_tag tag)))"

definition is_reference_type :: "nat \<Rightarrow> elf \<Rightarrow> cu_header list \<Rightarrow> die \<Rightarrow> bool result" where
  "is_reference_type n obj cus d =
     bind_res (strip_cv_typedef n obj cus d) (\<lambda>stripped.
     bind_res (die_tag stripped) (\<lambda>tag. Inr (tag = DW_TAG_reference_type \<or> tag = DW_TAG_rvalue_reference_type)))"

text \<open>
  The test for data members that several loops share; here too the conjunction binds tighter.
\<close>

definition is_data_member :: "die \<Rightarrow> bool result" where
  "is_data_member child =
     bind_res (die_tag child) (\<lambda>tag.
     bind_res (if tag = DW_TAG_member then die_contains child DW_AT_data_member_location else Inr False) (\<lambda>located.
     if located then Inr True else die_contains child DW_AT_data_bit_offset))"

section \<open>Equality\<close>

definition builtin_matches :: "nat \<Rightarrow> elf \<Rightarrow> cu_header list \<Rightarrow> die \<Rightarrow> builtin_type \<Rightarrow> bool result" where
  "builtin_matches n obj cus d b =
     bind_res (strip_cvref_typedef n obj cus d) (\<lambda>d'.
     bind_res (die_tag d') (\<lambda>tag.
     if tag = DW_TAG_base_type then
       bind_res (int_attr obj d' DW_AT_encoding) (\<lambda>encoding. Inr
         (if encoding = DW_ATE_boolean then b = Builtin_boolean
          else if encoding = DW_ATE_float then b = Builtin_floating_point
          else if encoding = DW_ATE_signed \<or> encoding = DW_ATE_unsigned then b = Builtin_integer
          else if encoding = DW_ATE_signed_char \<or> encoding = DW_ATE_unsigned_char then b = Builtin_character
          else False))
     else if tag = DW_TAG_pointer_type then
       bind_res (type_of_die obj cus d') (\<lambda>pointee.
       bind_res (is_char_type n obj cus pointee) (\<lambda>char. Inr (char \<and> b = Builtin_string)))
     else Inr False))"

definition type_eq :: "nat \<Rightarrow> elf \<Rightarrow> cu_header list \<Rightarrow> dtype \<Rightarrow> dtype \<Rightarrow> bool result" where
  "type_eq n obj cus lhs rhs =
     (case (lhs, rhs) of
        (Builtin a, Builtin b) \<Rightarrow> Inr (a = b)
      | (Builtin a, From_dwarf d) \<Rightarrow> builtin_matches n obj cus d a
      | (From_dwarf d, Builtin b) \<Rightarrow> builtin_matches n obj cus d b
      | (From_dwarf c, From_dwarf d) \<Rightarrow>
          bind_res (strip_all n obj cus c) (\<lambda>c'.
          bind_res (strip_all n obj cus d) (\<lambda>d'.
          bind_res (die_name n obj cus c') (\<lambda>cname.
          bind_res (die_name n obj cus d') (\<lambda>dname.
          Inr (cname \<noteq> None \<and> dname \<noteq> None \<and> cname = dname))))))"

section \<open>Alignment\<close>

text \<open>
  Whether a type is a class is decided after stripping, but the members looped over are those of
  the entry itself.
\<close>

fun alignment :: "nat \<Rightarrow> elf \<Rightarrow> cu_header list \<Rightarrow> die \<Rightarrow> u64 result" where
  "alignment 0 obj cus d = Inl Out_Of_Fuel"
| "alignment (Suc n) obj cus d =
     bind_res (is_class_type (Suc n) obj cus d) (\<lambda>class.
     if class then
       fold_children (Suc n) obj (\<lambda>max_alignment child.
         bind_res (is_data_member child) (\<lambda>mem.
         if mem then
           bind_res (type_of_die obj cus child) (\<lambda>m.
           bind_res (alignment n obj cus m) (\<lambda>a. Inr (if max_alignment < a then a else max_alignment, False)))
         else Inr (max_alignment, False))) 0 d
     else
       bind_res (die_tag d) (\<lambda>tag.
       if tag = DW_TAG_array_type then bind_res (type_of_die obj cus d) (alignment n obj cus)
       else compute_byte_size (Suc n) obj cus d))"

definition modulo :: "u64 \<Rightarrow> u64 \<Rightarrow> u64 result" where
  "modulo a b = (if b = 0 then undefined_behaviour ''remainder of a division by zero'' else Inr (a mod b))"

fun has_unaligned_fields :: "nat \<Rightarrow> elf \<Rightarrow> cu_header list \<Rightarrow> die \<Rightarrow> bool result" where
  "has_unaligned_fields 0 obj cus d = Inl Out_Of_Fuel"
| "has_unaligned_fields (Suc n) obj cus d =
     bind_res (is_class_type (Suc n) obj cus d) (\<lambda>class.
     if class then
       fold_children (Suc n) obj (\<lambda>_ child.
         bind_res (die_tag child) (\<lambda>tag.
         bind_res (if tag = DW_TAG_member then die_contains child DW_AT_data_member_location else Inr False) (\<lambda>located.
         if located then
           bind_res (type_of_die obj cus child) (\<lambda>m.
           bind_res (int_attr obj child DW_AT_data_member_location) (\<lambda>off.
           bind_res (alignment n obj cus m) (\<lambda>a.
           bind_res (modulo off a) (\<lambda>r.
           if r \<noteq> 0 then Inr (True, True)
           else bind_res (has_unaligned_fields n obj cus m) (\<lambda>inner. Inr (inner, inner))))))
         else Inr (False, False)))) False d
     else Inr False)"

section \<open>Types that are not trivial for calls\<close>

definition is_destructor :: "nat \<Rightarrow> elf \<Rightarrow> cu_header list \<Rightarrow> die \<Rightarrow> bool result" where
  "is_destructor n obj cus func =
     bind_res (die_name n obj cus func) (\<lambda>name.
     Inr (case name of None \<Rightarrow> False | Some s \<Rightarrow> 1 < length s \<and> hd s = CHR 0x7E))"

text \<open>The counter of parameters and, once it is known, the answer.\<close>

definition constructor_parameter ::
  "nat \<Rightarrow> elf \<Rightarrow> cu_header list \<Rightarrow> dtype \<Rightarrow> nat \<times> bool \<Rightarrow> die \<Rightarrow> ((nat \<times> bool) \<times> bool) result" where
  "constructor_parameter n obj cus class_type = (\<lambda>(i, rejected) child.
     bind_res (die_tag child) (\<lambda>tag.
     if tag = DW_TAG_formal_parameter then
       bind_res (if i < 2 then type_of_die obj cus child else Inr child) (\<lambda>t.
       if i = 0 then
         bind_res (die_tag t) (\<lambda>ttag.
         if ttag \<noteq> DW_TAG_pointer_type then Inr ((i, True), True)
         else
           bind_res (type_of_die obj cus t) (\<lambda>pointee.
           bind_res (strip_cv_typedef n obj cus pointee) (\<lambda>stripped.
           bind_res (type_eq n obj cus (From_dwarf stripped) class_type) (\<lambda>same.
           if same then Inr ((Suc i, False), False) else Inr ((i, True), True)))))
       else if i = 1 then
         bind_res (die_tag t) (\<lambda>ttag.
         if ttag \<noteq> DW_TAG_reference_type \<and> ttag \<noteq> DW_TAG_rvalue_reference_type then Inr ((i, True), True)
         else
           bind_res (type_of_die obj cus t) (\<lambda>referred.
           bind_res (strip_cv_typedef n obj cus referred) (\<lambda>stripped.
           bind_res (type_eq n obj cus (From_dwarf stripped) class_type) (\<lambda>same.
           if same then Inr ((Suc i, False), False) else Inr ((i, True), True)))))
       else Inr ((i, True), True))
     else Inr ((Suc i, False), False)))"

definition is_copy_or_move_constructor :: "nat \<Rightarrow> elf \<Rightarrow> cu_header list \<Rightarrow> die \<Rightarrow> die \<Rightarrow> bool result" where
  "is_copy_or_move_constructor n obj cus class_die func =
     bind_res (die_name n obj cus class_die) (\<lambda>cname.
     bind_res (die_name n obj cus func) (\<lambda>fname.
     if cname \<noteq> fname then Inr False
     else
       bind_res (fold_children n obj (constructor_parameter n obj cus (From_dwarf class_die)) (0, False) func) (\<lambda>(i, rejected).
       Inr (\<not> rejected \<and> i = 2))))"

definition not_defaulted :: "elf \<Rightarrow> die \<Rightarrow> bool result" where
  "not_defaulted obj child =
     bind_res (die_contains child DW_AT_defaulted) (\<lambda>has.
     if \<not> has then Inr True
     else bind_res (int_attr obj child DW_AT_defaulted) (\<lambda>v. Inr (v \<noteq> DW_DEFAULTED_in_class)))"

definition is_virtual :: "elf \<Rightarrow> die \<Rightarrow> bool result" where
  "is_virtual obj child =
     bind_res (die_contains child DW_AT_virtuality) (\<lambda>has.
     if \<not> has then Inr False
     else bind_res (int_attr obj child DW_AT_virtuality) (\<lambda>v. Inr (v \<noteq> DW_VIRTUALITY_none)))"

definition special_function :: "nat \<Rightarrow> elf \<Rightarrow> cu_header list \<Rightarrow> die \<Rightarrow> die \<Rightarrow> bool result" where
  "special_function n obj cus class_die child =
     bind_res (die_tag child) (\<lambda>tag.
     if tag = DW_TAG_subprogram then
       bind_res (is_copy_or_move_constructor n obj cus class_die child) (\<lambda>ctor.
       bind_res (if ctor then Inr True else is_destructor n obj cus child) (\<lambda>special.
       if special then not_defaulted obj child else Inr False))
     else Inr False)"

text \<open>Disjunction that looks at the second test only when the first is false.\<close>

definition or_else :: "bool result \<Rightarrow> bool result \<Rightarrow> bool result" where
  "or_else a b = bind_res a (\<lambda>x. if x then Inr True else b)"

fun is_non_trivial_for_calls :: "nat \<Rightarrow> elf \<Rightarrow> cu_header list \<Rightarrow> die \<Rightarrow> bool result" where
  "is_non_trivial_for_calls 0 obj cus d = Inl Out_Of_Fuel"
| "is_non_trivial_for_calls (Suc n) obj cus d =
     bind_res (strip_cv_typedef (Suc n) obj cus d) (\<lambda>stripped.
     bind_res (die_tag stripped) (\<lambda>tag.
     bind_res
       (if class_tag tag then
          fold_children (Suc n) obj (\<lambda>_ child.
            bind_res
              (or_else (bind_res (is_data_member child) (\<lambda>mem.
                 if mem then bind_res (type_of_die obj cus child) (is_non_trivial_for_calls n obj cus) else Inr False))
              (or_else (bind_res (die_tag child) (\<lambda>ctag.
                 if ctag = DW_TAG_inheritance
                 then bind_res (type_of_die obj cus child) (is_non_trivial_for_calls n obj cus) else Inr False))
              (or_else (is_virtual obj child)
                 (special_function (Suc n) obj cus d child)))) (\<lambda>found. Inr (found, found))) False stripped
        else Inr False) (\<lambda>found.
     if found then Inr True
     else if tag = DW_TAG_array_type then bind_res (type_of_die obj cus stripped) (is_non_trivial_for_calls n obj cus)
     else Inr False)))"

section \<open>Parameter classes\<close>

datatype parameter_class = Integer | Sse | Sseup | X87 | X87up | Complex_x87 | Memory | No_class

definition merge_parameter_classes :: "parameter_class \<Rightarrow> parameter_class \<Rightarrow> parameter_class" where
  "merge_parameter_classes lhs rhs =
     (if lhs = rhs then lhs
      else if lhs = No_class then rhs
      else if rhs = No_class then lhs
      else if lhs = Memory \<or> rhs = Memory then Memory
      else if lhs = Integer \<or> rhs = Integer then Integer
      else if lhs = X87 \<or> rhs = X87 \<or> lhs = X87up \<or> rhs = X87up \<or> lhs = Complex_x87 \<or> rhs = Complex_x87 then Memory
      else Sse)"

definition merge_field :: "u64 \<Rightarrow> parameter_class \<times> parameter_class \<Rightarrow> parameter_class \<times> parameter_class \<Rightarrow>
    (parameter_class \<times> parameter_class) result" where
  "merge_field eightbyte_index classes field_classes =
     (let (c0, c1) = classes; (f0, f1) = field_classes in
      if eightbyte_index = 0 then Inr (merge_parameter_classes c0 f0, merge_parameter_classes c1 f1)
      else if eightbyte_index = 1 then Inr (c0, merge_parameter_classes c1 f0)
      else undefined_behaviour ''index outside an array of two'')"

definition finish_classes :: "parameter_class \<times> parameter_class \<Rightarrow> parameter_class \<times> parameter_class" where
  "finish_classes = (\<lambda>(c0, c1).
     if c0 = Memory \<or> c1 = Memory then (Memory, Memory)
     else if c1 = X87up \<and> c0 \<noteq> X87 then (Memory, Memory)
     else (c0, c1))"

definition builtin_class :: "builtin_type \<Rightarrow> parameter_class" where
  "builtin_class b = (if b = Builtin_floating_point then Sse else Integer)"

definition base_class :: "u64 \<Rightarrow> parameter_class result" where
  "base_class encoding =
     (if encoding = DW_ATE_boolean then Inr Integer
      else if encoding = DW_ATE_float then Inr Sse
      else if encoding = DW_ATE_signed \<or> encoding = DW_ATE_signed_char \<or>
              encoding = DW_ATE_unsigned \<or> encoding = DW_ATE_unsigned_char then Inr Integer
      else send ''Unimplemented base type encoding'')"

text \<open>
  The bit offset is a 64-bit value where it is computed and a signed 32-bit one where it is passed on.
\<close>

fun get_parameter_classes :: "nat \<Rightarrow> elf \<Rightarrow> cu_header list \<Rightarrow> die \<Rightarrow> (parameter_class \<times> parameter_class) result"
and classify_class_field :: "nat \<Rightarrow> elf \<Rightarrow> cu_header list \<Rightarrow> die \<Rightarrow> die \<Rightarrow> u32 \<Rightarrow>
    parameter_class \<times> parameter_class \<Rightarrow> (parameter_class \<times> parameter_class) result"
and classify_class_type :: "nat \<Rightarrow> elf \<Rightarrow> cu_header list \<Rightarrow> die \<Rightarrow> (parameter_class \<times> parameter_class) result" where
  "get_parameter_classes 0 obj cus d = Inl Out_Of_Fuel"
| "get_parameter_classes (Suc n) obj cus d =
     bind_res (strip_cv_typedef (Suc n) obj cus d) (\<lambda>stripped.
     bind_res (die_tag stripped) (\<lambda>tag.
     bind_res (if tag = DW_TAG_base_type then compute_byte_size (Suc n) obj cus stripped else Inr 0) (\<lambda>size1.
     if tag = DW_TAG_base_type \<and> size1 \<le> 8 then
       bind_res (int_attr obj stripped DW_AT_encoding) (\<lambda>encoding.
       bind_res (base_class encoding) (\<lambda>c. Inr (c, No_class)))
     else if tag = DW_TAG_pointer_type \<or> tag = DW_TAG_reference_type \<or> tag = DW_TAG_rvalue_reference_type
     then Inr (Integer, No_class)
     else if tag = DW_TAG_base_type then
       bind_res (int_attr obj stripped DW_AT_encoding) (\<lambda>encoding.
       if encoding = DW_ATE_float \<and> size1 = 16 then Inr (X87, X87up) else Inr (No_class, No_class))
     else if class_tag tag \<or> tag = DW_TAG_array_type then classify_class_type n obj cus d
     else Inr (No_class, No_class))))"
| "classify_class_type 0 obj cus d = Inl Out_Of_Fuel"
| "classify_class_type (Suc n) obj cus d =
     bind_res (is_non_trivial_for_calls (Suc n) obj cus d) (\<lambda>nontrivial.
     if nontrivial then send ''NTFPOC types are not supported''
     else
       bind_res (compute_byte_size (Suc n) obj cus d) (\<lambda>bytes.
       bind_res (if 16 < bytes then Inr True else has_unaligned_fields (Suc n) obj cus d) (\<lambda>in_memory.
       if in_memory then Inr (Memory, Memory)
       else
         bind_res (die_tag d) (\<lambda>tag.
         bind_res
           (if tag = DW_TAG_array_type then
              bind_res (type_of_die obj cus d) (\<lambda>e.
              bind_res (get_parameter_classes n obj cus e) (\<lambda>(c0, c1).
              Inr (c0, if 8 < bytes \<and> c1 = No_class then c0 else c1)))
            else
              fold_children (Suc n) obj (\<lambda>classes child.
                bind_res (is_data_member child) (\<lambda>mem.
                if mem then bind_res (classify_class_field n obj cus d child 0 classes) (\<lambda>c. Inr (c, False))
                else Inr (classes, False))) (No_class, No_class) d) (\<lambda>classes.
         Inr (finish_classes classes))))))"
| "classify_class_field 0 obj cus ty field bit_offset classes = Inl Out_Of_Fuel"
| "classify_class_field (Suc n) obj cus ty field bit_offset classes =
     bind_res (compute_byte_size (Suc n) obj cus ty) (\<lambda>bytes.
     bind_res (get_bitfield_information obj field bytes) (\<lambda>bitfield.
     bind_res (type_of_die obj cus field) (\<lambda>field_type.
     bind_res (case bitfield of
                 Some b \<Rightarrow> Inr (scast (ucast (bf_bit_offset b) + bit_offset) :: u64)
               | None \<Rightarrow> bind_res (compute_byte_size (Suc n) obj cus field_type) (\<lambda>_.
                   bind_res (int_attr obj field DW_AT_data_member_location) (\<lambda>off. Inr (off * 8 + scast bit_offset)))) (\<lambda>current.
     bind_res (is_class_type (Suc n) obj cus field_type) (\<lambda>class.
     if class then
       fold_children (Suc n) obj (\<lambda>classes child.
         bind_res (is_data_member child) (\<lambda>mem.
         if mem then bind_res (classify_class_field n obj cus ty child (ucast current) classes) (\<lambda>c. Inr (c, False))
         else Inr (classes, False))) classes field_type
     else
       bind_res (get_parameter_classes n obj cus field_type) (\<lambda>field_classes.
       merge_field (current div 64) classes field_classes))))))"

definition type_parameter_classes :: "nat \<Rightarrow> elf \<Rightarrow> cu_header list \<Rightarrow> dtype \<Rightarrow> (parameter_class \<times> parameter_class) result" where
  "type_parameter_classes n obj cus t =
     (case t of Builtin b \<Rightarrow> Inr (builtin_class b, No_class) | From_dwarf d \<Rightarrow> get_parameter_classes n obj cus d)"

section \<open>Values with a type\<close>

text \<open>
  What a value is read and printed with: the memory of the inferior, its strings, and the number
  formats of the formatting library.
\<close>

record view =
  view_memory :: "u64 \<Rightarrow> u64 \<Rightarrow> byte list result"
  view_string :: "u64 \<Rightarrow> string result"
  print_hex :: "u64 \<Rightarrow> string"
  print_int :: "int \<Rightarrow> string"
  print_float :: "byte list \<Rightarrow> string"
  long_double_size :: nat

text \<open>The view that a process gives.\<close>

definition process_view :: "'w mach \<Rightarrow> 'w process \<Rightarrow> view \<Rightarrow> view" where
  "process_view K p fmt = fmt\<lparr>view_memory := (\<lambda>a n. read_memory K p a (unat n)), view_string := read_string K p\<rparr>"

record typed_data =
  td_data :: "byte list"
  td_type :: dtype
  td_address :: "u64 option"

text \<open>Bytes \<open>off\<close> up to \<open>off + len\<close> of a vector, and \<open>from_bytes\<close> on the start of one.\<close>

definition sub_bytes :: "byte list \<Rightarrow> u64 \<Rightarrow> u64 \<Rightarrow> byte list result" where
  "sub_bytes bs off len =
     (if unat off + unat len \<le> length bs then Inr (take (unat len) (drop (unat off) bs))
      else undefined_behaviour ''range outside the vector'')"

definition front_bytes :: "nat \<Rightarrow> byte list \<Rightarrow> byte list result" where
  "front_bytes k bs = (if k \<le> length bs then Inr (take k bs) else undefined_behaviour ''read past the end of the data'')"

definition front_word :: "byte list \<Rightarrow> 'a :: len word result" where
  "front_word bs = bind_res (front_bytes (LENGTH('a) div 8) bs) (\<lambda>xs. Inr (from_bytes xs))"

definition fixup_bitfield :: "nat \<Rightarrow> elf \<Rightarrow> cu_header list \<Rightarrow> die \<Rightarrow> typed_data \<Rightarrow> typed_data result" where
  "fixup_bitfield n obj cus member_die td =
     bind_res (get_die (td_type td)) (\<lambda>d.
     bind_res (strip_cv_typedef n obj cus d) (\<lambda>stripped.
     bind_res (compute_byte_size n obj cus stripped) (\<lambda>bytes.
     bind_res (get_bitfield_information obj member_die bytes) (\<lambda>info.
     case info of
       None \<Rightarrow> Inr td
     | Some b \<Rightarrow>
         bind_res (memcpy_bits (replicate (unat (bf_storage_byte_size b)) 0) 0 (td_data td)
                     (ucast (bf_bit_offset b)) (ucast (bf_bit_size b))) (\<lambda>fixed_data.
         Inr \<lparr>td_data = fixed_data, td_type = td_type td, td_address = None\<rparr>)))))"

definition deref_pointer :: "nat \<Rightarrow> view \<Rightarrow> elf \<Rightarrow> cu_header list \<Rightarrow> typed_data \<Rightarrow> typed_data result" where
  "deref_pointer n proc obj cus td =
     bind_res (get_die (td_type td)) (\<lambda>d.
     bind_res (strip_cv_typedef n obj cus d) (\<lambda>stripped.
     bind_res (die_tag stripped) (\<lambda>tag.
     if tag \<noteq> DW_TAG_pointer_type then send ''Not a pointer type''
     else
       bind_res (front_word (td_data td)) (\<lambda>address.
       bind_res (type_of_die obj cus stripped) (\<lambda>value_type.
       bind_res (compute_byte_size n obj cus value_type) (\<lambda>bytes.
       bind_res (view_memory proc address bytes) (\<lambda>data_vec.
       Inr \<lparr>td_data = data_vec, td_type = From_dwarf value_type, td_address = Some address\<rparr>)))))))"

definition member_byte_offset :: "elf \<Rightarrow> die \<Rightarrow> u64 result" where
  "member_byte_offset obj var =
     bind_res (die_contains var DW_AT_data_member_location) (\<lambda>located.
     if located then int_attr obj var DW_AT_data_member_location
     else bind_res (int_attr obj var DW_AT_data_bit_offset) (\<lambda>bits. Inr (bits div 8)))"

definition find_member :: "nat \<Rightarrow> elf \<Rightarrow> cu_header list \<Rightarrow> string \<Rightarrow> die \<Rightarrow> die option result" where
  "find_member n obj cus member_name d =
     fold_children n obj (\<lambda>_ child.
       bind_res (die_name n obj cus child) (\<lambda>name.
       if (case name of None \<Rightarrow> [] | Some s \<Rightarrow> s) = member_name then Inr (Some child, True) else Inr (None, False))) None d"

definition read_member :: "nat \<Rightarrow> elf \<Rightarrow> cu_header list \<Rightarrow> string \<Rightarrow> typed_data \<Rightarrow> typed_data result" where
  "read_member n obj cus member_name td =
     bind_res (get_die (td_type td)) (\<lambda>d.
     bind_res (find_member n obj cus member_name d) (\<lambda>it.
     case it of
       None \<Rightarrow> send ''No such member''
     | Some var \<Rightarrow>
         bind_res (type_of_die obj cus var) (\<lambda>value_type.
         bind_res (member_byte_offset obj var) (\<lambda>byte_offset.
         bind_res (compute_byte_size n obj cus value_type) (\<lambda>bytes.
         bind_res (sub_bytes (td_data td) byte_offset bytes) (\<lambda>member_data.
         fixup_bitfield n obj cus var
           \<lparr>td_data = member_data, td_type = From_dwarf value_type,
            td_address = map_option (\<lambda>a. a + byte_offset) (td_address td)\<rparr>))))))"

definition typed_index :: "nat \<Rightarrow> view \<Rightarrow> elf \<Rightarrow> cu_header list \<Rightarrow> u64 \<Rightarrow> typed_data \<Rightarrow> typed_data result" where
  "typed_index n proc obj cus k td =
     bind_res (get_die (td_type td)) (\<lambda>d.
     bind_res (strip_cv_typedef n obj cus d) (\<lambda>parent_type.
     bind_res (die_tag parent_type) (\<lambda>tag.
     if tag \<noteq> DW_TAG_array_type \<and> tag \<noteq> DW_TAG_pointer_type then send ''Not an array or pointer type''
     else
       bind_res (type_of_die obj cus parent_type) (\<lambda>value_type.
       bind_res (compute_byte_size n obj cus value_type) (\<lambda>element_bytes.
       let offset = k * element_bytes in
       if tag = DW_TAG_pointer_type then
         bind_res (front_word (td_data td)) (\<lambda>pointer.
         bind_res (view_memory proc (pointer + offset) element_bytes) (\<lambda>data_vec.
         Inr \<lparr>td_data = data_vec, td_type = From_dwarf value_type, td_address = Some (pointer + offset)\<rparr>))
       else
         bind_res (sub_bytes (td_data td) offset element_bytes) (\<lambda>data_vec.
         Inr \<lparr>td_data = data_vec, td_type = From_dwarf value_type,
              td_address = map_option (\<lambda>a. a + offset) (td_address td)\<rparr>))))))"

section \<open>Printing values\<close>

definition visualize_member_pointer_type :: "view \<Rightarrow> typed_data \<Rightarrow> string result" where
  "visualize_member_pointer_type proc td =
     bind_res (front_word (td_data td)) (\<lambda>p. Inr (''0x'' @ print_hex proc p))"

definition visualize_pointer_type :: "nat \<Rightarrow> view \<Rightarrow> elf \<Rightarrow> cu_header list \<Rightarrow> typed_data \<Rightarrow> string result" where
  "visualize_pointer_type n proc obj cus td =
     bind_res (front_word (td_data td)) (\<lambda>p.
     if p = 0 then Inr ''0x0''
     else
       bind_res (get_die (td_type td)) (\<lambda>d.
       bind_res (type_of_die obj cus d) (\<lambda>pointee.
       bind_res (is_char_type n obj cus pointee) (\<lambda>char.
       if char then bind_res (view_string proc p) (\<lambda>s. Inr ([CHR 0x22] @ s @ [CHR 0x22]))
       else Inr (''0x'' @ print_hex proc p)))))"

text \<open>
  The dimensions are those of the children in order: the vector of the code is reversed and used up
  from its end.
\<close>

fun join_comma :: "string list \<Rightarrow> string" where
  "join_comma [] = []"
| "join_comma [x] = x"
| "join_comma (x # y # xs) = x @ '', '' @ join_comma (y # xs)"

primrec visualize_subrange :: "(byte list \<Rightarrow> string result) \<Rightarrow> u64 result \<Rightarrow> u64 list \<Rightarrow> byte list \<Rightarrow> string result" where
  "visualize_subrange element unit_bytes [] bytes = element bytes"
| "visualize_subrange element unit_bytes (count # dimensions) bytes =
     bind_res unit_bytes (\<lambda>init.
     let sub_size = foldr (*) dimensions init in
     bind_res (map_res (\<lambda>i.
         if unat (word_of_nat i * sub_size) \<le> length bytes
         then visualize_subrange element unit_bytes dimensions (drop (unat (word_of_nat i * sub_size)) bytes)
         else undefined_behaviour ''pointer past the end of the data'') [0..<unat count]) (\<lambda>items.
     Inr (''['' @ join_comma items @ '']'')))"

definition array_dimensions :: "nat \<Rightarrow> elf \<Rightarrow> die \<Rightarrow> u64 list result" where
  "array_dimensions n obj d =
     fold_children n obj (\<lambda>dims child.
       bind_res (die_tag child) (\<lambda>tag.
       if tag = DW_TAG_subrange_type
       then bind_res (int_attr obj child DW_AT_upper_bound) (\<lambda>upper. Inr (dims @ [upper + 1], False))
       else Inr (dims, False))) [] d"

definition print_sized :: "string \<Rightarrow> (byte list \<Rightarrow> int) \<Rightarrow> view \<Rightarrow> u64 \<Rightarrow> byte list \<Rightarrow> string result" where
  "print_sized what read proc bytes bs =
     (if bytes = 1 \<or> bytes = 2 \<or> bytes = 4 \<or> bytes = 8
      then bind_res (front_bytes (unat bytes) bs) (\<lambda>xs. Inr (print_int proc (read xs)))
      else send what)"

definition signed_value :: "byte list \<Rightarrow> int" where
  "signed_value bs =
     (let v = int (le_nat bs); m = 2 ^ (8 * length bs) in if 2 * v < m then v else v - m)"

definition visualize_base_type :: "nat \<Rightarrow> view \<Rightarrow> elf \<Rightarrow> cu_header list \<Rightarrow> typed_data \<Rightarrow> string result" where
  "visualize_base_type n proc obj cus td =
     bind_res (get_die (td_type td)) (\<lambda>d.
     bind_res (int_attr obj d DW_AT_encoding) (\<lambda>encoding.
     if encoding = DW_ATE_boolean then
       bind_res (front_word (td_data td)) (\<lambda>b :: byte.
       if b = 1 then Inr ''true'' else if b = 0 then Inr ''false''
       else undefined_behaviour ''byte that is no bool'')
     else if encoding = DW_ATE_float then
       bind_res (die_name n obj cus d) (\<lambda>name.
       if name = Some ''float'' then bind_res (front_bytes 4 (td_data td)) (\<lambda>xs. Inr (print_float proc xs))
       else if name = Some ''double'' then bind_res (front_bytes 8 (td_data td)) (\<lambda>xs. Inr (print_float proc xs))
       else if name = Some ''long double''
       then bind_res (front_bytes (long_double_size proc) (td_data td)) (\<lambda>xs. Inr (print_float proc xs))
       else send ''Unsupported floating point type'')
     else if encoding = DW_ATE_signed then
       bind_res (compute_byte_size n obj cus d) (\<lambda>bytes.
       print_sized ''Unsupported signed integer size'' signed_value proc bytes (td_data td))
     else if encoding = DW_ATE_unsigned then
       bind_res (compute_byte_size n obj cus d) (\<lambda>bytes.
       print_sized ''Unsupported unsigned integer size'' (\<lambda>xs. int (le_nat xs)) proc bytes (td_data td))
     else if encoding = DW_ATE_signed_char then
       bind_res (front_bytes 1 (td_data td)) (\<lambda>xs. Inr (print_int proc (signed_value xs)))
     else if encoding = DW_ATE_unsigned_char then
       bind_res (front_bytes 1 (td_data td)) (\<lambda>xs. Inr (print_int proc (int (le_nat xs))))
     else if encoding = DW_ATE_UTF then send ''DW_ATE_UTF is not implemented''
     else send ''Unsupported encoding''))"

definition indent_by :: "nat \<Rightarrow> string" where
  "indent_by depth = replicate depth (CHR 0x09)"

text \<open>The printing of parts goes through \<open>vis\<close>, the recursive call with its depth.\<close>

definition visualize_class_type ::
  "nat \<Rightarrow> (nat \<Rightarrow> typed_data \<Rightarrow> string result) \<Rightarrow> elf \<Rightarrow> cu_header list \<Rightarrow> nat \<Rightarrow> typed_data \<Rightarrow> string result" where
  "visualize_class_type n vis obj cus depth td =
     bind_res (get_die (td_type td)) (\<lambda>d.
     bind_res (fold_children n obj (\<lambda>ret child.
       bind_res (is_data_member child) (\<lambda>mem.
       if mem then
         bind_res (member_byte_offset obj child) (\<lambda>byte_offset.
         bind_res (type_of_die obj cus child) (\<lambda>subtype.
         bind_res (compute_byte_size n obj cus subtype) (\<lambda>bytes.
         bind_res (sub_bytes (td_data td) byte_offset bytes) (\<lambda>member_data.
         bind_res (fixup_bitfield n obj cus child
           \<lparr>td_data = member_data, td_type = From_dwarf subtype, td_address = None\<rparr>) (\<lambda>field.
         bind_res (vis (Suc depth) field) (\<lambda>member_str.
         bind_res (die_name n obj cus child) (\<lambda>name.
         Inr (ret @ indent_by (Suc depth) @ (case name of None \<Rightarrow> ''<unnamed>'' | Some s \<Rightarrow> s) @ '': '' @
              member_str @ [CHR 0x0A], False))))))))
       else Inr (ret, False))) (''{'' @ [CHR 0x0A]) d) (\<lambda>ret.
     Inr (ret @ indent_by depth @ ''}'')))"

definition visualize_array_type ::
  "nat \<Rightarrow> (nat \<Rightarrow> typed_data \<Rightarrow> string result) \<Rightarrow> elf \<Rightarrow> cu_header list \<Rightarrow> typed_data \<Rightarrow> string result" where
  "visualize_array_type n vis obj cus td =
     bind_res (get_die (td_type td)) (\<lambda>d.
     bind_res (array_dimensions n obj d) (\<lambda>dims.
     bind_res (type_of_die obj cus d) (\<lambda>value_type.
     visualize_subrange (\<lambda>bs. vis 0 \<lparr>td_data = bs, td_type = From_dwarf value_type, td_address = None\<rparr>)
       (compute_byte_size n obj cus value_type) dims (td_data td))))"

fun visualize :: "nat \<Rightarrow> view \<Rightarrow> elf \<Rightarrow> cu_header list \<Rightarrow> nat \<Rightarrow> typed_data \<Rightarrow> string result" where
  "visualize 0 proc obj cus depth td = Inl Out_Of_Fuel"
| "visualize (Suc n) proc obj cus depth td =
     bind_res (get_die (td_type td)) (\<lambda>d.
     bind_res (die_tag d) (\<lambda>tag.
     if tag = DW_TAG_base_type then visualize_base_type (Suc n) proc obj cus td
     else if tag = DW_TAG_pointer_type then visualize_pointer_type (Suc n) proc obj cus td
     else if tag = DW_TAG_ptr_to_member_type then visualize_member_pointer_type proc td
     else if tag = DW_TAG_array_type
     then visualize_array_type (Suc n) (\<lambda>k v. visualize n proc obj cus k v) obj cus td
     else if class_tag tag
     then visualize_class_type (Suc n) (\<lambda>k v. visualize n proc obj cus k v) obj cus depth td
     else if tag = DW_TAG_enumeration_type \<or> tag = DW_TAG_typedef \<or> tag = DW_TAG_const_type \<or> tag = DW_TAG_volatile_type then
       bind_res (type_of_die obj cus d) (\<lambda>t.
       visualize n proc obj cus 0 \<lparr>td_data = td_data td, td_type = From_dwarf t, td_address = None\<rparr>)
     else send ''Unsupported type''))"

section \<open>Homogeneous floating-point aggregates\<close>

record arm64_hfa =
  element_size :: u64
  hfa_offsets :: "u64 list"

definition add_element :: "u64 \<Rightarrow> u64 \<Rightarrow> arm64_hfa \<Rightarrow> bool \<times> arm64_hfa" where
  "add_element bytes base hfa =
     (if element_size hfa \<noteq> 0 \<and> element_size hfa \<noteq> bytes then (False, hfa)
      else let hfa' = \<lparr>element_size = bytes, hfa_offsets = hfa_offsets hfa @ [base]\<rparr>
           in (length (hfa_offsets hfa') \<le> 4, hfa'))"

text \<open>A loop that leaves when its body answers no.\<close>

fun all_while :: "('a \<Rightarrow> 's \<Rightarrow> (bool \<times> 's) result) \<Rightarrow> 'a list \<Rightarrow> 's \<Rightarrow> (bool \<times> 's) result" where
  "all_while f [] s = Inr (True, s)"
| "all_while f (x # xs) s = bind_res (f x s) (\<lambda>(go, s'). if go then all_while f xs s' else Inr (False, s'))"

text \<open>One round of the loop over the members of a class; \<open>collect\<close> is the recursive call.\<close>

definition hfa_member :: "(die \<Rightarrow> u64 \<Rightarrow> arm64_hfa \<Rightarrow> (bool \<times> arm64_hfa) result) \<Rightarrow> elf \<Rightarrow> cu_header list \<Rightarrow>
    bool \<times> arm64_hfa \<Rightarrow> die \<Rightarrow> ((bool \<times> arm64_hfa) \<times> bool) result" where
  "hfa_member collect obj cus = (\<lambda>(_, h) child.
     bind_res (die_tag child) (\<lambda>ctag.
     bind_res (die_contains child DW_AT_data_member_location) (\<lambda>located.
     if ctag = DW_TAG_member \<and> located then
       bind_res (die_contains child DW_AT_bit_size) (\<lambda>bits.
       if bits then Inr ((False, h), True)
       else
         bind_res (type_of_die obj cus child) (\<lambda>t.
         bind_res (int_attr obj child DW_AT_data_member_location) (\<lambda>off.
         bind_res (collect t off h) (\<lambda>(go, h'). Inr ((go, h'), \<not> go)))))
     else if ctag = DW_TAG_inheritance then Inr ((False, h), True)
     else Inr ((True, h), False))))"

function hfa_collect :: "nat \<Rightarrow> elf \<Rightarrow> cu_header list \<Rightarrow> nat \<Rightarrow> dtype \<Rightarrow> u64 \<Rightarrow> arm64_hfa \<Rightarrow> (bool \<times> arm64_hfa) result" where
  "hfa_collect n obj cus depth value base hfa =
     (if 16 < depth then Inr (False, hfa)
      else case value of
        Builtin b \<Rightarrow> Inr (if b \<noteq> Builtin_floating_point then (False, hfa) else add_element 8 base hfa)
      | From_dwarf d0 \<Rightarrow>
          bind_res (strip_cv_typedef n obj cus d0) (\<lambda>d.
          bind_res (die_tag d) (\<lambda>tag.
          if tag = DW_TAG_base_type then
            bind_res (die_contains d DW_AT_encoding) (\<lambda>encoded.
            bind_res (if encoded then int_attr obj d DW_AT_encoding else Inr 0) (\<lambda>encoding.
            if \<not> encoded \<or> encoding \<noteq> DW_ATE_float then Inr (False, hfa)
            else
              bind_res (compute_byte_size n obj cus d) (\<lambda>bytes.
              Inr (if bytes \<noteq> 4 \<and> bytes \<noteq> 8 then (False, hfa) else add_element bytes base hfa))))
          else if tag = DW_TAG_array_type then
            bind_res (type_of_die obj cus d) (\<lambda>e.
            bind_res (compute_byte_size n obj cus e) (\<lambda>bytes.
            if bytes = 0 then Inr (False, hfa)
            else
              bind_res (compute_byte_size n obj cus d) (\<lambda>total.
              if 4 < total div bytes then Inr (False, hfa)
              else all_while (\<lambda>i h. hfa_collect n obj cus (Suc depth) (From_dwarf e) (base + word_of_nat i * bytes) h)
                     [0..<unat (total div bytes)] hfa)))
          else if tag \<noteq> DW_TAG_structure_type \<and> tag \<noteq> DW_TAG_class_type then Inr (False, hfa)
          else
            bind_res (is_non_trivial_for_calls n obj cus d) (\<lambda>nontrivial.
            if nontrivial then Inr (False, hfa)
            else
              bind_res (fold_children n obj (hfa_member (\<lambda>t off h. hfa_collect n obj cus (Suc depth) (From_dwarf t) (base + off) h) obj cus) (True, hfa) d) (\<lambda>(go, h).
              Inr (go \<and> hfa_offsets h \<noteq> [] \<and> length (hfa_offsets h) \<le> 4, h))))))"
  by pat_completeness auto

termination
  by (relation "measure (\<lambda>(_, _, _, depth, _). 17 - depth)") auto

declare hfa_collect.simps [simp del]

definition classify_arm64_hfa :: "nat \<Rightarrow> elf \<Rightarrow> cu_header list \<Rightarrow> dtype \<Rightarrow> arm64_hfa option result" where
  "classify_arm64_hfa n obj cus value =
     bind_res (hfa_collect n obj cus 0 value 0 \<lparr>element_size = 0, hfa_offsets = []\<rparr>) (\<lambda>(ok, hfa).
     Inr (if ok then Some hfa else None))"

section \<open>Stripping\<close>

lemma strip_result:
  "strip n obj cus tags d = Inr d' \<Longrightarrow> \<exists>tag. die_tag d' = Inr tag \<and> tag \<notin> set tags"
  by (induction n arbitrary: d) (auto simp: res_simps split: if_splits)

lemma strip_idempotent:
  assumes "strip n obj cus tags d = Inr d'"
  shows "strip (Suc m) obj cus tags d' = Inr d'"
  using strip_result [OF assms] by auto

text \<open>
  A name for a class has the alignment 0, because it has no children of its own: taking an offset
  modulo that alignment divides by zero.
\<close>

lemma alignment_of_class_without_children:
  assumes "is_class_type (Suc n) obj cus d = Inr True" "first_child obj d = Inr null_die"
  shows "alignment (Suc n) obj cus d = Inr 0"
  using assms by (simp add: fold_children_def null_die_def)

section \<open>Bit fields as numbers\<close>

lemma bit_le_nat: "k < 8 * length bs \<Longrightarrow> bit (le_nat bs) k \<longleftrightarrow> bit_at bs k"
proof (induction bs arbitrary: k)
  case (Cons b bs)
  have b: "unat b < 256" using unsigned_less [of b] by simp
  have "le_nat (b # bs) = push_bit 8 (le_nat bs) OR unat b"
  proof -
    have "push_bit 8 (le_nat bs) AND unat b = 0"
    proof (rule bit_eqI)
      fix i
      have "\<not> bit (unat b) i" if "8 \<le> i" using that bit_imp_le_length [of b i] by (auto simp: bit_unsigned_iff)
      then show "bit (push_bit 8 (le_nat bs) AND unat b) i = bit (0 :: nat) i" by (auto simp: bit_simps)
    qed
    then have "push_bit 8 (le_nat bs) OR unat b = push_bit 8 (le_nat bs) + unat b"
      by (simp add: disjunctive_add_eq_or)
    then show ?thesis by (simp add: push_bit_eq_mult)
  qed
  then have eq: "bit (le_nat (b # bs)) k \<longleftrightarrow> 8 \<le> k \<and> bit (le_nat bs) (k - 8) \<or> bit b k"
    by (auto simp: bit_simps)
  show ?case
  proof (cases "k < 8")
    case True
    then show ?thesis using eq by (simp add: bit_at_def)
  next
    case False
    then have "\<not> bit b k" using bit_imp_le_length [of b k] by auto
    moreover have "k div 8 = Suc ((k - 8) div 8)" "k mod 8 = (k - 8) mod 8" using False by (simp_all add: le_div_geq le_mod_geq)
    ultimately show ?thesis using eq Cons False by (auto simp: bit_at_def)
  qed
qed simp

lemma le_nat_high_bits: "8 * length bs \<le> k \<Longrightarrow> \<not> bit (le_nat bs) k"
proof -
  assume "8 * length bs \<le> k"
  have "le_nat bs < 2 ^ (8 * length bs)" using le_nat_less [of bs] by (simp add: power_mult)
  also have "(2 :: nat) ^ (8 * length bs) \<le> 2 ^ k" using \<open>8 * length bs \<le> k\<close> by (intro power_increasing) auto
  finally show ?thesis by (simp add: bit_iff_odd)
qed

lemma le_nat_extract:
  assumes "length r = l" "m \<le> 8 * l" "off + m \<le> 8 * length src"
    "\<forall>k < 8 * l. bit_at r k = (k < m \<and> bit_at src (off + k))"
  shows "le_nat r = le_nat src div 2 ^ off mod 2 ^ m"
proof (rule bit_eqI)
  fix k
  show "bit (le_nat r) k = bit (le_nat src div 2 ^ off mod 2 ^ m) k"
  proof (cases "k < 8 * l")
    case True
    with assms have "bit (le_nat r) k \<longleftrightarrow> k < m \<and> bit_at src (off + k)" by (simp add: bit_le_nat)
    with assms(3) show ?thesis
      by (auto simp: bit_simps simp flip: take_bit_eq_mod drop_bit_eq_div bit_le_nat)
  next
    case False
    with assms(1,2) show ?thesis
      by (auto simp: le_nat_high_bits bit_simps simp flip: take_bit_eq_mod drop_bit_eq_div)
  qed
qed

section \<open>Aggregates\<close>

definition hfa_ok :: "arm64_hfa \<Rightarrow> bool" where
  "hfa_ok h \<longleftrightarrow> element_size h \<in> {4, 8} \<and> hfa_offsets h \<noteq> [] \<or> h = \<lparr>element_size = 0, hfa_offsets = []\<rparr>"

text \<open>What a step of the collection keeps: as long as the answer is yes there are at most four.\<close>

definition hfa_kept :: "bool \<times> arm64_hfa \<Rightarrow> bool" where
  "hfa_kept = (\<lambda>(go, h). hfa_ok h \<and> (go \<longrightarrow> length (hfa_offsets h) \<le> 4))"

lemma add_element_kept:
  "hfa_ok h \<Longrightarrow> bytes \<in> {4, 8} \<Longrightarrow> hfa_kept (add_element bytes base h)"
  by (auto simp: add_element_def hfa_kept_def hfa_ok_def Let_def)

lemma all_while_kept:
  assumes "all_while f xs h = Inr r" "hfa_kept (True, h)"
    "\<And>x h r. x \<in> set xs \<Longrightarrow> f x h = Inr r \<Longrightarrow> hfa_kept (True, h) \<Longrightarrow> hfa_kept r"
  shows "hfa_kept r"
  using assms
proof (induction xs arbitrary: h)
  case (Cons x xs)
  then obtain go h' where h: "f x h = Inr (go, h')" by (auto simp: res_simps)
  with Cons.prems have "hfa_kept (go, h')" by auto
  show ?case
  proof (cases go)
    case True
    with Cons.prems(1) h have "all_while f xs h' = Inr r" by simp
    then show ?thesis by (rule Cons.IH) (use True \<open>hfa_kept (go, h')\<close> Cons.prems(3) in auto)
  qed (use Cons.prems h \<open>hfa_kept (go, h')\<close> in auto)
qed auto

lemma hfa_member_kept:
  assumes "hfa_kept s \<and> fst s" "hfa_member collect obj cus s x = Inr (s', b)"
    "\<And>t off h r. collect t off h = Inr r \<Longrightarrow> hfa_kept (True, h) \<Longrightarrow> hfa_kept r"
  shows "hfa_kept s' \<and> (b \<or> fst s')"
proof -
  obtain h0 where s: "s = (True, h0)" and h0: "hfa_kept (True, h0)" using assms(1) by (cases s) auto
  then have stop: "hfa_kept (False, h0)" by (simp add: hfa_kept_def)
  from assms(2) s consider "(s', b) = ((False, h0), True)" | "(s', b) = ((True, h0), False)"
    | t off where "collect t off h0 = Inr s'" "b = (\<not> fst s')"
    by (auto simp: hfa_member_def res_simps split: if_splits)
  then show ?thesis using h0 stop assms(3) by cases auto
qed

lemma hfa_members_kept:
  assumes "fold_siblings n obj (hfa_member collect obj cus) s c = Inr s'" "hfa_kept s \<and> fst s"
    "\<And>t off h r. collect t off h = Inr r \<Longrightarrow> hfa_kept (True, h) \<Longrightarrow> hfa_kept r"
  shows "hfa_kept s'"
  using assms(1,2)
proof (induction n arbitrary: c s)
  case (Suc n)
  let ?f = "hfa_member collect obj cus"
  show ?case
  proof (cases "die_abbrev c")
    case (Some ab)
    with Suc.prems obtain t b where t: "?f s c = Inr (t, b)" by (auto simp: res_simps)
    with assms(3) Suc.prems(2) have "hfa_kept t \<and> (b \<or> fst t)" using hfa_member_kept by blast
    then show ?thesis using Suc.IH [of t] Suc.prems(1) Some t by (cases b) (auto simp: res_simps)
  qed (use Suc.prems in simp)
qed simp

lemma hfa_collect_kept:
  "hfa_collect n obj cus depth value base h = Inr r \<Longrightarrow> hfa_kept (True, h) \<Longrightarrow> hfa_kept r"
proof (induction "17 - depth" arbitrary: depth "value" base h r rule: less_induct)
  case less
  note run = less.prems(1) and kept = less.prems(2)
  let ?rec = "\<lambda>v b h. hfa_collect n obj cus (Suc depth) (From_dwarf v) b h"
  have no: "hfa_kept (False, h)" and ok: "hfa_ok h" using kept by (auto simp: hfa_kept_def)
  have IH: "hfa_kept r'" if "\<not> 16 < depth" "?rec v b h' = Inr r'" "hfa_kept (True, h')" for v b h' r'
    using less.hyps [of "Suc depth" "From_dwarf v" b h' r'] that by simp
  show ?case
  proof (cases "\<exists>d0. value = From_dwarf d0 \<and> \<not> 16 < depth")
    case False
    with run no ok show ?thesis
      by (subst (asm) hfa_collect.simps) (auto simp: add_element_kept split: if_splits dtype.splits)
  next
    case True
    then obtain d0 where v: "value = From_dwarf d0" and deep: "\<not> 16 < depth" by blast
    with run obtain d tag where d: "strip_cv_typedef n obj cus d0 = Inr d" "die_tag d = Inr tag"
      by (subst (asm) hfa_collect.simps) (auto simp: res_simps)
    consider "tag = DW_TAG_base_type" | "tag = DW_TAG_array_type" | "tag = DW_TAG_structure_type \<or> tag = DW_TAG_class_type"
      | "tag \<notin> {DW_TAG_base_type, DW_TAG_array_type, DW_TAG_structure_type, DW_TAG_class_type}" by blast
    then show ?thesis
    proof cases
      case 1
      with run v deep d no ok show ?thesis
        by (subst (asm) hfa_collect.simps) (auto simp: res_simps add_element_kept split: if_splits)
    next
      case 2
      with run v deep d obtain e bytes xs where
        "r = (False, h) \<or> all_while (\<lambda>i h. ?rec e (base + word_of_nat i * bytes) h) xs h = Inr r"
        by (subst (asm) hfa_collect.simps) (auto simp: res_simps split: if_splits)
      then show ?thesis using no all_while_kept [OF _ kept] IH [OF deep] by blast
    next
      case 3
      with run v deep d consider "r = (False, h)"
        | c go h' where "fold_siblings n obj (hfa_member (\<lambda>t off. ?rec t (base + off)) obj cus) (True, h) c = Inr (go, h')"
            "r = (go \<and> hfa_offsets h' \<noteq> [] \<and> length (hfa_offsets h') \<le> 4, h')"
        by (subst (asm) hfa_collect.simps) (auto simp: res_simps fold_children_def split: if_splits)
      then show ?thesis
      proof cases
        case 2
        have "hfa_kept (go, h')" using hfa_members_kept [OF 2(1)] kept IH [OF deep] by simp
        with 2(2) show ?thesis by (simp add: hfa_kept_def)
      qed (use no in simp)
    next
      case 4
      with run v deep d no show ?thesis by (subst (asm) hfa_collect.simps) (auto simp: res_simps)
    qed
  qed
qed

section \<open>Well-formed classifications\<close>

definition classes_ok :: "parameter_class \<times> parameter_class \<Rightarrow> bool" where
  "classes_ok = (\<lambda>(c0, c1). (c0 = Memory \<longleftrightarrow> c1 = Memory) \<and> (c1 = X87up \<longrightarrow> c0 = X87))"

lemma finish_classes_ok: "classes_ok (finish_classes c)"
  by (auto simp: finish_classes_def classes_ok_def split: if_splits prod.splits)

definition returns :: "('a \<Rightarrow> bool) \<Rightarrow> 'a result \<Rightarrow> bool" where
  "returns P r \<longleftrightarrow> (\<forall>x. r = Inr x \<longrightarrow> P x)"

lemma returns_bind: "(\<And>x. m = Inr x \<Longrightarrow> returns P (f x)) \<Longrightarrow> returns P (bind_res m f)"
  by (auto simp: returns_def res_simps)

lemma returns_if: "(b \<Longrightarrow> returns P r) \<Longrightarrow> (\<not> b \<Longrightarrow> returns P s) \<Longrightarrow> returns P (if b then r else s)"
  by simp

lemma returns_simps [simp]: "returns P (Inl e)" "returns P (Inr x) \<longleftrightarrow> P x" "returns P (send w)"
  by (auto simp: returns_def)

lemma classify_class_type_ok: "returns classes_ok (classify_class_type n obj cus d)"
  by (cases n) (simp, simp only: classify_class_type.simps, intro returns_bind returns_if,
      simp_all add: classes_ok_def finish_classes_ok [unfolded classes_ok_def])

lemma base_class_range: "base_class encoding = Inr c \<Longrightarrow> c = Integer \<or> c = Sse"
  by (auto simp: base_class_def split: if_splits)

lemma get_parameter_classes_ok: "returns classes_ok (get_parameter_classes n obj cus d)"
proof (cases n)
  case (Suc m)
  show ?thesis
    unfolding Suc get_parameter_classes.simps
    by (intro returns_bind returns_if classify_class_type_ok)
      (auto simp: classes_ok_def dest: base_class_range)
qed simp

section \<open>A small object file with types\<close>

definition demo_int_abbrev :: abbrev where
  "demo_int_abbrev = \<lparr>ab_code = 1, ab_tag = DW_TAG_base_type, ab_has_children = False,
     ab_specs = [\<lparr>as_attr = DW_AT_byte_size, as_form = DW_FORM_data1\<rparr>,
                 \<lparr>as_attr = DW_AT_encoding, as_form = DW_FORM_data1\<rparr>]\<rparr>"

definition demo_types_elf :: elf where
  "demo_types_elf = demo_elf\<lparr>
     storage :=
       [1, 0x24, 0, 0x0b, 0x0b, 0x3e, 0x0b, 0, 0, 0,
        13, 0, 0, 0, 4, 0, 0, 0, 0, 0, 8,
        1, 4, 5,
        11, 3, 13],
     section_map := [''.debug_abbrev'' \<mapsto> demo_section 0 10, ''.debug_info'' \<mapsto> demo_section 10 17]\<rparr>"

definition demo_types_unit :: cu_header where
  "demo_types_unit = \<lparr>cu_data = \<lparr>sp_data = Some 10, sp_size = 17\<rparr>, cu_abbrev_offset = 0\<rparr>"

definition demo_int :: die where
  "demo_int = \<lparr>die_pos = Some 21, die_cu = Some demo_types_unit, die_abbrev = Some demo_int_abbrev,
     die_attr_locs = [Some 22, Some 23], die_next = Some 24\<rparr>"

definition demo_array :: die where
  "demo_array = \<lparr>die_pos = None, die_cu = Some demo_types_unit,
     die_abbrev = Some \<lparr>ab_code = 2, ab_tag = DW_TAG_array_type, ab_has_children = False,
       ab_specs = [\<lparr>as_attr = DW_AT_type, as_form = DW_FORM_ref1\<rparr>]\<rparr>,
     die_attr_locs = [Some 24], die_next = None\<rparr>"

definition demo_field :: die where
  "demo_field = \<lparr>die_pos = None, die_cu = Some demo_types_unit,
     die_abbrev = Some \<lparr>ab_code = 3, ab_tag = DW_TAG_member, ab_has_children = False,
       ab_specs = [\<lparr>as_attr = DW_AT_type, as_form = DW_FORM_ref1\<rparr>,
                   \<lparr>as_attr = DW_AT_bit_size, as_form = DW_FORM_data1\<rparr>,
                   \<lparr>as_attr = DW_AT_data_bit_offset, as_form = DW_FORM_data1\<rparr>]\<rparr>,
     die_attr_locs = [Some 24, Some 25, Some 26], die_next = None\<rparr>"

lemmas demo_types_reads = cur_u8_def fixed_int_def fixed_bytes_def read_bytes_def from_bytes_def cur_left_def
  cursor_between_def span_of_ptrs_def span_end_def demo_types_unit_def demo_types_elf_def cur_uleb128_def
  leb128_loop.simps bump_def

lemma demo_types_table: "parse_abbrev_table demo_types_elf 0 = Inr [1 \<mapsto> demo_int_abbrev]"
proof -
  have "section_inside demo_types_elf ''.debug_abbrev''"
    by (simp add: demo_types_elf_def demo_dwarf_defs)
  moreover have "drop (unat 0) (section_bytes demo_types_elf ''.debug_abbrev'') = concat (map abbrev_bytes [demo_int_abbrev]) @ 0 # []"
    by (simp add: demo_types_elf_def demo_dwarf_defs abbrev_bytes_def attr_spec_bytes_def demo_int_abbrev_def uleb_encode.simps)
  moreover have "list_all abbrev_ok [demo_int_abbrev]"
    by (simp add: abbrev_ok_def demo_int_abbrev_def)
  ultimately have "parse_abbrev_table demo_types_elf 0 = Inr (map_of (map (\<lambda>ab. (ab_code ab, ab)) [demo_int_abbrev]))"
    by (rule parse_abbrev_table_encoded)
  then show ?thesis by (simp add: demo_int_abbrev_def)
qed

lemma demo_int_parsed:
  "parse_die demo_types_elf demo_types_unit (cursor_between (Some 21) (Some 27)) = Inr demo_int"
proof -
  let ?c = "cursor_between (Some 21) (Some 27)"
  have "cur_uleb128 (storage demo_types_elf) ?c = Inr (1, ?c\<lparr>cur_pos := Some 22\<rparr>)"
    by (simp add: demo_types_reads)
  moreover have "skip_attrs (storage demo_types_elf) (ab_specs demo_int_abbrev) (?c\<lparr>cur_pos := Some 22\<rparr>) =
      Inr ([Some 22, Some 23], ?c\<lparr>cur_pos := Some 24\<rparr>)"
    by (simp add: demo_int_abbrev_def skip_form.simps demo_types_reads)
  ultimately show ?thesis
    using demo_types_table by (simp add: parse_die_def demo_int_def) (simp add: demo_types_unit_def cursor_between_def)
qed

lemma demo_type_of:
  "type_of_die demo_types_elf cus demo_array = Inr demo_int" "type_of_die demo_types_elf cus demo_field = Inr demo_int"
proof -
  have "as_type demo_types_elf cus \<lparr>at_cu = demo_types_unit, at_name = DW_AT_type, at_form = DW_FORM_ref1, at_loc = Some 24\<rparr> = Inr demo_int"
    using demo_int_parsed
    by (simp add: as_type_def as_reference_def attr_cursor_def Let_def demo_types_reads)
  then show "type_of_die demo_types_elf cus demo_array = Inr demo_int" "type_of_die demo_types_elf cus demo_field = Inr demo_int"
    by (simp_all add: type_of_die_def die_attr_def demo_array_def demo_field_def)
qed

lemma demo_int_size: "compute_byte_size (Suc n) demo_types_elf cus demo_int = Inr 4"
  by (simp add: die_tag_def die_contains_def int_attr_def die_attr_def as_int_def attr_cursor_def
      demo_int_def demo_int_abbrev_def demo_types_reads)

lemma demo_int_facts:
  "die_tag demo_int = Inr DW_TAG_base_type" "int_attr demo_types_elf demo_int DW_AT_encoding = Inr DW_ATE_signed"
  by (simp_all add: die_tag_def int_attr_def die_attr_def as_int_def attr_cursor_def demo_int_def demo_int_abbrev_def
      demo_types_reads)

lemma demo_field_info:
  "get_bitfield_information demo_types_elf demo_field 4 = Inr (Some \<lparr>bf_bit_size = 3, bf_storage_byte_size = 4, bf_bit_offset = 5\<rparr>)"
  by (simp add: get_bitfield_information_def die_contains_def int_attr_def die_attr_def as_int_def attr_cursor_def
      demo_field_def demo_types_reads)

lemma demo_strip:
  "strip_cv_typedef (Suc n) demo_types_elf cus demo_int = Inr demo_int"
  "strip_cv_typedef (Suc n) demo_types_elf cus demo_array = Inr demo_array"
  "die_tag demo_array = Inr DW_TAG_array_type"
  by (simp_all add: strip_cv_typedef_def cv_typedef_tags_def die_tag_def demo_int_def demo_int_abbrev_def demo_array_def)

definition demo_view :: view where
  "demo_view = \<lparr>view_memory = (\<lambda>a n. Inr (replicate (unat n) 0)), view_string = (\<lambda>a. Inr []), print_hex = (\<lambda>w. []),
     print_int = (\<lambda>i. []), print_float = (\<lambda>bs. []), long_double_size = 8\<rparr>"

section \<open>Properties\<close>

text \<open>
  Bit fields.  When a member is a bit field whose bits lie in the bytes read for it and fit in its
  storage unit, \<open>fixup_bitfield\<close> returns a value of the size of the storage unit whose number, read
  little-endian, is exactly the field: bits \<open>bit_offset\<close> up to \<open>bit_offset + bit_size\<close> of the data.
\<close>

theorem fixup_bitfield_value:
  assumes "get_die (td_type td) = Inr d" "strip_cv_typedef n obj cus d = Inr stripped"
    "compute_byte_size n obj cus stripped = Inr bytes"
    "get_bitfield_information obj member_die bytes = Inr (Some b)"
    "unat (bf_bit_size b) \<le> 8 * unat (bf_storage_byte_size b)" "8 * unat (bf_storage_byte_size b) < 2 ^ 32"
    "unat (bf_bit_offset b) + unat (bf_bit_size b) \<le> 8 * length (td_data td)" "8 * length (td_data td) < 2 ^ 32"
  shows "\<exists>fixed. fixup_bitfield n obj cus member_die td = Inr \<lparr>td_data = fixed, td_type = td_type td, td_address = None\<rparr> \<and>
           length fixed = unat (bf_storage_byte_size b) \<and>
           le_nat fixed = le_nat (td_data td) div 2 ^ unat (bf_bit_offset b) mod 2 ^ unat (bf_bit_size b)"
proof -
  let ?l = "unat (bf_storage_byte_size b)"
  have u1: "unat (ucast (bf_bit_size b) :: u32) = unat (bf_bit_size b)"
    using assms(5,6) by (simp add: unsigned_ucast_eq unsigned_take_bit_eq take_bit_nat_eq_self)
  have "unat (bf_bit_offset b) < 2 ^ LENGTH(8)" by (rule unsigned_less)
  then have u2: "unat (ucast (bf_bit_offset b) :: u32) = unat (bf_bit_offset b)"
    by (simp add: unsigned_ucast_eq unsigned_take_bit_eq take_bit_nat_eq_self)
  obtain r where r: "memcpy_bits (replicate ?l 0) 0 (td_data td) (ucast (bf_bit_offset b)) (ucast (bf_bit_size b)) = Inr r"
      "length r = ?l"
      "\<forall>k < 8 * ?l. bit_at r k = (if k < unat (bf_bit_size b) then bit_at (td_data td) (unat (bf_bit_offset b) + k)
         else bit_at (replicate ?l 0) k)"
    using memcpy_bits_effect [of 0 "ucast (bf_bit_size b)" "replicate ?l 0" "ucast (bf_bit_offset b)" "td_data td"] assms(5-8) u1 u2
    by auto
  have "\<forall>k < 8 * ?l. bit_at r k = (k < unat (bf_bit_size b) \<and> bit_at (td_data td) (unat (bf_bit_offset b) + k))"
    using r(3) by (auto simp: bit_at_def)
  with r(2) assms(5,7) have "le_nat r = le_nat (td_data td) div 2 ^ unat (bf_bit_offset b) mod 2 ^ unat (bf_bit_size b)"
    by (intro le_nat_extract)
  with r(1,2) assms(1-4) show ?thesis by (simp add: fixup_bitfield_def)
qed

theorem fixup_bitfield_value_witness:
  "\<exists>fixed. fixup_bitfield 1 demo_types_elf [] demo_field
       \<lparr>td_data = [0xa7, 0, 0, 0], td_type = From_dwarf demo_int, td_address = Some 0x1000\<rparr> =
       Inr \<lparr>td_data = fixed, td_type = From_dwarf demo_int, td_address = None\<rparr> \<and>
     length fixed = 4 \<and> le_nat fixed = 5"
  using fixup_bitfield_value [where td = "\<lparr>td_data = [0xa7, 0, 0, 0], td_type = From_dwarf demo_int, td_address = Some 0x1000\<rparr>"
      and obj = demo_types_elf and cus = "[]" and n = 1 and member_die = demo_field,
      OF _ demo_strip(1) [where n = 0, folded One_nat_def] demo_int_size [where n = 0, folded One_nat_def] demo_field_info]
  by (simp add: get_die_def)

text \<open>
  Elements of arrays.  When the value is an array with its elements in the data, indexing returns the bytes of
  exactly that element, with its type and with its address when the array has one.  There is no check of the index: with
  an index past the data the code reads outside its vector.
\<close>

theorem array_element:
  assumes "get_die (td_type td) = Inr d" "strip_cv_typedef n obj cus d = Inr parent"
    "die_tag parent = Inr DW_TAG_array_type" "type_of_die obj cus parent = Inr value_type"
    "compute_byte_size n obj cus value_type = Inr bytes" "unat k * unat bytes < 2 ^ 64"
  shows "typed_index n proc obj cus k td =
    (if Suc (unat k) * unat bytes \<le> length (td_data td)
     then Inr \<lparr>td_data = take (unat bytes) (drop (unat k * unat bytes) (td_data td)), td_type = From_dwarf value_type,
               td_address = map_option (\<lambda>a. a + k * bytes) (td_address td)\<rparr>
     else undefined_behaviour ''range outside the vector'')"
proof -
  have "unat (k * bytes) = unat k * unat bytes" using assms(6) by (simp add: unat_word_ariths)
  moreover have "DW_TAG_array_type \<noteq> (DW_TAG_pointer_type :: u64)" by (simp add: word_eq_iff_unsigned)
  ultimately show ?thesis using assms(1-5) by (simp add: typed_index_def sub_bytes_def Let_def add.commute [of "unat bytes" "unat k * unat bytes"])
qed

theorem array_element_witness:
  "typed_index 1 demo_view demo_types_elf [] 1
     \<lparr>td_data = [1, 0, 0, 0, 2, 0, 0, 0], td_type = From_dwarf demo_array, td_address = Some 0x1000\<rparr> =
   Inr \<lparr>td_data = [2, 0, 0, 0], td_type = From_dwarf demo_int, td_address = Some 0x1004\<rparr>"
  using array_element [where td = "\<lparr>td_data = [1, 0, 0, 0, 2, 0, 0, 0], td_type = From_dwarf demo_array, td_address = Some 0x1000\<rparr>"
      and obj = demo_types_elf and cus = "[]" and n = 1 and k = 1 and proc = demo_view,
      OF _ demo_strip(2) [where n = 0, folded One_nat_def] demo_strip(3) demo_type_of(1)
        demo_int_size [where n = 0, folded One_nat_def]]
  by (simp add: get_die_def)

text \<open>
  Homogeneous floating-point aggregates.  A type that \<open>classify_arm64_hfa\<close> accepts has at most four elements, so its
  value fits in four SIMD registers, and all of one size, 4 or 8 bytes; the only accepted type without an
  element is an array of length zero.
\<close>

theorem hfa_bounded:
  assumes "classify_arm64_hfa n obj cus value = Inr (Some hfa)"
  shows "length (hfa_offsets hfa) \<le> 4 \<and>
    (hfa_offsets hfa \<noteq> [] \<and> element_size hfa \<in> {4, 8} \<or> hfa = \<lparr>element_size = 0, hfa_offsets = []\<rparr>)"
proof -
  let ?h = "\<lparr>element_size = 0, hfa_offsets = []\<rparr>"
  from assms have "hfa_collect n obj cus 0 value 0 ?h = Inr (True, hfa)"
    by (auto simp: classify_arm64_hfa_def res_simps split: if_splits)
  then have "hfa_kept (True, hfa)" by (rule hfa_collect_kept) (simp add: hfa_kept_def hfa_ok_def)
  then show ?thesis by (auto simp: hfa_kept_def hfa_ok_def)
qed

theorem hfa_bounded_witness:
  "length (hfa_offsets \<lparr>element_size = 8, hfa_offsets = [0]\<rparr>) \<le> 4 \<and>
    (hfa_offsets \<lparr>element_size = 8, hfa_offsets = [0]\<rparr> \<noteq> [] \<and> element_size \<lparr>element_size = 8, hfa_offsets = [0]\<rparr> \<in> {4, 8} \<or>
     \<lparr>element_size = 8, hfa_offsets = [0]\<rparr> = \<lparr>element_size = 0, hfa_offsets = []\<rparr>)"
  by (rule hfa_bounded [of 1 demo_types_elf "[]" "Builtin Builtin_floating_point"])
     (simp add: classify_arm64_hfa_def hfa_collect.simps add_element_def)



end
