(* ===== verification/Macho.thy ===== *)
theory Macho
  imports Line_Table
begin

text \<open>
  Reading a Mach-O image: the constructor of class \<open>elf\<close> and \<open>parse_macho\<close>
  (\<^verbatim>\<open>src/src/macho.cpp\<close>), which fill the object file that \<open>Elf\<close> works on.

  The file system and the structures and constants of the system headers are arguments: \<open>file_system\<close>
  says what opening a path gives, and \<open>macho_abi\<close> has the size of each structure and how its fields
  are read from that many bytes.  Positions in a file are natural numbers; they come from sums of
  32-bit fields and a file of at most 2^30 bytes, which do not wrap in 64 bits.
\<close>

section \<open>What the system provides\<close>

datatype file_state = Missing | Cannot_open | No_position | Unreadable nat | Readable "byte list"

type_synonym file_system = "string \<Rightarrow> file_state"

record mach_header = mh_magic :: u32  mh_cputype :: u32  mh_ncmds :: u32  mh_sizeofcmds :: u32

record fat_arch = fat_cputype :: u32  fat_offset :: u32  fat_size :: u32

record load_command = lc_cmd :: u32  lc_cmdsize :: u32

record segment_command = seg_name :: "byte list"  seg_vmaddr :: u64  seg_nsects :: u32

record macho_section =
  sec_name :: "byte list"
  sec_addr :: u64
  sec_size :: u64
  sec_offset :: u32
  sec_flags :: u32

record symtab_command = sym_symoff :: u32  sym_nsyms :: u32  sym_stroff :: u32  sym_strsize :: u32

record nlist = n_strx :: u32  n_type :: byte  n_sect :: byte  n_value :: u64

text \<open>
  The sizes and readers of the structures, and the constants.  The big-endian fields of a universal
  binary are read with their bytes swapped.
\<close>

record macho_abi =
  read_magic :: "byte list \<Rightarrow> u32"
  fat_header_size :: nat
  read_nfat_arch :: "byte list \<Rightarrow> u32"
  fat_arch_size :: nat
  read_fat_arch :: "byte list \<Rightarrow> fat_arch"
  mach_header_size :: nat
  read_mach_header :: "byte list \<Rightarrow> mach_header"
  load_command_size :: nat
  read_load_command :: "byte list \<Rightarrow> load_command"
  segment_size :: nat
  read_segment :: "byte list \<Rightarrow> segment_command"
  section_size :: nat
  read_section :: "byte list \<Rightarrow> macho_section"
  symtab_size :: nat
  read_symtab :: "byte list \<Rightarrow> symtab_command"
  entry_point_size :: nat
  read_entryoff :: "byte list \<Rightarrow> u64"
  nlist_size :: nat
  read_nlist :: "byte list \<Rightarrow> nlist"
  abi_FAT_CIGAM :: u32
  abi_MH_MAGIC_64 :: u32
  abi_CPU_TYPE_ARM64 :: u32
  abi_LC_SEGMENT_64 :: u32
  abi_LC_SYMTAB :: u32
  abi_LC_MAIN :: u32
  abi_SECTION_TYPE :: u32
  abi_S_ZEROFILL :: u32
  abi_S_THREAD_LOCAL_ZEROFILL :: u32
  abi_N_STAB :: byte
  abi_N_TYPE :: byte
  abi_N_SECT :: byte

section \<open>Checked access to a file\<close>

definition read_file :: "file_system \<Rightarrow> string \<Rightarrow> byte list result" where
  "read_file fs path =
     (case fs path of
        Missing \<Rightarrow> send (''Cannot open Mach-O file: '' @ path)
      | Cannot_open \<Rightarrow> send (''Cannot open Mach-O file: '' @ path)
      | No_position \<Rightarrow> send ''Invalid Mach-O file size''
      | Unreadable n \<Rightarrow> if n > 1024 * 1024 * 1024 then send ''Invalid Mach-O file size'' else send ''Cannot read Mach-O file''
      | Readable bs \<Rightarrow> if length bs > 1024 * 1024 * 1024 then send ''Invalid Mach-O file size'' else Inr bs)"

text \<open>Bytes \<open>off\<close> up to \<open>off + n\<close> of a vector, without a check.\<close>

definition raw_bytes :: "byte list \<Rightarrow> nat \<Rightarrow> nat \<Rightarrow> byte list result" where
  "raw_bytes b off n =
     (if off + n \<le> length b then Inr (take n (drop off b)) else undefined_behaviour ''read outside the file'')"

definition macho_record :: "byte list \<Rightarrow> nat \<Rightarrow> nat \<Rightarrow> byte list result" where
  "macho_record b n off =
     (if off > length b \<or> n > length b - off then send ''Truncated Mach-O record'' else raw_bytes b off n)"

definition macho_bounds :: "byte list \<Rightarrow> u64 \<Rightarrow> u64 \<Rightarrow> unit result" where
  "macho_bounds b off sz =
     (if unat off > length b \<or> unat sz > length b - unat off then send ''Mach-O range outside file'' else Inr ())"

section \<open>Universal binaries\<close>

fun arm64_slice :: "macho_abi \<Rightarrow> byte list \<Rightarrow> nat \<Rightarrow> nat \<Rightarrow> byte list result" where
  "arm64_slice abi b i 0 = send ''Universal binary has no ARM64 slice''"
| "arm64_slice abi b i (Suc k) =
     bind_res (macho_record b (fat_arch_size abi) (fat_header_size abi + i * fat_arch_size abi)) (\<lambda>r.
     let a = read_fat_arch abi r in
     if fat_cputype a = abi_CPU_TYPE_ARM64 abi then
       bind_res (macho_bounds b (ucast (fat_offset a)) (ucast (fat_size a))) (\<lambda>_.
       raw_bytes b (unat (fat_offset a)) (unat (fat_size a)))
     else arm64_slice abi b (Suc i) k)"

definition select_slice :: "macho_abi \<Rightarrow> byte list \<Rightarrow> byte list result" where
  "select_slice abi b =
     bind_res (macho_record b 4 0) (\<lambda>m.
     if read_magic abi m = abi_FAT_CIGAM abi then
       bind_res (macho_record b (fat_header_size abi) 0) (\<lambda>h. arm64_slice abi b 0 (unat (read_nfat_arch abi h)))
     else Inr b)"

section \<open>Load commands\<close>

text \<open>The characters of a fixed array of sixteen up to its first zero.\<close>

definition fixed_name :: "byte list \<Rightarrow> string" where
  "fixed_name bs = map (\<lambda>b. char_of (unat b)) (takeWhile (\<lambda>b. b \<noteq> 0) (take 16 bs))"

definition starts_with :: "string \<Rightarrow> string \<Rightarrow> bool" where
  "starts_with p s \<longleftrightarrow> take (length p) s = p"

definition normal_section_name :: "string \<Rightarrow> string" where
  "normal_section_name name =
     (let n = (if starts_with ''__'' name then ''.'' @ drop 2 name else name)
      in if n = ''.debug_str_offs'' then ''.debug_str_offsets'' else n)"

definition is_zerofill :: "macho_abi \<Rightarrow> macho_section \<Rightarrow> bool" where
  "is_zerofill abi sec \<longleftrightarrow>
     sec_flags sec AND abi_SECTION_TYPE abi = abi_S_ZEROFILL abi \<or>
     sec_flags sec AND abi_SECTION_TYPE abi = abi_S_THREAD_LOCAL_ZEROFILL abi"

definition add_section :: "macho_abi \<Rightarrow> bool \<Rightarrow> byte list \<Rightarrow> u64 \<Rightarrow> macho_section \<Rightarrow> elf \<Rightarrow> elf result" where
  "add_section abi debug_only b base sec e =
     (let name = fixed_name (sec_name sec) in
      if debug_only \<and> \<not> starts_with ''__debug_'' name then Inr e
      else
        bind_res (if \<not> is_zerofill abi sec
                  then bind_res (macho_bounds b (ucast (sec_offset sec)) (sec_size sec)) (\<lambda>_. Inr (sec_offset sec))
                  else Inr 0) (\<lambda>offset.
        Inr (e\<lparr>section_names := section_names e @ [normal_section_name name],
               section_headers := section_headers e @
                 [\<lparr>sh_name = word_of_nat (length (section_names e)), sh_addr = sec_addr sec,
                   sh_offset = base + ucast offset, sh_size = sec_size sec,
                   sh_entsize = (if is_zerofill abi sec then 1 else 0)\<rparr>]\<rparr>)))"

fun add_sections :: "macho_abi \<Rightarrow> bool \<Rightarrow> byte list \<Rightarrow> u64 \<Rightarrow> nat \<Rightarrow> nat \<Rightarrow> elf \<Rightarrow> elf result" where
  "add_sections abi debug_only b base pos 0 e = Inr e"
| "add_sections abi debug_only b base pos (Suc k) e =
     bind_res (macho_record b (section_size abi) pos) (\<lambda>r.
     bind_res (add_section abi debug_only b base (read_section abi r) e) (\<lambda>e'.
     add_sections abi debug_only b base (pos + section_size abi) k e'))"

definition add_segment :: "macho_abi \<Rightarrow> bool \<Rightarrow> byte list \<Rightarrow> u64 \<Rightarrow> nat \<Rightarrow> u32 \<Rightarrow> elf \<Rightarrow> elf result" where
  "add_segment abi debug_only b base pos cmdsize e =
     bind_res (macho_record b (segment_size abi) pos) (\<lambda>r.
     let seg = read_segment abi r;
         e1 = (if \<not> debug_only \<and> fixed_name (seg_name seg) = ''__TEXT'' then e\<lparr>preferred_base := seg_vmaddr seg\<rparr> else e)
     in if segment_size abi + unat (seg_nsects seg) * section_size abi > unat cmdsize
        then send ''Invalid Mach-O section count''
        else add_sections abi debug_only b base (pos + segment_size abi) (unat (seg_nsects seg)) e1)"

record macho_parse =
  mp_elf :: elf
  mp_symtab :: "symtab_command option"
  mp_entryoff :: u64

definition load_step :: "macho_abi \<Rightarrow> bool \<Rightarrow> byte list \<Rightarrow> u64 \<Rightarrow> nat \<Rightarrow> load_command \<Rightarrow> macho_parse \<Rightarrow> macho_parse result" where
  "load_step abi debug_only b base pos cmd p =
     (if lc_cmd cmd = abi_LC_SEGMENT_64 abi then
        bind_res (add_segment abi debug_only b base pos (lc_cmdsize cmd) (mp_elf p)) (\<lambda>e. Inr (p\<lparr>mp_elf := e\<rparr>))
      else if lc_cmd cmd = abi_LC_SYMTAB abi \<and> \<not> debug_only then
        bind_res (macho_record b (symtab_size abi) pos) (\<lambda>r. Inr (p\<lparr>mp_symtab := Some (read_symtab abi r)\<rparr>))
      else if lc_cmd cmd = abi_LC_MAIN abi \<and> \<not> debug_only then
        bind_res (macho_record b (entry_point_size abi) pos) (\<lambda>r. Inr (p\<lparr>mp_entryoff := read_entryoff abi r\<rparr>))
      else Inr p)"

fun load_commands ::
  "macho_abi \<Rightarrow> bool \<Rightarrow> byte list \<Rightarrow> u64 \<Rightarrow> nat \<Rightarrow> nat \<Rightarrow> nat \<Rightarrow> macho_parse \<Rightarrow> macho_parse result" where
  "load_commands abi debug_only b base stop pos 0 p = Inr p"
| "load_commands abi debug_only b base stop pos (Suc k) p =
     bind_res (macho_record b (load_command_size abi) pos) (\<lambda>r.
     let cmd = read_load_command abi r in
     if unat (lc_cmdsize cmd) < load_command_size abi \<or> pos + unat (lc_cmdsize cmd) > stop
     then send ''Invalid Mach-O load command''
     else bind_res (load_step abi debug_only b base pos cmd p)
            (load_commands abi debug_only b base stop (pos + unat (lc_cmdsize cmd)) k))"

section \<open>Symbols\<close>

definition skip_symbol :: "macho_abi \<Rightarrow> nlist \<Rightarrow> bool" where
  "skip_symbol abi nl \<longleftrightarrow>
     n_type nl AND abi_N_STAB abi \<noteq> 0 \<or> n_type nl AND abi_N_TYPE abi \<noteq> abi_N_SECT abi \<or> n_value nl = 0"

definition symbol_text :: "byte list \<Rightarrow> symtab_command \<Rightarrow> nlist \<Rightarrow> string result" where
  "symbol_text b st nl =
     (if n_strx nl \<ge> sym_strsize st then send ''Invalid Mach-O symbol name''
      else
        let max = unat (sym_strsize st - n_strx nl) in
        bind_res (raw_bytes b (unat (sym_stroff st) + unat (n_strx nl)) max) (\<lambda>bs.
        let name = takeWhile (\<lambda>c. c \<noteq> 0) bs in
        if length name = max then send ''Unterminated Mach-O symbol name''
        else let cs = map (\<lambda>c. char_of (unat c)) name
             in Inr (if cs \<noteq> [] \<and> hd cs = CHR ''_'' then tl cs else cs)))"

definition is_function_symbol :: "elf \<Rightarrow> nlist \<Rightarrow> bool result" where
  "is_function_symbol e nl =
     (if n_sect nl \<noteq> 0 \<and> unat (n_sect nl) \<le> length (section_headers e)
      then bind_res (get_section_name e (sh_name (section_headers e ! (unat (n_sect nl) - 1)))) (\<lambda>n. Inr (n = ''.text''))
      else Inr False)"

definition STT_FUNC :: byte where "STT_FUNC = 2"

definition add_symbol :: "macho_abi \<Rightarrow> byte list \<Rightarrow> symtab_command \<Rightarrow> nlist \<Rightarrow> elf \<Rightarrow> elf result" where
  "add_symbol abi b st nl e =
     (if skip_symbol abi nl then Inr e
      else
        bind_res (symbol_text b st nl) (\<lambda>name.
        bind_res (is_function_symbol e nl) (\<lambda>is_function.
        Inr (e\<lparr>symbol_names := symbol_names e @ [name],
               symbol_table := symbol_table e @
                 [\<lparr>st_name = word_of_nat (length (symbol_names e)), st_info = (if is_function then STT_FUNC else 1),
                   st_value = n_value nl, st_size = 0\<rparr>]\<rparr>))))"

fun add_symbols :: "macho_abi \<Rightarrow> byte list \<Rightarrow> symtab_command \<Rightarrow> nat \<Rightarrow> nat \<Rightarrow> elf \<Rightarrow> elf result" where
  "add_symbols abi b st pos 0 e = Inr e"
| "add_symbols abi b st pos (Suc k) e =
     bind_res (macho_record b (nlist_size abi) pos) (\<lambda>r.
     bind_res (add_symbol abi b st (read_nlist abi r) e) (add_symbols abi b st (pos + nlist_size abi) k))"

definition read_symbols :: "macho_abi \<Rightarrow> byte list \<Rightarrow> symtab_command \<Rightarrow> elf \<Rightarrow> elf result" where
  "read_symbols abi b st e =
     bind_res (macho_bounds b (ucast (sym_symoff st)) (word_of_nat (unat (sym_nsyms st) * nlist_size abi))) (\<lambda>_.
     bind_res (macho_bounds b (ucast (sym_stroff st)) (ucast (sym_strsize st))) (\<lambda>_.
     bind_res (add_symbols abi b st (unat (sym_symoff st)) (unat (sym_nsyms st)) e) (\<lambda>e'.
     Inr (finish_symbol_table e'))))"

section \<open>The image\<close>

definition parse_macho :: "macho_abi \<Rightarrow> file_system \<Rightarrow> string \<Rightarrow> bool \<Rightarrow> elf \<Rightarrow> elf result" where
  "parse_macho abi fs path debug_only e =
     bind_res (read_file fs path) (\<lambda>f.
     bind_res (select_slice abi f) (\<lambda>b.
     bind_res (macho_record b (mach_header_size abi) 0) (\<lambda>r.
     let h = read_mach_header abi r in
     if mh_magic h \<noteq> abi_MH_MAGIC_64 abi \<or> mh_cputype h \<noteq> abi_CPU_TYPE_ARM64 abi
     then send ''Expected a little-endian ARM64 Mach-O image''
     else
       bind_res (macho_bounds b (word_of_nat (mach_header_size abi)) (ucast (mh_sizeofcmds h))) (\<lambda>_.
       bind_res (load_commands abi debug_only b (word_of_nat (length (storage e)))
           (mach_header_size abi + unat (mh_sizeofcmds h)) (mach_header_size abi) (unat (mh_ncmds h))
           \<lparr>mp_elf = e\<lparr>storage := storage e @ b\<rparr>, mp_symtab = None, mp_entryoff = 0\<rparr>) (\<lambda>p.
       let e1 = (if debug_only then mp_elf p else (mp_elf p)\<lparr>e_entry := preferred_base (mp_elf p) + mp_entryoff p\<rparr>)
       in case mp_symtab p of None \<Rightarrow> Inr e1 | Some st \<Rightarrow> read_symbols abi b st e1)))))"

definition empty_elf :: "nat \<Rightarrow> string \<Rightarrow> elf" where
  "empty_elf i path = \<lparr>elf_id = i, elf_path = path, storage = [], section_names = [], symbol_names = [], preferred_base = 0,
     e_entry = 0, section_headers = [], section_map = Map.empty, load_bias = 0, symbol_table = [], symbol_name_map = [],
     symbol_addr_map = []\<rparr>"

definition path_filename :: "string \<Rightarrow> string" where
  "path_filename p = rev (takeWhile (\<lambda>c. c \<noteq> CHR ''/'') (rev p))"

definition dsym_path :: "string \<Rightarrow> string" where
  "dsym_path path = path_append (path_append (path @ ''.dSYM'') ''Contents/Resources/DWARF'') (path_filename path)"

text \<open>The constructor, up to the debug information that is read from the finished object.\<close>

definition make_elf :: "macho_abi \<Rightarrow> (string \<Rightarrow> string option) \<Rightarrow> file_system \<Rightarrow> nat \<Rightarrow> string \<Rightarrow> elf result" where
  "make_elf abi demangle fs i path =
     bind_res (parse_macho abi fs path False (empty_elf i path)) (\<lambda>e1.
     bind_res (if fs (dsym_path path) \<noteq> Missing then parse_macho abi fs (dsym_path path) True e1 else Inr e1) (\<lambda>e2.
     bind_res (build_section_map e2) (build_symbol_maps demangle)))"

definition get_elf_by_filename :: "elf list \<Rightarrow> string \<Rightarrow> elf option" where
  "get_elf_by_filename elves name = find (\<lambda>e. path_filename (elf_path e) = name) elves"

section \<open>Safe results\<close>

text \<open>A result that is no undefined behaviour and, when it is a value, has a property.\<close>

definition safely :: "('a \<Rightarrow> bool) \<Rightarrow> 'a result \<Rightarrow> bool" where
  "safely P r \<longleftrightarrow> no_ub r \<and> (\<forall>x. r = Inr x \<longrightarrow> P x)"

lemma safely_simps [simp]: "safely P (Inr x) \<longleftrightarrow> P x" "safely P (send w)" "safely P (Inl Out_Of_Range)"
  by (auto simp: safely_def send_def)

lemma safely_bind:
  assumes "safely Q m" "\<And>x. Q x \<Longrightarrow> safely P (f x)"
  shows "safely P (bind_res m f)"
  using assms by (auto simp: safely_def res_simps intro: no_ub_bind)

lemma safely_if: "(c \<Longrightarrow> safely P r) \<Longrightarrow> (\<not> c \<Longrightarrow> safely P s) \<Longrightarrow> safely P (if c then r else s)"
  by simp

lemma safely_mono: "safely P r \<Longrightarrow> (\<And>x. P x \<Longrightarrow> Q x) \<Longrightarrow> safely Q r"
  by (auto simp: safely_def)

lemma safely_raw: "off + n \<le> length b \<Longrightarrow> safely (\<lambda>bs. length bs = n) (raw_bytes b off n)"
  by (simp add: raw_bytes_def)

lemma safely_record: "safely (\<lambda>bs. True) (macho_record b n off)"
  by (auto simp: macho_record_def raw_bytes_def)

lemma safely_bounds: "safely (\<lambda>_. unat off + unat sz \<le> length b) (macho_bounds b off sz)"
  by (auto simp: macho_bounds_def)

lemma unat_ucast_up [simp]: "unat (ucast (x :: u32) :: u64) = unat x"
proof -
  have "unat x < 2 ^ LENGTH(32)" by (rule unsigned_less)
  then show ?thesis by (simp add: unsigned_ucast_eq unsigned_take_bit_eq take_bit_nat_eq_self)
qed

lemma safely_read_file: "safely (\<lambda>b. length b \<le> 2 ^ 30) (read_file fs path)"
  by (simp add: read_file_def split: file_state.splits)

lemma safely_arm64_slice: "safely (\<lambda>s. length s \<le> length b) (arm64_slice abi b i k)"
proof (induction k arbitrary: i)
  case (Suc k)
  have "safely (\<lambda>s. length s \<le> length b) (raw_bytes b off n)" if "off + n \<le> length b" for off n
    using that by (simp add: raw_bytes_def)
  with Suc show ?case
    by (auto simp: Let_def intro!: safely_bind [OF safely_record] safely_bind [OF safely_bounds])
qed simp

lemma safely_select_slice: "safely (\<lambda>s. length s \<le> length b) (select_slice abi b)"
  unfolding select_slice_def
  by (intro safely_bind [OF safely_record] safely_if safely_arm64_slice) simp

section \<open>Sections lie in the file\<close>

definition section_in :: "byte list \<Rightarrow> Elf64_Shdr \<Rightarrow> bool" where
  "section_in img s \<longleftrightarrow> sh_entsize s = 1 \<or> unat (sh_offset s) + unat (sh_size s) \<le> length img"

text \<open>Every section has its bytes in the storage; the map of sections is not built yet.\<close>

definition sections_in :: "elf \<Rightarrow> bool" where
  "sections_in e \<longleftrightarrow> section_map e = Map.empty \<and> list_all (section_in (storage e)) (section_headers e)"

text \<open>What reading one image keeps: the storage is what was there before and the image.\<close>

definition image_ok :: "byte list \<Rightarrow> byte list \<Rightarrow> elf \<Rightarrow> bool" where
  "image_ok old b e \<longleftrightarrow> storage e = old @ b \<and> length (old @ b) < 2 ^ 63 \<and> sections_in e"

lemma safely_add_section:
  assumes "image_ok old b e"
  shows "safely (image_ok old b) (add_section abi debug_only b (word_of_nat (length old)) sec e)"
proof -
  have inside: "section_in (old @ b) \<lparr>sh_name = nm, sh_addr = a, sh_offset = word_of_nat (length old) + ucast off, sh_size = n, sh_entsize = 0\<rparr>"
    if "unat off + unat n \<le> length b" for nm a n and off :: u32
  proof -
    have "unat (word_of_nat (length old) + ucast off :: u64) = length old + unat off"
      using assms that by (simp add: image_ok_def unat_word_ariths unat_of_nat)
    then show ?thesis using that by (simp add: section_in_def)
  qed
  show ?thesis
  proof (cases "is_zerofill abi sec")
    case True
    then show ?thesis using assms
      by (auto simp: add_section_def Let_def image_ok_def sections_in_def section_in_def)
  next
    case False
    have "safely (\<lambda>off. unat off + unat (sec_size sec) \<le> length b)
        (bind_res (macho_bounds b (ucast (sec_offset sec)) (sec_size sec)) (\<lambda>_. Inr (sec_offset sec)))"
      by (rule safely_bind [OF safely_bounds]) simp
    with False assms inside show ?thesis
      unfolding add_section_def Let_def
      by (intro safely_if, simp) (simp del: bind_res.simps, erule safely_bind, auto simp: image_ok_def sections_in_def)
  qed
qed

lemma safely_add_sections:
  "image_ok old b e \<Longrightarrow> safely (image_ok old b) (add_sections abi debug_only b (word_of_nat (length old)) pos k e)"
proof (induction k arbitrary: pos e)
  case (Suc k)
  then show ?case by (auto intro!: safely_bind [OF safely_record] safely_bind [OF safely_add_section])
qed simp

lemma safely_load_step:
  assumes "image_ok old b (mp_elf p)"
  shows "safely (\<lambda>p. image_ok old b (mp_elf p)) (load_step abi debug_only b (word_of_nat (length old)) pos cmd p)"
proof -
  have "image_ok old b (mp_elf p\<lparr>preferred_base := a\<rparr>)" for a
    using assms by (auto simp: image_ok_def sections_in_def)
  then have seg: "safely (image_ok old b) (add_segment abi debug_only b (word_of_nat (length old)) pos n (mp_elf p))" for n
    unfolding add_segment_def Let_def using assms
    by (intro safely_bind [OF safely_record] safely_if safely_add_sections) auto
  show ?thesis
    unfolding load_step_def
    by (intro safely_if safely_bind [OF seg] safely_bind [OF safely_record]) (use assms in auto)
qed

lemma safely_load_commands:
  "image_ok old b (mp_elf p) \<Longrightarrow>
   safely (\<lambda>p. image_ok old b (mp_elf p)) (load_commands abi debug_only b (word_of_nat (length old)) stop pos k p)"
proof (induction k arbitrary: pos p)
  case (Suc k)
  then show ?case
    by (auto simp: Let_def intro!: safely_bind [OF safely_record] safely_bind [OF safely_load_step])
qed simp

lemma safely_symbol_text:
  assumes "unat (sym_stroff st) + unat (sym_strsize st) \<le> length b"
  shows "safely (\<lambda>_. True) (symbol_text b st nl)"
proof (cases "n_strx nl \<ge> sym_strsize st")
  case False
  then have "unat (sym_stroff st) + unat (n_strx nl) + unat (sym_strsize st - n_strx nl) \<le> length b"
    using assms by (simp add: unat_sub_if' word_le_nat_alt)
  then show ?thesis
    unfolding symbol_text_def Let_def using False by (auto intro!: safely_bind [OF safely_raw])
qed (simp add: symbol_text_def)

text \<open>The fields that decide where sections are; reading symbols does not touch them.\<close>

abbreviation same_sections :: "elf \<Rightarrow> elf \<Rightarrow> bool" where
  "same_sections e e' \<equiv> storage e' = storage e \<and> section_headers e' = section_headers e \<and> section_map e' = section_map e"

lemma safely_add_symbols:
  assumes "unat (sym_stroff st) + unat (sym_strsize st) \<le> length b"
  shows "safely (same_sections e) (add_symbols abi b st pos k e)"
proof (induction k arbitrary: pos e)
  case (Suc k)
  have "safely (\<lambda>_. True) (is_function_symbol e nl)" for nl
    by (auto simp: is_function_symbol_def get_section_name_def)
  then have one: "safely (same_sections e) (add_symbol abi b st nl e)" for nl
    unfolding add_symbol_def using safely_symbol_text [OF assms]
    by (intro safely_if safely_bind [where Q = "\<lambda>_. True"]) auto
  have "safely (same_sections e) (add_symbols abi b st p k e')" if "same_sections e e'" for p e'
    using Suc [of e' p] that by simp
  then show ?case by (auto intro!: safely_bind [OF safely_record] safely_bind [OF one])
qed simp

lemma safely_read_symbols: "safely (same_sections e) (read_symbols abi b st e)"
  unfolding read_symbols_def
  by (intro safely_bind [OF safely_bounds] safely_bind [OF safely_add_symbols]) (auto simp: finish_symbol_table_def)

lemma safely_parse_macho:
  assumes "sections_in e" "length (storage e) \<le> 2 ^ 30"
  shows "safely (\<lambda>e'. sections_in e' \<and> length (storage e') \<le> length (storage e) + 2 ^ 30) (parse_macho abi fs path debug_only e)"
proof -
  have load: "safely (image_ok (storage e) b) (case mp_symtab p of None \<Rightarrow> Inr e1 | Some st \<Rightarrow> read_symbols abi b st e1)"
    if "image_ok (storage e) b e1" for b p e1
  proof (cases "mp_symtab p")
    case (Some st)
    have "safely (image_ok (storage e) b) (read_symbols abi b st e1)"
      by (rule safely_mono [OF safely_read_symbols]) (use that in \<open>auto simp: image_ok_def sections_in_def\<close>)
    with Some show ?thesis by simp
  qed (use that in simp)
  have size: "image_ok (storage e) b (e\<lparr>storage := storage e @ b\<rparr>)" if "length b \<le> 2 ^ 30" for b
    using assms that by (auto simp: image_ok_def sections_in_def section_in_def list_all_iff)
  show ?thesis
    unfolding parse_macho_def Let_def
    by (rule safely_bind [OF safely_read_file], rule safely_bind [OF safely_select_slice],
        rule safely_bind [OF safely_record], rule safely_if, simp, rule safely_bind [OF safely_bounds],
        rule safely_bind [OF safely_load_commands], simp add: size, rule safely_mono [OF load],
        auto simp: image_ok_def sections_in_def)
qed

section \<open>The finished object\<close>

lemma safely_section_map_loop:
  "(\<And>s n. s \<in> set ss \<or> m n = Some s \<Longrightarrow> P s) \<Longrightarrow>
   safely (\<lambda>m'. \<forall>n s. m' n = Some s \<longrightarrow> P s) (build_section_map_loop e ss m)"
proof (induction ss arbitrary: m)
  case (Cons x ss)
  have name: "safely (\<lambda>_. True) (get_section_name e i)" for i by (simp add: get_section_name_def)
  show ?case
    unfolding build_section_map_loop.simps
    by (rule safely_bind [OF name], rule Cons.IH) (use Cons.prems in \<open>auto split: if_splits\<close>)
qed simp

definition map_in :: "elf \<Rightarrow> bool" where
  "map_in e \<longleftrightarrow> length (storage e) < 2 ^ 63 \<and> (\<forall>n s. section_map e n = Some s \<longrightarrow> section_in (storage e) s)"

lemma safely_build_section_map:
  assumes "sections_in e" "length (storage e) < 2 ^ 63"
  shows "safely map_in (build_section_map e)"
  unfolding build_section_map_def
  by (rule safely_bind [OF safely_section_map_loop [where P = "section_in (storage e)"]])
     (use assms in \<open>auto simp: sections_in_def list_all_iff map_in_def\<close>)

lemma safely_build_symbol_maps:
  "map_in e \<Longrightarrow> safely map_in (build_symbol_maps_loop demangle ss e)"
proof (induction ss arbitrary: e)
  case (Cons s ss)
  have name: "safely (\<lambda>_. True) (get_string e i)" for i by (simp add: get_string_def)
  show ?case
    unfolding build_symbol_maps_loop.simps
    by (rule safely_bind [OF name], rule Cons.IH) (use Cons.prems in \<open>simp add: map_in_def\<close>)
qed simp

lemma map_in_section_inside:
  assumes "map_in e"
  shows "section_inside e name"
proof (cases "section_map e name")
  case None
  then show ?thesis using assms
    by (simp add: section_inside_def get_section_contents_def get_section_def cursor_of_def null_span_def cur_wf_def
        span_end_def map_in_def)
next
  case (Some s)
  then have s: "section_in (storage e) s" "length (storage e) < 2 ^ 63" using assms by (auto simp: map_in_def)
  show ?thesis
  proof (cases "sh_entsize s = 1")
    case True
    with Some s show ?thesis
      by (simp add: section_inside_def get_section_contents_def get_section_def cursor_of_def null_span_def cur_wf_def span_end_def)
  next
    case False
    with s have "unat (sh_offset s) + unat (sh_size s) \<le> length (storage e)" by (simp add: section_in_def)
    moreover from this s(2) have "unat (sh_offset s + sh_size s) = unat (sh_offset s) + unat (sh_size s)"
      by (simp add: unat_word_ariths)
    ultimately show ?thesis using Some False s(2)
      by (simp add: section_inside_def get_section_contents_def get_section_def cursor_of_def cur_wf_def span_end_def
          word_le_nat_alt)
  qed
qed

lemma safely_make_elf: "safely map_in (make_elf abi demangle fs i path)"
proof -
  have start: "sections_in (empty_elf i path)" "length (storage (empty_elf i path)) = 0"
    by (simp_all add: sections_in_def empty_elf_def)
  have first: "safely (\<lambda>e. sections_in e \<and> length (storage e) \<le> 2 ^ 30) (parse_macho abi fs path False (empty_elf i path))"
    by (rule safely_mono [OF safely_parse_macho]) (use start in simp_all)
  have both: "safely (\<lambda>e. sections_in e \<and> length (storage e) < 2 ^ 63)
      (if fs (dsym_path path) \<noteq> Missing then parse_macho abi fs (dsym_path path) True e else Inr e)"
    if "sections_in e \<and> length (storage e) \<le> 2 ^ 30" for e
    using that by (intro safely_if safely_mono [OF safely_parse_macho]) auto
  show ?thesis
    unfolding make_elf_def build_symbol_maps_def
    by (rule safely_bind [OF first], erule safely_bind [OF both],
        rule safely_bind [OF safely_build_section_map], auto intro: safely_build_symbol_maps)
qed

section \<open>A small image\<close>

definition u32_at :: "nat \<Rightarrow> byte list \<Rightarrow> u32" where
  "u32_at k bs = from_bytes (take 4 (drop k bs))"

definition u64_at :: "nat \<Rightarrow> byte list \<Rightarrow> u64" where
  "u64_at k bs = from_bytes (take 8 (drop k bs))"

definition be32_at :: "nat \<Rightarrow> byte list \<Rightarrow> u32" where
  "be32_at k bs = from_bytes (rev (take 4 (drop k bs)))"

text \<open>The structures and constants of the macOS headers.\<close>

definition darwin_macho :: macho_abi where
  "darwin_macho = \<lparr>read_magic = u32_at 0, fat_header_size = 8, read_nfat_arch = be32_at 4, fat_arch_size = 20,
     read_fat_arch = (\<lambda>b. \<lparr>fat_cputype = be32_at 0 b, fat_offset = be32_at 8 b, fat_size = be32_at 12 b\<rparr>),
     mach_header_size = 32,
     read_mach_header = (\<lambda>b. \<lparr>mh_magic = u32_at 0 b, mh_cputype = u32_at 4 b, mh_ncmds = u32_at 16 b, mh_sizeofcmds = u32_at 20 b\<rparr>),
     load_command_size = 8, read_load_command = (\<lambda>b. \<lparr>lc_cmd = u32_at 0 b, lc_cmdsize = u32_at 4 b\<rparr>),
     segment_size = 72,
     read_segment = (\<lambda>b. \<lparr>seg_name = take 16 (drop 8 b), seg_vmaddr = u64_at 24 b, seg_nsects = u32_at 64 b\<rparr>),
     section_size = 80,
     read_section = (\<lambda>b. \<lparr>sec_name = take 16 b, sec_addr = u64_at 32 b, sec_size = u64_at 40 b, sec_offset = u32_at 48 b, sec_flags = u32_at 64 b\<rparr>),
     symtab_size = 24,
     read_symtab = (\<lambda>b. \<lparr>sym_symoff = u32_at 8 b, sym_nsyms = u32_at 12 b, sym_stroff = u32_at 16 b, sym_strsize = u32_at 20 b\<rparr>),
     entry_point_size = 24, read_entryoff = u64_at 8,
     nlist_size = 16,
     read_nlist = (\<lambda>b. \<lparr>n_strx = u32_at 0 b, n_type = b ! 4, n_sect = b ! 5, n_value = u64_at 8 b\<rparr>),
     abi_FAT_CIGAM = 0xbebafeca, abi_MH_MAGIC_64 = 0xfeedfacf, abi_CPU_TYPE_ARM64 = 0x0100000c, abi_LC_SEGMENT_64 = 0x19,
     abi_LC_SYMTAB = 2, abi_LC_MAIN = 0x80000028, abi_SECTION_TYPE = 0xff, abi_S_ZEROFILL = 1, abi_S_THREAD_LOCAL_ZEROFILL = 0x12,
     abi_N_STAB = 0xe0, abi_N_TYPE = 0x0e, abi_N_SECT = 0x0e\<rparr>"

text \<open>An image with one segment that has one section, four bytes of debug information.\<close>

definition demo_image :: "byte list" where
  "demo_image = [
      0xcf, 0xfa, 0xed, 0xfe, 0x0c, 0, 0, 1, 0, 0, 0, 0, 2, 0, 0, 0, 1, 0, 0, 0, 0x98, 0, 0, 0,
      0, 0, 0, 0, 0, 0, 0, 0, 0x19, 0, 0, 0, 0x98, 0, 0, 0, 0x5f, 0x5f, 0x44, 0x57, 0x41, 0x52, 0x46, 0,
      0, 0, 0, 0, 0, 0, 0, 0, 0, 0, 0, 0, 0, 0, 0, 0, 0, 0, 0, 0, 0, 0, 0, 0,
      0, 0, 0, 0, 0, 0, 0, 0, 0, 0, 0, 0, 0, 0, 0, 0, 0, 0, 0, 0, 0, 0, 0, 0,
      1, 0, 0, 0, 0, 0, 0, 0, 0x5f, 0x5f, 0x64, 0x65, 0x62, 0x75, 0x67, 0x5f, 0x69, 0x6e, 0x66, 0x6f, 0, 0, 0, 0,
      0, 0, 0, 0, 0, 0, 0, 0, 0, 0, 0, 0, 0, 0, 0, 0, 0, 0, 0, 0, 1, 0, 0, 0,
      4, 0, 0, 0, 0, 0, 0, 0, 0xb8, 0, 0, 0, 0, 0, 0, 0, 0, 0, 0, 0, 0, 0, 0, 0,
      0, 0, 0, 0, 0, 0, 0, 0, 0, 0, 0, 0, 0, 0, 0, 0, 1, 2, 3, 4]"

definition demo_files :: file_system where
  "demo_files path = (if path = ''/a'' then Readable demo_image else Missing)"

lemma bind_res_Inr [simp]: "bind_res m Inr = m"
  by (cases m) auto

lemma no_rounds: "load_commands abi debug_only b base stop pos 0 = Inr" "add_sections abi debug_only b base pos 0 = Inr"
  by (simp_all add: fun_eq_iff)

lemma one_round:
  "load_commands abi debug_only b base stop pos 1 p =
     bind_res (macho_record b (load_command_size abi) pos) (\<lambda>r.
     let cmd = read_load_command abi r in
     if unat (lc_cmdsize cmd) < load_command_size abi \<or> pos + unat (lc_cmdsize cmd) > stop
     then send ''Invalid Mach-O load command''
     else bind_res (load_step abi debug_only b base pos cmd p) Inr)"
  "add_sections abi debug_only b base pos 1 e =
     bind_res (macho_record b (section_size abi) pos) (\<lambda>r. add_section abi debug_only b base (read_section abi r) e)"
  unfolding One_nat_def load_commands.simps add_sections.simps no_rounds by simp_all

lemma demo_read_file: "read_file demo_files ''/a'' = Inr demo_image"
  by (simp add: read_file_def demo_files_def demo_image_def)

lemma demo_records:
  "macho_record demo_image 4 0 = Inr (take 4 demo_image)"
  "macho_record demo_image 32 0 = Inr (take 32 demo_image)"
  "macho_record demo_image 8 32 = Inr (take 8 (drop 32 demo_image))"
  "macho_record demo_image 72 32 = Inr (take 72 (drop 32 demo_image))"
  "macho_record demo_image 80 104 = Inr (take 80 (drop 104 demo_image))"
  by (simp_all add: macho_record_def raw_bytes_def demo_image_def)

lemma demo_image_loads:
  "\<exists>e. make_elf darwin_macho (\<lambda>_. None) demo_files 1 ''/a'' = Inr e \<and> section_names e = [''.debug_info'']"
  by (simp add: make_elf_def parse_macho_def demo_read_file select_slice_def demo_records darwin_macho_def,
      simp add: demo_image_def u32_at_def from_bytes_def,
      simp add: macho_bounds_def one_round,
      simp add: macho_record_def raw_bytes_def Let_def load_step_def add_segment_def one_round,
      simp add: macho_record_def raw_bytes_def Let_def add_section_def is_zerofill_def macho_bounds_def
      fixed_name_def starts_with_def normal_section_name_def u64_at_def u32_at_def from_bytes_def,
      simp add: demo_files_def dsym_path_def path_append_def is_absolute_def path_filename_def build_section_map_def
     build_symbol_maps_def get_section_name_def empty_elf_def,
      simp add: char_of_def bit_0)

section \<open>Properties\<close>

text \<open>
  C1: whatever bytes the files hold, reading an image and its debug symbols never accesses memory outside them, and
  where it succeeds every section of the object file, as \<open>get_section_contents\<close> returns it, lies inside the storage of the object:
  the assumption that all readers of debug information start from.
\<close>

theorem macho_sections_inside:
  "no_ub (make_elf abi demangle fs i path) \<and>
   (\<forall>e. make_elf abi demangle fs i path = Inr e \<longrightarrow> (\<forall>name. section_inside e name))"
  using safely_make_elf [of abi demangle fs i path] map_in_section_inside by (auto simp: safely_def)

theorem macho_sections_inside_witness:
  "\<exists>e. make_elf darwin_macho (\<lambda>_. None) demo_files 1 ''/a'' = Inr e \<and> section_names e = [''.debug_info''] \<and>
       section_inside e ''.debug_info''"
  using demo_image_loads macho_sections_inside [of darwin_macho "\<lambda>_. None" demo_files 1 "''/a''"] by auto

end
