(* ===== verification/Debugger.thy ===== *)
theory Debugger
  imports Unwind Process_Control Disassembler Types Macho
begin

text \<open>
  The state of a debugging session: the data members of class \<open>target\<close> (\<^verbatim>\<open>include/libsdb/target.hpp\<close>)
  and of the objects it owns, class \<open>stack\<close> (\<^verbatim>\<open>include/libsdb/stack.hpp\<close>) and class \<open>breakpoint\<close>
  (\<^verbatim>\<open>include/libsdb/breakpoint.hpp\<close>), and the access functions that stacks, breakpoints and stepping share.

  The target owns the process and the process calls back into the target.  Both live in one state here: the
  members of the target are a part of what the operations on a process call their \<open>world\<close>, beside the state of
  the system, so that an operation of the target is an operation on the process.  A pointer to an object file is
  its position in the list of loaded files, a pointer to a breakpoint site the address of the site, and a pointer
  to a breakpoint a key that no two breakpoints share.
\<close>

section \<open>State\<close>

text \<open>An object file with its debug information, the index built so far and the cache of call frame entries.\<close>

record loaded =
  ld_dwarf :: dwarf
  ld_index :: dwarf_index
  ld_cies :: cie_map

record source_location =
  loc_file :: "line_file option"
  loc_line :: u64

record stack_frame =
  fr_regs :: registers
  fr_report_address :: u64
  fr_func_die :: die
  fr_inlined :: bool
  fr_location :: source_location

record stack =
  inline_height :: u32
  stack_frames :: "stack_frame list"
  current_frame :: u64

datatype breakpoint_kind =
    Address_breakpoint u64
  | Function_breakpoint string
  | Line_breakpoint string u64

text \<open>\<open>bp_reloads\<close>: the hit handler that reloads the libraries is installed, the only one the program has.\<close>

record breakpoint =
  bp_key :: nat
  bp_id :: int
  bp_kind :: breakpoint_kind
  bp_enabled :: bool
  bp_hardware :: bool
  bp_internal :: bool
  bp_sites :: "u64 list"
  bp_next_site_id :: int
  bp_reloads :: bool

record 'k debugger =
  kernel :: 'k
  loaded_elves :: "loaded list"
  main_elf :: nat
  stacks :: "(int \<times> stack) list"
  breakpoints :: "breakpoint list"
  last_breakpoint_id :: int
  next_key :: nat
  rendezvous_address :: u64
  expression_results :: "(nat \<times> typed_data) list"

type_synonym ('k, 'a) dbg = "('k debugger process, 'a) op"

section \<open>What the session is built with\<close>

text \<open>
  \<open>tl_fuel\<close> bounds loops over debug information and memory, \<open>tl_rounds\<close> the rounds of the run control; the rest stands for
  code outside the program: the system, its unwind format, the order in which an unordered map is visited, the
  instruction decoder, and the number formats of the formatting library.
\<close>

record 'k tools =
  tl_fuel :: nat
  tl_rounds :: nat
  tl_mach :: "'k debugger mach"
  tl_compact :: compact_abi
  tl_order :: "ruleset \<Rightarrow> ruleset"
  tl_llvm :: llvm
  tl_view :: view

section \<open>Access\<close>

definition session :: "'k debugger process \<Rightarrow> 'k debugger" where
  "session p = world p"

definition dbg_modify :: "('k debugger \<Rightarrow> 'k debugger) \<Rightarrow> ('k, unit) dbg" where
  "dbg_modify f = op_modify (\<lambda>p. p\<lparr>world := f (world p)\<rparr>)"

definition loaded_elf :: "loaded \<Rightarrow> elf" where
  "loaded_elf l = dw_elf (ld_dwarf l)"

definition all_elves :: "'k debugger process \<Rightarrow> elf list" where
  "all_elves p = map loaded_elf (loaded_elves (session p))"

text \<open>The object file of a file address.\<close>

definition loaded_position :: "'k debugger process \<Rightarrow> file_addr \<Rightarrow> nat option" where
  "loaded_position p a =
     (case fa_elf a of
        None \<Rightarrow> None
      | Some k \<Rightarrow> find (\<lambda>i. elf_id (loaded_elf (loaded_elves (session p) ! i)) = k) [0..<length (loaded_elves (session p))])"

definition loaded_at :: "nat \<Rightarrow> ('k, loaded) dbg" where
  "loaded_at i = op_gets (\<lambda>p. loaded_elves (session p) ! i)"

text \<open>Lookups in the debug information of a file build its index when they need it; what they built stays.\<close>

definition with_index :: "nat \<Rightarrow> (dwarf \<Rightarrow> 'a indexing) \<Rightarrow> ('k, 'a) dbg" where
  "with_index i f p =
     (let l = loaded_elves (session p) ! i; (r, idx) = f (ld_dwarf l) (ld_index l)
      in (r, p\<lparr>world := (session p)\<lparr>loaded_elves := (loaded_elves (session p))[i := l\<lparr>ld_index := idx\<rparr>]\<rparr>\<rparr>))"

definition pc_of :: "'k tools \<Rightarrow> int option \<Rightarrow> ('k, u64) dbg" where
  "pc_of T t = op_bind (op_gets (\<lambda>p. get_pc (tl_mach T) p t)) op_lift"

definition get_pc_file_address :: "'k tools \<Rightarrow> int option \<Rightarrow> ('k, file_addr) dbg" where
  "get_pc_file_address T t =
     op_bind (pc_of T t) (\<lambda>pc. op_gets (\<lambda>p. to_file_addr_in (all_elves p) pc))"

definition stack_at :: "int \<Rightarrow> ('k, stack) dbg" where
  "stack_at t = op_bind (op_gets (\<lambda>p. map_at (map_of (stacks (session p))) t)) op_lift"

definition modify_stack :: "int \<Rightarrow> (stack \<Rightarrow> stack) \<Rightarrow> ('k, unit) dbg" where
  "modify_stack t f =
     op_bind (stack_at t) (\<lambda>_.
     dbg_modify (\<lambda>d. d\<lparr>stacks := map (\<lambda>(k, s). (k, if k = t then f s else s)) (stacks d)\<rparr>))"

definition thread_or_current :: "int option \<Rightarrow> ('k, int) dbg" where
  "thread_or_current t = op_gets (\<lambda>p. case t of Some k \<Rightarrow> k | None \<Rightarrow> current_thread p)"

definition get_stack :: "int option \<Rightarrow> ('k, stack) dbg" where
  "get_stack t = op_bind (thread_or_current t) stack_at"

text \<open>The unit of an entry, and where a row of the line table points to.\<close>

definition unit_of_die :: "dwarf \<Rightarrow> die \<Rightarrow> compile_unit option" where
  "unit_of_die dw d = find (\<lambda>u. Some (unit_header u) = die_cu d) (dw_units dw)"

definition die_lines :: "dwarf \<Rightarrow> die \<Rightarrow> line_table option" where
  "die_lines dw d = (case unit_of_die dw d of None \<Rightarrow> None | Some u \<Rightarrow> unit_lines u)"

definition row_location :: "line_table option \<Rightarrow> line_entry \<Rightarrow> source_location" where
  "row_location tab e =
     \<lparr>loc_file = (case (tab, le_file_entry e) of (Some t, Some i) \<Rightarrow> Some (file_names t ! i) | _ \<Rightarrow> None), loc_line = le_line e\<rparr>"

section \<open>A small session\<close>

definition demo_session :: "stack list \<Rightarrow> unit debugger process" where
  "demo_session ss = \<lparr>world = \<lparr>kernel = (), loaded_elves = [], main_elf = 0, stacks = zip [1..int (length ss)] ss, breakpoints = [],
       last_breakpoint_id = 0, next_key = 0, rendezvous_address = 0, expression_results = []\<rparr>,
     has_task = True, ports = [(1, 7)], threads = [],
     stepping = False, main_thread = 1, pending_signal = 0, tracing_syscalls = False, queued_stop = None,
     debug_regs = \<lparr>dbg_bvr = replicate 16 0, dbg_bcr = replicate 16 0, dbg_wvr = replicate 16 0,
       dbg_wcr = replicate 16 0, dbg_mdscr = 0\<rparr>,
     hit_slot = -1, pid = 42, terminate_on_end = True, run_state = Stopped, is_attached = True,
     breakpoint_sites = [], watchpoints = [], catch_policy = catch_none, expecting_syscall_exit = False,
     current_thread = 1, last_site_id = 0, last_watchpoint_id = 0\<rparr>"

end
