(* ===== verification/Breakpoints.thy ===== *)
theory Breakpoints
  imports Debugger
begin

text \<open>
  Breakpoints, class \<open>breakpoint\<close> and its three kinds (\<^verbatim>\<open>src/src/breakpoint.cpp\<close>,
  \<^verbatim>\<open>include/libsdb/breakpoint.hpp\<close>), with the searches of class \<open>target\<close> that resolve them to addresses
  (\<^verbatim>\<open>src/src/target.cpp\<close>).  A breakpoint owns breakpoint sites of the process, one per address.

  A breakpoint whose constructor runs is in the list of the target already and taken out again when the constructor throws;
  nothing looks at the list in between.
\<close>

section \<open>Searches over all object files\<close>

definition file_positions :: "('k, nat list) dbg" where
  "file_positions = op_gets (\<lambda>p. [0..<length (loaded_elves (session p))])"

record find_functions_result =
  dwarf_functions :: "(nat \<times> die) list"
  elf_functions :: "(nat \<times> Elf64_Sym) list"

fun find_functions_in :: "'k tools \<Rightarrow> string \<Rightarrow> nat list \<Rightarrow> find_functions_result \<Rightarrow> ('k, find_functions_result) dbg" where
  "find_functions_in T name [] acc = op_return acc"
| "find_functions_in T name (i # is) acc =
     op_bind (with_index i (\<lambda>dw. find_functions (tl_fuel T) dw name)) (\<lambda>dwarf_found.
     op_bind (loaded_at i) (\<lambda>l.
     find_functions_in T name is
       (if dwarf_found = []
        then acc\<lparr>elf_functions := elf_functions acc @ map (\<lambda>s. (i, s)) (get_symbols_by_name (loaded_elf l) name)\<rparr>
        else acc\<lparr>dwarf_functions := dwarf_functions acc @ map (\<lambda>d. (i, d)) dwarf_found\<rparr>)))"

definition target_find_functions :: "'k tools \<Rightarrow> string \<Rightarrow> ('k, find_functions_result) dbg" where
  "target_find_functions T name =
     op_bind file_positions (\<lambda>is. find_functions_in T name is \<lparr>dwarf_functions = [], elf_functions = []\<rparr>)"

text \<open>Rows of line tables, each with the file and the table it comes from.\<close>

type_synonym line_row = "nat \<times> line_table \<times> line_iter"

fun rows_in_units :: "elf \<Rightarrow> string \<Rightarrow> u64 \<Rightarrow> nat \<Rightarrow> compile_unit list \<Rightarrow> line_row list result" where
  "rows_in_units obj path line i [] = Inr []"
| "rows_in_units obj path line i (u # us) =
     (case unit_lines u of
        None \<Rightarrow> undefined_behaviour ''null line table''
      | Some tab \<Rightarrow>
          bind_res (get_entries_by_line obj tab path line) (\<lambda>its.
          bind_res (rows_in_units obj path line i us) (\<lambda>rows.
          Inr (map (\<lambda>it. (i, tab, it)) its @ rows))))"

definition get_line_entries_by_line :: "string \<Rightarrow> u64 \<Rightarrow> ('k, line_row list) dbg" where
  "get_line_entries_by_line path line =
     op_bind (op_gets (\<lambda>p. map_res (\<lambda>i. let l = loaded_elves (session p) ! i
                in rows_in_units (loaded_elf l) path line i (dw_units (ld_dwarf l)))
                [0..<length (loaded_elves (session p))])) (\<lambda>found.
     op_bind (op_lift found) (\<lambda>rows. op_return (concat rows)))"

section \<open>Breakpoints\<close>

definition breakpoint_with :: "nat \<Rightarrow> ('k, breakpoint) dbg" where
  "breakpoint_with key =
     op_bind (op_gets (\<lambda>p. find (\<lambda>b. bp_key b = key) (breakpoints (session p)))) (\<lambda>found.
     case found of
       Some b \<Rightarrow> op_return b
     | None \<Rightarrow> op_lift (undefined_behaviour ''breakpoint destroyed''))"

definition modify_breakpoint :: "nat \<Rightarrow> (breakpoint \<Rightarrow> breakpoint) \<Rightarrow> ('k, unit) dbg" where
  "modify_breakpoint key f =
     dbg_modify (\<lambda>d. d\<lparr>breakpoints := map (\<lambda>b. if bp_key b = key then f b else b) (breakpoints d)\<rparr>)"

text \<open>The site a breakpoint points to.\<close>

definition site_of :: "u64 \<Rightarrow> ('k, nat) dbg" where
  "site_of a =
     op_bind (op_gets (\<lambda>p. get_by_address site_class a (breakpoint_sites p))) (\<lambda>found.
     case found of
       Inr i \<Rightarrow> op_return i
     | Inl e \<Rightarrow> op_lift (undefined_behaviour ''breakpoint site destroyed''))"

definition enable_breakpoint :: "'k tools \<Rightarrow> nat \<Rightarrow> ('k, unit) dbg" where
  "enable_breakpoint T key =
     op_bind (modify_breakpoint key (\<lambda>b. b\<lparr>bp_enabled := True\<rparr>)) (\<lambda>_.
     op_bind (breakpoint_with key) (\<lambda>b.
     op_each (\<lambda>a. op_bind (site_of a) (enable_site (tl_fuel T) (tl_mach T))) (bp_sites b)))"

definition disable_breakpoint :: "'k tools \<Rightarrow> nat \<Rightarrow> ('k, unit) dbg" where
  "disable_breakpoint T key =
     op_bind (modify_breakpoint key (\<lambda>b. b\<lparr>bp_enabled := False\<rparr>)) (\<lambda>_.
     op_bind (breakpoint_with key) (\<lambda>b.
     op_each (\<lambda>a. op_bind (site_of a) (disable_site (tl_fuel T) (tl_mach T))) (bp_sites b)))"

definition at_address :: "breakpoint \<Rightarrow> u64 \<Rightarrow> bool" where
  "at_address b a \<longleftrightarrow> a \<in> set (bp_sites b)"

definition in_range :: "breakpoint \<Rightarrow> u64 \<Rightarrow> u64 \<Rightarrow> bool" where
  "in_range b low high \<longleftrightarrow> filter (\<lambda>a. low \<le> a \<and> high > a) (bp_sites b) \<noteq> []"

text \<open>
  What the three kinds of \<open>resolve\<close> share: a new site at an address the breakpoint does not have yet.  The number of the site is used up
  even when the process refuses the site.
\<close>

definition place_site :: "'k tools \<Rightarrow> nat \<Rightarrow> u64 \<Rightarrow> ('k, unit) dbg" where
  "place_site T key a =
     op_bind (breakpoint_with key) (\<lambda>b.
     if at_address b a then op_return ()
     else
       op_bind (op_lift (next_id (bp_next_site_id b))) (\<lambda>next.
       op_bind (modify_breakpoint key (\<lambda>b. b\<lparr>bp_next_site_id := next\<rparr>)) (\<lambda>_.
       op_bind (create_parent_site key (bp_next_site_id b) a (bp_hardware b) (bp_internal b)) (\<lambda>i.
       op_bind (modify_breakpoint key (\<lambda>b. b\<lparr>bp_sites := bp_sites b @ [a]\<rparr>)) (\<lambda>_.
       if bp_enabled b then enable_site (tl_fuel T) (tl_mach T) i else op_return ())))))"

definition resolve_address :: "'k tools \<Rightarrow> nat \<Rightarrow> u64 \<Rightarrow> ('k, unit) dbg" where
  "resolve_address T key a =
     op_bind (breakpoint_with key) (\<lambda>b. if bp_sites b = [] then place_site T key a else op_return ())"

text \<open>Where a breakpoint on a function goes: behind the prologue, the second row of the function, unless the function is inlined.\<close>

definition function_address :: "dwarf \<Rightarrow> die \<Rightarrow> file_addr result" where
  "function_address dw d =
     bind_res (die_tag d) (\<lambda>tag.
     if tag = DW_TAG_inlined_subroutine then low_pc (dw_elf dw) d
     else
       case die_lines dw d of
         None \<Rightarrow> undefined_behaviour ''null line table''
       | Some tab \<Rightarrow>
           bind_res (low_pc (dw_elf dw) d) (\<lambda>low.
           bind_res (get_entry_by_address (dw_elf dw) tab low) (\<lambda>(row, tab').
           case row of
             None \<Rightarrow> undefined_behaviour ''default line table iterator advanced''
           | Some it \<Rightarrow> bind_res (line_next (dw_elf dw) tab' it) (\<lambda>(it', _). Inr (le_address (li_current it'))))))"

definition resolve_dwarf_function :: "'k tools \<Rightarrow> nat \<Rightarrow> nat \<times> die \<Rightarrow> ('k, unit) dbg" where
  "resolve_dwarf_function T key = (\<lambda>(i, d).
     op_bind (op_lift (die_has_range d)) (\<lambda>has_range.
     if has_range then
       op_bind (loaded_at i) (\<lambda>l.
       op_bind (op_lift (function_address (ld_dwarf l) d)) (\<lambda>a.
       op_bind (op_lift (to_virt_addr (loaded_elf l) a)) (\<lambda>load_address.
       place_site T key load_address)))
     else op_return ()))"

definition resolve_elf_function :: "'k tools \<Rightarrow> nat \<Rightarrow> nat \<times> Elf64_Sym \<Rightarrow> ('k, unit) dbg" where
  "resolve_elf_function T key = (\<lambda>(i, sym).
     op_bind (loaded_at i) (\<lambda>l.
     op_bind (op_lift (to_virt_addr (loaded_elf l) (elf_file_addr (loaded_elf l) (st_value sym)))) (\<lambda>load_address.
     place_site T key load_address)))"

definition resolve_function :: "'k tools \<Rightarrow> nat \<Rightarrow> string \<Rightarrow> ('k, unit) dbg" where
  "resolve_function T key name =
     op_bind (target_find_functions T name) (\<lambda>found.
     op_bind (op_each (resolve_dwarf_function T key) (dwarf_functions found)) (\<lambda>_.
     op_each (resolve_elf_function T key) (elf_functions found)))"

definition starts_function :: "elf \<Rightarrow> die list \<Rightarrow> file_addr \<Rightarrow> bool result" where
  "starts_function obj ds a =
     (case ds of
        [d] \<Rightarrow>
          bind_res (die_has_range d) (\<lambda>has_range.
          if has_range then bind_res (low_pc obj d) (\<lambda>low. Inr (low = a)) else Inr False)
      | _ \<Rightarrow> Inr False)"

definition resolve_line_entry :: "'k tools \<Rightarrow> nat \<Rightarrow> line_row \<Rightarrow> ('k, unit) dbg" where
  "resolve_line_entry T key = (\<lambda>(i, tab, it).
     op_bind (with_index i (\<lambda>dw. inline_stack_at_address (tl_fuel T) dw (le_address (li_current it)))) (\<lambda>ds.
     op_bind (loaded_at i) (\<lambda>l.
     op_bind (op_lift (starts_function (loaded_elf l) ds (le_address (li_current it)))) (\<lambda>skip.
     op_bind (if skip then op_lift (bind_res (line_next (loaded_elf l) tab it) (\<lambda>(it', _). Inr it')) else op_return it) (\<lambda>entry.
     op_bind (op_lift (to_virt_addr (loaded_elf l) (le_address (li_current entry)))) (\<lambda>load_address.
     place_site T key load_address))))))"

definition resolve_line :: "'k tools \<Rightarrow> nat \<Rightarrow> string \<Rightarrow> u64 \<Rightarrow> ('k, unit) dbg" where
  "resolve_line T key path line =
     op_bind (get_line_entries_by_line path line) (\<lambda>rows. op_each (resolve_line_entry T key) rows)"

definition resolve_breakpoint :: "'k tools \<Rightarrow> nat \<Rightarrow> ('k, unit) dbg" where
  "resolve_breakpoint T key =
     op_bind (breakpoint_with key) (\<lambda>b.
     case bp_kind b of
       Address_breakpoint a \<Rightarrow> resolve_address T key a
     | Function_breakpoint name \<Rightarrow> resolve_function T key name
     | Line_breakpoint path line \<Rightarrow> resolve_line T key path line)"

definition new_breakpoint :: "nat \<Rightarrow> int \<Rightarrow> breakpoint_kind \<Rightarrow> bool \<Rightarrow> bool \<Rightarrow> breakpoint" where
  "new_breakpoint key k kind hardware internal =
     \<lparr>bp_key = key, bp_id = k, bp_kind = kind, bp_enabled = False, bp_hardware = hardware, bp_internal = internal,
      bp_sites = [], bp_next_site_id = 1, bp_reloads = False\<rparr>"

definition breakpoint_number :: "bool \<Rightarrow> ('k, int) dbg" where
  "breakpoint_number internal =
     (if internal then op_return (-1)
      else
        op_bind (op_gets (\<lambda>p. next_id (last_breakpoint_id (session p)))) (\<lambda>next.
        op_bind (op_lift next) (\<lambda>k.
        op_bind (dbg_modify (\<lambda>d. d\<lparr>last_breakpoint_id := k\<rparr>)) (\<lambda>_. op_return k))))"

text \<open>\<open>create_address_breakpoint\<close>, \<open>create_function_breakpoint\<close> and \<open>create_line_breakpoint\<close>, which differ in the kind.\<close>

definition create_breakpoint :: "'k tools \<Rightarrow> breakpoint_kind \<Rightarrow> bool \<Rightarrow> bool \<Rightarrow> ('k, nat) dbg" where
  "create_breakpoint T kind hardware internal =
     op_bind (breakpoint_number internal) (\<lambda>k.
     op_bind (op_gets (\<lambda>p. next_key (session p))) (\<lambda>key.
     op_bind (dbg_modify (\<lambda>d. d\<lparr>next_key := Suc key,
         breakpoints := push (new_breakpoint key k kind hardware internal) (breakpoints d)\<rparr>)) (\<lambda>_.
     op_bind (op_catch (resolve_breakpoint T key) (\<lambda>e.
         op_bind (dbg_modify (\<lambda>d. d\<lparr>breakpoints := filter (\<lambda>b. bp_key b \<noteq> key) (breakpoints d)\<rparr>)) (\<lambda>_. op_fail e))) (\<lambda>_.
     op_return key))))"

definition breakpoint_class :: "breakpoint stoppoint_class" where
  "breakpoint_class = \<lparr>sp_id = bp_id, sp_at_address = at_address, sp_in_range = in_range, sp_is_enabled = bp_enabled\<rparr>"

definition update_breakpoints :: "(breakpoint list \<Rightarrow> breakpoint list) \<Rightarrow> 'k debugger process \<Rightarrow> 'k debugger process" where
  "update_breakpoints f p = p\<lparr>world := (session p)\<lparr>breakpoints := f (breakpoints (session p))\<rparr>\<rparr>"

definition remove_breakpoint_by_id :: "'k tools \<Rightarrow> int \<Rightarrow> ('k, unit) dbg" where
  "remove_breakpoint_by_id T =
     remove_by_id breakpoint_class (\<lambda>p. breakpoints (session p)) update_breakpoints
       (\<lambda>i p. disable_breakpoint T (bp_key (breakpoints (session p) ! i)) p)"


section \<open>What resolving adds\<close>

definition breakpoint_at :: "nat \<Rightarrow> 'k debugger process \<Rightarrow> breakpoint option" where
  "breakpoint_at key p = find (\<lambda>b. bp_key b = key) (breakpoints (session p))"

definition add_address :: "u64 \<Rightarrow> u64 list \<Rightarrow> u64 list" where
  "add_address a as = (if a \<in> set as then as else as @ [a])"

lemma distinct_add_addresses: "distinct as \<Longrightarrow> distinct (fold add_address bs as)"
  by (induction bs arbitrary: as) (auto simp: add_address_def)

lemma set_add_addresses: "set (fold add_address bs as) = set as \<union> set bs"
  by (induction bs arbitrary: as) (auto simp: add_address_def)

text \<open>The object files with their debug information, without what is computed from them on demand.\<close>

definition files_of :: "'k debugger process \<Rightarrow> dwarf list" where
  "files_of p = map ld_dwarf (loaded_elves (session p))"

text \<open>
  Between \<open>p\<close> and \<open>q\<close> the disabled breakpoint \<open>key\<close> gained sites for the addresses \<open>as\<close> that it did not have, and the process gained exactly
  these sites.
\<close>

definition placed :: "nat \<Rightarrow> u64 list \<Rightarrow> 'k debugger process \<Rightarrow> 'k debugger process \<Rightarrow> bool" where
  "placed key as p q \<longleftrightarrow>
     (\<exists>b b' new. breakpoint_at key p = Some b \<and> breakpoint_at key q = Some b' \<and> \<not> bp_enabled b \<and> \<not> bp_enabled b' \<and>
        bp_sites b' = fold add_address as (bp_sites b) \<and> bp_sites b' = bp_sites b @ map site_address new \<and>
        breakpoint_sites q = breakpoint_sites p @ new \<and>
        (\<forall>s \<in> set new. site_parent s = Some key \<and> \<not> site_enabled s) \<and> files_of q = files_of p)"

lemma placedI:
  assumes "breakpoint_at key p = Some b" "breakpoint_at key q = Some b'" "\<not> bp_enabled b" "\<not> bp_enabled b'"
    "bp_sites b' = fold add_address as (bp_sites b)" "bp_sites b' = bp_sites b @ map site_address new"
    "breakpoint_sites q = breakpoint_sites p @ new" "\<forall>s \<in> set new. site_parent s = Some key \<and> \<not> site_enabled s"
    "files_of q = files_of p"
  shows "placed key as p q"
  using assms unfolding placed_def by blast

lemma placed_trans:
  assumes "placed key as p q" "placed key bs q r"
  shows "placed key (as @ bs) p r"
proof -
  obtain b b' new where 1: "breakpoint_at key p = Some b" "breakpoint_at key q = Some b'" "\<not> bp_enabled b"
      "bp_sites b' = fold add_address as (bp_sites b)" "bp_sites b' = bp_sites b @ map site_address new"
      "breakpoint_sites q = breakpoint_sites p @ new" "\<forall>s \<in> set new. site_parent s = Some key \<and> \<not> site_enabled s"
      "files_of q = files_of p"
    using assms(1) unfolding placed_def by blast
  obtain c' more where 2: "breakpoint_at key r = Some c'" "\<not> bp_enabled c'"
      "bp_sites c' = fold add_address bs (bp_sites b')" "bp_sites c' = bp_sites b' @ map site_address more"
      "breakpoint_sites r = breakpoint_sites q @ more" "\<forall>s \<in> set more. site_parent s = Some key \<and> \<not> site_enabled s"
      "files_of r = files_of q"
    using assms(2) 1(2) unfolding placed_def by auto
  have sites: "bp_sites c' = bp_sites b @ map site_address (new @ more)" using 1(5) 2(4) by simp
  show ?thesis by (rule placedI [of key p b r c' _ "new @ more"]) (use 1 2 sites in \<open>auto simp: o_def\<close>)
qed

definition unarmed :: "nat \<Rightarrow> 'k debugger process \<Rightarrow> bool" where
  "unarmed key p \<longleftrightarrow> (case breakpoint_at key p of None \<Rightarrow> False | Some b \<Rightarrow> \<not> bp_enabled b)"

lemma unarmed_iff: "unarmed key p \<longleftrightarrow> (\<exists>b. breakpoint_at key p = Some b \<and> \<not> bp_enabled b)"
  by (auto simp: unarmed_def split: option.splits)

lemma placed_refl: "unarmed key p \<Longrightarrow> files_of q = files_of p \<Longrightarrow> breakpoint_sites q = breakpoint_sites p \<Longrightarrow>
    breakpoint_at key q = breakpoint_at key p \<Longrightarrow> placed key [] p q"
  by (auto simp: unarmed_iff placed_def)

lemma placed_unarmed: "placed key as p q \<Longrightarrow> unarmed key q \<and> files_of q = files_of p"
  by (auto simp: unarmed_iff placed_def)

lemma breakpoint_with_run:
  "breakpoint_with key p = (case breakpoint_at key p of Some b \<Rightarrow> (Inr b, p)
     | None \<Rightarrow> (undefined_behaviour ''breakpoint destroyed'', p))"
  by (simp add: breakpoint_with_def breakpoint_at_def op_simps split: option.splits)

lemma find_update:
  "(\<And>b. bp_key (f b) = bp_key b) \<Longrightarrow>
   find (\<lambda>b. bp_key b = key) (map (\<lambda>b. if bp_key b = key' then f b else b) bs) =
     (if key = key' then map_option f (find (\<lambda>b. bp_key b = key) bs) else find (\<lambda>b. bp_key b = key) bs)"
  by (induction bs) auto

lemma modify_breakpoint_run:
  assumes "\<And>b. bp_key (f b) = bp_key b"
  shows "fst (modify_breakpoint key f p) = Inr ()"
    "breakpoint_at key (snd (modify_breakpoint key f p)) = map_option f (breakpoint_at key p)"
    "files_of (snd (modify_breakpoint key f p)) = files_of p"
    "breakpoint_sites (snd (modify_breakpoint key f p)) = breakpoint_sites p"
  using find_update [of f, OF assms]
  by (simp_all add: modify_breakpoint_def dbg_modify_def op_basic breakpoint_at_def session_def files_of_def)

lemma modify_breakpoint_Inr:
  assumes "modify_breakpoint key f p = (Inr (), q)" "\<And>b. bp_key (f b) = bp_key b"
  shows "breakpoint_at key q = map_option f (breakpoint_at key p) \<and> files_of q = files_of p \<and>
         breakpoint_sites q = breakpoint_sites p"
  using modify_breakpoint_run [of f key p, OF assms(2)] assms(1) by simp

lemma create_parent_site_Inr:
  assumes "create_parent_site key k a hw intl p = (Inr i, q)"
  shows "breakpoint_sites q = breakpoint_sites p @ [new_site (Some key) k a hw intl] \<and>
         breakpoint_at key' q = breakpoint_at key' p \<and> files_of q = files_of p"
  using assms
  by (auto simp: create_parent_site_def push_site_def op_bind_Inr_iff op_basic push_def breakpoint_at_def files_of_def session_def
      split: if_splits)

lemma place_site_placed:
  assumes "unarmed key p" "place_site T key a p = (Inr (), q)"
  shows "placed key [a] p q"
proof -
  obtain b where b: "breakpoint_at key p = Some b" "\<not> bp_enabled b" using assms(1) by (auto simp: unarmed_iff)
  show ?thesis
  proof (cases "a \<in> set (bp_sites b)")
    case True
    with assms(2) b have "q = p" by (auto simp: place_site_def breakpoint_with_run op_bind_run op_basic at_address_def)
    with b True show ?thesis
      by (intro placedI [of key p b q b _ "[]"]) (simp_all add: add_address_def)
  next
    case False
    obtain k q1 i q2 where
      1: "modify_breakpoint key (\<lambda>b. b\<lparr>bp_next_site_id := k\<rparr>) p = (Inr (), q1)" and
      2: "create_parent_site key (bp_next_site_id b) a (bp_hardware b) (bp_internal b) q1 = (Inr i, q2)" and
      3: "modify_breakpoint key (\<lambda>b. b\<lparr>bp_sites := bp_sites b @ [a]\<rparr>) q2 = (Inr (), q)"
      using assms(2) b False
      by (auto simp: place_site_def breakpoint_with_run op_bind_Inr_iff op_basic at_address_def)
    from modify_breakpoint_Inr [OF 1] create_parent_site_Inr [OF 2, of key] modify_breakpoint_Inr [OF 3] b False
    show ?thesis
      by (intro placedI [of key p b q "b\<lparr>bp_next_site_id := k, bp_sites := bp_sites b @ [a]\<rparr>" _
          "[new_site (Some key) (bp_next_site_id b) a (bp_hardware b) (bp_internal b)]"])
        (auto simp: new_site_def add_address_def)
  qed
qed

lemma placed_each:
  assumes "op_each f xs p = (Inr (), q)" "unarmed key p"
    and step: "\<And>x u v. x \<in> set xs \<Longrightarrow> f x u = (Inr (), v) \<Longrightarrow> unarmed key u \<Longrightarrow> files_of u = files_of p \<Longrightarrow>
          \<exists>as. g x = Inr as \<and> placed key as u v"
  shows "\<exists>ass. map_res g xs = Inr ass \<and> placed key (concat ass) p q"
  using assms
proof (induction xs arbitrary: p)
  case (Cons x xs)
  obtain u where u: "f x p = (Inr (), u)" "op_each f xs u = (Inr (), q)"
    using Cons.prems(1) by (auto simp: op_bind_Inr_iff)
  obtain as where as: "g x = Inr as" "placed key as p u" using Cons.prems(3) [OF _ u(1) Cons.prems(2)] by auto
  have "\<exists>ass. map_res g xs = Inr ass \<and> placed key (concat ass) u q"
    using Cons.IH [OF u(2)] placed_unarmed [OF as(2)] Cons.prems(3) by (metis list.set_intros(2))
  with as show ?case by (auto intro: placed_trans)
qed (auto simp: op_basic intro: placed_refl)

lemma with_index_frame:
  assumes "with_index i f p = (r, q)"
  shows "files_of q = files_of p \<and> breakpoint_sites q = breakpoint_sites p \<and> breakpoint_at key q = breakpoint_at key p"
proof -
  have "map ld_dwarf (xs[i := (xs ! i)\<lparr>ld_index := idx\<rparr>]) = map ld_dwarf xs" for xs idx
    by (simp add: map_update list_update_same_conv) (metis list_update_id map_update)
  with assms show ?thesis
    by (auto simp: with_index_def Let_def files_of_def breakpoint_at_def session_def split: prod.splits)
qed

lemma loaded_at_run: "loaded_at i p = (Inr (loaded_elves (session p) ! i), p)"
  by (simp add: loaded_at_def op_basic)

lemma ld_dwarf_files: "i < length (files_of p) \<Longrightarrow> ld_dwarf (loaded_elves (session p) ! i) = files_of p ! i"
  by (simp add: files_of_def)

lemma find_functions_in_frame:
  assumes "find_functions_in T name is acc p = (Inr found, q)" "set is \<subseteq> {..<n}"
    "\<forall>(i, _) \<in> set (dwarf_functions acc). i < n" "\<forall>(i, _) \<in> set (elf_functions acc). i < n"
  shows "(\<forall>(i, _) \<in> set (dwarf_functions found). i < n) \<and> (\<forall>(i, _) \<in> set (elf_functions found). i < n) \<and>
         files_of q = files_of p \<and> breakpoint_sites q = breakpoint_sites p \<and> breakpoint_at key q = breakpoint_at key p"
  using assms
proof (induction "is" arbitrary: acc p)
  case (Cons i "is")
  obtain ds u where u: "with_index i (\<lambda>dw. find_functions (tl_fuel T) dw name) p = (Inr ds, u)" and
    rest: "find_functions_in T name is
       (if ds = []
        then acc\<lparr>elf_functions := elf_functions acc @ map (\<lambda>s. (i, s)) (get_symbols_by_name (loaded_elf (loaded_elves (session u) ! i)) name)\<rparr>
        else acc\<lparr>dwarf_functions := dwarf_functions acc @ map (\<lambda>d. (i, d)) ds\<rparr>) u = (Inr found, q)"
    using Cons.prems(1) by (auto simp: op_bind_Inr_iff loaded_at_run)
  note frame = with_index_frame [OF u, of key]
  note IH = Cons.IH [OF rest]
  show ?case using IH frame Cons.prems(2-4) by (cases "ds = []") auto
qed (auto simp: op_basic)

lemma target_find_functions_frame:
  assumes "target_find_functions T name p = (Inr found, q)"
  shows "(\<forall>(i, _) \<in> set (dwarf_functions found). i < length (files_of p)) \<and>
         (\<forall>(i, _) \<in> set (elf_functions found). i < length (files_of p)) \<and>
         files_of q = files_of p \<and> breakpoint_sites q = breakpoint_sites p \<and> breakpoint_at key q = breakpoint_at key p"
proof -
  have "find_functions_in T name [0..<length (files_of p)] \<lparr>dwarf_functions = [], elf_functions = []\<rparr> p = (Inr found, q)"
    using assms by (simp add: target_find_functions_def file_positions_def op_bind_run op_basic files_of_def)
  from find_functions_in_frame [OF this, of "length (files_of p)" key] show ?thesis by (simp add: atLeast0LessThan)
qed

text \<open>The load addresses of the functions found: none for a declaration, one for any other function.\<close>

definition dwarf_load_addresses :: "dwarf list \<Rightarrow> nat \<times> die \<Rightarrow> u64 list result" where
  "dwarf_load_addresses files = (\<lambda>(i, d).
     bind_res (die_has_range d) (\<lambda>has_range.
     if has_range then bind_res (function_address (files ! i) d) (\<lambda>a. bind_res (to_virt_addr (dw_elf (files ! i)) a) (\<lambda>v. Inr [v]))
     else Inr []))"

definition elf_load_addresses :: "dwarf list \<Rightarrow> nat \<times> Elf64_Sym \<Rightarrow> u64 list result" where
  "elf_load_addresses files = (\<lambda>(i, sym).
     bind_res (to_virt_addr (dw_elf (files ! i)) (elf_file_addr (dw_elf (files ! i)) (st_value sym))) (\<lambda>v. Inr [v]))"

lemma resolve_dwarf_function_placed:
  assumes "resolve_dwarf_function T key (i, d) p = (Inr (), q)" "unarmed key p" "i < length (files_of p)"
  shows "\<exists>as. dwarf_load_addresses (files_of p) (i, d) = Inr as \<and> placed key as p q"
proof (cases "die_has_range d")
  case (Inr has_range)
  show ?thesis
  proof (cases has_range)
    case True
    with assms Inr obtain a v where "function_address (files_of p ! i) d = Inr a" "to_virt_addr (dw_elf (files_of p ! i)) a = Inr v"
      "place_site T key v p = (Inr (), q)"
      by (auto simp: resolve_dwarf_function_def op_bind_Inr_iff op_basic loaded_at_run ld_dwarf_files loaded_elf_def)
    with True Inr assms(2) show ?thesis by (simp add: dwarf_load_addresses_def place_site_placed)
  next
    case False
    with assms Inr show ?thesis
      by (auto simp: resolve_dwarf_function_def op_bind_Inr_iff op_basic dwarf_load_addresses_def intro: placed_refl)
  qed
qed (use assms in \<open>simp add: resolve_dwarf_function_def op_bind_Inr_iff op_basic\<close>)

lemma resolve_elf_function_placed:
  assumes "resolve_elf_function T key (i, s) p = (Inr (), q)" "unarmed key p" "i < length (files_of p)"
  shows "\<exists>as. elf_load_addresses (files_of p) (i, s) = Inr as \<and> placed key as p q"
proof -
  from assms obtain v where "to_virt_addr (dw_elf (files_of p ! i)) (elf_file_addr (dw_elf (files_of p ! i)) (st_value s)) = Inr v"
      "place_site T key v p = (Inr (), q)"
    by (auto simp: resolve_elf_function_def op_bind_Inr_iff op_basic loaded_at_run ld_dwarf_files loaded_elf_def)
  with assms(2) show ?thesis by (simp add: elf_load_addresses_def place_site_placed)
qed

lemma placed_refl_frame:
  assumes "files_of q = files_of p \<and> breakpoint_sites q = breakpoint_sites p \<and> breakpoint_at key q = breakpoint_at key p" "unarmed key p"
  shows "placed key [] p q" "unarmed key q"
  using assms by (auto intro: placed_refl simp: unarmed_iff)

lemma resolve_function_placed:
  assumes "target_find_functions T name p = (Inr found, u)" "resolve_function T key name p = (Inr (), q)" "unarmed key p"
  shows "\<exists>ds es. map_res (dwarf_load_addresses (files_of p)) (dwarf_functions found) = Inr ds \<and>
           map_res (elf_load_addresses (files_of p)) (elf_functions found) = Inr es \<and> placed key (concat (ds @ es)) p q"
proof -
  note frame = target_find_functions_frame [OF assms(1), of key]
  have u: "placed key [] p u" "unarmed key u" using placed_refl_frame [of u p key] frame assms(3) by auto
  obtain v where v: "op_each (resolve_dwarf_function T key) (dwarf_functions found) u = (Inr (), v)"
      "op_each (resolve_elf_function T key) (elf_functions found) v = (Inr (), q)"
    using assms(1,2) by (auto simp: resolve_function_def op_bind_Inr_iff)
  obtain ds where ds: "map_res (dwarf_load_addresses (files_of p)) (dwarf_functions found) = Inr ds" "placed key (concat ds) u v"
    using placed_each [OF v(1) u(2), of "dwarf_load_addresses (files_of p)"] resolve_dwarf_function_placed frame by fastforce
  note at_v = placed_unarmed [OF ds(2)]
  obtain es where es: "map_res (elf_load_addresses (files_of p)) (elf_functions found) = Inr es" "placed key (concat es) v q"
    using placed_each [OF v(2), of key "elf_load_addresses (files_of p)"] at_v resolve_elf_function_placed frame by fastforce
  from placed_trans [OF u(1) placed_trans [OF ds(2) es(2)]] ds(1) es(1) show ?thesis by simp
qed

lemma resolve_line_entry_placed:
  assumes "resolve_line_entry T key row p = (Inr (), q)" "unarmed key p"
  shows "\<exists>as. placed key as p q"
proof -
  obtain i tab it where row: "row = (i, tab, it)" by (cases row)
  obtain ds u v where u: "with_index i (\<lambda>dw. inline_stack_at_address (tl_fuel T) dw (le_address (li_current it))) p = (Inr ds, u)"
      "place_site T key v u = (Inr (), q)"
    using assms(1) unfolding row
    by (auto simp: resolve_line_entry_def op_bind_Inr_iff op_basic loaded_at_run split: if_splits)
  note at_u = placed_refl_frame [OF with_index_frame [OF u(1)] assms(2)]
  from placed_trans [OF at_u(1) place_site_placed [OF at_u(2) u(2)]] show ?thesis by blast
qed

lemma resolve_line_placed:
  assumes "resolve_line T key path line p = (Inr (), q)" "unarmed key p"
  shows "\<exists>as. placed key as p q"
proof -
  have "\<exists>as. placed key as p q" if "op_each (resolve_line_entry T key) rows p = (Inr (), q)" "unarmed key p" for rows p
    using that
  proof (induction rows arbitrary: p)
    case (Cons row rows)
    obtain u where u: "resolve_line_entry T key row p = (Inr (), u)" "op_each (resolve_line_entry T key) rows u = (Inr (), q)"
      using Cons.prems(1) by (auto simp: op_bind_Inr_iff)
    with resolve_line_entry_placed Cons.prems(2) obtain as where as: "placed key as p u" by blast
    with Cons.IH [OF u(2)] placed_unarmed [OF as] placed_trans show ?case by blast
  qed (use placed_refl in \<open>fastforce simp: op_basic\<close>)
  with assms show ?thesis by (auto simp: resolve_line_def get_line_entries_by_line_def op_bind_Inr_iff op_basic)
qed

lemma resolve_breakpoint_placed:
  assumes "resolve_breakpoint T key p = (Inr (), q)" "unarmed key p"
  shows "\<exists>as. placed key as p q"
proof -
  obtain b where b: "breakpoint_at key p = Some b" using assms(2) by (auto simp: unarmed_iff)
  show ?thesis
  proof (cases "bp_kind b")
    case (Address_breakpoint a)
    with assms b have "(if bp_sites b = [] then place_site T key a else op_return ()) p = (Inr (), q)"
      by (simp add: resolve_breakpoint_def resolve_address_def breakpoint_with_run op_bind_run)
    with assms(2) show ?thesis using place_site_placed placed_refl by (fastforce simp: op_basic split: if_splits)
  next
    case (Function_breakpoint name)
    with assms b have "resolve_function T key name p = (Inr (), q)"
      by (simp add: resolve_breakpoint_def breakpoint_with_run op_bind_run)
    then obtain found u where "target_find_functions T name p = (Inr found, u)" "resolve_function T key name p = (Inr (), q)"
      by (auto simp: resolve_function_def op_bind_Inr_iff)
    with resolve_function_placed assms(2) show ?thesis by blast
  next
    case (Line_breakpoint path line)
    with assms b have "resolve_line T key path line p = (Inr (), q)"
      by (simp add: resolve_breakpoint_def breakpoint_with_run op_bind_run)
    with resolve_line_placed assms(2) show ?thesis by blast
  qed
qed

section \<open>Deleting a breakpoint\<close>

text \<open>
  The deletion of a breakpoint by the command line (\<^verbatim>\<open>tools/sdb.cpp\<close>): first the process removes each site of the breakpoint, which
  destroys it, then the target removes the breakpoint, which disables it and with it the sites it still points to.
\<close>

definition delete_breakpoint :: "'k tools \<Rightarrow> int \<Rightarrow> ('k, unit) dbg" where
  "delete_breakpoint T k =
     op_bind (op_gets (\<lambda>p. get_by_id breakpoint_class k (breakpoints (session p)))) (\<lambda>found.
     op_bind (op_lift found) (\<lambda>i.
     op_bind (op_gets (\<lambda>p. breakpoints (session p) ! i)) (\<lambda>b.
     op_bind (op_each (remove_site_by_address (tl_fuel T) (tl_mach T)) (bp_sites b)) (\<lambda>_.
     remove_breakpoint_by_id T k))))"

text \<open>Sites that are not armed go without a call of the system.\<close>

definition sites_idle :: "'w process \<Rightarrow> bool" where
  "sites_idle p \<longleftrightarrow> distinct (map site_address (breakpoint_sites p)) \<and> (\<forall>s \<in> set (breakpoint_sites p). \<not> site_enabled s)"

lemma remove_idle_site:
  assumes "sites_idle p" "contains_address site_class a (breakpoint_sites p)"
  shows "\<exists>q. remove_site_by_address n K a p = (Inr (), q) \<and> world q = world p \<and> sites_idle q \<and>
    (\<forall>b. contains_address site_class b (breakpoint_sites q) \<longleftrightarrow> contains_address site_class b (breakpoint_sites p) \<and> b \<noteq> a)"
proof -
  obtain i where i: "get_by_address site_class a (breakpoint_sites p) = Inr i"
    using assms(2) site_coll.get_by_address_total by blast
  then have find: "find_by_address site_class a (breakpoint_sites p) = i" "i < length (breakpoint_sites p)"
    using site_coll.get_by_address_ok(1) [OF i] by (auto simp: get_by_address_def Let_def split: if_splits)
  then have "\<not> site_enabled (breakpoint_sites p ! i)" using assms(1) by (simp add: sites_idle_def)
  with find have run: "remove_site_by_address n K a p = (Inr (), update_sites (erase i) p)"
    by (simp add: remove_site_by_address_def remove_by_address_def remove_found_def disable_site_def op_simps)
  have "sites_idle (update_sites (erase i) p)"
    using assms(1) distinct_erase set_erase_subset [of i "breakpoint_sites p"] by (auto simp: sites_idle_def update_sites_def)
  with run site_coll.erase_removes [OF _ i] assms(1) show ?thesis by (simp add: sites_idle_def update_sites_def)
qed

lemma remove_idle_sites:
  assumes "sites_idle p" "distinct as" "\<forall>a \<in> set as. contains_address site_class a (breakpoint_sites p)"
  shows "\<exists>q. op_each (remove_site_by_address n K) as p = (Inr (), q) \<and> world q = world p \<and>
    (\<forall>b \<in> set as. \<not> contains_address site_class b (breakpoint_sites q)) \<and>
    (\<forall>b. contains_address site_class b (breakpoint_sites q) \<longrightarrow> contains_address site_class b (breakpoint_sites p))"
  using assms
proof (induction as arbitrary: p)
  case (Cons a as)
  obtain u where u: "remove_site_by_address n K a p = (Inr (), u)" "world u = world p" "sites_idle u"
    "\<And>b. contains_address site_class b (breakpoint_sites u) \<longleftrightarrow> contains_address site_class b (breakpoint_sites p) \<and> b \<noteq> a"
    using remove_idle_site [OF Cons.prems(1), of a n K] Cons.prems(3) by auto
  have "\<forall>b \<in> set as. contains_address site_class b (breakpoint_sites u)" using Cons.prems(2,3) u(4) by auto
  with Cons.IH [OF u(3)] Cons.prems(2) obtain q where
    "op_each (remove_site_by_address n K) as u = (Inr (), q)" "world q = world u"
    "\<forall>b \<in> set as. \<not> contains_address site_class b (breakpoint_sites q)"
    "\<forall>b. contains_address site_class b (breakpoint_sites q) \<longrightarrow> contains_address site_class b (breakpoint_sites u)" by auto
  with u show ?case by (auto simp: op_bind_step)
qed (simp add: op_basic)

lemma disable_dangling:
  assumes "breakpoint_at key q = Some b" "bp_sites b = a # as" "\<not> contains_address site_class a (breakpoint_sites q)"
  shows "fst (disable_breakpoint T key q) = undefined_behaviour ''breakpoint site destroyed''"
proof -
  obtain u where u: "modify_breakpoint key (\<lambda>b. b\<lparr>bp_enabled := False\<rparr>) q = (Inr (), u)"
    by (simp add: modify_breakpoint_def dbg_modify_def op_basic)
  with modify_breakpoint_Inr [OF u] assms have at_u: "breakpoint_at key u = Some (b\<lparr>bp_enabled := False\<rparr>)"
    "\<not> contains_address site_class a (breakpoint_sites u)" by simp_all
  then have "site_of a u = (undefined_behaviour ''breakpoint site destroyed'', u)"
    by (cases "get_by_address site_class a (breakpoint_sites u)") (auto simp: site_of_def op_simps site_coll.get_by_address_total)
  with u at_u(1) assms(2) show ?thesis
    by (simp add: disable_breakpoint_def op_bind_step breakpoint_with_run op_bind_run undefined_behaviour_def)
qed

section \<open>A session with one symbol\<close>

definition demo_main :: Elf64_Sym where
  "demo_main = \<lparr>st_name = 0, st_info = 2, st_value = 0x100003010, st_size = 0x70\<rparr>"

definition demo_file :: loaded where
  "demo_file = \<lparr>ld_dwarf = \<lparr>dw_elf = demo_elf\<lparr>symbol_name_map := [(''main'', demo_main)]\<rparr>, dw_units = []\<rparr>,
     ld_index = empty_index, ld_cies = (\<lambda>_. None)\<rparr>"

definition demo_debugger :: "breakpoint list \<Rightarrow> unit debugger process" where
  "demo_debugger bs = (let p = demo_session [] in p\<lparr>world := (world p)\<lparr>loaded_elves := [demo_file], breakpoints := bs\<rparr>\<rparr>)"

lemmas demo_debugger_defs = demo_debugger_def demo_session_def demo_file_def empty_index_def session_def Let_def

lemma demo_find: "target_find_functions T ''main'' (demo_debugger bs) =
    (Inr \<lparr>dwarf_functions = [], elf_functions = [(0, demo_main)]\<rparr>, demo_debugger bs)"
  by (simp add: target_find_functions_def file_positions_def op_simps demo_debugger_defs with_index_def loaded_at_def
      find_functions_def index_def index_units.simps dw_headers_def loaded_elf_def get_symbols_by_name_def idx_bind_def idx_return_def)

definition demo_breakpoint :: "breakpoint_kind \<Rightarrow> breakpoint" where
  "demo_breakpoint kind = new_breakpoint 0 1 kind False False"

lemma demo_place:
  "\<exists>q. place_site T 0 a (demo_debugger [demo_breakpoint kind]) = (Inr (), q)"
  by (simp add: place_site_def breakpoint_with_def modify_breakpoint_def dbg_modify_def create_parent_site_def push_site_def
      op_simps demo_debugger_defs demo_breakpoint_def new_breakpoint_def at_address_def next_id_def site_coll.contains_address_iff)

lemma demo_breakpoint_at: "breakpoint_at 0 (demo_debugger [demo_breakpoint kind]) = Some (demo_breakpoint kind)"
  "breakpoint_sites (demo_debugger [demo_breakpoint kind]) = []" "files_of (demo_debugger [demo_breakpoint kind]) = [ld_dwarf demo_file]"
  by (simp_all add: breakpoint_at_def demo_debugger_defs demo_breakpoint_def new_breakpoint_def files_of_def)

lemma demo_virt: "to_virt_addr (dw_elf (ld_dwarf demo_file)) (elf_file_addr (dw_elf (ld_dwarf demo_file)) (st_value demo_main)) =
    Inr 0x100007010"
  by (simp add: to_virt_addr_def get_section_containing_file_addr_def elf_file_addr_def demo_file_def demo_elf_def demo_main_def
      section_has_file_def text_section_def)

lemma demo_resolve_main:
  "\<exists>q. resolve_function T 0 ''main'' (demo_debugger [demo_breakpoint kind]) = (Inr (), q)"
proof -
  obtain q where "place_site T 0 0x100007010 (demo_debugger [demo_breakpoint kind]) = (Inr (), q)" using demo_place by blast
  moreover have "loaded_elves (session (demo_debugger [demo_breakpoint kind])) = [demo_file]"
    by (simp add: demo_debugger_def demo_session_def session_def Let_def)
  ultimately have "resolve_elf_function T 0 (0, demo_main) (demo_debugger [demo_breakpoint kind]) = (Inr (), q)"
    using demo_virt by (simp add: resolve_elf_function_def op_simps loaded_at_run loaded_elf_def)
  then show ?thesis by (simp add: resolve_function_def op_bind_run demo_find op_basic)
qed

section \<open>Properties\<close>

text \<open>
  C10: a function breakpoint covers its function.  Resolving a function breakpoint that is not enabled gives it a site for every function
  with code that the search over all object files finds, behind the prologue, and for every symbol found where there is no debug
  information, each address once and none besides those it had.
\<close>

theorem function_breakpoint_covers:
  assumes "target_find_functions T name p = (Inr found, u)" "resolve_function T key name p = (Inr (), q)"
    "breakpoint_at key p = Some b" "\<not> bp_enabled b" "distinct (bp_sites b)"
  shows "\<exists>ds es b'. map_res (dwarf_load_addresses (files_of p)) (dwarf_functions found) = Inr ds \<and>
           map_res (elf_load_addresses (files_of p)) (elf_functions found) = Inr es \<and> breakpoint_at key q = Some b' \<and>
           set (bp_sites b') = set (bp_sites b) \<union> set (concat ds) \<union> set (concat es) \<and> distinct (bp_sites b')"
proof -
  have "unarmed key p" using assms(3,4) by (simp add: unarmed_iff)
  from resolve_function_placed [OF assms(1,2) this] obtain ds es where
    "map_res (dwarf_load_addresses (files_of p)) (dwarf_functions found) = Inr ds"
    "map_res (elf_load_addresses (files_of p)) (elf_functions found) = Inr es" "placed key (concat (ds @ es)) p q" by blast
  with assms(3,5) show ?thesis
    by (auto simp: placed_def set_add_addresses distinct_add_addresses simp del: fold_append concat_append)
qed

theorem function_breakpoint_covers_witness:
  "\<forall>T. \<exists>q b'. resolve_function T 0 ''main'' (demo_debugger [demo_breakpoint (Function_breakpoint ''main'')]) = (Inr (), q) \<and>
     breakpoint_at 0 q = Some b' \<and> set (bp_sites b') = {0x100007010}" (is "\<forall>T. ?Q T")
proof
  fix T
  let ?p = "demo_debugger [demo_breakpoint (Function_breakpoint ''main'')]"
  obtain q where q: "resolve_function T 0 ''main'' ?p = (Inr (), q)" using demo_resolve_main by blast
  have "map_res (elf_load_addresses (files_of ?p)) [(0, demo_main)] = Inr [[0x100007010]]"
    using demo_virt by (simp add: elf_load_addresses_def demo_breakpoint_at(3))
  with function_breakpoint_covers [OF demo_find q demo_breakpoint_at(1)] q show "?Q T"
    by (auto simp: demo_breakpoint_def new_breakpoint_def)
qed

text \<open>
  C11: a breakpoint owns its sites.  However a breakpoint that is not enabled is resolved, the process gains exactly one site for every
  address that the breakpoint gains, none of them enabled, all of them naming the breakpoint as their owner; no address occurs twice.
\<close>

theorem resolve_owns_sites:
  assumes "resolve_breakpoint T key p = (Inr (), q)" "breakpoint_at key p = Some b" "\<not> bp_enabled b" "distinct (bp_sites b)"
  shows "\<exists>b' new. breakpoint_at key q = Some b' \<and> bp_sites b' = bp_sites b @ map site_address new \<and> distinct (bp_sites b') \<and>
           breakpoint_sites q = breakpoint_sites p @ new \<and> set new \<subseteq> {s. site_parent s = Some key \<and> \<not> site_enabled s}"
proof -
  have "unarmed key p" using assms(2,3) by (simp add: unarmed_iff)
  from resolve_breakpoint_placed [OF assms(1) this] obtain as where "placed key as p q" by blast
  then obtain b' new where "breakpoint_at key q = Some b'" "bp_sites b' = fold add_address as (bp_sites b)"
      "bp_sites b' = bp_sites b @ map site_address new" "breakpoint_sites q = breakpoint_sites p @ new"
      "\<forall>s \<in> set new. site_parent s = Some key \<and> \<not> site_enabled s"
    unfolding placed_def using assms(2) by auto
  then show ?thesis using distinct_add_addresses [OF assms(4), of as] by (intro exI [of _ b'] exI) auto
qed

theorem resolve_owns_sites_witness:
  "\<forall>T. \<exists>q b' new. resolve_breakpoint T 0 (demo_debugger [demo_breakpoint (Function_breakpoint ''main'')]) = (Inr (), q) \<and>
     breakpoint_at 0 q = Some b' \<and> bp_sites b' = map site_address new \<and> breakpoint_sites q = new" (is "\<forall>T. ?Q T")
proof
  fix T
  let ?p = "demo_debugger [demo_breakpoint (Function_breakpoint ''main'')]"
  obtain q where "resolve_function T 0 ''main'' ?p = (Inr (), q)" using demo_resolve_main by blast
  then have q: "resolve_breakpoint T 0 ?p = (Inr (), q)"
    by (simp add: resolve_breakpoint_def breakpoint_with_run demo_breakpoint_at op_bind_run) (simp add: demo_breakpoint_def new_breakpoint_def)
  have "\<not> bp_enabled (demo_breakpoint kind)" "bp_sites (demo_breakpoint kind) = []" for kind
    by (simp_all add: demo_breakpoint_def new_breakpoint_def)
  with resolve_owns_sites [OF q demo_breakpoint_at(1)] q show "?Q T" by (auto simp: demo_breakpoint_at(2))
qed

text \<open>
  Deleting a breakpoint uses its sites after they are destroyed.  Deleting any breakpoint that has a site, when no site of the
  process is enabled, removes the sites first and then disables them once more through the breakpoint.
\<close>

theorem delete_breakpoint_dangles:
  assumes "get_by_id breakpoint_class k (breakpoints (session p)) = Inr i" "breakpoint_at (bp_key b) p = Some b"
    "breakpoints (session p) ! i = b" "bp_sites b \<noteq> []" "distinct (bp_sites b)"
    "sites_idle p" "set (bp_sites b) \<subseteq> {a. contains_address site_class a (breakpoint_sites p)}"
  shows "fst (delete_breakpoint T k p) = undefined_behaviour ''breakpoint site destroyed''"
proof -
  obtain a as where sites: "bp_sites b = a # as" using assms(4) by (cases "bp_sites b") auto
  obtain q where q: "op_each (remove_site_by_address (tl_fuel T) (tl_mach T)) (bp_sites b) p = (Inr (), q)" "world q = world p"
      "\<not> contains_address site_class a (breakpoint_sites q)"
    using remove_idle_sites [OF assms(6,5), of "tl_fuel T" "tl_mach T"] assms(7) sites by (auto simp: subset_eq)
  have "breakpoint_at (bp_key b) q = Some b" "find_by_id breakpoint_class k (breakpoints (session q)) = i" "i < length (breakpoints (session q))"
    using assms(1,2) q(2) find_if_le [of "\<lambda>b. sp_id breakpoint_class b = k" "breakpoints (session p)"]
    by (auto simp: breakpoint_at_def session_def get_by_id_def find_by_id_def Let_def split: if_splits)
  moreover from disable_dangling [OF this(1) sites q(3), of T]
  obtain r where "disable_breakpoint T (bp_key b) q = (undefined_behaviour ''breakpoint site destroyed'', r)"
    by (metis prod.collapse)
  ultimately have "fst (remove_breakpoint_by_id T k q) = undefined_behaviour ''breakpoint site destroyed''"
    using assms(3) q(2)
    by (simp add: remove_breakpoint_by_id_def remove_by_id_def remove_found_def op_simps session_def undefined_behaviour_def)
  with q(1) assms(1,3) show ?thesis by (simp add: delete_breakpoint_def op_simps)
qed

definition demo_with_site :: "unit debugger process" where
  "demo_with_site = (demo_debugger [(demo_breakpoint (Address_breakpoint 0x100007010))\<lparr>bp_sites := [0x100007010]\<rparr>])
     \<lparr>breakpoint_sites := [new_site (Some 0) 1 0x100007010 False False]\<rparr>"

theorem delete_breakpoint_dangles_witness:
  "\<forall>T. fst (delete_breakpoint T 1 demo_with_site) = undefined_behaviour ''breakpoint site destroyed''"
  by (rule allI, rule delete_breakpoint_dangles [where i = 0 and b = "(demo_breakpoint (Address_breakpoint 0x100007010))\<lparr>bp_sites := [0x100007010]\<rparr>"])
    (simp_all add: demo_with_site_def demo_debugger_defs demo_breakpoint_def new_breakpoint_def new_site_def get_by_id_def
      find_by_id_def breakpoint_class_def breakpoint_at_def sites_idle_def site_coll.contains_address_iff)
end
