(* ===== verification/Stack.thy ===== *)
theory Stack
  imports Debugger
begin

text \<open>
  The call stack of a thread, class \<open>stack\<close> (\<^verbatim>\<open>src/src/stack.cpp\<close>, \<^verbatim>\<open>include/libsdb/stack.hpp\<close>): the frames,
  one per function and one per inlined call, youngest first; how many of the youngest are inlined calls that have not been entered;
  and the selected frame.  The stack of a thread is kept by the target under the number of the thread.
\<close>

section \<open>Operations\<close>

definition inline_stack_at_pc :: "'k tools \<Rightarrow> int \<Rightarrow> ('k, die list) dbg" where
  "inline_stack_at_pc T t =
     op_bind (get_pc_file_address T (Some t)) (\<lambda>pc.
     op_bind (op_gets (\<lambda>p. loaded_position p pc)) (\<lambda>file.
     case file of
       None \<Rightarrow> op_return []
     | Some i \<Rightarrow> with_index i (\<lambda>dw. inline_stack_at_address (tl_fuel T) dw pc)))"

definition file_at_pc :: "'k tools \<Rightarrow> int \<Rightarrow> ('k, nat option) dbg" where
  "file_at_pc T t = op_bind (get_pc_file_address T (Some t)) (\<lambda>pc. op_gets (\<lambda>p. loaded_position p pc))"

text \<open>The loop of \<open>reset_inline_height\<close>, over the inlined calls from the innermost on.\<close>

fun count_inlined :: "int \<Rightarrow> elf \<Rightarrow> file_addr \<Rightarrow> die list \<Rightarrow> ('k, unit) dbg" where
  "count_inlined t obj pc [] = op_return ()"
| "count_inlined t obj pc (d # ds) =
     op_bind (op_lift (die_tag d)) (\<lambda>tag.
     if tag \<noteq> DW_TAG_inlined_subroutine then op_return ()
     else
       op_bind (op_lift (low_pc obj d)) (\<lambda>low.
       if low = pc
       then op_bind (modify_stack t (\<lambda>s. s\<lparr>inline_height := inline_height s + 1\<rparr>)) (\<lambda>_. count_inlined t obj pc ds)
       else op_return ()))"

text \<open>The program counter compared with is that of the current thread, whatever thread the stack belongs to.\<close>

definition reset_inline_height :: "'k tools \<Rightarrow> int \<Rightarrow> ('k, unit) dbg" where
  "reset_inline_height T t =
     op_bind (inline_stack_at_pc T t) (\<lambda>inlined.
     op_bind (modify_stack t (\<lambda>s. s\<lparr>inline_height := 0\<rparr>)) (\<lambda>_.
     op_bind (get_pc_file_address T None) (\<lambda>pc.
     op_bind (file_at_pc T t) (\<lambda>file.
     case file of
       None \<Rightarrow> op_return ()
     | Some i \<Rightarrow> op_bind (loaded_at i) (\<lambda>l. count_inlined t (loaded_elf l) pc (rev inlined))))))"

text \<open>
  The frames that have been entered.  When more inlined calls are counted than there are frames, the size of
  the span wraps.
\<close>

definition visible_frames :: "stack \<Rightarrow> stack_frame list result" where
  "visible_frames s =
     (if unat (inline_height s) \<le> length (stack_frames s) then Inr (drop (unat (inline_height s)) (stack_frames s))
      else undefined_behaviour ''span past the end of the frames'')"

definition simulate_inlined_step_in :: "stack \<Rightarrow> stack" where
  "simulate_inlined_step_in s =
     s\<lparr>inline_height := inline_height s - 1, current_frame := ucast (inline_height s - 1)\<rparr>"

definition frame_up :: "stack \<Rightarrow> stack result" where
  "frame_up s =
     (if current_frame s + 1 \<ge> word_of_nat (length (stack_frames s)) then send ''Already at oldest frame''
      else Inr (s\<lparr>current_frame := current_frame s + 1\<rparr>))"

definition frame_down :: "stack \<Rightarrow> stack result" where
  "frame_down s =
     (if current_frame s \<le> ucast (inline_height s) then send ''Already at youngest frame''
      else Inr (s\<lparr>current_frame := current_frame s - 1\<rparr>))"

definition selected_frame :: "stack \<Rightarrow> stack_frame result" where
  "selected_frame s =
     (if unat (current_frame s) < length (stack_frames s) then Inr (stack_frames s ! unat (current_frame s)) else Inl Out_Of_Range)"

definition current_frame_index :: "stack \<Rightarrow> u64" where
  "current_frame_index s = current_frame s - ucast (inline_height s)"

definition stack_regs :: "int \<Rightarrow> ('k, registers) dbg" where
  "stack_regs t =
     op_bind (stack_at t) (\<lambda>s.
     if stack_frames s = [] then op_bind (op_gets (\<lambda>p. get_registers p (Some t))) op_lift
     else op_lift (bind_res (selected_frame s) (\<lambda>f. Inr (fr_regs f))))"

definition stack_pc :: "'k tools \<Rightarrow> int \<Rightarrow> ('k, u64) dbg" where
  "stack_pc T t =
     op_bind (stack_regs t) (\<lambda>regs. op_lift (read_by_id_as_u64 (mach_native (tl_mach T)) regs PC))"

section \<open>Unwinding\<close>

definition push_frame :: "int \<Rightarrow> stack_frame \<Rightarrow> ('k, unit) dbg" where
  "push_frame t f = modify_stack t (\<lambda>s. s\<lparr>stack_frames := stack_frames s @ [f]\<rparr>)"

definition update_last :: "(stack_frame \<Rightarrow> stack_frame) \<Rightarrow> stack_frame list \<Rightarrow> stack_frame list" where
  "update_last f fs = (if fs = [] then [] else butlast fs @ [f (last fs)])"

definition modify_last_frame :: "int \<Rightarrow> (stack_frame \<Rightarrow> stack_frame) \<Rightarrow> ('k, unit) dbg" where
  "modify_last_frame t f = modify_stack t (\<lambda>s. s\<lparr>stack_frames := update_last f (stack_frames s)\<rparr>)"

definition no_location :: source_location where
  "no_location = \<lparr>loc_file = None, loc_line = 0\<rparr>"

definition locate_base_frame :: "int \<Rightarrow> dwarf \<Rightarrow> file_addr \<Rightarrow> line_iter option \<Rightarrow> ('k, unit) dbg" where
  "locate_base_frame t dw pc row =
     (case row of
        None \<Rightarrow> op_return ()
      | Some it \<Rightarrow>
          op_bind (op_lift (compile_unit_containing_address dw pc)) (\<lambda>cu.
          modify_last_frame t (\<lambda>f. f\<lparr>fr_location :=
            row_location (case cu of None \<Rightarrow> None | Some u \<Rightarrow> unit_lines u) (li_current it)\<rparr>)))"

definition create_base_frame :: "int \<Rightarrow> dwarf \<Rightarrow> registers \<Rightarrow> die list \<Rightarrow> file_addr \<Rightarrow> bool \<Rightarrow> ('k, unit) dbg" where
  "create_base_frame t dw regs inline_stack pc inlined =
     op_bind (op_lift (to_virt_addr (dw_elf dw) pc)) (\<lambda>here.
     op_bind (op_lift (line_entry_at_address dw pc)) (\<lambda>row.
     op_bind (op_lift (case row of None \<Rightarrow> Inr here
                       | Some it \<Rightarrow> to_virt_addr (dw_elf dw) (le_address (li_current it)))) (\<lambda>backtrace_pc.
     op_bind (push_frame t \<lparr>fr_regs = regs, fr_report_address = backtrace_pc, fr_func_die = last inline_stack,
                fr_inlined = inlined, fr_location = no_location\<rparr>) (\<lambda>_.
     locate_base_frame t dw pc row))))"

text \<open>The callers of the inlined calls; \<open>inner\<close> is the call before it in the reversed stack.\<close>

definition create_caller_frame :: "int \<Rightarrow> dwarf \<Rightarrow> registers \<Rightarrow> die \<times> die \<times> bool \<Rightarrow> ('k, unit) dbg" where
  "create_caller_frame t dw regs = (\<lambda>(inner, outer, inlined).
     op_bind (op_lift (bind_res (low_pc (dw_elf dw) inner) (to_virt_addr (dw_elf dw)))) (\<lambda>inlined_pc.
     op_bind (push_frame t \<lparr>fr_regs = regs, fr_report_address = inlined_pc, fr_func_die = outer, fr_inlined = inlined,
                fr_location = no_location\<rparr>) (\<lambda>_.
     op_bind (op_lift (die_location (dw_elf dw) (die_lines dw inner) inner)) (\<lambda>(file, line).
     modify_last_frame t (\<lambda>f. f\<lparr>fr_location := \<lparr>loc_file = Some file, loc_line = line\<rparr>\<rparr>)))))"

definition caller_pairs :: "die list \<Rightarrow> (die \<times> die \<times> bool) list" where
  "caller_pairs inline_stack =
     (let ds = rev inline_stack
      in map (\<lambda>i. (ds ! i, ds ! Suc i, Suc (Suc i) < length ds)) [0..<length ds - 1])"

definition create_inline_stack_frames :: "int \<Rightarrow> dwarf \<Rightarrow> registers \<Rightarrow> die list \<Rightarrow> ('k, unit) dbg" where
  "create_inline_stack_frames t dw regs inline_stack =
     op_each (create_caller_frame t dw regs) (caller_pairs inline_stack)"

text \<open>The registers of the caller of the last frame, which unwinding may also annotate.\<close>

definition unwind_last_frame :: "'k tools \<Rightarrow> int \<Rightarrow> nat \<Rightarrow> file_addr \<Rightarrow> ('k, registers) dbg" where
  "unwind_last_frame T t i pc =
     op_bind (stack_at t) (\<lambda>s.
     op_bind (loaded_at i) (\<lambda>l.
     op_bind (op_gets (\<lambda>p. unwind (tl_fuel T) (tl_compact T) (tl_order T) (mach_native (tl_mach T))
                (read_memory (tl_mach T) p) (loaded_elf l) (ld_cies l) pc (fr_regs (last (stack_frames s))))) (\<lambda>r.
     op_bind (op_lift r) (\<lambda>(out, regs, cies).
     op_bind (modify_last_frame t (\<lambda>f. f\<lparr>fr_regs := regs\<rparr>)) (\<lambda>_.
     op_bind (dbg_modify (\<lambda>d. d\<lparr>loaded_elves := (loaded_elves d)[i := (loaded_elves d ! i)\<lparr>ld_cies := cies\<rparr>]\<rparr>)) (\<lambda>_.
     op_return out))))))"

fun unwind_loop :: "nat \<Rightarrow> 'k tools \<Rightarrow> int \<Rightarrow> registers \<Rightarrow> u64 \<Rightarrow> file_addr \<Rightarrow> ('k, unit) dbg" where
  "unwind_loop 0 T t regs virt_pc file_pc = op_fail Out_Of_Fuel"
| "unwind_loop (Suc k) T t regs virt_pc file_pc =
     op_bind (stack_at t) (\<lambda>s.
     op_bind (op_gets (\<lambda>p. loaded_position p file_pc)) (\<lambda>file.
     case file of
       None \<Rightarrow> op_return ()
     | Some i \<Rightarrow>
         if virt_pc = 0 \<or> 256 \<le> length (stack_frames s) then op_return ()
         else
           op_bind (with_index i (\<lambda>dw. inline_stack_at_address (tl_fuel T) dw file_pc)) (\<lambda>inline_stack.
           op_bind (loaded_at i) (\<lambda>l.
           if inline_stack = [] then op_return ()
           else
             op_bind (create_base_frame t (ld_dwarf l) regs inline_stack file_pc (1 < length inline_stack)) (\<lambda>_.
             op_bind (if 1 < length inline_stack then create_inline_stack_frames t (ld_dwarf l) regs inline_stack
                      else op_return ()) (\<lambda>_.
             op_bind (unwind_last_frame T t i file_pc) (\<lambda>regs'.
             op_bind (op_lift (read_by_id_as_u64 (mach_native (tl_mach T)) regs' PC)) (\<lambda>ret.
             op_bind (op_gets (\<lambda>p. to_file_addr_in (all_elves p) (ret - 1))) (\<lambda>next.
             unwind_loop k T t regs' (ret - 1) next))))))))) "

definition stack_unwind :: "'k tools \<Rightarrow> int \<Rightarrow> ('k, unit) dbg" where
  "stack_unwind T t =
     op_bind (reset_inline_height T t) (\<lambda>_.
     op_bind (modify_stack t (\<lambda>s. s\<lparr>current_frame := ucast (inline_height s)\<rparr>)) (\<lambda>_.
     op_bind (pc_of T (Some t)) (\<lambda>virt_pc.
     op_bind (get_pc_file_address T (Some t)) (\<lambda>file_pc.
     op_bind (op_gets (\<lambda>p. get_registers p (Some t))) (\<lambda>found.
     op_bind (op_lift found) (\<lambda>regs.
     op_bind (modify_stack t (\<lambda>s. s\<lparr>stack_frames := []\<rparr>)) (\<lambda>_.
     unwind_loop 257 T t regs virt_pc file_pc)))))))"

section \<open>The selected frame\<close>

text \<open>A selection is valid when it is a frame and not one of the inlined calls that have not been entered.\<close>

definition selection_ok :: "stack \<Rightarrow> bool" where
  "selection_ok s \<longleftrightarrow>
     unat (inline_height s) \<le> unat (current_frame s) \<and> unat (current_frame s) < length (stack_frames s) \<and>
     length (stack_frames s) < 2 ^ 63"

inductive select_step :: "stack \<Rightarrow> stack \<Rightarrow> bool" where
  up: "frame_up s = Inr s' \<Longrightarrow> select_step s s'"
| down: "frame_down s = Inr s' \<Longrightarrow> select_step s s'"
| step_in: "0 < inline_height s \<Longrightarrow> select_step s (simulate_inlined_step_in s)"

lemma unat_ucast_height: "unat (ucast (h :: u32) :: u64) = unat h"
  by (rule unat_ucast_up)

lemma frame_up_ok:
  assumes "selection_ok s"
  shows "frame_up s = (if Suc (unat (current_frame s)) = length (stack_frames s) then send ''Already at oldest frame''
           else Inr (s\<lparr>current_frame := current_frame s + 1\<rparr>)) \<and> unat (current_frame s + 1) = Suc (unat (current_frame s))"
proof -
  have "unat (current_frame s + 1) = Suc (unat (current_frame s))"
    using assms by (simp add: selection_ok_def unat_word_ariths)
  moreover have "unat (word_of_nat (length (stack_frames s)) :: u64) = length (stack_frames s)"
    using assms by (simp add: selection_ok_def unat_of_nat)
  ultimately show ?thesis
    using assms by (auto simp: frame_up_def selection_ok_def word_le_nat_alt)
qed

lemma selection_step:
  assumes "select_step s s'" "selection_ok s"
  shows "selection_ok s'"
  using assms(1)
proof (cases rule: select_step.cases)
  case up
  with frame_up_ok [OF assms(2)] assms(2) show ?thesis by (auto simp: selection_ok_def split: if_splits)
next
  case down
  then have "unat (inline_height s) < unat (current_frame s)" "s' = s\<lparr>current_frame := current_frame s - 1\<rparr>"
    by (auto simp: frame_down_def word_le_nat_alt unat_ucast_height split: if_splits)
  with assms(2) show ?thesis by (auto simp: selection_ok_def unat_sub_if_size word_le_nat_alt)
next
  case step_in
  then have "unat (inline_height s - 1) = unat (inline_height s) - 1" by (simp add: unat_minus_one word_gt_0)
  with step_in assms(2) show ?thesis
    by (auto simp: selection_ok_def simulate_inlined_step_in_def unat_ucast_height)
qed

lemma selection_steps: "select_step\<^sup>*\<^sup>* s s' \<Longrightarrow> selection_ok s \<Longrightarrow> selection_ok s'"
  by (induction rule: rtranclp_induct) (auto intro: selection_step)

section \<open>The frames grow\<close>

definition frame_count :: "int \<Rightarrow> 'k debugger process \<Rightarrow> nat" where
  "frame_count t p = (case map_of (stacks (session p)) t of None \<Rightarrow> 0 | Some s \<Rightarrow> length (stack_frames s))"

lemma map_of_update:
  "map_of (map (\<lambda>(k, s). (k, if k = t then f s else s)) xs) t' =
     (if t' = t then map_option f (map_of xs t) else map_of xs t')"
  by (induction xs) auto

lemma modify_stack_result:
  "modify_stack t f p = (Inr (), p') \<longleftrightarrow>
     (\<exists>s. map_of (stacks (session p)) t = Some s \<and>
          p' = p\<lparr>world := (session p)\<lparr>stacks := map (\<lambda>(k, s). (k, if k = t then f s else s)) (stacks (session p))\<rparr>\<rparr>)"
  by (auto simp: modify_stack_def stack_at_def dbg_modify_def session_def op_simps split: option.splits)

lemma modify_stack_count:
  assumes "\<And>s. n \<le> length (stack_frames s) \<Longrightarrow> n \<le> length (stack_frames (f s))"
  shows "preserves (\<lambda>p. n \<le> frame_count t p) (modify_stack t' f)"
  using assms
  by (auto simp: preserves_def modify_stack_def stack_at_def dbg_modify_def session_def op_simps frame_count_def map_of_update
      split: option.splits)

lemma push_frame_count: "push_frame t f p = (Inr (), p') \<Longrightarrow> frame_count t p' = Suc (frame_count t p)"
  by (auto simp: push_frame_def modify_stack_result frame_count_def session_def map_of_update)

lemma length_update_last [simp]: "length (update_last f fs) = length fs"
  by (auto simp: update_last_def)

lemma grows_basic:
  "preserves (\<lambda>p. n \<le> frame_count t p) (push_frame t' f)"
  "preserves (\<lambda>p. n \<le> frame_count t p) (modify_last_frame t' g)"
  "preserves (\<lambda>p. n \<le> frame_count t p) (stack_at t')"
  "preserves (\<lambda>p. n \<le> frame_count t p) (loaded_at i)"
  "preserves (\<lambda>p. n \<le> frame_count t p) (with_index i h)"
  "preserves (\<lambda>p. n \<le> frame_count t p) (dbg_modify (\<lambda>d. d\<lparr>loaded_elves := e d\<rparr>))"
proof -
  show "preserves (\<lambda>p. n \<le> frame_count t p) (push_frame t' f)"
    "preserves (\<lambda>p. n \<le> frame_count t p) (modify_last_frame t' g)"
    unfolding push_frame_def modify_last_frame_def by (auto intro!: modify_stack_count)
  show "preserves (\<lambda>p. n \<le> frame_count t p) (stack_at t')" "preserves (\<lambda>p. n \<le> frame_count t p) (loaded_at i)"
    by (auto simp: stack_at_def loaded_at_def intro!: preserves_bind)
  show "preserves (\<lambda>p. n \<le> frame_count t p) (with_index i h)"
    by (simp add: preserves_def with_index_def frame_count_def session_def Let_def case_prod_unfold)
  show "preserves (\<lambda>p. n \<le> frame_count t p) (dbg_modify (\<lambda>d. d\<lparr>loaded_elves := e d\<rparr>))"
    by (simp add: preserves_def dbg_modify_def op_simps frame_count_def session_def)
qed

lemma grows_frames:
  "preserves (\<lambda>p. n \<le> frame_count t p) (create_inline_stack_frames t' dw regs ds)"
  "preserves (\<lambda>p. n \<le> frame_count t p) (unwind_last_frame T t' i pc)"
  unfolding create_inline_stack_frames_def create_caller_frame_def unwind_last_frame_def
  by (auto intro!: preserves_each preserves_bind grows_basic split: prod.splits)

lemma base_frame_count:
  assumes "create_base_frame t dw regs ds pc inlined p = (Inr (), p')"
  shows "Suc (frame_count t p) \<le> frame_count t p'"
proof -
  obtain row f q where "push_frame t f p = (Inr (), q)" and rest: "locate_base_frame t dw pc row q = (Inr (), p')"
    using assms by (auto simp: create_base_frame_def op_bind_Inr_iff op_basic)
  then have "Suc (frame_count t p) \<le> frame_count t q" by (simp add: push_frame_count)
  moreover have "preserves (\<lambda>p. n \<le> frame_count t p) (locate_base_frame t dw pc row)" for n
    by (auto simp: locate_base_frame_def intro!: preserves_bind grows_basic split: option.splits)
  ultimately show ?thesis using rest by (metis preservesD)
qed

lemma op_bind_cong_run:
  "(\<And>x q. m p = (Inr x, q) \<Longrightarrow> f x q = g x q) \<Longrightarrow> op_bind m f p = op_bind m g p"
  by (auto simp: op_bind_def split: prod.splits sum.splits)

lemma grows_keep:
  "m q = (r, q') \<Longrightarrow> (\<And>n. preserves (\<lambda>p. n \<le> frame_count t p) m) \<Longrightarrow> frame_count t q \<le> frame_count t q'"
  by (metis order_refl preservesD)

lemma round_count:
  assumes "with_index i h p = (Inr ds, p1)" "loaded_at i p1 = (Inr l, p2)"
    "create_base_frame t dw regs ds pc inlined p2 = (Inr (), p3)"
    "(if c then create_inline_stack_frames t dw regs ds else op_return ()) p3 = (Inr (), p4)"
    "unwind_last_frame T t i pc p4 = (Inr regs', p5)"
  shows "Suc (frame_count t p) \<le> frame_count t p5"
proof -
  have "frame_count t p \<le> frame_count t p1" by (rule grows_keep [OF assms(1) grows_basic(5)])
  moreover have "frame_count t p1 \<le> frame_count t p2" by (rule grows_keep [OF assms(2) grows_basic(4)])
  moreover have "Suc (frame_count t p2) \<le> frame_count t p3" by (rule base_frame_count [OF assms(3)])
  moreover have "frame_count t p3 \<le> frame_count t p4"
    using assms(4) grows_keep [OF _ grows_frames(1)] by (cases c) (auto simp: op_simps)
  moreover have "frame_count t p4 \<le> frame_count t p5" by (rule grows_keep [OF assms(5) grows_frames(2)])
  ultimately show ?thesis by linarith
qed

lemmas round_counts = round_count [where c = True, unfolded if_True] round_count [where c = False, unfolded if_False op_basic, OF _ _ _ refl]

lemma unwind_loop_fuel:
  "256 - frame_count t p < k \<Longrightarrow>
   unwind_loop (k + m) T t regs virt_pc file_pc p = unwind_loop k T t regs virt_pc file_pc p"
proof (induction k arbitrary: regs virt_pc file_pc p)
  case (Suc k)
  have IH: "unwind_loop (k + m) T t r v f q = unwind_loop k T t r v f q"
    if "Suc (frame_count t p) \<le> frame_count t q" "frame_count t p < 256" for r v f q
    using Suc.IH [of q] Suc.prems that by auto
  have s: "q = p \<and> length (stack_frames s) = frame_count t p" if "stack_at t p = (Inr s, q)" for s q
    using that by (auto simp: stack_at_def frame_count_def op_simps split: option.splits)
  show ?case
    unfolding add_Suc unwind_loop.simps
    by (intro op_bind_cong_run)
      (auto simp: op_basic dest!: s split: option.splits intro!: op_bind_cong_run IH;
       (erule (4) round_counts(1) | erule (3) round_counts(2)))
qed simp

section \<open>The frames of one activation\<close>

definition frames_of :: "int \<Rightarrow> 'k debugger process \<Rightarrow> stack_frame list option" where
  "frames_of t p = map_option stack_frames (map_of (stacks (session p)) t)"

text \<open>What a frame is a frame of: the function, whether it is inlined, and the registers.\<close>

definition frame_key :: "stack_frame \<Rightarrow> die \<times> bool \<times> registers" where
  "frame_key f = (fr_func_die f, fr_inlined f, fr_regs f)"

lemma push_frame_frames:
  assumes "push_frame t f p = (Inr (), q)" "frames_of t p = Some fs"
  shows "frames_of t q = Some (fs @ [f])"
  using assms by (auto simp: push_frame_def modify_stack_result frames_of_def session_def map_of_update)

lemma update_last_snoc [simp]: "update_last g (fs @ [f]) = fs @ [g f]"
  by (simp add: update_last_def)

lemma modify_last_frames:
  assumes "modify_last_frame t g p = (Inr (), q)" "frames_of t p = Some (fs @ [f])"
  shows "frames_of t q = Some (fs @ [g f])"
  using assms
  by (auto simp: modify_last_frame_def modify_stack_result frames_of_def session_def map_of_update)

lemma base_frame_frames:
  assumes "create_base_frame t dw regs ds pc inlined p = (Inr (), q)" "frames_of t p = Some fs"
  shows "\<exists>f. frames_of t q = Some (fs @ [f]) \<and> frame_key f = (last ds, inlined, regs)"
proof -
  obtain row a u where u: "push_frame t \<lparr>fr_regs = regs, fr_report_address = a, fr_func_die = last ds, fr_inlined = inlined,
        fr_location = no_location\<rparr> p = (Inr (), u)" and rest: "locate_base_frame t dw pc row u = (Inr (), q)"
    using assms(1) by (auto simp: create_base_frame_def op_bind_Inr_iff op_basic)
  note at_u = push_frame_frames [OF u assms(2)]
  show ?thesis
  proof (cases row)
    case None
    with rest at_u show ?thesis by (auto simp: locate_base_frame_def op_basic frame_key_def)
  next
    case (Some it)
    with rest obtain g where "modify_last_frame t (fr_location_update g) u = (Inr (), q)"
      by (auto simp: locate_base_frame_def op_bind_Inr_iff op_basic)
    from modify_last_frames [OF this at_u] show ?thesis by (auto simp: frame_key_def)
  qed
qed

lemma caller_frame_frames:
  assumes "create_caller_frame t dw regs (inner, outer, inlined) p = (Inr (), q)" "frames_of t p = Some fs"
  shows "\<exists>f. frames_of t q = Some (fs @ [f]) \<and> frame_key f = (outer, inlined, regs)"
proof -
  obtain a u g where u: "push_frame t \<lparr>fr_regs = regs, fr_report_address = a, fr_func_die = outer, fr_inlined = inlined,
        fr_location = no_location\<rparr> p = (Inr (), u)" and rest: "modify_last_frame t (fr_location_update g) u = (Inr (), q)"
    using assms(1) by (auto simp: create_caller_frame_def op_bind_Inr_iff op_basic)
  from modify_last_frames [OF rest push_frame_frames [OF u assms(2)]] show ?thesis by (auto simp: frame_key_def)
qed

lemma caller_frames_frames:
  assumes "op_each (create_caller_frame t dw regs) xs p = (Inr (), q)" "frames_of t p = Some fs"
  shows "\<exists>gs. frames_of t q = Some (fs @ gs) \<and> map frame_key gs = map (\<lambda>(_, outer, inlined). (outer, inlined, regs)) xs"
  using assms
proof (induction xs arbitrary: p fs)
  case (Cons x xs)
  obtain inner outer inlined where x: "x = (inner, outer, inlined)" by (cases x)
  with Cons.prems(1) obtain u where u: "create_caller_frame t dw regs (inner, outer, inlined) p = (Inr (), u)"
      "op_each (create_caller_frame t dw regs) xs u = (Inr (), q)"
    by (auto simp: op_bind_Inr_iff)
  from caller_frame_frames [OF u(1) Cons.prems(2)] obtain f where
    f: "frames_of t u = Some (fs @ [f])" "frame_key f = (outer, inlined, regs)" by blast
  from Cons.IH [OF u(2) f(1)] f(2) x show ?case by auto
qed (simp add: op_basic)

lemma caller_pairs_keys:
  assumes "ds \<noteq> []"
  shows "(last ds, 1 < length ds, regs) # map (\<lambda>(_, outer, inlined). (outer, inlined, regs)) (caller_pairs ds) =
         map2 (\<lambda>d b. (d, b, regs)) (rev ds) (replicate (length ds - 1) True @ [False])"
proof (rule nth_equalityI)
  show "length ((last ds, 1 < length ds, regs) # map (\<lambda>(_, outer, inlined). (outer, inlined, regs)) (caller_pairs ds)) =
    length (map2 (\<lambda>d b. (d, b, regs)) (rev ds) (replicate (length ds - 1) True @ [False]))"
    using assms by (simp add: caller_pairs_def Let_def)
next
  fix i
  assume "i < length ((last ds, 1 < length ds, regs) # map (\<lambda>(_, outer, inlined). (outer, inlined, regs)) (caller_pairs ds))"
  then have "i < length ds" using assms by (cases i) (auto simp: caller_pairs_def Let_def)
  with assms show "((last ds, 1 < length ds, regs) # map (\<lambda>(_, outer, inlined). (outer, inlined, regs)) (caller_pairs ds)) ! i =
    map2 (\<lambda>d b. (d, b, regs)) (rev ds) (replicate (length ds - 1) True @ [False]) ! i"
    by (cases i) (auto simp: caller_pairs_def Let_def nth_append rev_nth last_conv_nth)
qed

definition demo_stack_of :: "stack_frame list \<Rightarrow> stack" where
  "demo_stack_of fs = \<lparr>inline_height = 0, stack_frames = fs, current_frame = 0\<rparr>"

definition demo_frame :: stack_frame where
  "demo_frame = \<lparr>fr_regs = demo_frame_regs, fr_report_address = 0x100007010, fr_func_die = null_die, fr_inlined = False,
     fr_location = no_location\<rparr>"

lemma demo_base_frame:
  "\<exists>q. create_base_frame 1 \<lparr>dw_elf = demo_elf, dw_units = []\<rparr> demo_frame_regs [null_die] (elf_file_addr demo_elf 0x100003010) False
     (demo_session [demo_stack_of []]) = (Inr (), q)"
proof -
  have "to_virt_addr demo_elf (elf_file_addr demo_elf 0x100003010) = Inr 0x100007010"
    by (simp add: to_virt_addr_def get_section_containing_file_addr_def elf_file_addr_def demo_elf_def section_has_file_def text_section_def)
  then show ?thesis
    by (simp add: create_base_frame_def line_entry_at_address_def compile_unit_containing_address_def op_simps
        push_frame_def locate_base_frame_def modify_stack_def stack_at_def dbg_modify_def session_def demo_session_def)
qed

section \<open>Properties\<close>




text \<open>
  The selected frame stays valid.  From a valid selection, every sequence of moving up, moving down and stepping into an inlined call
  ends with a frame that exists, counted from the youngest entered frame without wrapping around.
\<close>

theorem frame_selection_valid:
  assumes "select_step\<^sup>*\<^sup>* s s'" "selection_ok s"
  shows "selected_frame s' = Inr (stack_frames s' ! unat (current_frame s')) \<and>
         unat (current_frame_index s') = unat (current_frame s') - unat (inline_height s') \<and>
         unat (current_frame_index s') < length (drop (unat (inline_height s')) (stack_frames s'))"
proof -
  have ok: "selection_ok s'" by (rule selection_steps [OF assms])
  then have "unat (current_frame_index s') = unat (current_frame s') - unat (inline_height s')"
    by (simp add: selection_ok_def current_frame_index_def unat_sub_if' unat_ucast_height)
  with ok show ?thesis by (auto simp: selection_ok_def selected_frame_def)
qed

theorem frame_selection_valid_witness:
  "selected_frame \<lparr>inline_height = 0, stack_frames = [demo_frame, demo_frame], current_frame = 1\<rparr> = Inr demo_frame"
proof -
  let ?s = "demo_stack_of [demo_frame, demo_frame]"
  let ?s' = "\<lparr>inline_height = 0, stack_frames = [demo_frame, demo_frame], current_frame = 1\<rparr>"
  have "frame_up ?s = Inr ?s'" by (simp add: frame_up_def demo_stack_of_def word_le_nat_alt)
  then have "select_step\<^sup>*\<^sup>* ?s ?s'" by (blast intro: select_step.up)
  moreover have "selection_ok ?s" by (simp add: selection_ok_def demo_stack_of_def)
  ultimately show ?thesis using frame_selection_valid [of ?s ?s'] by simp
qed

end
