(* ===== verification/Loader.thy ===== *)
theory Loader
  imports Breakpoints Stack
begin

text \<open>
  What the target does when the process stops: it asks the dynamic linker for the loaded images, reads the object files it does not
  have yet, resolves the breakpoints again and unwinds the stack (\<^verbatim>\<open>src/src/target.cpp\<close>); and where the executable
  is found in memory (\<open>image_load_address\<close> of \<^verbatim>\<open>src/src/process.cpp\<close>).

  The structures of the dynamic linker and the file system belong to the system; they are the fields of \<open>loader\<close>,
  as is the callback for threads that come and go, which the program around the library installs.
\<close>

section \<open>What the system provides\<close>

record 'k loader =
  lo_dyld_address :: "'k debugger \<Rightarrow> u64 option"
  lo_infos_size :: nat
  lo_notification :: "byte list \<Rightarrow> u64"
  lo_info_array :: "byte list \<Rightarrow> u64"
  lo_info_count :: "byte list \<Rightarrow> u32"
  lo_image_size :: nat
  lo_image_path :: "byte list \<Rightarrow> u64"
  lo_image_address :: "byte list \<Rightarrow> u64"
  lo_is_regular_file :: "string \<Rightarrow> bool"
  lo_canonical :: "string \<Rightarrow> string"
  lo_files :: file_system
  lo_abi :: macho_abi
  lo_demangle :: "string \<Rightarrow> string option"
  lo_read_filetype :: "byte list \<Rightarrow> u32"
  lo_MH_EXECUTE :: u32
  lo_executable_path :: "'k debugger \<Rightarrow> string + string"
  lo_thread_callback :: "stop_reason \<Rightarrow> 'k \<Rightarrow> 'k"

section \<open>Object files\<close>

text \<open>The constructor of class \<open>elf\<close> with its debug information; the file is known by its position in the list of files.\<close>

definition open_object :: "'k tools \<Rightarrow> 'k loader \<Rightarrow> nat \<Rightarrow> string \<Rightarrow> loaded result" where
  "open_object T L i path =
     bind_res (make_elf (lo_abi L) (lo_demangle L) (lo_files L) i path) (\<lambda>e.
     bind_res (case parse_compile_units (tl_fuel T) e of None \<Rightarrow> Inl Out_Of_Fuel | Some r \<Rightarrow> r) (\<lambda>us.
     Inr \<lparr>ld_dwarf = \<lparr>dw_elf = e, dw_units = us\<rparr>, ld_index = empty_index, ld_cies = (\<lambda>_. None)\<rparr>))"

definition load_at :: "u64 \<Rightarrow> loaded \<Rightarrow> loaded" where
  "load_at address l =
     l\<lparr>ld_dwarf := (ld_dwarf l)\<lparr>dw_elf := notify_loaded (address - preferred_base (loaded_elf l)) (loaded_elf l)\<rparr>\<rparr>"

text \<open>The search for the executable walks over the regions of the address space.\<close>

definition VM_PROT_READ :: u32 where "VM_PROT_READ = 1"

definition is_executable_image :: "'k tools \<Rightarrow> 'k loader \<Rightarrow> 'k debugger process \<Rightarrow> u64 \<Rightarrow> bool result" where
  "is_executable_image T L p a =
     (case read_memory (tl_mach T) p a (mach_header_size (lo_abi L)) of
        Inr bs \<Rightarrow> Inr (mh_magic (read_mach_header (lo_abi L) bs) = abi_MH_MAGIC_64 (lo_abi L) \<and> lo_read_filetype L bs = lo_MH_EXECUTE L)
      | Inl (Sdb_Error m) \<Rightarrow> Inr False
      | Inl e \<Rightarrow> Inl e)"

fun image_search :: "nat \<Rightarrow> 'k tools \<Rightarrow> 'k loader \<Rightarrow> 'k debugger process \<Rightarrow> u64 \<Rightarrow> u64 result" where
  "image_search 0 T L p a = Inl Out_Of_Fuel"
| "image_search (Suc k) T L p a =
     (case vm_region (tl_mach T) (world p) a of
        Inl msg \<Rightarrow> send ''Cannot find executable Mach-O image''
      | Inr r \<Rightarrow>
          bind_res (if rgn_protection r AND VM_PROT_READ \<noteq> 0 \<and> mach_header_size (lo_abi L) \<le> unat (rgn_size r)
                    then is_executable_image T L p (rgn_start r) else Inr False) (\<lambda>found.
          if found then Inr (rgn_start r) else image_search k T L p (rgn_start r + rgn_size r)))"

definition image_load_address :: "'k tools \<Rightarrow> 'k loader \<Rightarrow> ('k, u64) dbg" where
  "image_load_address T L = op_bind (op_gets (\<lambda>p. image_search (tl_fuel T) T L p 0)) op_lift"

section \<open>Dynamic libraries\<close>

definition read_struct :: "'k tools \<Rightarrow> u64 \<Rightarrow> nat \<Rightarrow> ('k, byte list) dbg" where
  "read_struct T a n = op_bind (op_gets (\<lambda>p. read_memory (tl_mach T) p a n)) op_lift"

definition load_image :: "'k tools \<Rightarrow> 'k loader \<Rightarrow> u64 \<Rightarrow> nat \<Rightarrow> ('k, unit) dbg" where
  "load_image T L info_array i =
     op_bind (read_struct T (info_array + word_of_nat i * word_of_nat (lo_image_size L)) (lo_image_size L)) (\<lambda>image.
     op_bind (op_bind (op_gets (\<lambda>p. read_string (tl_mach T) p (lo_image_path L image))) op_lift) (\<lambda>name.
     if \<not> lo_is_regular_file L name then op_return ()
     else
       op_bind (op_gets (\<lambda>p. get_elf_by_path (all_elves p) (lo_canonical L name))) (\<lambda>known.
       if known \<noteq> None then op_return ()
       else
         op_bind (op_gets (\<lambda>p. length (loaded_elves (session p)))) (\<lambda>k.
         op_bind (op_lift (open_object T L k (lo_canonical L name))) (\<lambda>l.
         dbg_modify (\<lambda>d. d\<lparr>loaded_elves := loaded_elves d @ [load_at (lo_image_address L image) l]\<rparr>))))))"

definition watch_linker :: "'k tools \<Rightarrow> u64 \<Rightarrow> ('k, unit) dbg" where
  "watch_linker T notification =
     op_bind (op_gets (\<lambda>p. rendezvous_address (session p))) (\<lambda>known.
     if known = 0 \<and> notification \<noteq> 0 then
       let address = notification AND 0x0000ffffffffffff in
       op_bind (dbg_modify (\<lambda>d. d\<lparr>rendezvous_address := address\<rparr>)) (\<lambda>_.
       op_bind (create_breakpoint T (Address_breakpoint address) False True) (\<lambda>key.
       op_bind (modify_breakpoint key (\<lambda>b. b\<lparr>bp_reloads := True\<rparr>)) (\<lambda>_.
       enable_breakpoint T key)))
     else op_return ())"

definition resolve_all :: "'k tools \<Rightarrow> ('k, unit) dbg" where
  "resolve_all T = op_bind (op_gets (\<lambda>p. map bp_key (breakpoints (session p)))) (op_each (resolve_breakpoint T))"

definition reload_dynamic_libraries :: "'k tools \<Rightarrow> 'k loader \<Rightarrow> ('k, unit) dbg" where
  "reload_dynamic_libraries T L =
     op_bind (op_gets (\<lambda>p. lo_dyld_address L (session p))) (\<lambda>found.
     case found of
       None \<Rightarrow> op_send ''Cannot read dyld information''
     | Some a \<Rightarrow>
         if a = 0 then op_return ()
         else
           op_bind (read_struct T a (lo_infos_size L)) (\<lambda>infos.
           op_bind (watch_linker T (lo_notification L infos)) (\<lambda>_.
           if lo_info_array L infos = 0 \<or> lo_info_count L infos > 65536 then op_return ()
           else
             op_bind (op_each (load_image T L (lo_info_array L infos)) [0..<unat (lo_info_count L infos)]) (\<lambda>_.
             resolve_all T))))"

section \<open>What the process reports\<close>

definition target_notify_stop :: "'k tools \<Rightarrow> 'k loader \<Rightarrow> stop_reason \<Rightarrow> ('k, unit) dbg" where
  "target_notify_stop T L r =
     op_bind (reload_dynamic_libraries T L) (\<lambda>_.
     op_bind (stack_at (stop_tid r)) (\<lambda>_.
     stack_unwind T (stop_tid r)))"

definition new_stack :: stack where
  "new_stack = \<lparr>inline_height = 0, stack_frames = [], current_frame = 0\<rparr>"

text \<open>The process has entered the thread before it reports it, so that no state is made up for it.\<close>

definition notify_thread_lifecycle_event :: "stop_reason \<Rightarrow> ('k, unit) dbg" where
  "notify_thread_lifecycle_event r =
     (if reason r = Stopped
      then dbg_modify (\<lambda>d. if stop_tid r \<in> fst ` set (stacks d) then d else d\<lparr>stacks := stacks d @ [(stop_tid r, new_stack)]\<rparr>)
      else dbg_modify (\<lambda>d. d\<lparr>stacks := filter (\<lambda>(k, s). k \<noteq> stop_tid r) (stacks d)\<rparr>))"

definition breakpoint_notify_hit :: "'k tools \<Rightarrow> 'k loader \<Rightarrow> nat \<Rightarrow> ('k, bool) dbg" where
  "breakpoint_notify_hit T L key =
     op_bind (breakpoint_with key) (\<lambda>b.
     if bp_reloads b then op_bind (reload_dynamic_libraries T L) (\<lambda>_. op_return True) else op_return False)"

text \<open>\<open>report_thread_lifecycle_event\<close>: the installed callback first, then the target.  The callback works on what is outside the debugger.\<close>

definition report_thread_lifecycle_event :: "'k loader \<Rightarrow> stop_reason \<Rightarrow> ('k, unit) dbg" where
  "report_thread_lifecycle_event L r =
     op_bind (dbg_modify (\<lambda>d. d\<lparr>kernel := lo_thread_callback L r (kernel d)\<rparr>)) (\<lambda>_.
     notify_thread_lifecycle_event r)"

definition target_hooks :: "'k tools \<Rightarrow> 'k loader \<Rightarrow> 'k debugger hooks" where
  "target_hooks T L = \<lparr>has_target = True, notify_stop = target_notify_stop T L,
     notify_thread = report_thread_lifecycle_event L, notify_hit = breakpoint_notify_hit T L\<rparr>"

section \<open>The constructor\<close>

definition make_target :: "loaded \<Rightarrow> ('k, unit) dbg" where
  "make_target obj =
     op_bind (op_gets (\<lambda>p. map (\<lambda>(t, _). (t, new_stack)) (threads p))) (\<lambda>ss.
     dbg_modify (\<lambda>d. d\<lparr>loaded_elves := [obj], main_elf := 0, stacks := ss, breakpoints := [], rendezvous_address := 0,
       expression_results := []\<rparr>))"

definition create_loaded_elf :: "'k tools \<Rightarrow> 'k loader \<Rightarrow> string \<Rightarrow> ('k, loaded) dbg" where
  "create_loaded_elf T L path =
     op_bind (op_lift (open_object T L 0 path)) (\<lambda>l.
     op_bind (image_load_address T L) (\<lambda>a. op_return (load_at a l)))"

section \<open>The system under a session\<close>

text \<open>The system knows nothing of the debugger: its calls work on its own part of the state.\<close>

definition keep_session :: "'k debugger \<Rightarrow> 'r \<times> 'k \<Rightarrow> 'r \<times> 'k debugger" where
  "keep_session d = (\<lambda>(r, k). (r, d\<lparr>kernel := k\<rparr>))"

definition on_kernel :: "'k mach \<Rightarrow> 'k debugger mach" where
  "on_kernel K = \<lparr>mach_native = mach_native K,
     vm_read = (\<lambda>d. vm_read K (kernel d)),
     vm_region = (\<lambda>d. vm_region K (kernel d)),
     vm_protect = (\<lambda>d a n x. keep_session d (vm_protect K (kernel d) a n x)),
     vm_write = (\<lambda>d a bs. keep_session d (vm_write K (kernel d) a bs)),
     set_debug = (\<lambda>d port s. keep_session d (set_debug K (kernel d) port s)),
     set_gprs = (\<lambda>d port bs. keep_session d (set_gprs K (kernel d) port bs)),
     set_fprs = (\<lambda>d port bs. keep_session d (set_fprs K (kernel d) port bs)),
     get_gprs = (\<lambda>d. get_gprs K (kernel d)),
     get_fprs = (\<lambda>d. get_fprs K (kernel d)),
     get_exception = (\<lambda>d. get_exception K (kernel d)),
     suspend_thread = (\<lambda>d port. keep_session d (suspend_thread K (kernel d) port)),
     resume_thread = (\<lambda>d port. keep_session d (resume_thread K (kernel d) port)),
     ptrace = (\<lambda>d r i. keep_session d (ptrace K (kernel d) r i)),
     wait_pid = (\<lambda>d. keep_session d (wait_pid K (kernel d))),
     task_for_pid = (\<lambda>d i. keep_session d (task_for_pid K (kernel d) i)),
     task_threads = (\<lambda>d. task_threads K (kernel d)),
     deallocate_port = (\<lambda>d port. keep_session d (deallocate_port K (kernel d) port)),
     visit = visit K\<rparr>"

section \<open>The object files of a session\<close>

text \<open>The files are numbered in the order in which they were read, and no path is read twice.\<close>

definition files_numbered :: "dwarf list \<Rightarrow> bool" where
  "files_numbered ds \<longleftrightarrow>
     distinct (map (\<lambda>d. elf_path (dw_elf d)) ds) \<and> map (\<lambda>d. elf_id (dw_elf d)) ds = [0..<length ds]"

text \<open>The session has the files \<open>F\<close> and perhaps more behind them.\<close>

definition has_files :: "dwarf list \<Rightarrow> 'k debugger process \<Rightarrow> bool" where
  "has_files F p \<longleftrightarrow> (\<exists>new. files_of p = F @ new) \<and> files_numbered (files_of p)"

lemma has_files_cong: "files_of q = files_of p \<Longrightarrow> has_files F p \<Longrightarrow> has_files F q"
  by (simp add: has_files_def)

interpretation kernel_files: stoppoint_frame "on_kernel K" "has_files F"
  by unfold_locales
    (auto simp: on_kernel_def keep_session_def files_of_def session_def elim!: has_files_cong [rotated] split: prod.splits)

lemma has_files_session:
  "preserves (has_files F) (with_index i f)" "preserves (has_files F) (breakpoint_with key)"
  "preserves (has_files F) (loaded_at i)" "preserves (has_files F) file_positions" "preserves (has_files F) (site_of a)"
  "(\<And>d. map ld_dwarf (loaded_elves (g d)) = map ld_dwarf (loaded_elves d)) \<Longrightarrow> preserves (has_files F) (dbg_modify g)"
proof -
  show "preserves (has_files F) (with_index i f)"
    unfolding preserves_def by (metis has_files_cong prod.collapse with_index_frame)
  show "preserves (has_files F) (dbg_modify g)" if "\<And>d. map ld_dwarf (loaded_elves (g d)) = map ld_dwarf (loaded_elves d)"
    unfolding dbg_modify_def using that
    by (intro preserves_modify) (auto simp: files_of_def session_def elim!: has_files_cong [rotated])
qed (auto simp: breakpoint_with_def loaded_at_def file_positions_def site_of_def intro!: preserves_bind split: option.splits sum.splits)

section \<open>Reading a file keeps its name\<close>

definition same_file :: "elf \<Rightarrow> elf \<Rightarrow> bool" where
  "same_file e e' \<longleftrightarrow> elf_path e' = elf_path e \<and> elf_id e' = elf_id e"

lemma same_file_trans: "same_file a b \<Longrightarrow> same_file b c \<Longrightarrow> same_file a c"
  by (simp add: same_file_def)

lemma add_sections_file: "add_sections abi dbg b base pos k e = Inr e' \<Longrightarrow> same_file e e'"
proof (induction k arbitrary: pos e)
  case (Suc k)
  then obtain r e1 where "add_section abi dbg b base (read_section abi r) e = Inr e1"
      "add_sections abi dbg b base (pos + section_size abi) k e1 = Inr e'"
    by (auto simp: res_simps)
  moreover from this(1) have "same_file e e1"
    by (auto simp: add_section_def Let_def same_file_def res_simps split: if_splits)
  ultimately show ?case using Suc.IH by (blast intro: same_file_trans)
qed (simp add: same_file_def)

lemma load_step_file: "load_step abi dbg b base pos cmd p = Inr p' \<Longrightarrow> same_file (mp_elf p) (mp_elf p')"
  by (auto simp: load_step_def add_segment_def Let_def res_simps same_file_def split: if_splits
      dest!: add_sections_file)

lemma load_commands_file: "load_commands abi dbg b base stop pos k p = Inr p' \<Longrightarrow> same_file (mp_elf p) (mp_elf p')"
proof (induction k arbitrary: pos p)
  case (Suc k)
  then show ?case by (auto simp: res_simps Let_def split: if_splits intro: same_file_trans dest!: load_step_file)
qed (simp add: same_file_def)

lemma add_symbols_file: "add_symbols abi b st pos k e = Inr e' \<Longrightarrow> same_file e e'"
proof (induction k arbitrary: pos e)
  case (Suc k)
  then obtain r e1 where "add_symbol abi b st (read_nlist abi r) e = Inr e1" "add_symbols abi b st (pos + nlist_size abi) k e1 = Inr e'"
    by (auto simp: res_simps)
  moreover from this(1) have "same_file e e1" by (auto simp: add_symbol_def same_file_def res_simps split: if_splits)
  ultimately show ?case using Suc.IH by (blast intro: same_file_trans)
qed (simp add: same_file_def)

lemma parse_macho_file: "parse_macho abi fs path dbg e = Inr e' \<Longrightarrow> same_file e e'"
  by (auto simp: parse_macho_def read_symbols_def finish_symbol_table_def res_simps Let_def same_file_def
      split: if_splits option.splits dest!: load_commands_file add_symbols_file)

lemma build_symbol_maps_file: "build_symbol_maps_loop demangle syms e = Inr e' \<Longrightarrow> same_file e e'"
proof (induction syms arbitrary: e)
  case (Cons s syms)
  then show ?case by (fastforce simp: res_simps Let_def same_file_def split: option.splits if_splits)
qed (simp add: same_file_def)

lemma make_elf_file:
  assumes "make_elf abi demangle fs i path = Inr e"
  shows "elf_path e = path \<and> elf_id e = i"
proof -
  from assms obtain e1 e2 e3 where "parse_macho abi fs path False (empty_elf i path) = Inr e1"
      "(if fs (dsym_path path) \<noteq> Missing then parse_macho abi fs (dsym_path path) True e1 else Inr e1) = Inr e2"
      "build_section_map e2 = Inr e3" "build_symbol_maps demangle e3 = Inr e"
    by (auto simp: make_elf_def res_simps)
  then have "same_file (empty_elf i path) e1" "same_file e1 e2" "same_file e2 e3" "same_file e3 e"
    using parse_macho_file build_symbol_maps_file
    by (auto simp: build_symbol_maps_def, auto simp: same_file_def build_section_map_def res_simps split: if_splits)
  then show ?thesis by (simp add: same_file_def empty_elf_def)
qed

section \<open>Reloading keeps the files\<close>

lemma has_files_modify_breakpoint: "preserves (has_files F) (modify_breakpoint key f)"
  unfolding modify_breakpoint_def by (intro has_files_session) simp

lemmas has_files_step = preserves_bind has_files_session(1-5) has_files_modify_breakpoint kernel_files.toggle kernel_files.push

lemma has_files_place:
  assumes "tl_mach T = on_kernel K"
  shows "preserves (has_files F) (place_site T key a)"
  unfolding place_site_def assms by (auto intro!: has_files_step)

lemma has_files_find: "preserves (has_files F) (find_functions_in T name is acc)"
  by (induction "is" arbitrary: acc) (auto intro!: has_files_step)

lemma has_files_resolve_one:
  assumes "tl_mach T = on_kernel K"
  shows "preserves (has_files F) (resolve_dwarf_function T key x)" "preserves (has_files F) (resolve_elf_function T key y)"
    "preserves (has_files F) (resolve_line_entry T key z)"
  unfolding resolve_dwarf_function_def resolve_elf_function_def resolve_line_entry_def
  by (auto intro!: has_files_step has_files_place [OF assms] split: prod.splits)

lemma has_files_resolve:
  assumes "tl_mach T = on_kernel K"
  shows "preserves (has_files F) (resolve_breakpoint T key)"
  unfolding resolve_breakpoint_def resolve_address_def resolve_function_def resolve_line_def target_find_functions_def
    get_line_entries_by_line_def
  by (auto intro!: has_files_step preserves_each has_files_place [OF assms] has_files_find has_files_resolve_one [OF assms]
      split: breakpoint_kind.splits)

lemma has_files_create:
  assumes "tl_mach T = on_kernel K"
  shows "preserves (has_files F) (create_breakpoint T kind hw intl)" "preserves (has_files F) (enable_breakpoint T key)"
proof -
  have number: "preserves (has_files F) (breakpoint_number intl)" for intl
    unfolding breakpoint_number_def by (auto intro!: preserves_bind has_files_session(6))
  show "preserves (has_files F) (create_breakpoint T kind hw intl)"
    unfolding create_breakpoint_def
    by (auto intro!: preserves_bind preserves_catch number has_files_session(6) has_files_resolve [OF assms])
  show "preserves (has_files F) (enable_breakpoint T key)"
    unfolding enable_breakpoint_def assms by (auto intro!: has_files_step preserves_each)
qed

lemma files_numbered_snoc:
  assumes "files_numbered ds" "elf_id (dw_elf d) = length ds" "elf_path (dw_elf d) \<notin> (\<lambda>d. elf_path (dw_elf d)) ` set ds"
  shows "files_numbered (ds @ [d])"
  using assms by (simp add: files_numbered_def)

lemma open_object_file:
  "open_object T L k path = Inr l \<Longrightarrow> elf_path (loaded_elf l) = path \<and> elf_id (loaded_elf l) = k"
  by (auto simp: open_object_def loaded_elf_def res_simps dest!: make_elf_file)

lemma has_files_load_image: "preserves (has_files F) (load_image T L array i)"
proof -
  have push: "has_files F q" if "has_files F p" "get_elf_by_path (all_elves p) path = None"
      "open_object T L (length (loaded_elves (session p))) path = Inr l"
      "q = snd (dbg_modify (\<lambda>d. d\<lparr>loaded_elves := loaded_elves d @ [load_at a l]\<rparr>) p)" for p q path l a
  proof -
    have q: "files_of q = files_of p @ [ld_dwarf (load_at a l)]"
      using that(4) by (simp add: dbg_modify_def op_basic files_of_def session_def)
    have "path \<notin> (\<lambda>d. elf_path (dw_elf d)) ` set (files_of p)"
      using that(2) by (auto simp: get_elf_by_path_def find_None_iff all_elves_def loaded_elf_def files_of_def)
    moreover have "elf_path (dw_elf (ld_dwarf (load_at a l))) = path" "elf_id (dw_elf (ld_dwarf (load_at a l))) = length (files_of p)"
      using open_object_file [OF that(3)] by (simp_all add: load_at_def notify_loaded_def loaded_elf_def files_of_def)
    ultimately show ?thesis using that(1) q by (auto simp: has_files_def intro!: files_numbered_snoc)
  qed
  have read: "preserves (has_files F) (read_struct T a n)" for a n
    unfolding read_struct_def by (intro preserves_bind preserves_basic)
  show ?thesis
    unfolding load_image_def
    apply (intro preserves_bind read preserves_basic)
    apply (auto simp: preserves_def op_bind_run op_basic split: sum.splits prod.splits option.splits)
    apply (erule (2) push [OF _ _ _ refl])
    done
qed

lemma has_files_reload:
  assumes "tl_mach T = on_kernel K"
  shows "preserves (has_files F) (reload_dynamic_libraries T L)"
proof -
  have linker: "preserves (has_files F) (watch_linker T a)" for a
    unfolding watch_linker_def Let_def
    by (auto intro!: preserves_bind has_files_session(6) has_files_create [OF assms] has_files_modify_breakpoint)
  show ?thesis
    unfolding reload_dynamic_libraries_def resolve_all_def read_struct_def
    by (auto intro!: preserves_bind preserves_each linker has_files_load_image has_files_resolve [OF assms] split: option.splits)
qed

section \<open>Finding a file\<close>

lemma find_nth_unique:
  assumes "map f xs = [0..<length xs]" "k < length xs"
  shows "find (\<lambda>i. f (xs ! i) = k) [0..<length xs] = Some k"
proof -
  have f: "f (xs ! i) = i" if "i < length xs" for i using arg_cong [OF assms(1), of "\<lambda>ys. ys ! i"] that by simp
  then have "find (\<lambda>i. f (xs ! i) = k) [0..<length xs] = find (\<lambda>i. i = k) [0..<length xs]"
    by (auto intro!: find_cong)
  also have "\<dots> = Some k" using assms(2) by (intro find_Some_iff [THEN iffD2] exI [of _ k]) auto
  finally show ?thesis .
qed

text \<open>In a session with numbered files the file of an address is the file that has its number.\<close>

lemma loaded_position_file:
  assumes "files_numbered (files_of p)" "fa_elf a = Some k"
  shows "loaded_position p a = (if k < length (files_of p) then Some k else None)"
proof (cases "k < length (files_of p)")
  case True
  then show ?thesis
    using assms find_nth_unique [of "\<lambda>l. elf_id (loaded_elf l)" "loaded_elves (session p)" k]
    by (simp add: loaded_position_def files_numbered_def files_of_def loaded_elf_def comp_def)
next
  case False
  have "elf_id (loaded_elf (loaded_elves (session p) ! i)) = i" if "i < length (loaded_elves (session p))" for i
    using arg_cong [OF conjunct2 [OF assms(1) [unfolded files_numbered_def]], of "\<lambda>ys. ys ! i"] that
    by (simp add: files_of_def loaded_elf_def)
  with False assms(2) show ?thesis by (auto simp: loaded_position_def files_of_def find_None_iff)
qed

section \<open>A small system\<close>

definition quiet_kernel :: "unit mach" where
  "quiet_kernel = \<lparr>mach_native = darwin_arm64,
     vm_read = (\<lambda>w a n. Inr (replicate n 0)), vm_region = (\<lambda>w a. Inr \<lparr>rgn_start = a, rgn_size = 1, rgn_protection = 5\<rparr>),
     vm_protect = (\<lambda>w a k prot. (None, w)), vm_write = (\<lambda>w a bs. (None, w)),
     set_debug = (\<lambda>w port d. (None, w)), set_gprs = (\<lambda>w port bs. (None, w)), set_fprs = (\<lambda>w port bs. (None, w)),
     get_gprs = (\<lambda>w port. Inr (replicate 272 0)), get_fprs = (\<lambda>w port. Inr (replicate 528 0)), get_exception = (\<lambda>w port. None),
     suspend_thread = (\<lambda>w port. (None, w)), resume_thread = (\<lambda>w port. (None, w)),
     ptrace = (\<lambda>w req sig. (None, w)), wait_pid = (\<lambda>w. (Inr 0, w)),
     task_for_pid = (\<lambda>w k. (None, w)), task_threads = (\<lambda>w. Inr [(7, Some 1)]),
     deallocate_port = (\<lambda>w port. (None, w)), visit = (\<lambda>ts. ts)\<rparr>"

definition quiet_tools :: "unit tools" where
  "quiet_tools = \<lparr>tl_fuel = 8, tl_rounds = 8, tl_mach = on_kernel quiet_kernel, tl_compact = apple_abi, tl_order = (\<lambda>rs. rs),
     tl_llvm = \<lparr>llvm_ready = True, llvm_decode = (\<lambda>bs a. None)\<rparr>, tl_view = demo_view\<rparr>"

text \<open>The linker lists one image; its path is that of a file that is known already.\<close>

definition quiet_loader :: "unit loader" where
  "quiet_loader = \<lparr>lo_dyld_address = (\<lambda>d. Some 0x1000), lo_infos_size = 32, lo_notification = (\<lambda>bs. 0), lo_info_array = (\<lambda>bs. 0x2000),
     lo_info_count = (\<lambda>bs. 1), lo_image_size = 24, lo_image_path = (\<lambda>bs. 0x3000), lo_image_address = (\<lambda>bs. 0x100000000),
     lo_is_regular_file = (\<lambda>name. True), lo_canonical = (\<lambda>name. ''/tmp/a.out''), lo_files = demo_files, lo_abi = darwin_macho,
     lo_demangle = (\<lambda>_. None), lo_read_filetype = (\<lambda>bs. 2), lo_MH_EXECUTE = 2, lo_executable_path = (\<lambda>d. Inr ''/tmp/a.out''),
     lo_thread_callback = (\<lambda>r k. k)\<rparr>"

definition quiet_session :: "unit debugger process" where
  "quiet_session = (let p = demo_session [] in p\<lparr>world := (world p)\<lparr>loaded_elves :=
     [demo_file\<lparr>ld_dwarf := \<lparr>dw_elf = demo_elf\<lparr>elf_id := 0\<rparr>, dw_units = []\<rparr>\<rparr>]\<rparr>\<rparr>)"

lemma quiet_reload: "reload_dynamic_libraries quiet_tools quiet_loader quiet_session = (Inr (), quiet_session)"
proof -
  have known: "get_elf_by_path (all_elves quiet_session) ''/tmp/a.out'' = Some (demo_elf\<lparr>elf_id := 0\<rparr>)"
    by (simp add: quiet_session_def demo_session_def Let_def all_elves_def session_def loaded_elf_def get_elf_by_path_def demo_elf_def)
  have name: "read_string (tl_mach quiet_tools) quiet_session a = Inr []" for a
    using read_string_loop.simps(2) [of "tl_mach quiet_tools" quiet_session a 0 "1024 * 1024 - 1" "[]"]
    by (simp add: read_string_def quiet_tools_def on_kernel_def quiet_kernel_def read_memory_def)
  have bytes: "read_memory (tl_mach quiet_tools) quiet_session a n = Inr (replicate n 0)" for a n
    by (simp add: quiet_tools_def on_kernel_def quiet_kernel_def read_memory_def)
  have image: "load_image quiet_tools quiet_loader a i quiet_session = (Inr (), quiet_session)" for a i
    by (simp add: load_image_def read_struct_def op_simps name bytes) (simp add: quiet_loader_def known op_simps)
  have "breakpoints (session quiet_session) = []" "rendezvous_address (session quiet_session) = 0"
    by (simp_all add: quiet_session_def demo_session_def Let_def session_def)
  moreover have "lo_dyld_address quiet_loader d = Some 0x1000" "lo_notification quiet_loader bs = 0"
    "lo_info_array quiet_loader bs = 0x2000" "lo_info_count quiet_loader bs = 1" for d bs
    by (simp_all add: quiet_loader_def)
  ultimately show ?thesis
    by (simp add: reload_dynamic_libraries_def resolve_all_def read_struct_def watch_linker_def op_simps bytes image)
qed

section \<open>Properties\<close>

text \<open>
  C9: no object file is read twice, and none moves.  After a reload of the dynamic libraries, whether it returns or fails, the files that
  were known are known under the same numbers and new ones stand behind them; no two files have the same path, and an address that names a
  file by its number is found in that file before and after.
\<close>

theorem libraries_loaded_once:
  assumes "tl_mach T = on_kernel K" "files_numbered (files_of p)" "reload_dynamic_libraries T L p = (r, q)"
    "fa_elf a = Some k" "k < length (files_of p)"
  shows "files_numbered (files_of q) \<and> take (length (files_of p)) (files_of q) = files_of p \<and>
         loaded_position p a = Some k \<and> loaded_position q a = Some k"
proof -
  have "has_files (files_of p) p" using assms(2) by (simp add: has_files_def)
  then have "has_files (files_of p) q" by (rule preservesD [OF has_files_reload [OF assms(1)] _ assms(3)])
  then obtain new where "files_of q = files_of p @ new" "files_numbered (files_of q)" by (auto simp: has_files_def)
  with assms loaded_position_file [OF assms(2,4)] loaded_position_file [OF this(2) assms(4)] show ?thesis by simp
qed

theorem libraries_loaded_once_witness:
  "reload_dynamic_libraries quiet_tools quiet_loader quiet_session = (Inr (), quiet_session) \<and>
   loaded_position quiet_session \<lparr>fa_elf = Some 0, fa_addr = 0x100003010\<rparr> = Some 0"
proof -
  have "files_numbered (files_of quiet_session)" "length (files_of quiet_session) = 1"
    by (simp_all add: files_numbered_def files_of_def quiet_session_def demo_session_def Let_def session_def)
  moreover have "tl_mach quiet_tools = on_kernel quiet_kernel" by (simp add: quiet_tools_def)
  ultimately show ?thesis
    using libraries_loaded_once [OF _ _ quiet_reload, where a = "\<lparr>fa_elf = Some 0, fa_addr = 0x100003010\<rparr>"] quiet_reload by simp
qed
end
