(* ===== verification/Target.thy ===== *)
theory Target
  imports Loader
begin

text \<open>
  Starting a session and stepping through source code, the rest of class \<open>target\<close> that runs the process
  (\<^verbatim>\<open>src/src/target.cpp\<close>).  The loops that step until the source line changes have no bound in the program; here they run for at
  most \<open>tl_rounds\<close> rounds.  The members \<open>thread.state\<close> and \<open>stack\<close> that a step keeps are references into the tables of threads: using one
  after its thread is gone is undefined.
\<close>

section \<open>Running the process\<close>

definition target_resume :: "'k tools \<Rightarrow> 'k loader \<Rightarrow> int option \<Rightarrow> ('k, unit) dbg" where
  "target_resume T L = resume (tl_rounds T) (tl_fuel T) (tl_mach T) (target_hooks T L)"

definition target_wait :: "'k tools \<Rightarrow> 'k loader \<Rightarrow> ('k, stop_reason) dbg" where
  "target_wait T L = wait_on_signal (tl_rounds T) (tl_fuel T) (tl_mach T) (target_hooks T L)"

definition target_step :: "'k tools \<Rightarrow> 'k loader \<Rightarrow> int \<Rightarrow> ('k, stop_reason) dbg" where
  "target_step T L t = step_instruction (tl_rounds T) (tl_fuel T) (tl_mach T) (target_hooks T L) (Some t)"

definition target_launch :: "'k tools \<Rightarrow> 'k loader \<Rightarrow> ('k, unit) dbg" where
  "target_launch T L =
     op_bind (op_gets (\<lambda>p. lo_executable_path L (session p))) (\<lambda>found.
     op_bind (case found of Inl msg \<Rightarrow> op_send (''proc_pidpath: '' @ msg) | Inr path \<Rightarrow> op_return path) (\<lambda>path.
     op_bind (create_loaded_elf T L path) (\<lambda>obj.
     op_bind (make_target obj) (\<lambda>_.
     op_bind (op_lift (to_virt_addr (loaded_elf obj) (elf_file_addr (loaded_elf obj) (e_entry (loaded_elf obj))))) (\<lambda>entry.
     op_bind (create_breakpoint_site entry False True) (\<lambda>i.
     op_bind (enable_site (tl_fuel T) (tl_mach T) i) (\<lambda>_.
     op_bind (target_resume T L None) (\<lambda>_.
     op_bind (target_wait T L) (\<lambda>r.
     op_bind (remove_site_by_address (tl_fuel T) (tl_mach T) entry) (\<lambda>_.
     if reason r \<noteq> Stopped then op_send ''Program exited before its entry point'' else op_return ()))))))))))"

definition target_attach :: "'k tools \<Rightarrow> 'k loader \<Rightarrow> ('k, unit) dbg" where
  "target_attach T L =
     op_bind (op_gets (\<lambda>p. lo_executable_path L (session p))) (\<lambda>found.
     op_bind (case found of Inl msg \<Rightarrow> op_send (''proc_pidpath: '' @ msg) | Inr path \<Rightarrow> op_return path) (\<lambda>path.
     op_bind (create_loaded_elf T L path) (\<lambda>obj.
     op_bind (make_target obj) (\<lambda>_.
     op_bind (reload_dynamic_libraries T L) (\<lambda>_.
     op_bind (op_gets current_thread) (\<lambda>t.
     target_notify_stop T L (plain_reason t Stopped SIGSTOP)))))))"

section \<open>Source lines\<close>

text \<open>A row of a line table: the file and the unit it is from, and the iterator.  No row stands for the iterator past the end.\<close>

type_synonym line_place = "nat \<times> compile_unit \<times> line_iter"

definition line_entry_at_pc :: "'k tools \<Rightarrow> int option \<Rightarrow> ('k, line_place option) dbg" where
  "line_entry_at_pc T t =
     op_bind (get_pc_file_address T t) (\<lambda>pc.
     op_bind (op_gets (\<lambda>p. loaded_position p pc)) (\<lambda>file.
     case file of
       None \<Rightarrow> op_return None
     | Some i \<Rightarrow>
         op_bind (loaded_at i) (\<lambda>l.
         op_bind (op_lift (compile_unit_containing_address (ld_dwarf l) pc)) (\<lambda>cu.
         case cu of
           None \<Rightarrow> op_return None
         | Some u \<Rightarrow>
             (case unit_lines u of
                None \<Rightarrow> op_lift (undefined_behaviour ''null line table'')
              | Some tab \<Rightarrow>
                  op_bind (op_lift (get_entry_by_address (loaded_elf l) tab pc)) (\<lambda>(row, _).
                  op_return (case row of None \<Rightarrow> None | Some it \<Rightarrow> if li_pos it = None then None else Some (i, u, it))))))))"

text \<open>Pointers to file entries are equal when both are null or they point to the same entry of the same table.\<close>

definition same_file_entry :: "line_place \<Rightarrow> line_place \<Rightarrow> bool" where
  "same_file_entry = (\<lambda>(i, u, it) (i', u', it').
     le_file_entry (li_current it) = le_file_entry (li_current it') \<and>
     (le_file_entry (li_current it) = None \<or> i = i' \<and> unit_header u = unit_header u'))"

text \<open>The condition of the loops: the line is still the one the step began on, or there is no line here.\<close>

definition still_on_line :: "line_place option \<Rightarrow> line_place option \<Rightarrow> bool" where
  "still_on_line orig here =
     (case here of
        None \<Rightarrow> False
      | Some (i, u, it) \<Rightarrow>
          (case orig of
             None \<Rightarrow> False
           | Some (i0, u0, it0) \<Rightarrow>
               le_line (li_current it) = le_line (li_current it0) \<and> same_file_entry (i, u, it) (i0, u0, it0)) \<or>
          le_end_sequence (li_current it))"

section \<open>Stepping\<close>

definition step_reason :: "int \<Rightarrow> stop_reason" where
  "step_reason t = (plain_reason t Stopped SIGTRAP)\<lparr>trap_reason := Some Single_step\<rparr>"

definition set_thread_reason :: "int \<Rightarrow> stop_reason \<Rightarrow> ('k, unit) dbg" where
  "set_thread_reason t r =
     op_bind (op_gets (\<lambda>p. t \<in> fst ` set (stacks (session p)) \<and> t \<in> fst ` set (threads p))) (\<lambda>alive.
     if alive then modify_thread t (\<lambda>s. s\<lparr>thread_reason := r\<rparr>) else op_lift (undefined_behaviour ''thread destroyed''))"

definition finish_step :: "int \<Rightarrow> stop_reason \<Rightarrow> ('k, stop_reason) dbg" where
  "finish_step t r = op_bind (set_thread_reason t r) (\<lambda>_. op_return r)"

text \<open>The stack that a step holds a reference to.\<close>

definition live_stack :: "int \<Rightarrow> ('k, stack) dbg" where
  "live_stack t =
     op_bind (op_gets (\<lambda>p. map_of (stacks (session p)) t)) (\<lambda>found.
     case found of Some s \<Rightarrow> op_return s | None \<Rightarrow> op_lift (undefined_behaviour ''stack destroyed''))"

definition run_until_address :: "'k tools \<Rightarrow> 'k loader \<Rightarrow> u64 \<Rightarrow> int option \<Rightarrow> ('k, stop_reason) dbg" where
  "run_until_address T L a tid =
     op_bind (thread_or_current tid) (\<lambda>t.
     op_bind (op_gets (\<lambda>p. contains_address site_class a (breakpoint_sites p))) (\<lambda>there.
     op_bind (if there then op_return ()
              else op_bind (create_breakpoint_site a False True) (enable_site (tl_fuel T) (tl_mach T))) (\<lambda>_.
     op_bind (target_resume T L (Some t)) (\<lambda>_.
     op_bind (target_wait T L) (\<lambda>r.
     op_bind (if is_breakpoint r then op_bind (pc_of T (Some t)) (\<lambda>pc. op_return (pc = a)) else op_return False) (\<lambda>arrived.
     let r' = (if arrived then r\<lparr>trap_reason := Some Single_step\<rparr> else r) in
     op_bind (if there then op_return () else remove_site_by_address (tl_fuel T) (tl_mach T) a) (\<lambda>_.
     op_bind (stack_at t) (\<lambda>_.
     finish_step t r'))))))))"

fun step_in_loop :: "nat \<Rightarrow> 'k tools \<Rightarrow> 'k loader \<Rightarrow> int \<Rightarrow> line_place option \<Rightarrow> ('k, stop_reason option) dbg" where
  "step_in_loop 0 T L t orig = op_fail Out_Of_Fuel"
| "step_in_loop (Suc k) T L t orig =
     op_bind (target_step T L t) (\<lambda>r.
     if \<not> is_step r then op_return (Some r)
     else
       op_bind (line_entry_at_pc T (Some t)) (\<lambda>here.
       if still_on_line orig here then step_in_loop k T L t orig else op_return None))"

text \<open>After a step into a function the prologue is skipped: where it ends, if the step stopped at the start of a function.\<close>

definition prologue_end :: "'k tools \<Rightarrow> int \<Rightarrow> ('k, u64 option) dbg" where
  "prologue_end T t =
     op_bind (get_pc_file_address T (Some t)) (\<lambda>pc.
     op_bind (op_gets (\<lambda>p. loaded_position p pc)) (\<lambda>file.
     case file of
       None \<Rightarrow> op_return None
     | Some i \<Rightarrow>
         op_bind (with_index i (\<lambda>dw. function_containing_address (tl_fuel T) dw pc)) (\<lambda>func.
         op_bind (loaded_at i) (\<lambda>l.
         op_bind (op_lift (case func of None \<Rightarrow> Inr False
                           | Some d \<Rightarrow> bind_res (low_pc (loaded_elf l) d) (\<lambda>low. Inr (low = pc)))) (\<lambda>at_start.
         if \<not> at_start then op_return None
         else
           op_bind (line_entry_at_pc T None) (\<lambda>row.
           case row of
             None \<Rightarrow> op_return None
           | Some (j, u, it) \<Rightarrow>
               op_bind (loaded_at j) (\<lambda>m.
               op_lift (case unit_lines u of
                   None \<Rightarrow> undefined_behaviour ''null line table''
                 | Some tab \<Rightarrow>
                     bind_res (line_next (loaded_elf m) tab it) (\<lambda>(it', _).
                     bind_res (to_virt_addr (loaded_elf m) (le_address (li_current it'))) (\<lambda>a. Inr (Some a)))))))))))"

definition step_in :: "'k tools \<Rightarrow> 'k loader \<Rightarrow> int option \<Rightarrow> ('k, stop_reason) dbg" where
  "step_in T L tid =
     op_bind (thread_or_current tid) (\<lambda>t.
     op_bind (stack_at t) (\<lambda>s.
     if inline_height s > 0 then
       op_bind (modify_stack t simulate_inlined_step_in) (\<lambda>_. finish_step t (step_reason t))
     else
       op_bind (line_entry_at_pc T (Some t)) (\<lambda>orig.
       op_bind (step_in_loop (tl_rounds T) T L t orig) (\<lambda>stopped.
       case stopped of
         Some r \<Rightarrow> op_return r
       | None \<Rightarrow>
           op_bind (prologue_end T t) (\<lambda>skip.
           case skip of
             Some a \<Rightarrow> run_until_address T L a (Some t)
           | None \<Rightarrow> finish_step t (step_reason t))))))"

text \<open>An element of a vector by an index that is not checked.\<close>

definition vec_at :: "'a list \<Rightarrow> u64 \<Rightarrow> 'a result" where
  "vec_at xs i = (if unat i < length xs then Inr (xs ! unat i) else undefined_behaviour ''vector index out of range'')"

text \<open>The end of an inlined call, in the file of the program counter of its thread.\<close>

definition inlined_end :: "'k tools \<Rightarrow> int \<Rightarrow> die \<Rightarrow> ('k, u64) dbg" where
  "inlined_end T t d =
     op_bind (file_at_pc T t) (\<lambda>file.
     case file of
       None \<Rightarrow> op_lift (undefined_behaviour ''no file'')
     | Some i \<Rightarrow>
         op_bind (loaded_at i) (\<lambda>l.
         op_lift (bind_res (high_pc (loaded_elf l) d) (to_virt_addr (loaded_elf l)))))"

definition is_call :: "string \<Rightarrow> bool" where
  "is_call text \<longleftrightarrow> starts_with ''bl '' text \<or> starts_with ''blr '' text"

text \<open>One round of \<open>step_over\<close>; the result also says whether the step ends with it.\<close>

definition ran_to :: "'k tools \<Rightarrow> int \<Rightarrow> u64 \<Rightarrow> stop_reason \<Rightarrow> ('k, bool \<times> stop_reason) dbg" where
  "ran_to T t a r =
     (if \<not> is_step r then op_return (True, r)
      else op_bind (pc_of T (Some t)) (\<lambda>pc. op_return (pc \<noteq> a, r)))"

definition step_over_round :: "'k tools \<Rightarrow> 'k loader \<Rightarrow> int \<Rightarrow> ('k, bool \<times> stop_reason) dbg" where
  "step_over_round T L t =
     op_bind (live_stack t) (\<lambda>_.
     op_bind (inline_stack_at_pc T t) (\<lambda>inlined.
     op_bind (live_stack t) (\<lambda>s.
     if inline_height s > 0 then
       op_bind (op_lift (vec_at inlined (word_of_nat (length inlined) - ucast (inline_height s)))) (\<lambda>d.
       op_bind (inlined_end T t d) (\<lambda>a.
       op_bind (run_until_address T L a (Some t)) (ran_to T t a)))
     else
       op_bind (pc_of T (Some t)) (\<lambda>pc.
       op_bind (op_gets (\<lambda>p. disassemble (tl_mach T) (tl_llvm T) p 2 (Some pc))) (\<lambda>found.
       op_bind (op_lift found) (\<lambda>code.
       op_bind (op_lift (vec_at code 0)) (\<lambda>(_, text).
       if is_call text then
         op_bind (op_lift (vec_at code 1)) (\<lambda>(a, _).
         op_bind (run_until_address T L a None) (ran_to T t a))
       else op_bind (target_step T L t) (\<lambda>r. op_return (\<not> is_step r, r)))))))))"

fun step_over_loop :: "nat \<Rightarrow> 'k tools \<Rightarrow> 'k loader \<Rightarrow> int \<Rightarrow> line_place option \<Rightarrow> ('k, stop_reason) dbg" where
  "step_over_loop 0 T L t orig = op_fail Out_Of_Fuel"
| "step_over_loop (Suc k) T L t orig =
     op_bind (step_over_round T L t) (\<lambda>(ends, r).
     if ends then finish_step t r
     else
       op_bind (line_entry_at_pc T (Some t)) (\<lambda>here.
       if still_on_line orig here then step_over_loop k T L t orig else finish_step t r))"

definition step_over :: "'k tools \<Rightarrow> 'k loader \<Rightarrow> int option \<Rightarrow> ('k, stop_reason) dbg" where
  "step_over T L tid =
     op_bind (thread_or_current tid) (\<lambda>t.
     op_bind (stack_at t) (\<lambda>_.
     op_bind (line_entry_at_pc T (Some t)) (\<lambda>orig.
     step_over_loop (tl_rounds T) T L t orig)))"

definition frame_total :: "int \<Rightarrow> ('k, nat) dbg" where
  "frame_total t = op_bind (live_stack t) (\<lambda>s. op_lift (bind_res (visible_frames s) (\<lambda>fs. Inr (length fs))))"

fun step_out_loop :: "nat \<Rightarrow> 'k tools \<Rightarrow> 'k loader \<Rightarrow> int \<Rightarrow> u64 \<Rightarrow> nat \<Rightarrow> stop_reason \<Rightarrow> ('k, stop_reason) dbg" where
  "step_out_loop 0 T L t a frames r = op_fail Out_Of_Fuel"
| "step_out_loop (Suc k) T L t a frames r =
     op_bind (frame_total t) (\<lambda>n.
     if n < frames then op_return r
     else
       op_bind (run_until_address T L a (Some t)) (\<lambda>r'.
       op_bind (if is_breakpoint r' then op_bind (pc_of T None) (\<lambda>pc. op_return (pc = a)) else op_return False) (\<lambda>again.
       if again then step_out_loop k T L t a frames r' else op_return r')))"

definition step_out :: "'k tools \<Rightarrow> 'k loader \<Rightarrow> int option \<Rightarrow> ('k, stop_reason) dbg" where
  "step_out T L tid =
     op_bind (thread_or_current tid) (\<lambda>t.
     op_bind (stack_at t) (\<lambda>_.
     op_bind (inline_stack_at_pc T t) (\<lambda>inlined.
     op_bind (live_stack t) (\<lambda>s.
     if 1 < length inlined \<and> ucast (inline_height s) < (word_of_nat (length inlined) - 1 :: u64) then
       op_bind (op_lift (vec_at inlined (word_of_nat (length inlined) - ucast (inline_height s) - 1))) (\<lambda>d.
       op_bind (inlined_end T t d) (\<lambda>a.
       run_until_address T L a (Some t)))
     else
       op_bind (op_lift (bind_res (visible_frames s) (\<lambda>fs. vec_at fs (current_frame_index s + 1)))) (\<lambda>f.
       op_bind (op_lift (read_by_id_as_u64 (mach_native (tl_mach T)) (fr_regs f) PC)) (\<lambda>a.
       op_bind (frame_total t) (\<lambda>frames.
       step_out_loop (tl_rounds T) T L t a frames (plain_reason 0 Stopped 0))))))))"

section \<open>Names of functions\<close>

definition function_name_at_address :: "'k tools \<Rightarrow> u64 \<Rightarrow> ('k, string) dbg" where
  "function_name_at_address T a =
     op_bind (op_gets (\<lambda>p. to_file_addr_in (all_elves p) a)) (\<lambda>fa.
     op_bind (op_gets (\<lambda>p. loaded_position p fa)) (\<lambda>file.
     case file of
       None \<Rightarrow> op_return ''''
     | Some i \<Rightarrow>
         op_bind (with_index i (\<lambda>dw. function_containing_address (tl_fuel T) dw fa)) (\<lambda>func.
         op_bind (loaded_at i) (\<lambda>l.
         let obj = loaded_elf l in
         op_bind (op_lift (case func of None \<Rightarrow> Inr None | Some d \<Rightarrow> die_name (tl_fuel T) obj (dw_headers (ld_dwarf l)) d)) (\<lambda>name.
         op_bind (op_lift (case name of
             Some s \<Rightarrow> Inr s
           | None \<Rightarrow>
               (case get_symbol_containing_address obj fa of
                  Some elf_func \<Rightarrow> if st_info elf_func AND 0xf = STT_FUNC then get_string obj (st_name elf_func) else Inr ''''
                | None \<Rightarrow> Inr ''''))) (\<lambda>s.
         op_return (if s = '''' then '''' else path_filename (elf_path obj) @ ''`'' @ s)))))))"
end
