(* ===== verification/Stepping.thy ===== *)
theory Stepping
  imports Target
begin

text \<open>
  What stepping does to the table of breakpoint sites and to the stop it reports.  The run control of \<open>Process_Control\<close> and the reactions
  of the target to a stop (\<open>Loader\<close>) are followed together: neither puts two sites at one address, so that the temporary site that
  \<open>run_until_address\<close> takes away is the one it made.
\<close>

section \<open>One site per address\<close>

definition one_site_each :: "'w process \<Rightarrow> bool" where
  "one_site_each p \<longleftrightarrow> distinct (map site_address (breakpoint_sites p))"

named_theorems one_site \<open>operations that keep the sites at different addresses\<close>

lemma one_site_modify [one_site]:
  "(\<And>p. breakpoint_sites (g p) = breakpoint_sites p) \<Longrightarrow> preserves one_site_each (op_modify g)"
  by (rule preserves_modify) (simp add: one_site_each_def)

lemma one_site_dbg [one_site]: "preserves one_site_each (dbg_modify g)"
  unfolding dbg_modify_def by (rule one_site_modify) simp

lemma one_site_world: "one_site_each p \<Longrightarrow> one_site_each (p\<lparr>world := w\<rparr>)"
  by (simp add: one_site_each_def)

lemmas one_site_calls [one_site] = preserves_call [of one_site_each, OF one_site_world]

lemma one_site_toggle [one_site]:
  "preserves one_site_each (enable_site k K i)" "preserves one_site_each (disable_site k K i)"
  unfolding preserves_def one_site_each_def
  using preservesD [OF same_addresses_toggle(1)] preservesD [OF same_addresses_toggle(2)]
  by (metis prod.collapse same_addresses_def)+

lemma one_site_push:
  assumes "\<not> contains_address site_class (site_address s) (breakpoint_sites p)" "one_site_each p"
  shows "one_site_each (snd (push_site s p))"
  using site_coll.push_distinct [OF assms(2) [unfolded one_site_each_def] assms(1)]
  by (simp add: push_site_def op_simps one_site_each_def)

lemma one_site_id: "one_site_each p \<Longrightarrow> one_site_each (p\<lparr>last_site_id := k\<rparr>)"
  by (simp add: one_site_each_def)

lemma one_site_create [one_site]:
  "preserves one_site_each (create_parent_site key k a hw intl)" "preserves one_site_each (create_breakpoint_site a hw intl)"
proof -
  show "preserves one_site_each (create_parent_site key k a hw intl)"
    by (auto simp: preserves_def create_parent_site_def op_simps new_site_def intro!: one_site_push)
  show "preserves one_site_each (create_breakpoint_site a hw intl)"
    by (auto simp: preserves_def create_breakpoint_site_def op_simps new_site_def split: sum.splits intro!: one_site_push one_site_id)
qed

lemma one_site_remove [one_site]: "preserves one_site_each (remove_site_by_address n K a)"
proof -
  have "preserves one_site_each (op_modify (update_sites (erase i)))" for i
    by (rule preserves_modify) (simp add: one_site_each_def update_sites_def distinct_erase)
  then show ?thesis
    unfolding remove_site_by_address_def remove_by_address_def remove_found_def by (auto intro!: preserves_bind one_site_toggle)
qed

section \<open>Run control\<close>

lemma one_site_thread [one_site]: "preserves one_site_each (modify_thread t f)"
  unfolding modify_thread_def by (auto intro!: preserves_bind one_site)

lemma one_site_reads [one_site]:
  "preserves one_site_each (pc_op K t)" "preserves one_site_each (enabled_site_op a)" "preserves one_site_each (site_at_op a)"
  "preserves one_site_each (port_op t)"
  unfolding pc_op_def enabled_site_op_def site_at_op_def port_op_def by (auto intro!: preserves_bind)

lemma one_site_registers [one_site]: "preserves one_site_each (read_all_registers K t)"
  unfolding read_all_registers_def put_user_def by (auto intro!: preserves_bind one_site split: sum.splits)

lemma one_site_classify [one_site]: "preserves one_site_each (classify_trap K r)"
proof -
  have "preserves one_site_each (check_watchpoint K far i)" for far i
    unfolding check_watchpoint_def modify_watchpoint_def by (auto intro!: preserves_bind one_site)
  then have "preserves one_site_each (check_exception K t r)" for t r
    unfolding check_exception_def Let_def by (auto intro!: preserves_bind preserves_each one_site split: option.splits)
  then have "preserves one_site_each (check_exceptions K ts r)" for ts r
    by (induction ts arbitrary: r) (auto intro!: preserves_bind)
  moreover have "preserves one_site_each (find_breakpoint_hit K ts r)" for ts r
    by (induction ts arbitrary: r) (auto intro!: preserves_bind one_site)
  ultimately show ?thesis unfolding classify_trap_def by (auto intro!: preserves_bind one_site)
qed

text \<open>The owner of the process keeps the table when it is told of something.\<close>

definition hooks_keep_sites :: "'w hooks \<Rightarrow> bool" where
  "hooks_keep_sites H \<longleftrightarrow>
     (\<forall>r. preserves one_site_each (notify_stop H r)) \<and> (\<forall>r. preserves one_site_each (notify_thread H r)) \<and>
     (\<forall>b. preserves one_site_each (notify_hit H b))"

lemma one_site_hooks:
  assumes "hooks_keep_sites H"
  shows "preserves one_site_each (notify_stop H r)" "preserves one_site_each (notify_thread H r)"
    "preserves one_site_each (notify_hit H b)"
  using assms by (simp_all add: hooks_keep_sites_def)

lemma one_site_populate:
  assumes "hooks_keep_sites H"
  shows "preserves one_site_each (populate_existing_threads K H)"
proof -
  have "preserves one_site_each (add_thread K H t port)" for t port
    unfolding add_thread_def by (auto intro!: preserves_bind one_site one_site_hooks [OF assms])
  then have "preserves one_site_each (see_thread K H x)" for x
    unfolding see_thread_def Let_def by (auto intro!: preserves_bind one_site split: prod.splits option.splits)
  then have see: "preserves one_site_each (see_threads K H xs live)" for xs live
    by (induction xs arbitrary: live) (auto intro!: preserves_bind)
  have "preserves one_site_each (drop_thread K H x)" for x
    unfolding drop_thread_def by (auto intro!: preserves_bind one_site one_site_hooks [OF assms] split: prod.splits)
  then show ?thesis
    unfolding populate_existing_threads_def
    by (auto intro!: preserves_bind preserves_each one_site see split: prod.splits sum.splits)
qed

lemma one_site_receive:
  assumes "hooks_keep_sites H"
  shows "preserves one_site_each (receive_stop K H)" "preserves one_site_each (hit_resumes K H r)"
    "preserves one_site_each (finish_tracing H)"
proof -
  have "preserves one_site_each (\<lambda>p. case wait_pid K (world p) of (r, w) \<Rightarrow>
      (case r of Inl msg \<Rightarrow> send (''waitpid: '' @ msg) | Inr s \<Rightarrow> Inr s, p\<lparr>world := w\<rparr>))"
    by (auto simp: preserves_def one_site_each_def split: prod.splits)
  then show "preserves one_site_each (receive_stop K H)"
    unfolding receive_stop_def record_stop_def
    by (auto intro!: preserves_bind one_site one_site_populate [OF assms])
  show "preserves one_site_each (hit_resumes K H r)" "preserves one_site_each (finish_tracing H)"
    unfolding hit_resumes_def finish_tracing_def
    by (auto intro!: preserves_bind one_site one_site_hooks [OF assms] split: option.splits)
qed

lemma one_site_step [one_site]: "preserves one_site_each (begin_step k K t)" "preserves one_site_each (end_step k K t x)"
proof -
  show "preserves one_site_each (begin_step k K t)"
    unfolding begin_step_def suspend_others_def Let_def by (auto intro!: preserves_bind preserves_each one_site)
  have "preserves one_site_each (reenable k K b)" for b
    unfolding reenable_def by (auto intro!: preserves_bind one_site split: option.splits sum.splits)
  then show "preserves one_site_each (end_step k K t x)"
    unfolding end_step_def by (auto intro!: preserves_bind preserves_each one_site split: prod.splits)
qed

lemma one_site_tracing [one_site]:
  "preserves one_site_each (syscall_here K t)" "preserves one_site_each (queue_entry K t s)" "preserves one_site_each (queue_exit K t s)"
  "preserves one_site_each (send_continue K)"
  unfolding syscall_here_def queue_entry_def queue_exit_def send_continue_def by (auto intro!: preserves_bind one_site)

definition calls_keep_sites :: "'w calls \<Rightarrow> bool" where
  "calls_keep_sites c \<longleftrightarrow>
     preserves one_site_each (c_wait_loop c) \<and> (\<forall>t. preserves one_site_each (c_resume c t)) \<and>
     (\<forall>t. preserves one_site_each (c_trace c t)) \<and> (\<forall>t. preserves one_site_each (c_step c t))"

lemma one_site_bodies:
  assumes "hooks_keep_sites H" "calls_keep_sites c"
  shows "preserves one_site_each (wait_body c)" "preserves one_site_each (wait_loop_body K H c)"
    "preserves one_site_each (resume_body K H c tid)" "preserves one_site_each (trace_body K c t)"
    "preserves one_site_each (step_body k K c tid)"
proof -
  note c = assms(2) [unfolded calls_keep_sites_def]
  note step = preserves_bind preserves_catch one_site one_site_receive [OF assms(1)] one_site_hooks [OF assms(1)] c [THEN conjunct1]
    c [THEN conjunct2, THEN conjunct1, rule_format] c [THEN conjunct2, THEN conjunct2, THEN conjunct1, rule_format]
    c [THEN conjunct2, THEN conjunct2, THEN conjunct2, rule_format]
  show wait: "preserves one_site_each (wait_body c)"
    unfolding wait_body_def by (auto intro!: step split: option.splits)
  show "preserves one_site_each (wait_loop_body K H c)" "preserves one_site_each (resume_body K H c tid)"
    unfolding wait_loop_body_def resume_body_def step_over_breakpoint_def by (auto intro!: step)
  show "preserves one_site_each (trace_body K c t)"
    unfolding trace_body_def by (auto intro!: step split: prod.splits)
  show "preserves one_site_each (step_body k K c tid)"
    unfolding step_body_def by (auto intro!: step wait)
qed

lemma control_keeps_sites: "hooks_keep_sites H \<Longrightarrow> calls_keep_sites (control n k K H)"
proof (induction n)
  case (Suc n)
  from one_site_bodies [OF Suc.prems Suc.IH [OF Suc.prems]] show ?case by (simp add: calls_keep_sites_def Let_def)
qed (simp add: calls_keep_sites_def)

section \<open>The target\<close>

lemma one_site_session [one_site]:
  "preserves one_site_each (with_index i f)" "preserves one_site_each (loaded_at i)" "preserves one_site_each (breakpoint_with key)"
  "preserves one_site_each (modify_breakpoint key g)" "preserves one_site_each (site_of a)" "preserves one_site_each (pc_of T t)"
  "preserves one_site_each (get_pc_file_address T t)" "preserves one_site_each (stack_at tid)" "preserves one_site_each (modify_stack tid h)"
proof -
  show "preserves one_site_each (with_index i f)"
    by (auto simp: preserves_def with_index_def Let_def one_site_each_def split: prod.splits)
  show "preserves one_site_each (loaded_at i)" "preserves one_site_each (breakpoint_with key)" "preserves one_site_each (site_of a)"
    "preserves one_site_each (pc_of T t)" "preserves one_site_each (get_pc_file_address T t)" "preserves one_site_each (stack_at tid)"
    unfolding loaded_at_def breakpoint_with_def site_of_def pc_of_def get_pc_file_address_def stack_at_def
    by (auto intro!: preserves_bind split: option.splits sum.splits)
  show "preserves one_site_each (modify_breakpoint key g)" "preserves one_site_each (modify_stack tid h)"
    unfolding modify_breakpoint_def modify_stack_def stack_at_def by (auto intro!: preserves_bind one_site_dbg)
qed

lemma one_site_breakpoints [one_site]:
  "preserves one_site_each (resolve_breakpoint T key)" "preserves one_site_each (enable_breakpoint T key)"
  "preserves one_site_each (create_breakpoint T kind hw intl)"
proof -
  have find: "preserves one_site_each (find_functions_in T name is acc)" for name "is" acc
    by (induction "is" arbitrary: acc) (auto intro!: preserves_bind one_site)
  show resolve: "preserves one_site_each (resolve_breakpoint T key)" for key
  proof -
    have place: "preserves one_site_each (place_site T key a)" for a
      unfolding place_site_def by (auto intro!: preserves_bind one_site)
    have one: "preserves one_site_each (resolve_dwarf_function T key x)" "preserves one_site_each (resolve_elf_function T key y)"
      "preserves one_site_each (resolve_line_entry T key z)" for x y z
      unfolding resolve_dwarf_function_def resolve_elf_function_def resolve_line_entry_def
      by (auto intro!: preserves_bind one_site place split: prod.splits)
    show ?thesis
      unfolding resolve_breakpoint_def resolve_address_def resolve_function_def resolve_line_def target_find_functions_def
        get_line_entries_by_line_def file_positions_def
      by (auto intro!: preserves_bind preserves_each one_site place find one split: breakpoint_kind.splits)
  qed
  show "preserves one_site_each (enable_breakpoint T key)"
    unfolding enable_breakpoint_def by (auto intro!: preserves_bind preserves_each one_site)
  show "preserves one_site_each (create_breakpoint T kind hw intl)"
    unfolding create_breakpoint_def breakpoint_number_def
    by (auto intro!: preserves_bind preserves_catch one_site resolve)
qed

lemma one_site_reload [one_site]: "preserves one_site_each (reload_dynamic_libraries T L)"
proof -
  have "preserves one_site_each (load_image T L a i)" for a i
    unfolding load_image_def read_struct_def by (auto intro!: preserves_bind one_site)
  moreover have "preserves one_site_each (watch_linker T a)" for a
    unfolding watch_linker_def Let_def by (auto intro!: preserves_bind one_site)
  ultimately show ?thesis
    unfolding reload_dynamic_libraries_def resolve_all_def read_struct_def
    by (auto intro!: preserves_bind preserves_each one_site split: option.splits)
qed

lemma one_site_frames [one_site]:
  "preserves one_site_each (push_frame t f)" "preserves one_site_each (modify_last_frame t g)"
  "preserves one_site_each (create_base_frame t dw regs ds pc inl)" "preserves one_site_each (create_inline_stack_frames t dw regs ds)"
  "preserves one_site_each (unwind_last_frame T t i pc)"
proof -
  show frames: "preserves one_site_each (push_frame t f)" "preserves one_site_each (modify_last_frame t g)" for f g
    unfolding push_frame_def modify_last_frame_def by (auto intro!: one_site)
  show "preserves one_site_each (create_base_frame t dw regs ds pc inl)"
    unfolding create_base_frame_def locate_base_frame_def by (auto intro!: preserves_bind frames split: option.splits)
  show "preserves one_site_each (create_inline_stack_frames t dw regs ds)"
    unfolding create_inline_stack_frames_def create_caller_frame_def
    by (auto intro!: preserves_each preserves_bind frames split: prod.splits)
  show "preserves one_site_each (unwind_last_frame T t i pc)"
    unfolding unwind_last_frame_def by (auto intro!: preserves_bind one_site frames split: prod.splits)
qed

lemma one_site_unwind_loop: "preserves one_site_each (unwind_loop k T t regs v f)"
proof (induction k arbitrary: regs v f)
  case (Suc k)
  show ?case
    unfolding unwind_loop.simps by (auto intro!: preserves_bind one_site Suc split: option.splits)
qed simp

lemma one_site_unwind [one_site]: "preserves one_site_each (stack_unwind T t)"
proof -
  have count: "preserves one_site_each (count_inlined t obj pc ds)" for obj pc ds
    by (induction ds) (auto intro!: preserves_bind one_site)
  have "preserves one_site_each (reset_inline_height T t)"
    unfolding reset_inline_height_def inline_stack_at_pc_def file_at_pc_def
    by (auto intro!: preserves_bind one_site count split: option.splits)
  then show ?thesis
    unfolding stack_unwind_def by (auto intro!: preserves_bind one_site one_site_unwind_loop)
qed

lemma target_hooks_keep_sites: "hooks_keep_sites (target_hooks T L)"
  unfolding hooks_keep_sites_def target_hooks_def
  by (auto simp: target_notify_stop_def report_thread_lifecycle_event_def notify_thread_lifecycle_event_def breakpoint_notify_hit_def intro!: preserves_bind one_site)

lemma one_site_run [one_site]:
  "preserves one_site_each (target_resume T L t)" "preserves one_site_each (target_wait T L)" "preserves one_site_each (target_step T L tid)"
proof -
  note c = control_keeps_sites [OF target_hooks_keep_sites, of "tl_rounds T" "tl_fuel T" "tl_mach T" T L]
  from c show "preserves one_site_each (target_resume T L t)" "preserves one_site_each (target_step T L tid)"
    by (simp_all add: target_resume_def target_step_def resume_def step_instruction_def calls_keep_sites_def)
  show "preserves one_site_each (target_wait T L)"
    unfolding target_wait_def wait_on_signal_def by (rule one_site_bodies(1) [OF target_hooks_keep_sites c])
qed

section \<open>The registers of the threads\<close>

definition thread_registers :: "(int \<times> registers) list \<Rightarrow> 'w process \<Rightarrow> bool" where
  "thread_registers R p \<longleftrightarrow> map (\<lambda>(t, s). (t, thread_regs s)) (threads p) = R"

interpretation register_frame: stoppoint_frame K "thread_registers R"
  by unfold_locales (simp_all add: thread_registers_def)

lemma registers_at_table: "thread_registers R p \<Longrightarrow> registers_at p t = map_at (map_of R) t"
  by (auto simp: thread_registers_def registers_at_def map_of_map [of thread_regs] split: option.splits)

lemma get_pc_table: "thread_registers R p \<Longrightarrow> thread_registers R q \<Longrightarrow> get_pc K p (Some t) = get_pc K q (Some t)"
  by (simp add: get_pc_def get_registers_def registers_at_table)

lemma registers_remove: "preserves (thread_registers R) (remove_site_by_address n K a)"
proof -
  have "preserves (thread_registers R) (op_modify (update_sites f))" for f :: "breakpoint_site list \<Rightarrow> breakpoint_site list"
    by (rule preserves_modify) (simp add: thread_registers_def update_sites_def)
  then show ?thesis
    unfolding remove_site_by_address_def remove_by_address_def remove_found_def
    by (auto intro!: preserves_bind register_frame.toggle)
qed

lemma registers_finish: "preserves (thread_registers R) (finish_step t r)"
proof -
  have "preserves (thread_registers R) (modify_thread t (\<lambda>s. s\<lparr>thread_reason := r\<rparr>))"
    unfolding modify_thread_def
    by (intro preserves_bind preserves_basic preserves_modify) (auto simp: thread_registers_def intro!: map_cong)
  then show ?thesis unfolding finish_step_def set_thread_reason_def by (auto intro!: preserves_bind)
qed

lemma finish_step_Inr:
  assumes "finish_step t r p = (Inr r', q)"
  shows "r' = r \<and> breakpoint_sites q = breakpoint_sites p \<and> current_thread q = current_thread p"
  using assms
  by (auto simp: finish_step_def set_thread_reason_def modify_thread_def op_bind_Inr_iff op_basic split: if_splits)

section \<open>Running to an address\<close>

lemma remove_site_gone:
  assumes "one_site_each p" "remove_site_by_address n K a p = (Inr (), q)"
  shows "\<not> contains_address site_class a (breakpoint_sites q)"
proof -
  let ?i = "find_by_address site_class a (breakpoint_sites p)"
  obtain u where i: "?i < length (breakpoint_sites p)" and u: "disable_site n K ?i p = (Inr (), u)" and q: "q = update_sites (erase ?i) u"
    using assms(2)
    by (auto simp: remove_site_by_address_def remove_by_address_def remove_found_def op_bind_Inr_iff op_basic split: if_splits)
  have same: "map site_address (breakpoint_sites u) = map site_address (breakpoint_sites p)"
    using preservesD [OF same_addresses_toggle(2) _ u, of "run_state p"] by (simp add: same_addresses_def)
  then have len: "length (breakpoint_sites u) = length (breakpoint_sites p)" by (metis length_map)
  have "site_address (breakpoint_sites p ! ?i) = a"
    using i find_if_found [of "\<lambda>s. sp_at_address site_class s a"] by (simp add: find_by_address_def site_class_def)
  then have "site_address (breakpoint_sites u ! ?i) = a" using same i len by (metis nth_map)
  with set_erase_distinct [of site_address "breakpoint_sites u" ?i] assms(1) same i len q show ?thesis
    by (auto simp: site_coll.contains_address_iff update_sites_def one_site_each_def)
qed

lemma run_until_parts:
  assumes "run_until_address T L a tid p = (Inr r, q)"
  obtains t u v r0 where "t = (case tid of Some k \<Rightarrow> k | None \<Rightarrow> current_thread p)"
    "(if contains_address site_class a (breakpoint_sites p) then op_return ()
      else remove_site_by_address (tl_fuel T) (tl_mach T) a) u = (Inr (), v)"
    "finish_step t r v = (Inr r, q)" "one_site_each p \<Longrightarrow> one_site_each u"
    "r = (if is_breakpoint r0 \<and> get_pc (tl_mach T) u (Some t) = Inr a then r0\<lparr>trap_reason := Some Single_step\<rparr> else r0)"
proof -
  let ?t = "case tid of Some k \<Rightarrow> k | None \<Rightarrow> current_thread p"
  obtain p1 p2 u w v r0 arrived where
    p1: "(if contains_address site_class a (breakpoint_sites p) then op_return ()
      else op_bind (create_breakpoint_site a False True) (enable_site (tl_fuel T) (tl_mach T))) p = (Inr (), p1)" and
    p2: "target_resume T L (Some ?t) p1 = (Inr (), p2)" and u: "target_wait T L p2 = (Inr r0, u)" and
    ar: "(if is_breakpoint r0 then op_bind (pc_of T (Some ?t)) (\<lambda>pc. op_return (pc = a)) else op_return False) u = (Inr arrived, w)" and
    v: "(if contains_address site_class a (breakpoint_sites p) then op_return ()
      else remove_site_by_address (tl_fuel T) (tl_mach T) a) w = (Inr (), v)" and
    q: "finish_step ?t (if arrived then r0\<lparr>trap_reason := Some Single_step\<rparr> else r0) v = (Inr r, q)"
    using assms
    by (auto simp: run_until_address_def Let_def op_bind_Inr_iff thread_or_current_def stack_at_def op_basic)
  have arrived: "w = u \<and> (arrived \<longleftrightarrow> is_breakpoint r0 \<and> get_pc (tl_mach T) u (Some ?t) = Inr a)"
    using ar by (auto simp: pc_of_def op_bind_Inr_iff op_basic split: if_splits)
  have "preserves one_site_each (if contains_address site_class a (breakpoint_sites p) then op_return ()
      else op_bind (create_breakpoint_site a False True) (enable_site (tl_fuel T) (tl_mach T)))"
    by (auto intro!: preserves_bind one_site)
  then have "one_site_each u" if "one_site_each p"
    using that p1 p2 u preservesD one_site_run by metis
  moreover have "r = (if arrived then r0\<lparr>trap_reason := Some Single_step\<rparr> else r0)" using finish_step_Inr [OF q] by simp
  ultimately show ?thesis using that [of ?t u v r0] v q arrived by auto
qed

lemma run_until_not_there:
  assumes "run_until_address T L a (Some t) p = (Inr r, q)" "is_breakpoint r"
  shows "get_pc (tl_mach T) q (Some t) \<noteq> Inr a"
proof -
  obtain u v r0 where
    v: "(if contains_address site_class a (breakpoint_sites p) then op_return ()
      else remove_site_by_address (tl_fuel T) (tl_mach T) a) u = (Inr (), v)" and
    q: "finish_step t r v = (Inr r, q)" and
    r: "r = (if is_breakpoint r0 \<and> get_pc (tl_mach T) u (Some t) = Inr a then r0\<lparr>trap_reason := Some Single_step\<rparr> else r0)"
    using assms(1) by (rule run_until_parts) simp
  from r assms(2) have not_there: "get_pc (tl_mach T) u (Some t) \<noteq> Inr a" by (auto simp: is_breakpoint_def split: if_splits)
  define R where "R = map (\<lambda>(t, s). (t, thread_regs s)) (threads u)"
  have "thread_registers R u" by (simp add: thread_registers_def R_def)
  moreover have "preserves (thread_registers R) (if contains_address site_class a (breakpoint_sites p) then op_return ()
      else remove_site_by_address (tl_fuel T) (tl_mach T) a)"
    by (simp add: registers_remove)
  ultimately have "thread_registers R v" using v preservesD by metis
  then have "thread_registers R q" by (rule preservesD [OF registers_finish _ q])
  with not_there \<open>thread_registers R u\<close> show ?thesis by (metis get_pc_table)
qed

section \<open>A session that stops at once\<close>

text \<open>A thread stands at 0x1000, and a stop at a breakpoint waits to be reported.\<close>

definition stop_pending :: stop_reason where
  "stop_pending = (plain_reason 1 Stopped SIGTRAP)\<lparr>trap_reason := Some Software_break\<rparr>"

definition stepping_session :: "stack \<Rightarrow> unit debugger process" where
  "stepping_session s = (demo_session [s])\<lparr>
     threads := [(1, (new_thread demo_kernel 1)\<lparr>thread_regs := demo_stop_regs\<rparr>)], queued_stop := Some stop_pending\<rparr>"

lemmas stepping_simps = op_simps stepping_session_def demo_session_def session_def quiet_tools_def on_kernel_def quiet_kernel_def
  keep_session_def demo_pc get_pc_def get_registers_def registers_at_def new_site_def new_thread_def pc_op_def enabled_site_op_def
  enabled_stoppoint_at_address_def site_coll.contains_address_iff checked_call_def sys_call_def check_def

lemma stepping_pc: "get_pc (tl_mach quiet_tools) (stepping_session s) (Some 1) = Inr 0x1000"
  by (simp add: stepping_simps)

lemma stepping_created:
  "create_breakpoint_site 0x2000 False True (stepping_session s) =
     (Inr 0, (stepping_session s)\<lparr>breakpoint_sites := [new_site None (-1) 0x2000 False True]\<rparr>)"
  by (simp add: create_breakpoint_site_def push_site_def push_def stepping_simps)

lemma quiet_write: "length bs \<le> 4 \<Longrightarrow> write_memory 8 (on_kernel quiet_kernel) a bs p = (Inr (), p)"
proof -
  have "write_memory_loop (Suc n) (on_kernel quiet_kernel) a bs off p = (Inr (), p)" if "length bs - off \<le> n" for n off
    using that
  proof (induction n arbitrary: off)
    case (Suc n)
    show ?case
    proof (cases "off < length bs")
      case True
      have chunk: "write_chunk (on_kernel quiet_kernel) at bs off \<lparr>rgn_start = at, rgn_size = 1, rgn_protection = 5\<rparr> p = (Inr (Suc off), p)" for at
        using True by (auto simp: write_chunk_def Let_def VM_PROT_WRITE_def stepping_simps min_def)
      moreover have "vm_region (on_kernel quiet_kernel) d at = Inr \<lparr>rgn_start = at, rgn_size = 1, rgn_protection = 5\<rparr>" for d at
        by (simp add: on_kernel_def quiet_kernel_def)
      moreover have "write_memory_loop (Suc n) (on_kernel quiet_kernel) a bs (Suc off) p = (Inr (), p)"
        using Suc.prems by (intro Suc.IH) simp
      ultimately show ?thesis
        using True by (subst write_memory_loop.simps(2)) (simp add: Let_def op_simps del: write_memory_loop.simps)
    qed (simp add: op_simps)
  qed (simp add: op_simps)
  from this [of 0 7] show "length bs \<le> 4 \<Longrightarrow> ?thesis" by (simp add: write_memory_def numeral_eq_Suc)
qed

lemma stepping_enabled:
  "\<exists>q. enable_site 8 (on_kernel quiet_kernel) 0 ((stepping_session s)\<lparr>breakpoint_sites := [new_site None (-1) 0x2000 False True]\<rparr>) =
     (Inr (), q) \<and> q = (stepping_session s)\<lparr>breakpoint_sites := [(new_site None (-1) 0x2000 False True)\<lparr>site_enabled := True\<rparr>]\<rparr>"
proof -
  let ?p = "(stepping_session s)\<lparr>breakpoint_sites := [new_site None (-1) 0x2000 False True]\<rparr>"
  have read: "read_memory_as_u32 (on_kernel quiet_kernel) p a = Inr 0" for p a
    by (simp add: read_memory_as_u32_def read_memory_def on_kernel_def quiet_kernel_def le_word_def from_bytes_def numeral_eq_Suc)
  show ?thesis
    by (simp add: enable_site_def insert_trap_def modify_site_def op_simps new_site_def read quiet_write)
qed

definition stepping_armed :: "stack \<Rightarrow> unit debugger process" where
  "stepping_armed s = (stepping_session s)\<lparr>breakpoint_sites := [(new_site None (-1) 0x2000 False True)\<lparr>site_enabled := True\<rparr>]\<rparr>"

lemma stepping_resume:
  "\<exists>q. target_resume quiet_tools quiet_loader (Some 1) (stepping_armed s) = (Inr (), q) \<and> queued_stop q = Some stop_pending \<and>
     breakpoint_sites q = breakpoint_sites (stepping_armed s) \<and> stacks (session q) = [(1, s)] \<and>
     threads q = [(1, (new_thread demo_kernel 1)\<lparr>thread_regs := demo_stop_regs, thread_run_state := Running\<rparr>)] \<and> current_thread q = 1"
proof -
  have 8: "tl_rounds quiet_tools = Suc 7" by (simp add: quiet_tools_def)
  show ?thesis
    unfolding target_resume_def resume_def 8 control.simps Let_def resume_body_def step_over_breakpoint_def send_continue_def
    by (simp add: stepping_armed_def stepping_simps catch_none_def)
qed

lemma stepping_runs:
  "\<exists>q. run_until_address quiet_tools quiet_loader 0x2000 (Some 1) (stepping_session s) = (Inr stop_pending, q) \<and> current_thread q = 1 \<and>
     get_pc (tl_mach quiet_tools) q (Some 1) = Inr 0x1000"
proof -
  obtain u where u: "target_resume quiet_tools quiet_loader (Some 1) (stepping_armed s) = (Inr (), u)" "queued_stop u = Some stop_pending"
    "breakpoint_sites u = breakpoint_sites (stepping_armed s)" "stacks (session u) = [(1, s)]"
    "threads u = [(1, (new_thread demo_kernel 1)\<lparr>thread_regs := demo_stop_regs, thread_run_state := Running\<rparr>)]" "current_thread u = 1"
    using stepping_resume by blast
  let ?v = "u\<lparr>queued_stop := None\<rparr>"
  have wait: "target_wait quiet_tools quiet_loader u = (Inr stop_pending, ?v)"
    using u(2) by (simp add: target_wait_def wait_on_signal_def wait_body_def op_simps)
  have pc: "get_pc (tl_mach quiet_tools) p (Some 1) = Inr 0x1000"
    if "map (\<lambda>(t, s). (t, thread_regs s)) (threads p) = [(1, demo_stop_regs)]" for p
    using registers_at_table [of "[(1, demo_stop_regs)]" p 1] that
    by (simp add: thread_registers_def get_pc_def get_registers_def quiet_tools_def on_kernel_def quiet_kernel_def demo_pc)
  have gone: "remove_site_by_address 8 (on_kernel quiet_kernel) 0x2000 ?v = (Inr (), ?v\<lparr>breakpoint_sites := []\<rparr>)"
    using u(3)
    by (simp add: remove_site_by_address_def remove_by_address_def remove_found_def find_by_address_def site_class_def stepping_armed_def
        new_site_def disable_site_def op_simps quiet_write modify_site_def update_sites_def erase_def)
  have arm: "op_bind (create_breakpoint_site 0x2000 False True) (enable_site 8 (on_kernel quiet_kernel)) (stepping_session s) =
      (Inr (), stepping_armed s)"
    using stepping_enabled [of s] by (simp add: op_bind_run stepping_created stepping_armed_def)
  have "finish_step 1 stop_pending (?v\<lparr>breakpoint_sites := []\<rparr>) =
     (Inr stop_pending, ?v\<lparr>breakpoint_sites := [],
        threads := [(1, (new_thread demo_kernel 1)\<lparr>thread_regs := demo_stop_regs, thread_run_state := Running, thread_reason := stop_pending\<rparr>)]\<rparr>)"
    using u(4,5) by (simp add: finish_step_def set_thread_reason_def modify_thread_def op_simps session_def)
  moreover have "\<not> contains_address site_class 0x2000 (breakpoint_sites (stepping_session s))"
    by (simp add: stepping_simps)
  moreover have "tl_fuel quiet_tools = 8" "tl_mach quiet_tools = on_kernel quiet_kernel" by (simp_all add: quiet_tools_def)
  moreover have "is_breakpoint stop_pending" by (simp add: stop_pending_def plain_reason_def is_breakpoint_def)
  moreover have "stack_at 1 (?v\<lparr>breakpoint_sites := []\<rparr>) = (Inr s, ?v\<lparr>breakpoint_sites := []\<rparr>)"
    using u(4) by (simp add: stack_at_def op_simps session_def)
  moreover have "pc_of quiet_tools (Some 1) ?v = (Inr 0x1000, ?v)"
    using pc [of ?v] u(5) by (simp add: pc_of_def op_simps)
  ultimately have "run_until_address quiet_tools quiet_loader 0x2000 (Some 1) (stepping_session s) =
     (Inr stop_pending, ?v\<lparr>breakpoint_sites := [],
        threads := [(1, (new_thread demo_kernel 1)\<lparr>thread_regs := demo_stop_regs, thread_run_state := Running, thread_reason := stop_pending\<rparr>)]\<rparr>)"
    using u(1) wait gone arm by (simp add: run_until_address_def thread_or_current_def op_bind_run op_basic Let_def)
  with u(6) pc show ?thesis by simp
qed

section \<open>Properties\<close>

text \<open>
  C8: stepping leaves no breakpoint site behind.  When \<open>run_until_address\<close> returns, and there was no site at the address before, there is
  none afterwards, however often the process stopped, libraries were loaded and breakpoints resolved in between; and the process never has
  two sites at one address.
\<close>

theorem temporary_site_removed:
  assumes "one_site_each p" "run_until_address T L a tid p = (Inr r, q)" "\<not> contains_address site_class a (breakpoint_sites p)"
  shows "one_site_each q \<and> \<not> contains_address site_class a (breakpoint_sites q)"
proof -
  obtain t u v where v: "remove_site_by_address (tl_fuel T) (tl_mach T) a u = (Inr (), v)" and q: "finish_step t r v = (Inr r, q)"
    and u: "one_site_each u"
    using assms(2) by (rule run_until_parts) (use assms(1,3) in simp)
  have "one_site_each v" by (rule preservesD [OF one_site_remove u v])
  with remove_site_gone [OF u v] finish_step_Inr [OF q] show ?thesis by (simp add: one_site_each_def)
qed

theorem temporary_site_removed_witness:
  "\<exists>q. run_until_address quiet_tools quiet_loader 0x2000 (Some 1) (stepping_session new_stack) = (Inr stop_pending, q) \<and>
     \<not> contains_address site_class 0x2000 (breakpoint_sites q)"
proof -
  obtain q where q: "run_until_address quiet_tools quiet_loader 0x2000 (Some 1) (stepping_session new_stack) = (Inr stop_pending, q)"
    using stepping_runs by blast
  have "one_site_each (stepping_session new_stack)" by (simp add: one_site_each_def stepping_session_def demo_session_def)
  with q temporary_site_removed [OF _ q] show ?thesis by (simp add: stepping_simps)
qed

text \<open>
  Stepping out runs to the return address once.  Whatever number of frames is on the stack there, the loop of \<open>step_out\<close> ends after its
  first round when the thread that stopped is the one that steps: \<open>run_until_address\<close> reports an arrival as a step, and the loop goes on
  for breakpoints only.
\<close>

theorem step_out_single_round:
  assumes "frame_total t p = (Inr n, p)" "frames \<le> n" "run_until_address T L a (Some t) p = (Inr r, q)" "current_thread q = t"
    "get_pc (tl_mach T) q (Some t) = Inr pc"
  shows "step_out_loop (Suc k) T L t a frames r0 p = (Inr r, q)"
proof -
  have "get_pc (tl_mach T) q None = Inr pc" using assms(4,5) by (simp add: get_pc_def get_registers_def)
  moreover have "is_breakpoint r \<Longrightarrow> pc \<noteq> a" using run_until_not_there [OF assms(3)] assms(5) by auto
  ultimately show ?thesis using assms(1,2,3) by (simp add: op_simps pc_of_def)
qed

theorem step_out_single_round_witness:
  "\<exists>q. step_out_loop 8 quiet_tools quiet_loader 1 0x2000 0 (plain_reason 0 Stopped 0) (stepping_session new_stack) = (Inr stop_pending, q)"
proof -
  obtain q where q: "run_until_address quiet_tools quiet_loader 0x2000 (Some 1) (stepping_session new_stack) = (Inr stop_pending, q)"
    "current_thread q = 1" "get_pc (tl_mach quiet_tools) q (Some 1) = Inr 0x1000"
    using stepping_runs by blast
  have "frame_total 1 (stepping_session new_stack) = (Inr 0, stepping_session new_stack)"
    by (simp add: frame_total_def live_stack_def visible_frames_def new_stack_def stepping_session_def demo_session_def session_def op_simps)
  from step_out_single_round [OF this _ q, of 0 7] show ?thesis by auto
qed

text \<open>
  A step into an inlined call runs nothing.  At a program counter where inlined calls begin that have not been entered, \<open>step_in\<close>
  reports a finished step, enters the next of these calls, and changes neither the debuggee nor its registers nor the breakpoint sites.
\<close>

theorem step_in_inlined:
  assumes "map_of (stacks (session p)) t = Some s" "0 < inline_height s" "t \<in> fst ` set (threads p)"
  shows "\<exists>q s'. step_in T L (Some t) p = (Inr (step_reason t), q) \<and> is_step (step_reason t) \<and>
           map_of (stacks (session q)) t = Some s' \<and> inline_height s' = inline_height s - 1 \<and>
           current_frame s' = ucast (inline_height s - 1) \<and> stack_frames s' = stack_frames s \<and>
           kernel (session q) = kernel (session p) \<and> breakpoint_sites q = breakpoint_sites p \<and>
           get_pc (tl_mach T) q (Some t) = get_pc (tl_mach T) p (Some t)"
proof -
  define p1 where "p1 = p\<lparr>world := (session p)\<lparr>stacks := map (\<lambda>(k, s). (k, if k = t then simulate_inlined_step_in s else s)) (stacks (session p))\<rparr>\<rparr>"
  have p1: "modify_stack t simulate_inlined_step_in p = (Inr (), p1)" using assms(1) by (simp add: modify_stack_result p1_def)
  have at: "map_of (stacks (session p1)) t = Some (simulate_inlined_step_in s)"
    using assms(1) by (simp add: p1_def session_def map_of_update)
  then have "t \<in> fst ` set (stacks (session p1))" by (metis map_of_SomeD fst_conv image_eqI)
  moreover obtain st where "map_of (threads p1) t = Some st"
    using assms(3) map_of_eq_None_iff [of "threads p" t] by (cases "map_of (threads p) t") (auto simp: p1_def)
  ultimately obtain q where q: "finish_step t (step_reason t) p1 = (Inr (step_reason t), q)" "world q = world p1"
    using assms(3) by (auto simp: finish_step_def set_thread_reason_def modify_thread_def op_simps p1_def)
  have "thread_registers (map (\<lambda>(t, s). (t, thread_regs s)) (threads p)) q"
    by (rule preservesD [OF registers_finish _ q(1)]) (simp add: thread_registers_def p1_def)
  then have "get_pc (tl_mach T) q (Some t) = get_pc (tl_mach T) p (Some t)"
    by (rule get_pc_table) (simp add: thread_registers_def)
  moreover have "step_in T L (Some t) p = (Inr (step_reason t), q)"
    using assms(1,2) p1 q(1) by (simp add: step_in_def thread_or_current_def stack_at_def op_simps)
  moreover have "breakpoint_sites q = breakpoint_sites p" using finish_step_Inr [OF q(1)] by (simp add: p1_def)
  moreover have "is_step (step_reason t)" by (simp add: is_step_def step_reason_def plain_reason_def)
  ultimately show ?thesis using at q(2) by (auto simp: session_def simulate_inlined_step_in_def p1_def)
qed

theorem step_in_inlined_witness:
  "\<exists>q s'. step_in quiet_tools quiet_loader (Some 1) (stepping_session (new_stack\<lparr>inline_height := 2\<rparr>)) = (Inr (step_reason 1), q) \<and>
     map_of (stacks (session q)) 1 = Some s' \<and> inline_height s' = 1"
  using step_in_inlined [of "stepping_session (new_stack\<lparr>inline_height := 2\<rparr>)" 1 "new_stack\<lparr>inline_height := 2\<rparr>" quiet_tools quiet_loader]
  by (auto simp: stepping_session_def demo_session_def session_def)
end
