(* ===== verification/Creation.thy ===== *)
theory Creation
  imports Process_Control
begin

text \<open>
  Starting, attaching to and letting go of a process: class \<open>pipe\<close> (\<^verbatim>\<open>src/src/pipe.cpp\<close>), and \<open>launch\<close>, \<open>attach\<close>, the constructor and the
  destructor of class \<open>process\<close> (\<^verbatim>\<open>src/src/process.cpp\<close>).

  The calls of the operating system are parameters, the fields of a record \<open>posix\<close>: each takes the state of the system and returns the
  new one, with the text of \<open>strerror(errno)\<close> when it fails.  After \<open>fork\<close> the program goes on twice, in the parent and in the child; an
  operation tells which of the two it describes by its outcome.  Waiting is repeated while it is interrupted, here at most \<open>n\<close> times.
\<close>

section \<open>What the system provides\<close>

datatype wait_error = Interrupted | Wait_failed string

record 'w posix =
  px_pipe :: "'w \<Rightarrow> (string + int \<times> int) \<times> 'w"
  px_cloexec :: "'w \<Rightarrow> int \<Rightarrow> kern \<times> 'w"
  px_close :: "'w \<Rightarrow> int \<Rightarrow> 'w"
  px_read :: "'w \<Rightarrow> int \<Rightarrow> nat \<Rightarrow> (string + byte list) \<times> 'w"
  px_write :: "'w \<Rightarrow> int \<Rightarrow> byte list \<Rightarrow> kern \<times> 'w"
  px_fork :: "'w \<Rightarrow> (string + int) \<times> 'w"
  px_dup2 :: "'w \<Rightarrow> int \<Rightarrow> int \<Rightarrow> kern \<times> 'w"
  px_execvp :: "'w \<Rightarrow> string \<Rightarrow> string list \<Rightarrow> u32 option \<times> 'w"
  px_ptrace :: "'w \<Rightarrow> ptrace_request \<Rightarrow> int \<Rightarrow> int \<Rightarrow> kern \<times> 'w"
  px_waitpid :: "'w \<Rightarrow> int \<Rightarrow> (wait_error + u32) \<times> 'w"
  px_kill :: "'w \<Rightarrow> int \<Rightarrow> int \<Rightarrow> 'w"
  px_getpid :: "'w \<Rightarrow> int"
  px_strerror :: "u32 \<Rightarrow> string"
  px_release_task :: "'w \<Rightarrow> 'w"

text \<open>A call that cannot fail here, or whose failure is ignored, and one whose failure is an error.\<close>

definition quietly :: "('w \<Rightarrow> 'w) \<Rightarrow> ('w, unit) op" where
  "quietly = op_modify"

definition ignoring :: "('w \<Rightarrow> 'r \<times> 'w) \<Rightarrow> ('w, unit) op" where
  "ignoring f = op_modify (\<lambda>w. snd (f w))"

definition sys :: "('w \<Rightarrow> (string + 'a) \<times> 'w) \<Rightarrow> string \<Rightarrow> ('w, 'a) op" where
  "sys f what w = (case f w of (Inl msg, w') \<Rightarrow> (send (what @ '': '' @ msg), w') | (Inr x, w') \<Rightarrow> (Inr x, w'))"

definition kern_result :: "kern \<times> 'w \<Rightarrow> (string + unit) \<times> 'w" where
  "kern_result = (\<lambda>(k, w). (case k of None \<Rightarrow> Inr () | Some msg \<Rightarrow> Inl msg, w))"

section \<open>Pipes\<close>

record pipe =
  read_fd :: int
  write_fd :: int

definition close_read :: "'w posix \<Rightarrow> pipe \<Rightarrow> ('w, pipe) op" where
  "close_read P c =
     (if read_fd c \<noteq> -1 then op_bind (quietly (\<lambda>w. px_close P w (read_fd c))) (\<lambda>_. op_return (c\<lparr>read_fd := -1\<rparr>)) else op_return c)"

definition close_write :: "'w posix \<Rightarrow> pipe \<Rightarrow> ('w, pipe) op" where
  "close_write P c =
     (if write_fd c \<noteq> -1 then op_bind (quietly (\<lambda>w. px_close P w (write_fd c))) (\<lambda>_. op_return (c\<lparr>write_fd := -1\<rparr>)) else op_return c)"

definition destroy_pipe :: "'w posix \<Rightarrow> pipe \<Rightarrow> ('w, pipe) op" where
  "destroy_pipe P c = op_bind (close_read P c) (close_write P)"

definition set_cloexec :: "'w posix \<Rightarrow> pipe \<Rightarrow> ('w, unit) op" where
  "set_cloexec P c =
     op_bind (sys (\<lambda>w. kern_result (px_cloexec P w (read_fd c))) ''Set close-on-exec'') (\<lambda>_.
     sys (\<lambda>w. kern_result (px_cloexec P w (write_fd c))) ''Set close-on-exec'')"

definition make_pipe :: "'w posix \<Rightarrow> bool \<Rightarrow> ('w, pipe) op" where
  "make_pipe P close_on_exec =
     op_bind (sys (px_pipe P) ''Pipe creation failed'') (\<lambda>(r, w).
     let c = \<lparr>read_fd = r, write_fd = w\<rparr> in
     op_bind (if close_on_exec
              then op_catch (set_cloexec P c) (\<lambda>e. op_bind (destroy_pipe P c) (\<lambda>_. op_fail e))
              else op_return ()) (\<lambda>_.
     op_return c))"

definition release_read :: "pipe \<Rightarrow> int \<times> pipe" where
  "release_read c = (read_fd c, c\<lparr>read_fd := -1\<rparr>)"

definition release_write :: "pipe \<Rightarrow> int \<times> pipe" where
  "release_write c = (write_fd c, c\<lparr>write_fd := -1\<rparr>)"

definition pipe_read :: "'w posix \<Rightarrow> pipe \<Rightarrow> ('w, byte list) op" where
  "pipe_read P c = sys (\<lambda>w. px_read P w (read_fd c) 1024) ''Could not read from pipe''"

definition pipe_write :: "'w posix \<Rightarrow> pipe \<Rightarrow> byte list \<Rightarrow> ('w, unit) op" where
  "pipe_write P c bs = sys (\<lambda>w. kern_result (px_write P w (write_fd c) bs)) ''Could not write to pipe''"

section \<open>Waiting\<close>

fun wait_child :: "nat \<Rightarrow> 'w posix \<Rightarrow> int \<Rightarrow> ('w, u32) op" where
  "wait_child 0 P k w = (Inl Out_Of_Fuel, w)"
| "wait_child (Suc n) P k w =
     (case px_waitpid P w k of
        (Inr status, w') \<Rightarrow> (Inr status, w')
      | (Inl Interrupted, w') \<Rightarrow> wait_child n P k w'
      | (Inl (Wait_failed msg), w') \<Rightarrow> (send (''waitpid: '' @ msg), w'))"

definition trace_call :: "'w posix \<Rightarrow> ptrace_request \<Rightarrow> int \<Rightarrow> int \<Rightarrow> ('w, unit) op" where
  "trace_call P r k sig = sys (\<lambda>w. kern_result (px_ptrace P w r k sig)) ''ptrace''"

definition WIFSTOPPED :: "u32 \<Rightarrow> bool" where
  "WIFSTOPPED s \<longleftrightarrow> WSTATUS s = 0x7f \<and> drop_bit 8 s \<noteq> 0x13"

section \<open>The constructor\<close>

text \<open>A process without owner: no target is told of its threads, and no callback is installed.\<close>

definition no_owner :: "'w hooks" where
  "no_owner = \<lparr>has_target = False, notify_stop = (\<lambda>r. op_return ()), notify_thread = (\<lambda>r. op_return ()),
     notify_hit = (\<lambda>b. op_return False)\<rparr>"

definition new_process :: "int \<Rightarrow> bool \<Rightarrow> bool \<Rightarrow> 'w \<Rightarrow> 'w process" where
  "new_process k terminate attached w = \<lparr>world = w, has_task = False, ports = [], threads = [],
     stepping = False, main_thread = 0, pending_signal = 0, tracing_syscalls = False, queued_stop = None,
     debug_regs = \<lparr>dbg_bvr = replicate 16 0, dbg_bcr = replicate 16 0, dbg_wvr = replicate 16 0, dbg_wcr = replicate 16 0, dbg_mdscr = 0\<rparr>,
     hit_slot = -1, pid = k, terminate_on_end = terminate, run_state = Stopped, is_attached = attached,
     breakpoint_sites = [], watchpoints = [], catch_policy = catch_none, expecting_syscall_exit = False,
     current_thread = k, last_site_id = 0, last_watchpoint_id = 0\<rparr>"

definition make_process :: "'w mach \<Rightarrow> int \<Rightarrow> bool \<Rightarrow> bool \<Rightarrow> ('w, 'w process) op" where
  "make_process K k terminate attached w =
     (case populate_existing_threads K no_owner (new_process k terminate attached w) of
        (Inr _, p) \<Rightarrow> (Inr p, world p)
      | (Inl e, p) \<Rightarrow> (Inl e, world p))"

section \<open>Launching\<close>

text \<open>Where a call of \<open>launch\<close> ends: with a process in the parent, or in the child with a new program or an exit status.\<close>

datatype 'p outcome = In_parent 'p | Child_runs | Child_exits int

definition STDOUT_FILENO :: int where "STDOUT_FILENO = 1"

definition launch_child :: "'w posix \<Rightarrow> pipe \<Rightarrow> string \<Rightarrow> bool \<Rightarrow> int option \<Rightarrow> string list \<Rightarrow> ('w, 'p outcome) op" where
  "launch_child P channel path debug output arguments =
     op_bind (close_read P channel) (\<lambda>c.
     op_bind (case output of
                None \<Rightarrow> op_return True
              | Some fd \<Rightarrow> (\<lambda>w. case px_dup2 P w fd STDOUT_FILENO of (k, w') \<Rightarrow> (Inr (k = None), w'))) (\<lambda>redirected.
     if \<not> redirected then op_return (Child_exits 126)
     else
       op_bind (if debug then (\<lambda>w. case px_ptrace P w PT_TRACE_ME 0 0 of (k, w') \<Rightarrow> (Inr (k = None), w')) else op_return True) (\<lambda>traced.
       if \<not> traced then op_return (Child_exits 126)
       else
         op_bind (\<lambda>w. case px_execvp P w path (path # arguments) of (r, w') \<Rightarrow> (Inr r, w')) (\<lambda>failed.
         case failed of
           None \<Rightarrow> op_return Child_runs
         | Some code \<Rightarrow>
             op_bind (ignoring (\<lambda>w. px_write P w (write_fd c) (word_bytes code))) (\<lambda>_. op_return (Child_exits 127))))))"

definition exec_failure :: "'w posix \<Rightarrow> byte list \<Rightarrow> string result" where
  "exec_failure P bs =
     (if length bs < 4 then undefined_behaviour ''read past the end of the data''
      else Inr (px_strerror P (le_word (take 4 bs))))"

definition launch_parent :: "nat \<Rightarrow> 'w posix \<Rightarrow> 'w mach \<Rightarrow> pipe \<Rightarrow> bool \<Rightarrow> int \<Rightarrow> ('w, 'w process outcome) op" where
  "launch_parent n P K channel debug k =
     op_bind (pipe_read P channel) (\<lambda>failure.
     if failure \<noteq> [] then
       op_bind (wait_child n P k) (\<lambda>_.
       op_bind (op_lift (exec_failure P failure)) (\<lambda>text. op_send (''exec failed: '' @ text)))
     else
       op_bind (if debug then wait_child n P k else op_return 0) (\<lambda>status.
       if debug \<and> \<not> WIFSTOPPED status then op_send ''Debuggee exited before its initial stop''
       else
         op_catch (op_bind (make_process K k True debug) (\<lambda>p. op_return (In_parent p))) (\<lambda>e.
           op_bind (ignoring (\<lambda>w. px_ptrace P w PT_KILL k 0)) (\<lambda>_.
           op_bind (ignoring (\<lambda>w. px_ptrace P w PT_CONTINUE k 0)) (\<lambda>_.
           op_bind (wait_child n P k) (\<lambda>_. op_fail e))))))"

text \<open>The pipe is destroyed when the parent leaves the function, whether it returns or throws; the child does not get that far.\<close>

definition leaving :: "('w, 'a) op \<Rightarrow> ('w, unit) op \<Rightarrow> ('w, 'a) op" where
  "leaving m f w = (case m w of (r, w') \<Rightarrow> (r, snd (f w')))"

definition launch :: "nat \<Rightarrow> 'w posix \<Rightarrow> 'w mach \<Rightarrow> string \<Rightarrow> bool \<Rightarrow> int option \<Rightarrow> string list \<Rightarrow> ('w, 'w process outcome) op" where
  "launch n P K path debug output arguments =
     op_bind (make_pipe P True) (\<lambda>channel.
     op_bind (op_catch (sys (px_fork P) ''fork'') (\<lambda>e. op_bind (destroy_pipe P channel) (\<lambda>_. op_fail e))) (\<lambda>k.
     if k = 0 then launch_child P channel path debug output arguments
     else
       op_bind (close_write P channel) (\<lambda>c.
       leaving (launch_parent n P K c debug k) (op_bind (destroy_pipe P c) (\<lambda>_. op_return ())))))"

section \<open>Attaching\<close>

definition attach :: "nat \<Rightarrow> 'w posix \<Rightarrow> 'w mach \<Rightarrow> int \<Rightarrow> ('w, 'w process) op" where
  "attach n P K k =
     op_bind (op_gets (px_getpid P)) (\<lambda>self.
     if k \<le> 0 \<or> k = self then op_send ''Invalid process ID''
     else
       op_bind (trace_call P PT_ATTACH k 0) (\<lambda>_.
       op_bind (wait_child n P k) (\<lambda>_.
       op_catch (make_process K k False True) (\<lambda>e.
         op_bind (ignoring (\<lambda>w. px_ptrace P w PT_DETACH k 0)) (\<lambda>_. op_fail e)))))"

section \<open>The destructor\<close>

definition SIGKILL :: int where "SIGKILL = 9"

definition SIGCONT :: int where "SIGCONT = 19"

definition in_world :: "('w, 'a) op \<Rightarrow> ('w process, 'a) op" where
  "in_world m p = (case m (world p) of (r, w) \<Rightarrow> (r, p\<lparr>world := w\<rparr>))"

text \<open>The loop that ends with the first wait that is not interrupted, whatever it returns.\<close>

fun reap :: "nat \<Rightarrow> 'w posix \<Rightarrow> int \<Rightarrow> ('w, unit) op" where
  "reap 0 P k w = (Inl Out_Of_Fuel, w)"
| "reap (Suc n) P k w =
     (case px_waitpid P w k of (Inl Interrupted, w') \<Rightarrow> reap n P k w' | (_, w') \<Rightarrow> (Inr (), w'))"

definition terminate_process :: "nat \<Rightarrow> 'w posix \<Rightarrow> ('w process, unit) op" where
  "terminate_process n P =
     op_bind (op_gets (\<lambda>p. (is_attached p, pid p))) (\<lambda>(attached, k).
     in_world
       (op_bind (if attached
                 then op_bind (ignoring (\<lambda>w. px_ptrace P w PT_KILL k 0)) (\<lambda>_. ignoring (\<lambda>w. px_ptrace P w PT_CONTINUE k 0))
                 else quietly (\<lambda>w. px_kill P w k SIGKILL)) (\<lambda>_.
        reap n P k)))"

definition disable_stoppoints :: "nat \<Rightarrow> 'w mach \<Rightarrow> ('w process, unit) op" where
  "disable_stoppoints m K =
     op_bind (op_bind (op_gets (\<lambda>p. [0..<length (breakpoint_sites p)])) (op_each (disable_site m K))) (\<lambda>_.
     op_bind (op_gets (\<lambda>p. [0..<length (watchpoints p)])) (op_each (disable_watchpoint K)))"

definition clean_up :: "nat \<Rightarrow> nat \<Rightarrow> 'w posix \<Rightarrow> 'w mach \<Rightarrow> ('w process, unit) op" where
  "clean_up n m P K =
     op_bind (op_gets (\<lambda>p. (run_state p, pid p))) (\<lambda>(st, k).
     op_bind (if st = Running
              then in_world (op_bind (quietly (\<lambda>w. px_kill P w k (int (unat SIGSTOP)))) (\<lambda>_. wait_child n P k))
              else op_return 0) (\<lambda>_.
     disable_stoppoints m K))"

definition detach_process :: "nat \<Rightarrow> nat \<Rightarrow> 'w posix \<Rightarrow> 'w mach \<Rightarrow> ('w process, unit) op" where
  "detach_process n m P K =
     op_bind (op_catch (clean_up n m P K) (\<lambda>_. op_return ())) (\<lambda>_.
     op_bind (op_gets pid) (\<lambda>k.
     in_world
       (op_bind (ignoring (\<lambda>w. px_ptrace P w PT_DETACH k 0)) (\<lambda>_.
        quietly (\<lambda>w. px_kill P w k SIGCONT)))))"

definition destroy_process :: "nat \<Rightarrow> nat \<Rightarrow> 'w posix \<Rightarrow> 'w mach \<Rightarrow> ('w process, unit) op" where
  "destroy_process n m P K =
     op_bind (op_gets (\<lambda>p. (run_state p, terminate_on_end p, is_attached p))) (\<lambda>(st, terminate, attached).
     op_bind (if st \<noteq> Exited \<and> st \<noteq> Terminated then
                if terminate then terminate_process n P
                else if attached then detach_process n m P K
                else op_return ()
              else op_return ()) (\<lambda>_.
     op_bind (op_bind (op_gets (port_order K)) (op_each (\<lambda>(t, port). ignore_call (\<lambda>w. deallocate_port K w port)))) (\<lambda>_.
     op_bind (op_gets has_task) (\<lambda>task.
     if task then in_world (quietly (px_release_task P)) else op_return ()))))"

section \<open>Letting go of a process\<close>

interpretation stoppoint_tables: system_frame K "\<lambda>p. breakpoint_sites p = ss \<and> watchpoints p = ws"
  by unfold_locales simp_all

text \<open>Disabling a stoppoint changes its own entry of its own table, and only turns it off.\<close>

lemma disable_site_tables:
  assumes "disable_site m K i p = (r, q)"
  shows "breakpoint_sites q = breakpoint_sites p \<or>
    breakpoint_sites q = (breakpoint_sites p)[i := (breakpoint_sites p ! i)\<lparr>site_enabled := False\<rparr>]"
    and "r = Inr () \<Longrightarrow> i < length (breakpoint_sites p) \<Longrightarrow> \<not> site_enabled (breakpoint_sites q ! i)"
proof -
  let ?off = "if site_hardware (breakpoint_sites p ! i) then clear_hardware_stoppoint K (site_register_index (breakpoint_sites p ! i))
    else write_memory m K (site_address (breakpoint_sites p ! i)) (word_bytes (saved_data (breakpoint_sites p ! i)))"
  have "preserves (\<lambda>q. breakpoint_sites q = breakpoint_sites p \<and> watchpoints q = watchpoints p) ?off"
    using stoppoint_tables.memory stoppoint_tables.hardware(2) by auto
  then have off: "?off p = (x, u) \<Longrightarrow> breakpoint_sites u = breakpoint_sites p" for x u by (auto dest: preservesD)
  have "(breakpoint_sites q = breakpoint_sites p \<or>
      breakpoint_sites q = (breakpoint_sites p)[i := (breakpoint_sites p ! i)\<lparr>site_enabled := False\<rparr>]) \<and>
    (r = Inr () \<longrightarrow> i < length (breakpoint_sites p) \<longrightarrow> \<not> site_enabled (breakpoint_sites q ! i))"
  proof (cases "site_enabled (breakpoint_sites p ! i)")
    case True
    obtain x u where u: "?off p = (x, u)" by (cases "?off p")
    have "disable_site m K i p = op_bind ?off (\<lambda>_. modify_site i (\<lambda>s. s\<lparr>site_enabled := False\<rparr>)) p"
      using True by (simp add: disable_site_def op_gets_def op_bind_def)
    with assms off [OF u] show ?thesis
      unfolding op_bind_def u by (auto simp: modify_site_def op_basic split: sum.splits)
  next
    case False
    with assms show ?thesis by (simp add: disable_site_def op_basic op_bind_run)
  qed
  then show "breakpoint_sites q = breakpoint_sites p \<or>
      breakpoint_sites q = (breakpoint_sites p)[i := (breakpoint_sites p ! i)\<lparr>site_enabled := False\<rparr>]"
    "r = Inr () \<Longrightarrow> i < length (breakpoint_sites p) \<Longrightarrow> \<not> site_enabled (breakpoint_sites q ! i)" by auto
qed

lemma disable_watchpoint_tables:
  assumes "disable_watchpoint K i p = (r, q)"
  shows "breakpoint_sites q = breakpoint_sites p"
    and "watchpoints q = watchpoints p \<or> watchpoints q = (watchpoints p)[i := (watchpoints p ! i)\<lparr>wp_enabled := False\<rparr>]"
    and "r = Inr () \<Longrightarrow> i < length (watchpoints p) \<Longrightarrow> \<not> wp_enabled (watchpoints q ! i)"
proof -
  let ?off = "clear_hardware_stoppoint K (wp_register_index (watchpoints p ! i))"
  have "preserves (\<lambda>q. breakpoint_sites q = breakpoint_sites p \<and> watchpoints q = watchpoints p) ?off"
    by (rule stoppoint_tables.hardware(2))
  then have off: "?off p = (x, u) \<Longrightarrow> breakpoint_sites u = breakpoint_sites p \<and> watchpoints u = watchpoints p" for x u by (auto dest: preservesD)
  from assms show "breakpoint_sites q = breakpoint_sites p"
    "watchpoints q = watchpoints p \<or> watchpoints q = (watchpoints p)[i := (watchpoints p ! i)\<lparr>wp_enabled := False\<rparr>]"
    "r = Inr () \<Longrightarrow> i < length (watchpoints p) \<Longrightarrow> \<not> wp_enabled (watchpoints q ! i)"
    using off by (auto simp: disable_watchpoint_def op_basic op_bind_run modify_watchpoint_def split: if_splits prod.splits sum.splits)
qed

text \<open>A loop that turns the entries of a table off one by one ends with all of them off.\<close>

lemma each_turns_off:
  fixes table :: "'w process \<Rightarrow> 'a list"
  assumes step: "\<And>i p q r. f i p = (r, q) \<Longrightarrow> table q = table p \<or> table q = (table p)[i := off (table p ! i)]"
    and here: "\<And>i p q. f i p = (Inr (), q) \<Longrightarrow> i < length (table p) \<Longrightarrow> \<not> on (table q ! i)"
    and "\<And>x. \<not> on (off x)"
    and "op_each f [k..<length (table p)] p = (Inr (), q)" "\<forall>i < k. i < length (table p) \<longrightarrow> \<not> on (table p ! i)"
  shows "length (table q) = length (table p) \<and> (\<forall>x \<in> set (table q). \<not> on x)"
  using assms(4,5)
proof (induction "length (table p) - k" arbitrary: k p)
  case 0
  then show ?case by (auto simp: op_basic in_set_conv_nth)
next
  case (Suc n)
  then have k: "k < length (table p)" by simp
  with Suc.prems(1) obtain u where u: "f k p = (Inr (), u)" "op_each f [Suc k..<length (table p)] u = (Inr (), q)"
    by (auto simp: upt_conv_Cons op_bind_Inr_iff)
  from step [OF u(1)] have len: "length (table u) = length (table p)" by auto
  have "\<not> on (table u ! i)" if "i < Suc k" for i
  proof (cases "i = k")
    case True
    with here [OF u(1) k] show ?thesis by simp
  next
    case False
    with that have "i < k" by simp
    with Suc.prems(2) k step [OF u(1)] show ?thesis by auto
  qed
  with Suc.hyps(1) [of u "Suc k"] Suc.hyps(2) u(2) len show ?case by auto
qed

lemma disable_sites_off:
  assumes "op_each (disable_site m K) [0..<length (breakpoint_sites p)] p = (Inr (), q)"
  shows "\<forall>s \<in> set (breakpoint_sites q). \<not> site_enabled s"
  using each_turns_off [where table = breakpoint_sites and on = site_enabled and off = "\<lambda>s. s\<lparr>site_enabled := False\<rparr>" and k = 0,
      OF disable_site_tables(1) disable_site_tables(2) _ assms] by auto

lemma disable_watchpoints_off:
  assumes "op_each (disable_watchpoint K) [0..<length (watchpoints p)] p = (Inr (), q)"
  shows "\<forall>x \<in> set (watchpoints q). \<not> wp_enabled x"
  using each_turns_off [where table = watchpoints and on = wp_enabled and off = "\<lambda>s. s\<lparr>wp_enabled := False\<rparr>" and k = 0,
      OF disable_watchpoint_tables(2) disable_watchpoint_tables(3) _ assms] by auto

interpretation process_number: stoppoint_frame K "\<lambda>p. pid p = k \<and> watchpoints p = ws \<and> run_state p = st"
  by unfold_locales simp_all

text \<open>A software breakpoint can always be taken out: its address is mapped, as the trap was written there.\<close>

lemma mapped_with_traps: "mapped M a n \<Longrightarrow> mapped (with_traps A M) a n"
  by (auto simp: mapped_def with_traps_def)

lemma disable_software_site:
  assumes "kernel_memory K mem" "4 < m" "overlay mem M p" "i < length (breakpoint_sites p)" "\<not> site_hardware (breakpoint_sites p ! i)"
  shows "fst (disable_site m K i p) = Inr ()"
proof (cases "site_enabled (breakpoint_sites p ! i)")
  case True
  let ?s = "breakpoint_sites p ! i"
  have "is_trap ?s" "?s \<in> set (breakpoint_sites p)" using True assms(4,5) by (simp_all add: is_trap_def)
  then have "mapped (mem (world p)) (site_address ?s) (length (word_bytes (saved_data ?s)))"
    using assms(3) by (simp add: overlay_def mapped_with_traps)
  from write_memory_ok [OF assms(1) this, of m] assms(2)
  obtain w where "write_memory m K (site_address ?s) (word_bytes (saved_data ?s)) p = (Inr (), p\<lparr>world := w\<rparr>)" by auto
  then show ?thesis using True assms(5) by (simp add: disable_site_def op_basic op_bind_run modify_site_def)
next
  case False
  then show ?thesis by (simp add: disable_site_def op_basic op_bind_run)
qed

lemma disable_sites_overlay:
  assumes "kernel_memory K mem" "4 < m" "overlay mem M p" "\<forall>s \<in> set (breakpoint_sites p). \<not> site_hardware s"
    "\<forall>i \<in> set js. i < length (breakpoint_sites p)"
  shows "\<exists>q. op_each (disable_site m K) js p = (Inr (), q) \<and> overlay mem M q \<and> pid q = pid p \<and> watchpoints q = watchpoints p"
  using assms(3-5)
proof (induction js arbitrary: p)
  case Nil
  then show ?case by (simp add: op_basic)
next
  case (Cons i js)
  then have i: "i < length (breakpoint_sites p)" "\<not> site_hardware (breakpoint_sites p ! i)" by simp_all
  obtain q where q: "disable_site m K i p = (Inr (), q)"
    using disable_software_site [OF assms(1,2) Cons.prems(1) i] by (cases "disable_site m K i p") auto
  have over: "overlay mem M q" using disable_site_overlay(1) [OF assms(1,2) Cons.prems(1) i(1)] q by simp
  have frame: "pid q = pid p \<and> watchpoints q = watchpoints p"
    using preservesD [OF process_number.toggle(2) _ q] by blast
  have "breakpoint_sites q = breakpoint_sites p \<or>
      breakpoint_sites q = (breakpoint_sites p)[i := (breakpoint_sites p ! i)\<lparr>site_enabled := False\<rparr>]"
    by (rule disable_site_tables(1) [OF q])
  then have "\<forall>s \<in> set (breakpoint_sites q). \<not> site_hardware s" "length (breakpoint_sites q) = length (breakpoint_sites p)"
    using Cons.prems(2) i by (auto dest!: set_update_subset_insert [THEN subsetD])
  with Cons.IH [OF over] Cons.prems(3) frame obtain u where
    "op_each (disable_site m K) js q = (Inr (), u)" "overlay mem M u" "pid u = pid p" "watchpoints u = watchpoints p" by auto
  with q show ?case by (simp add: op_bind_run)
qed


interpretation software_sites: system_frame K "\<lambda>p. \<forall>s \<in> set (breakpoint_sites p). \<not> site_hardware s"
  by unfold_locales simp_all

lemma enable_keeps_software: "preserves (\<lambda>p. \<forall>s \<in> set (breakpoint_sites p). \<not> site_hardware s) (enable_site m K i)"
proof -
  have modify: "preserves (\<lambda>p. \<forall>s \<in> set (breakpoint_sites p). \<not> site_hardware s) (modify_site i f)"
    if f: "\<And>s. site_hardware (f s) = site_hardware s" for f
  proof -
    have "\<forall>s \<in> set (ss[i := f (ss ! i)]). \<not> site_hardware s" if "\<forall>s \<in> set ss. \<not> site_hardware s" for ss
    proof (cases "i < length ss")
      case True
      with that f show ?thesis by (auto dest!: set_update_subset_insert [THEN subsetD])
    qed (use that in \<open>simp add: list_update_beyond\<close>)
    then show ?thesis unfolding modify_site_def by (intro preserves_modify) simp
  qed
  show ?thesis
    unfolding enable_site_def insert_trap_def set_hardware_breakpoint_def
    by (auto intro!: preserves_bind modify software_sites.memory software_sites.hardware)
qed

text \<open>A system without surprises.\<close>

definition demo_posix :: "'w posix" where
  "demo_posix = \<lparr>px_pipe = (\<lambda>w. (Inr (3, 4), w)), px_cloexec = (\<lambda>w fd. (None, w)), px_close = (\<lambda>w fd. w),
     px_read = (\<lambda>w fd n. (Inr (word_bytes (2 :: u32)), w)), px_write = (\<lambda>w fd bs. (None, w)), px_fork = (\<lambda>w. (Inr 42, w)),
     px_dup2 = (\<lambda>w a b. (None, w)), px_execvp = (\<lambda>w path args. (Some 2, w)), px_ptrace = (\<lambda>w r k sig. (None, w)),
     px_waitpid = (\<lambda>w k. (Inr 0x7f00, w)), px_kill = (\<lambda>w k sig. w), px_getpid = (\<lambda>w. 41),
     px_strerror = (\<lambda>e. if e = 2 then ''No such file or directory'' else ''Unknown error''), px_release_task = (\<lambda>w. w)\<rparr>"


section \<open>When the program cannot be started\<close>



text \<open>When one breakpoint cannot be disabled, those behind it keep their traps and the process is released all the same.\<close>

lemma detach_stops_at_failure:
  assumes "disable_site m K 0 p = (Inl e, q)" "is_exception e" "breakpoint_sites p \<noteq> []" "run_state p \<noteq> Running"
  shows "fst (detach_process n m P K p) = Inr () \<and> breakpoint_sites (snd (detach_process n m P K p)) = breakpoint_sites q"
proof -
  have "op_each (disable_site m K) [0..<length (breakpoint_sites p)] p = (Inl e, q)"
    using assms(1,3) by (simp add: upt_conv_Cons op_bind_run)
  then have "clean_up n m P K p = (Inl e, q)"
    using assms(4) by (simp add: clean_up_def disable_stoppoints_def op_basic op_bind_run)
  then show ?thesis
    using assms(2) by (simp add: detach_process_def op_catch_def op_basic op_bind_run in_world_def ignoring_def quietly_def)
qed

text \<open>Waiting ends with the first status, however often it was interrupted before.\<close>

inductive waits_for :: "'w posix \<Rightarrow> int \<Rightarrow> nat \<Rightarrow> 'w \<Rightarrow> u32 \<Rightarrow> 'w \<Rightarrow> bool" for P k where
  status: "px_waitpid P w k = (Inr s, w') \<Longrightarrow> waits_for P k 0 w s w'"
| interrupted: "px_waitpid P w k = (Inl Interrupted, w1) \<Longrightarrow> waits_for P k j w1 s w' \<Longrightarrow> waits_for P k (Suc j) w s w'"

lemma wait_child_returns: "waits_for P k j w s w' \<Longrightarrow> j < n \<Longrightarrow> wait_child n P k w = (Inr s, w')"
proof (induction arbitrary: n rule: waits_for.induct)
  case (status w s w')
  then show ?case by (cases n) simp_all
next
  case (interrupted w w1 j s w')
  then show ?case by (cases n) simp_all
qed

section \<open>The destructor does not throw\<close>

named_theorems nothrow \<open>operations that never throw an exception\<close>

definition no_exception :: "('s, 'a) op \<Rightarrow> bool" where
  "no_exception m \<longleftrightarrow> (\<forall>s. fst (m s) \<notin> Inl ` {e. is_exception e})"

lemma no_exception_basic [nothrow]:
  "no_exception (op_return x)" "no_exception (op_gets f)" "no_exception (op_modify g)" "no_exception (quietly g)" "no_exception (ignoring h)"
  by (auto simp: no_exception_def op_basic quietly_def ignoring_def)

lemma no_exception_bind [nothrow]: "no_exception m \<Longrightarrow> (\<And>x. no_exception (f x)) \<Longrightarrow> no_exception (op_bind m f)"
  unfolding no_exception_def op_bind_def by (auto split: prod.splits sum.splits) (metis fst_conv image_eqI mem_Collect_eq)+

lemma no_exception_catch [nothrow]: "(\<And>e. no_exception (h e)) \<Longrightarrow> no_exception (op_catch m h)"
  unfolding no_exception_def op_catch_def by (auto split: prod.splits sum.splits)

lemma no_exception_each [nothrow]: "(\<And>x. no_exception (f x)) \<Longrightarrow> no_exception (op_each f xs)"
  by (induction xs) (auto intro: nothrow)

lemma no_exception_in_world [nothrow]: "no_exception m \<Longrightarrow> no_exception (in_world m)"
  by (auto simp: no_exception_def in_world_def split: prod.splits) (metis fst_conv image_eqI mem_Collect_eq)

lemma no_exception_reap [nothrow]: "no_exception (reap n P k)"
proof -
  have "fst (reap n P k w) \<notin> Inl ` {e. is_exception e}" for w
    by (induction n arbitrary: w) (auto split: prod.splits sum.splits wait_error.splits)
  then show ?thesis by (simp add: no_exception_def)
qed

lemma no_exception_ignore_call [nothrow]: "no_exception (ignore_call f)"
  by (auto simp: no_exception_def ignore_call_def sys_call_def op_basic op_bind_run split: prod.splits)

lemma no_exception_destroy: "no_exception (destroy_process n m P K)"
proof -
  have "no_exception (terminate_process n P)" "no_exception (detach_process n m P K)" for P :: "'a posix"
    unfolding terminate_process_def detach_process_def by (auto intro!: nothrow split: prod.splits)
  then show ?thesis unfolding destroy_process_def by (auto intro!: nothrow split: prod.splits)
qed

text \<open>
  C22: the destructor of a process never throws, whatever the system answers and whatever state the process is in: in C++ an exception there would
  end the debugger.
\<close>

theorem destructor_never_throws: "fst (destroy_process n m P K p) \<notin> Inl ` {e. is_exception e}"
  using no_exception_destroy [of n m P K] by (simp add: no_exception_def)

end
