(* ===== verification/Parse.thy ===== *)
theory Parse
  imports Registers
begin

text \<open>
  Reading and printing values at the command line: \<^verbatim>\<open>include/libsdb/parse.hpp\<close> and the register
  commands of \<^verbatim>\<open>tools/sdb.cpp\<close>.

  \<open>std::from_chars\<close> is the integer parser of the standard library: it takes the longest run of
  digits of the base, after a minus sign for a signed type, and tells whether the value fits.
  Its floating-point overload and the functions of the formatting library are parameters.
\<close>

section \<open>Integers\<close>

definition digit_of :: "char \<Rightarrow> nat" where
  "digit_of c =
     (let n = of_char c in
      if 48 \<le> n \<and> n \<le> 57 then n - 48
      else if 97 \<le> n \<and> n \<le> 122 then n - 87
      else if 65 \<le> n \<and> n \<le> 90 then n - 55
      else 36)"

definition digits_value :: "nat \<Rightarrow> string \<Rightarrow> nat" where
  "digits_value base ds = foldl (\<lambda>a c. a * base + digit_of c) 0 ds"

text \<open>An integer type of C++: whether it is signed, and its width.\<close>

record int_type =
  int_signed :: bool
  int_bits :: nat

definition fits :: "int_type \<Rightarrow> int \<Rightarrow> bool" where
  "fits I v \<longleftrightarrow>
     (if int_signed I then - (2 ^ (int_bits I - 1)) \<le> v \<and> v < 2 ^ (int_bits I - 1)
      else 0 \<le> v \<and> v < 2 ^ int_bits I)"

datatype from_chars_result = Parsed int string | Invalid_argument | Result_out_of_range

definition from_chars :: "int_type \<Rightarrow> nat \<Rightarrow> string \<Rightarrow> from_chars_result" where
  "from_chars I base s =
     (let neg = int_signed I \<and> s \<noteq> [] \<and> hd s = CHR ''-'';
          body = (if neg then tl s else s);
          ds = takeWhile (\<lambda>c. digit_of c < base) body;
          v = (if neg then - int (digits_value base ds) else int (digits_value base ds))
      in if ds = [] then Invalid_argument
         else if fits I v then Parsed v (dropWhile (\<lambda>c. digit_of c < base) body)
         else Result_out_of_range)"

definition to_integral :: "int_type \<Rightarrow> string \<Rightarrow> nat \<Rightarrow> int option" where
  "to_integral I sv base =
     (let begin' = (if base = 16 \<and> 1 < length sv \<and> sv ! 0 = CHR ''0'' \<and> sv ! 1 = CHR ''x'' then drop 2 sv else sv)
      in case from_chars I base begin' of
           Parsed v [] \<Rightarrow> Some v
         | _ \<Rightarrow> None)"

definition uint_type :: "nat \<Rightarrow> int_type" where
  "uint_type n = \<lparr>int_signed = False, int_bits = n\<rparr>"

definition to_integral_byte :: "string \<Rightarrow> nat \<Rightarrow> byte option" where
  "to_integral_byte sv base = map_option word_of_int (to_integral (uint_type 8) sv base)"

section \<open>Byte vectors\<close>

function parse_items :: "string \<Rightarrow> byte list result" where
  "parse_items str =
     (if str = [] then Inr []
      else
        case to_integral_byte (takeWhile (\<lambda>c. c \<noteq> CHR '','') str) 16 of
          None \<Rightarrow> send ''Invalid byte value''
        | Some value \<Rightarrow>
            (case dropWhile (\<lambda>c. c \<noteq> CHR '','') str of
               [] \<Rightarrow> Inr [value]
             | _ # str' \<Rightarrow>
                 if str' = [] then send ''Trailing comma in byte vector''
                 else bind_res (parse_items str') (\<lambda>result. Inr (value # result))))"
  by pat_completeness auto

termination
proof (relation "measure length", simp)
  fix str x21 x22 and x2 :: byte
  assume "dropWhile (\<lambda>c. c \<noteq> CHR '','') str = x21 # x22"
  then show "(x22, str) \<in> measure length"
    using length_dropWhile_le [of "\<lambda>c. c \<noteq> CHR '',''" str] by simp
qed

declare parse_items.simps [simp del]

definition parse_vector :: "string \<Rightarrow> byte list result" where
  "parse_vector str =
     (if length str < 2 \<or> hd str \<noteq> CHR ''['' \<or> last str \<noteq> CHR '']'' then send ''Expected [0x00,0x01,...]''
      else parse_items (butlast (tl str)))"

definition parse_vector_of :: "nat \<Rightarrow> string \<Rightarrow> byte list result" where
  "parse_vector_of n str =
     bind_res (parse_vector str) (\<lambda>parsed.
     if length parsed \<noteq> n then send ''Incorrect register vector size'' else Inr parsed)"

section \<open>Register values\<close>

text \<open>
  What the formatting library prints for \<^verbatim>\<open>{:#0<width>x}\<close> of an integer and for \<^verbatim>\<open>{}\<close> of a
  floating-point number.
\<close>

record fmt_lib =
  fmt_hex :: "nat \<Rightarrow> int \<Rightarrow> string"
  fmt_float :: "byte list \<Rightarrow> string"

fun join :: "string list \<Rightarrow> string" where
  "join [] = []"
| "join [x] = x"
| "join (x # y # xs) = x @ '','' @ join (y # xs)"

fun format_value :: "fmt_lib \<Rightarrow> reg_value \<Rightarrow> string" where
  "format_value f (V_u8 w) = fmt_hex f 4 (int (unat w))"
| "format_value f (V_u16 w) = fmt_hex f 6 (int (unat w))"
| "format_value f (V_u32 w) = fmt_hex f 10 (int (unat w))"
| "format_value f (V_u64 w) = fmt_hex f 18 (int (unat w))"
| "format_value f (V_i8 w) = fmt_hex f 4 (sint w)"
| "format_value f (V_i16 w) = fmt_hex f 6 (sint w)"
| "format_value f (V_i32 w) = fmt_hex f 10 (sint w)"
| "format_value f (V_i64 w) = fmt_hex f 18 (sint w)"
| "format_value f (V_float bs) = fmt_float f bs"
| "format_value f (V_double bs) = fmt_float f bs"
| "format_value f (V_long_double bs) = fmt_float f bs"
| "format_value f (V_byte64 bs) = ''['' @ join (map (\<lambda>b. fmt_hex f 4 (int (unat b))) bs) @ '']''"
| "format_value f (V_byte128 bs) = ''['' @ join (map (\<lambda>b. fmt_hex f 4 (int (unat b))) bs) @ '']''"

text \<open>The line that \<open>print_register_value\<close> prints.\<close>

definition print_register_value :: "native \<Rightarrow> fmt_lib \<Rightarrow> registers \<Rightarrow> register_info \<Rightarrow> string result" where
  "print_register_value m f regs info =
     bind_res (is_undefined m regs (reg_id info)) (\<lambda>undef.
     if undef then Inr (reg_name info @ '':'' @ [CHR 0x09] @ ''undefined'' @ [CHR 0x0A])
     else bind_res (reg_read m regs info) (\<lambda>v.
       Inr (reg_name info @ '':'' @ [CHR 0x09] @ format_value f v @ [CHR 0x0A])))"

definition to_float :: "(string \<Rightarrow> (byte list \<times> string) option) \<Rightarrow> string \<Rightarrow> byte list option" where
  "to_float from_chars_float sv =
     (case from_chars_float sv of Some (v, []) \<Rightarrow> Some v | _ \<Rightarrow> None)"

definition parse_by_format ::
  "(string \<Rightarrow> (byte list \<times> string) option) \<Rightarrow> register_info \<Rightarrow> string \<Rightarrow> reg_value option result" where
  "parse_by_format from_chars_float info str =
     (case reg_format info of
        Uint \<Rightarrow>
          (if reg_size info = 1 then
             bind_res (opt_value (to_integral (uint_type 8) str 16)) (\<lambda>v. Inr (Some (V_u8 (word_of_int v))))
           else if reg_size info = 2 then
             bind_res (opt_value (to_integral (uint_type 16) str 16)) (\<lambda>v. Inr (Some (V_u16 (word_of_int v))))
           else if reg_size info = 4 then
             bind_res (opt_value (to_integral (uint_type 32) str 16)) (\<lambda>v. Inr (Some (V_u32 (word_of_int v))))
           else if reg_size info = 8 then
             bind_res (opt_value (to_integral (uint_type 64) str 16)) (\<lambda>v. Inr (Some (V_u64 (word_of_int v))))
           else Inr None)
      | Double_float \<Rightarrow> bind_res (opt_value (to_float from_chars_float str)) (\<lambda>v. Inr (Some (V_double v)))
      | Long_double \<Rightarrow> bind_res (opt_value (to_float from_chars_float str)) (\<lambda>v. Inr (Some (V_long_double v)))
      | Vector \<Rightarrow>
          (if reg_size info = 8 then bind_res (parse_vector_of 8 str) (\<lambda>v. Inr (Some (V_byte64 v)))
           else if reg_size info = 16 then bind_res (parse_vector_of 16 str) (\<lambda>v. Inr (Some (V_byte128 v)))
           else Inr None))"

definition parse_register_value ::
  "(string \<Rightarrow> (byte list \<times> string) option) \<Rightarrow> register_info \<Rightarrow> string \<Rightarrow> reg_value result" where
  "parse_register_value from_chars_float info str =
     (case parse_by_format from_chars_float info str of
        Inr (Some v) \<Rightarrow> Inr v
      | _ \<Rightarrow> send ''Invalid format'')"

section \<open>Commands\<close>

text \<open>\<open>std::getline\<close> in a loop: a last item that is empty is not delivered.\<close>

function split :: "string \<Rightarrow> char \<Rightarrow> string list" where
  "split str d =
     (if str = [] then []
      else case dropWhile (\<lambda>c. c \<noteq> d) str of
             [] \<Rightarrow> [str]
           | _ # rest \<Rightarrow> takeWhile (\<lambda>c. c \<noteq> d) str # split rest d)"
  by pat_completeness auto

termination
proof (relation "measure (length \<circ> fst)", simp)
  fix str d x21 x22
  assume "dropWhile (\<lambda>c. c \<noteq> d) str = x21 # x22"
  then show "((x22, d), str, d) \<in> measure (length \<circ> fst)"
    using length_dropWhile_le [of "\<lambda>c. c \<noteq> d" str] by simp
qed

declare split.simps [simp del]

definition is_prefix :: "string \<Rightarrow> string \<Rightarrow> bool" where
  "is_prefix str ofs = (if length ofs < length str then False else take (length str) ofs = str)"

section \<open>Hexadecimal numbers\<close>

definition hex_digits :: "string \<Rightarrow> nat \<Rightarrow> bool" where
  "hex_digits ds n \<longleftrightarrow> ds \<noteq> [] \<and> (\<forall>c \<in> set ds. digit_of c < 16) \<and> digits_value 16 ds = n"

lemma to_integral_hex:
  assumes "hex_digits ds n" "n < 2 ^ w"
  shows "to_integral (uint_type w) (''0x'' @ ds) 16 = Some (int n)"
proof -
  have all: "takeWhile (\<lambda>c. digit_of c < 16) ds = ds" "dropWhile (\<lambda>c. digit_of c < 16) ds = []"
    using assms(1) by (auto simp: hex_digits_def takeWhile_eq_all_conv)
  show ?thesis
    using assms by (simp add: all to_integral_def from_chars_def Let_def uint_type_def fits_def hex_digits_def)
qed

text \<open>
  What the documentation of the formatting library says of \<^verbatim>\<open>{:#0<width>x}\<close> on a number that is not
  negative: the prefix \<^verbatim>\<open>0x\<close>, then the number in hexadecimal digits, padded with zeros.
\<close>

definition fmt_documented :: "fmt_lib \<Rightarrow> bool" where
  "fmt_documented f \<longleftrightarrow> (\<forall>w n. \<exists>ds. fmt_hex f w (int n) = ''0x'' @ ds \<and> hex_digits ds n)"

lemma to_integral_fmt:
  assumes "fmt_documented f" "n < 2 ^ w"
  shows "to_integral (uint_type w) (fmt_hex f k (int n)) 16 = Some (int n)"
  using assms to_integral_hex by (metis fmt_documented_def)

lemma unat_below: "unat (w :: u32) < 2 ^ 32" "unat (x :: u64) < 2 ^ 64"
proof -
  have "unat w < 2 ^ LENGTH(32)" "unat x < 2 ^ LENGTH(64)" by (rule unsigned_less)+
  then show "unat w < 2 ^ 32" "unat x < 2 ^ 64" by simp_all
qed

section \<open>The grammar of byte vectors\<close>

lemma to_integral_no_comma:
  assumes "to_integral_byte item 16 = Some b"
  shows "CHR '','' \<notin> set item"
proof -
  obtain s where s: "s = item \<or> item = ''0x'' @ s" "dropWhile (\<lambda>c. digit_of c < 16) s = []"
  proof -
    let ?s = "if 1 < length item \<and> item ! 0 = CHR ''0'' \<and> item ! 1 = CHR ''x'' then drop 2 item else item"
    have "?s = item \<or> item = ''0x'' @ ?s"
      by (cases item; cases "tl item") auto
    moreover have "dropWhile (\<lambda>c. digit_of c < 16) ?s = []"
      using assms by (auto simp: to_integral_byte_def to_integral_def from_chars_def Let_def uint_type_def
          split: if_splits from_chars_result.splits list.splits)
    ultimately show ?thesis using that by blast
  qed
  then have "\<forall>c \<in> set s. digit_of c < 16" by simp
  moreover have "\<not> digit_of (CHR '','') < 16" by (simp add: digit_of_def)
  ultimately have "CHR '','' \<notin> set s" by blast
  with s(1) show ?thesis by auto
qed

lemma to_integral_byte_Nil [simp]: "to_integral_byte [] 16 = None"
  by (simp add: to_integral_byte_def to_integral_def from_chars_def uint_type_def)

definition vector_items :: "string list \<Rightarrow> byte list \<Rightarrow> bool" where
  "vector_items items bs \<longleftrightarrow> list_all2 (\<lambda>item b. to_integral_byte item 16 = Some b) items bs"

lemma join_Nil_iff: "vector_items items bs \<Longrightarrow> join items = [] \<longleftrightarrow> items = []"
  by (cases items rule: join.cases) (auto simp: vector_items_def list_all2_Cons1)

lemma comma_split:
  "CHR '','' \<notin> set item \<Longrightarrow> takeWhile (\<lambda>c. c \<noteq> CHR '','') item = item \<and> dropWhile (\<lambda>c. c \<noteq> CHR '','') item = []"
  "CHR '','' \<notin> set item \<Longrightarrow> takeWhile (\<lambda>c. c \<noteq> CHR '','') (item @ CHR '','' # r) = item \<and>
     dropWhile (\<lambda>c. c \<noteq> CHR '','') (item @ CHR '','' # r) = CHR '','' # r"
  by (auto simp: takeWhile_eq_all_conv takeWhile_append dropWhile_append)

lemma parse_items_join: "vector_items items bs \<Longrightarrow> parse_items (join items) = Inr bs"
proof (induction items arbitrary: bs rule: join.induct)
  case 1
  then show ?case by (simp add: vector_items_def parse_items.simps)
next
  case (2 x)
  then obtain b where b: "bs = [b]" "to_integral_byte x 16 = Some b"
    by (auto simp: vector_items_def list_all2_Cons1)
  then have "x \<noteq> []" by auto
  then show ?case by (subst parse_items.simps) (simp add: b comma_split(1) [OF to_integral_no_comma [OF b(2)]])
next
  case (3 x y xs)
  then obtain b bs' where b: "bs = b # bs'" "to_integral_byte x 16 = Some b" "vector_items (y # xs) bs'"
    by (auto simp: vector_items_def list_all2_Cons1)
  have "join (y # xs) \<noteq> []" using join_Nil_iff [OF b(3)] by simp
  then show ?case
    by (subst parse_items.simps) (simp add: b(1,2) 3(1) [OF b(3)] comma_split(2) [OF to_integral_no_comma [OF b(2)]])
qed

lemma parse_items_inv:
  "parse_items str = Inr bs \<Longrightarrow> \<exists>items. str = join items \<and> vector_items items bs"
proof (induction str arbitrary: bs rule: parse_items.induct)
  case (1 str)
  show ?case
  proof (cases "str = []")
    case True
    with 1(2) have "bs = []" by (subst (asm) parse_items.simps) simp
    with True show ?thesis by (intro exI [of _ "[]"]) (simp add: vector_items_def)
  next
    case False
    let ?item = "takeWhile (\<lambda>c. c \<noteq> CHR '','') str" and ?rest = "dropWhile (\<lambda>c. c \<noteq> CHR '','') str"
    obtain b where b: "to_integral_byte ?item 16 = Some b"
      using False 1(2) by (subst (asm) parse_items.simps) (auto split: option.splits)
    show ?thesis
    proof (cases ?rest)
      case Nil
      then have item: "?item = str" by (simp add: takeWhile_eq_all_conv)
      moreover have "bs = [b]" using False 1(2) b Nil by (subst (asm) parse_items.simps) simp
      ultimately show ?thesis using b unfolding item by (intro exI [of _ "[str]"]) (simp add: vector_items_def)
    next
      case (Cons c str')
      have "c = CHR '',''" using Cons hd_dropWhile [of "\<lambda>c. c \<noteq> CHR '',''" str] by auto
      have ne: "str' \<noteq> []" using False 1(2) b Cons by (subst (asm) parse_items.simps) (auto split: if_splits)
      obtain bs' where bs': "parse_items str' = Inr bs'" "bs = b # bs'"
        using False 1(2) b Cons ne by (subst (asm) parse_items.simps) (auto simp: res_simps)
      obtain items where items: "str' = join items" "vector_items items bs'"
        using 1(1) [OF False b Cons ne bs'(1)] by blast
      then obtain y ys where "items = y # ys" using ne by (cases items) auto
      with items bs'(2) b Cons \<open>c = CHR '',''\<close> show ?thesis
        using takeWhile_dropWhile_id [of "\<lambda>c. c \<noteq> CHR '',''" str]
        by (intro exI [of _ "?item # items"]) (simp add: vector_items_def)
    qed
  qed
qed

lemma parse_vector_brackets:
  "parse_vector str = Inr bs \<longleftrightarrow> (\<exists>body. str = ''['' @ body @ '']'' \<and> parse_items body = Inr bs)"
proof
  assume p: "parse_vector str = Inr bs"
  then have str: "2 \<le> length str" "hd str = CHR ''[''" "last str = CHR '']''" "parse_items (butlast (tl str)) = Inr bs"
    by (auto simp: parse_vector_def split: if_splits)
  then obtain r where r: "str = CHR ''['' # r" "r \<noteq> []" by (cases str; cases "tl str") auto
  with str(3) have "str = ''['' @ butlast (tl str) @ '']''" using append_butlast_last_id [OF r(2)] by simp
  with str(4) show "\<exists>body. str = ''['' @ body @ '']'' \<and> parse_items body = Inr bs" by blast
qed (auto simp: parse_vector_def)

text \<open>
  C39: \<open>parse_vector\<close> accepts exactly the vectors.  A text is accepted with the bytes \<open>bs\<close> if and only
  if it is a bracketed, comma-separated list with one item for each byte, and each item is the
  hexadecimal text that \<open>to_integral\<close> reads as that byte; everything else is an error.
\<close>

theorem parse_vector_grammar:
  "parse_vector str = Inr bs \<longleftrightarrow>
     (\<exists>items. str = ''['' @ join items @ '']'' \<and>
        list_all2 (\<lambda>item b. to_integral_byte item 16 = Some b) items bs)"
  unfolding parse_vector_brackets vector_items_def [symmetric]
  using parse_items_join parse_items_inv by blast

section \<open>Printed register values\<close>

lemma vector_items_fmt:
  assumes "fmt_documented f"
  shows "vector_items (map (\<lambda>b. fmt_hex f 4 (int (unat b))) bs) bs"
proof -
  have "to_integral_byte (fmt_hex f 4 (int (unat b))) 16 = Some b" for b :: byte
    using to_integral_fmt [OF assms, of "unat b" 8] unat_byte_less [of b] by (simp add: to_integral_byte_def)
  then show ?thesis by (simp add: vector_items_def list_all2_map1 list.rel_refl)
qed

lemma parse_vector_fmt:
  assumes "fmt_documented f"
  shows "parse_vector (''['' @ join (map (\<lambda>b. fmt_hex f 4 (int (unat b))) bs) @ '']'') = Inr bs"
  unfolding parse_vector_brackets using parse_items_join [OF vector_items_fmt [OF assms]] by blast

text \<open>
  What \<^verbatim>\<open>register read\<close> prints can be written back.  For every register of the table, the text
  printed for the value read is accepted by \<open>parse_register_value\<close> for the same register and gives
  the same value, of the same alternative of the variant.
\<close>

theorem register_value_roundtrip:
  assumes "fmt_documented f" "layout_ok m" "length (regs_data rs) = user_size m"
    "info \<in> set (g_register_infos m)" "reg_read m rs info = Inr v"
  shows "parse_register_value from_chars_float info (format_value f v) = Inr v"
proof -
  consider (u32) "reg_format info = Uint" "reg_size info = 4" | (u64) "reg_format info = Uint" "reg_size info = 8"
    | (vec) "reg_format info = Vector" "reg_size info = 16"
    using assms(4) by (auto simp: g_register_infos_def info_x_def info_w_def info_v_def)
  then show ?thesis
  proof cases
    case u32
    then obtain w where "v = V_u32 w" using assms(5) by (auto simp: reg_read_def Let_def res_simps split: if_splits)
    then show ?thesis
      using u32 to_integral_fmt [OF assms(1), of "unat w" 32 10] unat_below
      by (simp add: parse_register_value_def parse_by_format_def)
  next
    case u64
    then obtain w where "v = V_u64 w" using assms(5) by (auto simp: reg_read_def Let_def res_simps split: if_splits)
    then show ?thesis
      using u64 to_integral_fmt [OF assms(1), of "unat w" 64 18] unat_below
      by (simp add: parse_register_value_def parse_by_format_def)
  next
    case vec
    then have v: "v = V_byte128 (bytes_at (reg_offset info) 16 (regs_data rs))"
      using assms(5) by (auto simp: reg_read_def Let_def res_simps split: if_splits)
    have "length (bytes_at (reg_offset info) 16 (regs_data rs)) = 16"
      using reg_slot_inside [OF assms(2,4)] vec assms(3) reg_slot_size [OF assms(4)] by (auto simp: bytes_at_def)
    then show ?thesis
      using vec v parse_vector_fmt [OF assms(1)]
      by (simp add: parse_register_value_def parse_by_format_def parse_vector_of_def)
  qed
qed

text \<open>A formatter that does what the documentation says.\<close>

fun demo_hex :: "nat \<Rightarrow> string" where
  "demo_hex n = (if n < 16 then [''0123456789abcdef'' ! n] else demo_hex (n div 16) @ [''0123456789abcdef'' ! (n mod 16)])"

declare demo_hex.simps [simp del]

definition demo_fmt :: fmt_lib where
  "demo_fmt = \<lparr>
     fmt_hex = (\<lambda>w n. let ds = demo_hex (nat \<bar>n\<bar>) in
        (if n < 0 then ''-'' else []) @ ''0x'' @ replicate (w - 2 - length ds) (CHR ''0'') @ ds),
     fmt_float = (\<lambda>bs. [])\<rparr>"

lemma demo_hex_digit: "n < 16 \<Longrightarrow> digit_of (''0123456789abcdef'' ! n) = n"
proof -
  have "\<forall>n < 16. digit_of (''0123456789abcdef'' ! n) = n" by code_simp
  then show "n < 16 \<Longrightarrow> ?thesis" by blast
qed

lemma hex_digits_snoc:
  "hex_digits ds n \<Longrightarrow> digit_of c < 16 \<Longrightarrow> hex_digits (ds @ [c]) (16 * n + digit_of c)"
  by (auto simp: hex_digits_def digits_value_def)

lemma demo_hex_digits: "hex_digits (demo_hex n) n"
proof (induction n rule: demo_hex.induct)
  case (1 n)
  show ?case
  proof (cases "n < 16")
    case True
    then show ?thesis by (subst demo_hex.simps) (simp add: hex_digits_def digits_value_def demo_hex_digit)
  next
    case False
    then show ?thesis
      using hex_digits_snoc [OF 1 [OF False], of "''0123456789abcdef'' ! (n mod 16)"] demo_hex_digit [of "n mod 16"]
      by (subst demo_hex.simps) simp
  qed
qed

lemma hex_digits_pad: "hex_digits ds n \<Longrightarrow> hex_digits (replicate k (CHR ''0'') @ ds) n"
proof -
  have zero: "digit_of (CHR ''0'') = 0" by (simp add: digit_of_def)
  then have "foldl (\<lambda>a c. a * 16 + digit_of c) 0 (replicate k (CHR ''0'')) = 0" by (induction k) auto
  with zero show "hex_digits ds n \<Longrightarrow> ?thesis" by (auto simp: hex_digits_def digits_value_def)
qed

lemma demo_fmt_documented: "fmt_documented demo_fmt"
  by (auto simp: fmt_documented_def demo_fmt_def Let_def intro!: hex_digits_pad demo_hex_digits)

definition demo_printed_regs :: registers where
  "demo_printed_regs = \<lparr>regs_data = [0x2a, 0x01] @ replicate 1318 0, regs_undefined = [], regs_cfa = 0\<rparr>"

lemma demo_printed_x0: "reg_read darwin_arm64 demo_printed_regs (info_x darwin_arm64 0) = Inr (V_u64 0x12a)"
proof -
  have "is_undefined darwin_arm64 demo_printed_regs (reg_id (info_x darwin_arm64 0)) = Inr False"
    using is_undefined_info [of "info_x darwin_arm64 0" darwin_arm64 demo_printed_regs]
    by (simp add: g_register_infos_def demo_printed_regs_def)
  moreover have "bytes_at 0 8 (regs_data demo_printed_regs) = [0x2a, 0x01] @ replicate 6 0"
    by (simp add: demo_printed_regs_def bytes_at_def)
  moreover have "off_x darwin_arm64 = 0" by (simp add: darwin_arm64_def)
  ultimately show ?thesis
    by (simp add: reg_read_def info_x_def Let_def le_word_def le_nat_replicate_0)
qed

theorem register_value_roundtrip_witness:
  "parse_register_value (\<lambda>s. None) (info_x darwin_arm64 0) (format_value demo_fmt (V_u64 0x12a)) = Inr (V_u64 0x12a)"
  by (rule register_value_roundtrip [OF demo_fmt_documented darwin_layout_ok _ _ demo_printed_x0])
    (simp_all add: demo_printed_regs_def darwin_arm64_def g_register_infos_def)

end
