(* ===== verification/Variables.thy ===== *)
theory Variables
  imports Target Parse
begin

text \<open>
  Reading variables: the data at a location, the search for a variable, and names with members, elements and pointers
  (\<open>read_location_data\<close>, \<open>find_variable\<close>, \<open>resolve_indirect_name\<close> and \<open>get_expression_result\<close> of \<^verbatim>\<open>src/src/target.cpp\<close>).

  A type is an entry of one object file.  A value therefore goes with the position of the file its type is in, and so does an entry for a
  function; builtin types belong to no file and their position does not matter.
\<close>

section \<open>Strings of the standard library\<close>

definition npos :: u64 where "npos = - 1"

definition find_from :: "(char \<Rightarrow> bool) \<Rightarrow> string \<Rightarrow> u64 \<Rightarrow> u64" where
  "find_from P s from =
     (case find (\<lambda>i. P (s ! i)) [unat from..<length s] of None \<Rightarrow> npos | Some i \<Rightarrow> word_of_nat i)"

definition substr :: "string \<Rightarrow> u64 \<Rightarrow> u64 \<Rightarrow> string result" where
  "substr s pos n = (if unat pos > length s then Inl Out_Of_Range else Inr (take (unat n) (drop (unat pos) s)))"

text \<open>The character at the size of a string is the null character; behind it there is none.\<close>

definition string_at :: "string \<Rightarrow> u64 \<Rightarrow> char result" where
  "string_at s i =
     (if unat i < length s then Inr (s ! unat i)
      else if unat i = length s then Inr (CHR 0x00)
      else undefined_behaviour ''string index out of range'')"

section \<open>Access to files\<close>

definition in_file :: "nat \<Rightarrow> (elf \<Rightarrow> cu_header list \<Rightarrow> 'a result) \<Rightarrow> ('k, 'a) dbg" where
  "in_file i f = op_bind (loaded_at i) (\<lambda>l. op_lift (f (loaded_elf l) (dw_headers (ld_dwarf l))))"

definition with_view :: "'k tools \<Rightarrow> nat \<Rightarrow> (view \<Rightarrow> elf \<Rightarrow> cu_header list \<Rightarrow> 'a result) \<Rightarrow> ('k, 'a) dbg" where
  "with_view T i f =
     op_bind (op_gets (\<lambda>p. process_view (tl_mach T) p (tl_view T))) (\<lambda>v. in_file i (f v))"

definition type_size :: "'k tools \<Rightarrow> nat \<times> dtype \<Rightarrow> ('k, u64) dbg" where
  "type_size T = (\<lambda>(i, t). in_file i (\<lambda>obj cus. byte_size (tl_fuel T) obj cus t))"

section \<open>Data at a location\<close>

definition span_data :: "byte list \<Rightarrow> span \<Rightarrow> byte list result" where
  "span_data img s =
     (if sp_size s = 0 then Inr []
      else case sp_data s of
             None \<Rightarrow> undefined_behaviour ''null span read''
           | Some a \<Rightarrow>
               if unat a + unat (sp_size s) \<le> length img then Inr (take (unat (sp_size s)) (drop (unat a) img))
               else undefined_behaviour ''span outside the storage'')"

definition read_simple :: "'k tools \<Rightarrow> nat \<Rightarrow> simple_location \<Rightarrow> u64 \<Rightarrow> int \<Rightarrow> ('k, byte list) dbg" where
  "read_simple T i loc n t =
     (case loc of
        Register_result r \<Rightarrow>
          op_bind (op_lift (register_info_by_dwarf (mach_native (tl_mach T)) (sint (ucast r :: u32)))) (\<lambda>info.
          op_bind (stack_at t) (\<lambda>s.
          op_bind (op_lift (selected_frame s)) (\<lambda>f.
          op_lift (bind_res (reg_read (mach_native (tl_mach T)) (fr_regs f) info) (\<lambda>v. Inr (value_bytes v))))))
      | Address_result a \<Rightarrow> op_bind (op_gets (\<lambda>p. read_memory (tl_mach T) p a (unat n))) op_lift
      | Data_result d \<Rightarrow> in_file i (\<lambda>obj cus. span_data (storage obj) d)
      | Literal_result w \<Rightarrow>
          op_lift (if n \<le> 8 then Inr (take (unat n) (word_bytes w)) else undefined_behaviour ''read past a 64-bit value'')
      | Empty_result \<Rightarrow> op_send ''Invalid location type'')"

text \<open>The vector with the bytes of a piece copied to a bit position that is a whole number of bytes.\<close>

definition copy_piece :: "byte list \<Rightarrow> u64 \<Rightarrow> byte list \<Rightarrow> byte list result" where
  "copy_piece data offset bs =
     (if unat (offset div 8) + length bs \<le> length data then Inr (overwrite (unat (offset div 8)) bs data)
      else undefined_behaviour ''copy past the end of the data'')"

fun read_pieces :: "'k tools \<Rightarrow> nat \<Rightarrow> int \<Rightarrow> piece list \<Rightarrow> byte list \<Rightarrow> u64 \<Rightarrow> ('k, byte list) dbg" where
  "read_pieces T i t [] data offset = op_return data"
| "read_pieces T i t (pc # ps) data offset =
     op_bind (read_simple T i (piece_location pc) ((piece_bit_size pc + 7) div 8) t) (\<lambda>bs.
     if offset mod 8 = 0 \<and> piece_offset pc = 0 \<and> piece_bit_size pc mod 8 = 0 then
       op_bind (op_lift (copy_piece data offset bs)) (\<lambda>data'. read_pieces T i t ps data' (offset + piece_bit_size pc))
     else
       op_bind (op_lift (memcpy_bits data 0 bs (ucast (piece_offset pc)) (ucast (piece_bit_size pc)))) (\<lambda>data'.
       read_pieces T i t ps data' offset))"

definition read_location_data :: "'k tools \<Rightarrow> nat \<Rightarrow> expr_result \<Rightarrow> u64 \<Rightarrow> int option \<Rightarrow> ('k, byte list) dbg" where
  "read_location_data T i loc n tid =
     op_bind (thread_or_current tid) (\<lambda>t.
     case loc of
       Simple s \<Rightarrow> read_simple T i s n t
     | Pieces ps \<Rightarrow> read_pieces T i t ps (replicate (unat n) 0) 0)"

section \<open>Variables\<close>

fun last_global :: "'k tools \<Rightarrow> string \<Rightarrow> nat list \<Rightarrow> (nat \<times> die) option \<Rightarrow> ('k, (nat \<times> die) option) dbg" where
  "last_global T name [] found = op_return found"
| "last_global T name (i # is) found =
     op_bind (with_index i (\<lambda>dw. find_global_variable (tl_fuel T) dw name)) (\<lambda>d.
     last_global T name is (case d of None \<Rightarrow> found | Some x \<Rightarrow> Some (i, x)))"

definition file_of :: "file_addr \<Rightarrow> ('k, nat) dbg" where
  "file_of pc =
     op_bind (op_gets (\<lambda>p. loaded_position p pc)) (\<lambda>file.
     case file of None \<Rightarrow> op_lift (undefined_behaviour ''null object file'') | Some i \<Rightarrow> op_return i)"

definition find_variable :: "'k tools \<Rightarrow> string \<Rightarrow> file_addr \<Rightarrow> ('k, (nat \<times> die) option) dbg" where
  "find_variable T name pc =
     op_bind (file_of pc) (\<lambda>i.
     op_bind (with_index i (\<lambda>dw. find_local_variable (tl_fuel T) dw name pc)) (\<lambda>local.
     case local of
       Some d \<Rightarrow> op_return (Some (i, d))
     | None \<Rightarrow> op_bind file_positions (\<lambda>is. last_global T name is None)))"

definition get_expression_result :: "'k tools \<Rightarrow> u64 \<Rightarrow> ('k, nat \<times> typed_data) dbg" where
  "get_expression_result T k =
     op_bind (op_gets (\<lambda>p. vec_at (expression_results (session p)) k)) (\<lambda>found.
     op_bind (op_lift found) (\<lambda>(i, res).
     op_bind (op_lift (case td_address res of
                Some a \<Rightarrow> Inr a | None \<Rightarrow> undefined_behaviour ''empty optional dereferenced'')) (\<lambda>a.
     op_bind (type_size T (i, td_type res)) (\<lambda>n.
     op_bind (op_bind (op_gets (\<lambda>p. read_memory (tl_mach T) p a (unat n))) op_lift) (\<lambda>new_data.
     let res' = (i, \<lparr>td_data = new_data, td_type = td_type res, td_address = td_address res\<rparr>) in
     op_bind (dbg_modify (\<lambda>d. d\<lparr>expression_results := (expression_results d)[unat k := res']\<rparr>)) (\<lambda>_.
     op_return res'))))))"

text \<open>
  The location of a variable.  Evaluating it looks for the function at the program counter, which builds the index of the file; it is built
  when the evaluation gets as far as that.
\<close>

definition location_env :: "'k tools \<Rightarrow> 'k debugger process \<Rightarrow> loaded \<Rightarrow> registers \<Rightarrow> expr_env" where
  "location_env T p l regs =
     \<lparr>env_elf = loaded_elf l, env_native = mach_native (tl_mach T), env_regs = regs, env_memory = read_memory (tl_mach T) p,
      env_function = (\<lambda>a. fst (function_containing_address (tl_fuel T) (ld_dwarf l) a (ld_index l)))\<rparr>"

definition looks_up_function :: "expr_env \<Rightarrow> attr \<Rightarrow> file_addr option" where
  "looks_up_function env a =
     (case (if at_form a = DW_FORM_exprloc then bind_res (as_expression (env_elf env) a) (\<lambda>_. current_pc env)
            else if at_form a = DW_FORM_sec_offset then bind_res (as_location_list (env_elf env) a) (\<lambda>_. current_pc env)
            else send ''Invalid location type'') of
        Inr pc \<Rightarrow> Some pc
      | Inl _ \<Rightarrow> None)"

definition evaluate_location :: "'k tools \<Rightarrow> nat \<Rightarrow> attr \<Rightarrow> registers \<Rightarrow> ('k, expr_result) dbg" where
  "evaluate_location T i a regs p =
     (let l = loaded_elves (session p) ! i; env = location_env T p l regs;
          idx = (case looks_up_function env a of
                   None \<Rightarrow> ld_index l
                 | Some pc \<Rightarrow> snd (function_containing_address (tl_fuel T) (ld_dwarf l) pc (ld_index l)))
      in (as_evaluated_location (tl_fuel T) env a False,
          p\<lparr>world := (session p)\<lparr>loaded_elves := (loaded_elves (session p))[i := l\<lparr>ld_index := idx\<rparr>]\<rparr>\<rparr>))"

definition get_initial_variable_data :: "'k tools \<Rightarrow> string \<Rightarrow> file_addr \<Rightarrow> ('k, nat \<times> typed_data) dbg" where
  "get_initial_variable_data T name pc =
     op_bind (op_lift (string_at name 0)) (\<lambda>first.
     if first = CHR ''$'' then
       (case to_integral (uint_type 64) (drop 1 name) 10 of
          None \<Rightarrow> op_send ''Invalid expression result index''
        | Some k \<Rightarrow> get_expression_result T (word_of_int k))
     else
       op_bind (find_variable T name pc) (\<lambda>var.
       case var of
         None \<Rightarrow> op_send ''Variable not found''
       | Some (i, d) \<Rightarrow>
           op_bind (in_file i (\<lambda>obj cus. type_of_die obj cus d)) (\<lambda>var_type.
           op_bind (op_lift (die_attr d DW_AT_location)) (\<lambda>a.
           op_bind (get_stack None) (\<lambda>s.
           op_bind (op_lift (selected_frame s)) (\<lambda>f.
           op_bind (evaluate_location T i a (fr_regs f)) (\<lambda>loc.
           op_bind (type_size T (i, From_dwarf var_type)) (\<lambda>n.
           op_bind (read_location_data T i loc n None) (\<lambda>data_vec.
           op_return (i, \<lparr>td_data = data_vec, td_type = From_dwarf var_type,
             td_address = (case loc of Simple (Address_result x) \<Rightarrow> Some x | _ \<Rightarrow> None)\<rparr>)))))))))) "

section \<open>Names with members and elements\<close>

definition is_operator :: "char \<Rightarrow> bool" where
  "is_operator c \<longleftrightarrow> c \<in> set ''.-[(''"

definition is_member_end :: "char \<Rightarrow> bool" where
  "is_member_end c \<longleftrightarrow> c \<in> set ''.-[(,''"

type_synonym resolved = "(nat \<times> typed_data) option \<times> (nat \<times> die) list"

definition member_functions :: "'k tools \<Rightarrow> nat \<Rightarrow> dtype \<Rightarrow> string \<Rightarrow> ('k, die list) dbg" where
  "member_functions T i t member_name =
     in_file i (\<lambda>obj cus.
       bind_res (get_die t) (\<lambda>d.
       bind_res (strip_cvref_typedef (tl_fuel T) obj cus d) (\<lambda>stripped.
       fold_children (tl_fuel T) obj (\<lambda>funcs child.
         bind_res (die_tag child) (\<lambda>tag.
         bind_res (if tag = DW_TAG_subprogram then die_contains child DW_AT_object_pointer else Inr False) (\<lambda>method.
         bind_res (if method then bind_res (die_name (tl_fuel T) obj cus child) (\<lambda>name. Inr (name = Some member_name)) else Inr False) (\<lambda>named.
         Inr (if named then funcs @ [child] else funcs, False))))) [] stripped)))"

text \<open>
  One round of the loop: the value so far, the rest of the name, and the position of the operator in it.  It ends with a result, or goes on
  with the next value and name.
\<close>

definition member_step :: "'k tools \<Rightarrow> nat \<times> typed_data \<Rightarrow> string \<Rightarrow> u64 \<Rightarrow> ('k, resolved + (nat \<times> typed_data) \<times> string) dbg" where
  "member_step T = (\<lambda>(i, data) name pos.
     let start = pos + 1; op_pos = find_from is_member_end name start in
     op_bind (op_lift (substr name start (op_pos - start))) (\<lambda>member_name.
     op_bind (op_lift (string_at name op_pos)) (\<lambda>c.
     if c = CHR ''('' then
       op_bind (member_functions T i (td_type data) member_name) (\<lambda>funcs.
       if funcs = [] then op_send ''No such member function''
       else op_return (Inl (Some (i, data), map (\<lambda>d. (i, d)) funcs)))
     else
       op_bind (in_file i (\<lambda>obj cus. read_member (tl_fuel T) obj cus member_name data)) (\<lambda>data'.
       op_bind (op_lift (substr name start npos)) (\<lambda>rest.
       op_return (Inr ((i, data'), rest)))))))"

definition index_step :: "'k tools \<Rightarrow> nat \<times> typed_data \<Rightarrow> string \<Rightarrow> u64 \<Rightarrow> ('k, resolved + (nat \<times> typed_data) \<times> string) dbg" where
  "index_step T = (\<lambda>(i, data) name pos.
     let int_end = find_from (\<lambda>c. c = CHR '']'') name pos in
     op_bind (op_lift (substr name (pos + 1) (int_end - pos - 1))) (\<lambda>index_str.
     case to_integral (uint_type 64) index_str 10 of
       None \<Rightarrow> op_send ''Invalid index''
     | Some k \<Rightarrow>
         op_bind (with_view T i (\<lambda>v obj cus. typed_index (tl_fuel T) v obj cus (word_of_int k) data)) (\<lambda>data'.
         op_bind (op_lift (substr name (int_end + 1) npos)) (\<lambda>rest.
         op_return (Inr ((i, data'), rest))))))"

definition name_step :: "'k tools \<Rightarrow> nat \<times> typed_data \<Rightarrow> string \<Rightarrow> u64 \<Rightarrow> ('k, resolved + (nat \<times> typed_data) \<times> string) dbg" where
  "name_step T = (\<lambda>(i, data) name pos.
     op_bind (op_lift (string_at name pos)) (\<lambda>c.
     op_bind (if c = CHR ''-'' then
                op_bind (op_lift (string_at name (pos + 1))) (\<lambda>next.
                if next \<noteq> CHR ''>'' then op_send ''Invalid operator''
                else
                  op_bind (with_view T i (\<lambda>v obj cus. deref_pointer (tl_fuel T) v obj cus data)) (\<lambda>data'.
                  op_return (data', pos + 1)))
              else op_return (data, pos)) (\<lambda>(data1, pos1).
     op_bind (op_lift (string_at name pos1)) (\<lambda>c1.
     if c1 = CHR ''.'' \<or> c1 = CHR ''>'' then member_step T (i, data1) name pos1
     else if c1 = CHR ''['' then index_step T (i, data1) name pos1
     else op_return (Inr ((i, data1), name))))))"

fun name_loop :: "nat \<Rightarrow> 'k tools \<Rightarrow> nat \<times> typed_data \<Rightarrow> string \<Rightarrow> u64 \<Rightarrow> ('k, resolved) dbg" where
  "name_loop 0 T data name pos = op_fail Out_Of_Fuel"
| "name_loop (Suc k) T data name pos =
     (if pos = npos then op_return (Some data, [])
      else
        op_bind (name_step T data name pos) (\<lambda>r.
        case r of
          Inl done \<Rightarrow> op_return done
        | Inr (data', name') \<Rightarrow> name_loop k T data' name' (find_from is_operator name' 0)))"

definition resolve_indirect_name :: "'k tools \<Rightarrow> string \<Rightarrow> file_addr \<Rightarrow> ('k, resolved) dbg" where
  "resolve_indirect_name T name pc =
     (let op_pos = find_from is_operator name 0 in
      op_bind (op_lift (string_at name op_pos)) (\<lambda>c.
      op_bind (op_lift (substr name 0 op_pos)) (\<lambda>front.
      if c = CHR ''('' then
        op_bind (target_find_functions T front) (\<lambda>funcs. op_return (None, dwarf_functions funcs))
      else
        op_bind (file_of pc) (\<lambda>_.
        op_bind (get_initial_variable_data T front pc) (\<lambda>data.
        name_loop (tl_fuel T) T data name op_pos)))))"

section \<open>Reading pieces\<close>

lemma read_simple_state: "snd (read_simple T i loc n t p) = p"
  by (auto simp: read_simple_def in_file_def loaded_at_def stack_at_def op_simps split: simple_location.splits sum.splits)

text \<open>A piece that fills whole bytes and is read as exactly these bytes.\<close>

definition byte_piece :: "'k tools \<Rightarrow> nat \<Rightarrow> int \<Rightarrow> 'k debugger process \<Rightarrow> piece \<Rightarrow> byte list \<Rightarrow> bool" where
  "byte_piece T i t p pc bs \<longleftrightarrow>
     piece_offset pc = 0 \<and> unat (piece_bit_size pc) = 8 * length bs \<and>
     fst (read_simple T i (piece_location pc) ((piece_bit_size pc + 7) div 8) t p) = Inr bs"

lemma byte_piece_read:
  "byte_piece T i t p pc bs \<Longrightarrow> read_simple T i (piece_location pc) ((piece_bit_size pc + 7) div 8) t p = (Inr bs, p)"
  using read_simple_state by (auto simp: byte_piece_def prod_eq_iff)

lemma overwrite_middle:
  "length bs \<le> length zs \<Longrightarrow> overwrite (length done) bs (done @ zs) = done @ bs @ drop (length bs) zs"
  by (simp add: overwrite_def)

lemma read_byte_pieces:
  assumes "list_all2 (byte_piece T i t p) ps bss" "length (concat bss) \<le> length zs" "8 * (length done + length zs) < 2 ^ 64"
  shows "read_pieces T i t ps (done @ zs) (word_of_nat (8 * length done)) p =
         (Inr (done @ concat bss @ drop (length (concat bss)) zs), p)"
  using assms
proof (induction ps bss arbitrary: "done" zs rule: list_all2_induct)
  case (Cons pc ps bs bss)
  define off where "off = (word_of_nat (8 * length done) :: u64)"
  have off: "unat off = 8 * length done" unfolding off_def using Cons.prems(2) unat_of_nat [where 'a = 64, of "8 * length done"] by (simp del: of_nat_mult)
  then have eight: "off mod 8 = 0" "unat (off div 8) = length done"
    by (simp_all add: unat_div unat_eq_zero [symmetric] unat_mod)
  have size: "piece_bit_size pc mod 8 = 0" "piece_offset pc = 0"
    using Cons.hyps(1) by (simp_all add: byte_piece_def unat_eq_zero [symmetric] unat_mod)
  have next_off: "off + piece_bit_size pc = word_of_nat (8 * length (done @ bs))"
  proof -
    have "piece_bit_size pc = word_of_nat (unat (piece_bit_size pc))" by simp
    also have "\<dots> = word_of_nat (8 * length bs)" using Cons.hyps(1) by (simp add: byte_piece_def)
    finally show ?thesis by (simp add: off_def algebra_simps)
  qed
  have fits: "length bs \<le> length zs" using Cons.prems(1) by simp
  have copy: "copy_piece (done @ zs) off bs = Inr ((done @ bs) @ drop (length bs) zs)"
    using fits by (simp add: copy_piece_def eight overwrite_middle)
  have "read_pieces T i t ps ((done @ bs) @ drop (length bs) zs) (word_of_nat (8 * length (done @ bs))) p =
      (Inr ((done @ bs) @ concat bss @ drop (length (concat bss)) (drop (length bs) zs)), p)"
    by (rule Cons.IH) (use Cons.prems fits in auto)
  then show ?case
    using byte_piece_read [OF Cons.hyps(1)] eight(1) size
    unfolding off_def [symmetric] by (simp add: op_simps copy next_off add.commute del: of_nat_mult)
qed (simp add: op_simps)

section \<open>Names\<close>

lemma find_from_none:
  assumes "\<forall>c \<in> set s. \<not> P c"
  shows "find_from P s from = npos"
proof -
  have "find (\<lambda>i. P (s ! i)) [unat from..<length s] = None" using assms by (auto simp: find_None_iff)
  then show ?thesis by (simp add: find_from_def)
qed

lemma find_from_first: "s \<noteq> [] \<Longrightarrow> P (hd s) \<Longrightarrow> find_from P s 0 = 0"
  by (cases s) (simp_all add: find_from_def upt_rec)

lemma open_paren_is_operator: "is_operator (CHR ''('')"
  by (simp add: is_operator_def)

lemma name_loop_stuck: "name_loop k T data (CHR ''('' # rest) 0 p = (Inl Out_Of_Fuel, p)"
proof (induction k)
  case (Suc k)
  have "name_step T data (CHR ''('' # rest) 0 p = (Inr (Inr (data, CHR ''('' # rest)), p)"
    by (cases data) (simp add: name_step_def string_at_def op_simps)
  moreover have "find_from is_operator (CHR ''('' # rest) 0 = 0" by (rule find_from_first) (simp_all add: open_paren_is_operator)
  ultimately show ?case using Suc by (simp add: op_simps npos_def)
qed (simp add: op_basic)

section \<open>Properties\<close>



text \<open>
  The name of a variable alone is read outside the string.  For a name without member, element or call the search for an operator finds
  nothing, and \<open>resolve_indirect_name\<close> looks at the character at that position all the same.
\<close>

theorem plain_name_undefined:
  assumes "\<forall>c \<in> set name. \<not> is_operator c" "length name < 2 ^ 64 - 1"
  shows "resolve_indirect_name T name pc p = (undefined_behaviour ''string index out of range'', p)"
proof -
  have "unat npos = 2 ^ 64 - 1" unfolding npos_def by (simp add: unsigned_minus_1_eq_mask mask_eq_exp_minus_1)
  then have "string_at name npos = undefined_behaviour ''string index out of range''"
    using assms(2) by (simp add: string_at_def)
  then show ?thesis
    using find_from_none [of name is_operator 0] assms(1)
    by (simp add: resolve_indirect_name_def op_simps undefined_behaviour_def)
qed

theorem plain_name_undefined_witness:
  "resolve_indirect_name quiet_tools ''count'' null_file_addr quiet_session = (undefined_behaviour ''string index out of range'', quiet_session)"
  by (rule plain_name_undefined) (simp_all add: is_operator_def)

text \<open>
  C20: a call behind an element never ends.  When what is left of a name begins with a parenthesis, as in \<open>a[0](\<close>, no branch of the loop
  of \<open>resolve_indirect_name\<close> applies and nothing changes: no number of rounds is enough.
\<close>

theorem call_behind_element_hangs:
  "name_loop k T data (''('' @ rest) 0 p = (Inl Out_Of_Fuel, p)"
  using name_loop_stuck by simp
end
