(* ===== verification/Evaluate.thy ===== *)
theory Evaluate
  imports Variables
begin

text \<open>
  Calling functions of the debuggee: the arguments of an expression, the choice among overloads, the placement of arguments in registers and
  on the stack, and the return value (\<open>evaluate_expression\<close> of \<^verbatim>\<open>src/src/target.cpp\<close> and the functions it is built from).
\<close>

section \<open>What the system provides\<close>

text \<open>Memory allocation in the debuggee, the parser for numbers of type \<open>double\<close>, and the conversion from \<open>double\<close> to \<open>float\<close>.\<close>

record 'k evaluator =
  ev_allocate :: "'k debugger \<Rightarrow> u64 \<Rightarrow> u64 option \<times> 'k debugger"
  ev_double :: "string \<Rightarrow> (byte list \<times> string) option"
  ev_to_float :: "byte list \<Rightarrow> byte list"

definition inferior_malloc :: "'k evaluator \<Rightarrow> u64 \<Rightarrow> ('k, u64) dbg" where
  "inferior_malloc E n p =
     (case ev_allocate E (session p) (max n 1) of
        (Some a, d) \<Rightarrow> (Inr a, p\<lparr>world := d\<rparr>)
      | (None, d) \<Rightarrow> (send ''Cannot allocate inferior expression storage'', p\<lparr>world := d\<rparr>))"

definition write_bytes :: "'k tools \<Rightarrow> u64 \<Rightarrow> byte list \<Rightarrow> ('k, unit) dbg" where
  "write_bytes T a bs = write_memory (tl_fuel T) (tl_mach T) a bs"

text \<open>Writing a register of a thread, with the change sent to the thread.\<close>

definition write_reg :: "'k tools \<Rightarrow> int \<Rightarrow> register_info \<Rightarrow> reg_value \<Rightarrow> ('k, unit) dbg" where
  "write_reg T t ri v =
     op_bind (op_gets (\<lambda>p. bind_res (registers_at p t) (\<lambda>rs. reg_write (mach_native (tl_mach T)) rs ri v True))) (\<lambda>written.
     op_bind (op_lift written) (\<lambda>(rs, commits).
     op_bind (modify_thread t (\<lambda>s. s\<lparr>thread_regs := rs\<rparr>)) (\<lambda>_.
     op_each (commit_regs (tl_mach T) t) commits)))"

definition write_named_reg :: "'k tools \<Rightarrow> int \<Rightarrow> string \<Rightarrow> nat \<Rightarrow> reg_value \<Rightarrow> ('k, unit) dbg" where
  "write_named_reg T t prefix k v =
     op_bind (op_lift (register_info_by_name (mach_native (tl_mach T)) (prefix @ decimal k))) (\<lambda>ri. write_reg T t ri v)"

definition sp_of :: "'k tools \<Rightarrow> int \<Rightarrow> ('k, u64) dbg" where
  "sp_of T t = op_bind (op_gets (\<lambda>p. bind_res (registers_at p t) (\<lambda>rs. read_by_id_as_u64 (mach_native (tl_mach T)) rs SP))) op_lift"

section \<open>Arguments\<close>

definition literal :: "byte list \<Rightarrow> builtin_type \<Rightarrow> nat \<times> typed_data" where
  "literal bs b = (0, \<lparr>td_data = bs, td_type = Builtin b, td_address = None\<rparr>)"

definition char_byte :: "char \<Rightarrow> byte" where
  "char_byte c = word_of_nat (of_char c)"

definition string_argument :: "'k tools \<Rightarrow> 'k evaluator \<Rightarrow> string \<Rightarrow> ('k, nat \<times> typed_data) dbg" where
  "string_argument T E arg =
     op_bind (inferior_malloc E (word_of_nat (length arg) - 1)) (\<lambda>a.
     op_bind (write_bytes T a (map char_byte (take (length arg - 2) (drop 1 arg)) @ [0])) (\<lambda>_.
     op_return (literal (word_bytes a) Builtin_string)))"

definition number_argument :: "'k evaluator \<Rightarrow> string \<Rightarrow> (nat \<times> typed_data) result" where
  "number_argument E arg =
     (if CHR ''.'' \<in> set arg then
        (case to_float (ev_double E) arg of
           None \<Rightarrow> send ''Invalid floating point literal''
         | Some v \<Rightarrow> Inr (literal v Builtin_floating_point))
      else
        (case to_integral \<lparr>int_signed = True, int_bits = 64\<rparr> arg 10 of
           None \<Rightarrow> send ''Invalid integer literal''
         | Some v \<Rightarrow> Inr (literal (word_bytes (word_of_int v :: u64)) Builtin_integer)))"

definition parse_argument :: "'k tools \<Rightarrow> 'k evaluator \<Rightarrow> int \<Rightarrow> string \<Rightarrow> ('k, nat \<times> typed_data) dbg" where
  "parse_argument T E t arg =
     (if arg = [] then op_send ''Empty argument''
      else if 2 < length arg \<and> hd arg = CHR 0x22 \<and> last arg = CHR 0x22 then string_argument T E arg
      else if arg = ''true'' \<or> arg = ''false''
      then op_return (literal [if arg = ''true'' then 1 else 0] Builtin_boolean)
      else if hd arg = CHR 0x27 then
        (if length arg \<noteq> 3 \<or> arg ! 2 \<noteq> CHR 0x27 then op_send ''Invalid character literal''
         else op_return (literal [char_byte (arg ! 1)] Builtin_character))
      else if hd arg = CHR ''-'' \<or> hd arg \<in> set ''0123456789'' then op_lift (number_argument E arg)
      else
        op_bind (get_pc_file_address T (Some t)) (\<lambda>pc.
        op_bind (resolve_indirect_name T arg pc) (\<lambda>(variable, funcs).
        if funcs \<noteq> [] then op_send ''Nested function calls not supported''
        else
          op_lift (case variable of
              Some v \<Rightarrow> Inr v | None \<Rightarrow> undefined_behaviour ''empty optional dereferenced''))))"

text \<open>The implicit object argument: the address of the object, or of a copy on the stack when it has none.\<close>

definition object_argument :: "'k tools \<Rightarrow> int \<Rightarrow> (nat \<times> die) list \<Rightarrow> nat \<times> typed_data \<Rightarrow> ('k, nat \<times> typed_data) dbg" where
  "object_argument T t funcs = (\<lambda>(i, obj).
     op_bind (case td_address obj of
         Some a \<Rightarrow> op_return (word_bytes a)
       | None \<Rightarrow>
           op_bind (sp_of T t) (\<lambda>sp.
           op_bind (type_size T (i, td_type obj)) (\<lambda>n.
           op_bind (write_bytes T (sp - n) (td_data obj)) (\<lambda>_.
           op_bind (write_register (tl_mach T) t SP (V_u64 (sp - n))) (\<lambda>_.
           op_return (word_bytes (sp - n))))))) (\<lambda>data.
     op_bind (op_lift (vec_at funcs 0)) (\<lambda>(j, func).
     op_bind (in_file j (\<lambda>elf cus.
         bind_res (bind_res (die_attr func DW_AT_object_pointer) (as_reference elf cus)) (type_of_die elf cus))) (\<lambda>this_type.
     op_return (j, \<lparr>td_data = data, td_type = From_dwarf this_type, td_address = None\<rparr>)))))"

text \<open>The variable for the start of an argument is a 32-bit signed integer.\<close>

definition to_int32 :: "u64 \<Rightarrow> u64" where
  "to_int32 w = signed (ucast w :: u32)"

fun argument_loop :: "nat \<Rightarrow> 'k tools \<Rightarrow> 'k evaluator \<Rightarrow> int \<Rightarrow> string \<Rightarrow> u64 \<Rightarrow> u64 \<Rightarrow> (nat \<times> typed_data) list \<Rightarrow>
    ('k, (nat \<times> typed_data) list) dbg" where
  "argument_loop 0 T E t s start stop args = op_fail Out_Of_Fuel"
| "argument_loop (Suc k) T E t s start stop args =
     (if start < stop then
        let found = find_from (\<lambda>c. c = CHR '','') s start;
            comma_pos = (if found = npos then stop else found)
        in
        op_bind (op_lift (substr s start (comma_pos - start))) (\<lambda>arg_expr.
        op_bind (parse_argument T E t arg_expr) (\<lambda>v.
        argument_loop k T E t s (to_int32 (comma_pos + 1)) stop (args @ [v])))
      else op_return args)"

definition collect_arguments :: "'k tools \<Rightarrow> 'k evaluator \<Rightarrow> int \<Rightarrow> string \<Rightarrow> (nat \<times> die) list \<Rightarrow> (nat \<times> typed_data) option \<Rightarrow>
    ('k, (nat \<times> typed_data) list) dbg" where
  "collect_arguments T E t s funcs obj =
     op_bind (case obj of None \<Rightarrow> op_return []
              | Some x \<Rightarrow> op_bind (object_argument T t funcs x) (\<lambda>v. op_return [v])) (\<lambda>args.
     argument_loop (tl_fuel T) T E t s 1 (find_from (\<lambda>c. c = CHR '')'') s 0) args)"

section \<open>Overloads\<close>

text \<open>Equality of types that may be in different files.\<close>

definition types_equal :: "nat \<Rightarrow> elf \<Rightarrow> cu_header list \<Rightarrow> dtype \<Rightarrow> elf \<Rightarrow> cu_header list \<Rightarrow> dtype \<Rightarrow> bool result" where
  "types_equal n obj cus lhs obj' cus' rhs =
     (case (lhs, rhs) of
        (Builtin a, Builtin b) \<Rightarrow> Inr (a = b)
      | (Builtin a, From_dwarf d) \<Rightarrow> builtin_matches n obj' cus' d a
      | (From_dwarf d, Builtin b) \<Rightarrow> builtin_matches n obj cus d b
      | (From_dwarf c, From_dwarf d) \<Rightarrow>
          bind_res (strip_all n obj cus c) (\<lambda>c'.
          bind_res (strip_all n obj' cus' d) (\<lambda>d'.
          bind_res (die_name n obj cus c') (\<lambda>cname.
          bind_res (die_name n obj' cus' d') (\<lambda>dname.
          Inr (cname \<noteq> None \<and> dname \<noteq> None \<and> cname = dname))))))"

lemma types_equal_same_file: "types_equal n obj cus a obj cus b = type_eq n obj cus a b"
  by (simp add: types_equal_def type_eq_def split: dtype.splits)

definition same_type :: "'k tools \<Rightarrow> nat \<times> dtype \<Rightarrow> nat \<times> dtype \<Rightarrow> ('k, bool) dbg" where
  "same_type T = (\<lambda>(i, a) (j, b).
     op_bind (loaded_at i) (\<lambda>l. op_bind (loaded_at j) (\<lambda>m.
     op_lift (types_equal (tl_fuel T) (loaded_elf l) (dw_headers (ld_dwarf l)) a (loaded_elf m) (dw_headers (ld_dwarf m)) b))))"

fun all_same :: "'k tools \<Rightarrow> (nat \<times> dtype) list \<Rightarrow> (nat \<times> dtype) list \<Rightarrow> ('k, bool) dbg" where
  "all_same T (x # xs) (y # ys) =
     op_bind (same_type T x y) (\<lambda>same. if same then all_same T xs ys else op_return False)"
| "all_same T xs ys = op_return True"

definition accepts :: "'k tools \<Rightarrow> (nat \<times> typed_data) list \<Rightarrow> nat \<times> die \<Rightarrow> ('k, bool) dbg" where
  "accepts T args = (\<lambda>(i, func).
     op_bind (in_file i (\<lambda>obj cus. parameter_types (tl_fuel T) obj cus func)) (\<lambda>params.
     if length args = length params
     then all_same T (map (\<lambda>p. (i, From_dwarf p)) params) (map (\<lambda>(j, v). (j, td_type v)) args)
     else op_return False))"

fun overload_loop :: "'k tools \<Rightarrow> (nat \<times> typed_data) list \<Rightarrow> (nat \<times> die) list \<Rightarrow> (nat \<times> die) option \<Rightarrow> ('k, (nat \<times> die) option) dbg" where
  "overload_loop T args [] found = op_return found"
| "overload_loop T args (f # fs) found =
     op_bind (accepts T args f) (\<lambda>matches.
     if matches then
       if found \<noteq> None then op_send ''Ambiguous function call'' else overload_loop T args fs (Some f)
     else overload_loop T args fs found)"

definition resolve_overload :: "'k tools \<Rightarrow> (nat \<times> die) list \<Rightarrow> (nat \<times> typed_data) list \<Rightarrow> ('k, nat \<times> die) dbg" where
  "resolve_overload T funcs args =
     op_bind (overload_loop T args funcs None) (\<lambda>found.
     case found of None \<Rightarrow> op_send ''No matching function'' | Some f \<Rightarrow> op_return f)"

section \<open>Placing the arguments\<close>

record stack_value =
  sv_bytes :: "byte list"
  sv_alignment :: u64

text \<open>What the loop over the parameters carries along: the next registers and the values for the stack.\<close>

record argument_state =
  next_integer :: nat
  next_floating :: nat
  on_stack :: "stack_value list"

definition zero_pad :: "nat \<Rightarrow> byte list \<Rightarrow> byte list" where
  "zero_pad n bs = take n (bs @ replicate n 0)"

text \<open>Eight bytes of a value from \<open>j\<close> on, as many as the value has left.\<close>

definition word_at :: "byte list \<Rightarrow> u64 \<Rightarrow> u64 \<Rightarrow> u64 result" where
  "word_at v sz j = bind_res (sub_bytes v j (min 8 (sz - j))) (\<lambda>bs. Inr (le_word (zero_pad 8 bs)))"

fun floating_registers :: "'k tools \<Rightarrow> int \<Rightarrow> byte list \<Rightarrow> u64 \<Rightarrow> u64 list \<Rightarrow> nat \<Rightarrow> ('k, nat) dbg" where
  "floating_registers T t v es [] k = op_return k"
| "floating_registers T t v es (off # offs) k =
     op_bind (op_lift (sub_bytes v off es)) (\<lambda>bs.
     op_bind (write_named_reg T t ''v'' k (V_byte128 (zero_pad 16 bs))) (\<lambda>_.
     floating_registers T t v es offs (Suc k)))"

fun integer_registers :: "'k tools \<Rightarrow> int \<Rightarrow> byte list \<Rightarrow> u64 \<Rightarrow> nat list \<Rightarrow> nat \<Rightarrow> ('k, nat) dbg" where
  "integer_registers T t v sz [] k = op_return k"
| "integer_registers T t v sz (j # js) k =
     op_bind (op_lift (word_at v sz (word_of_nat (8 * j)))) (\<lambda>w.
     op_bind (write_named_reg T t ''x'' k (V_u64 w)) (\<lambda>_.
     integer_registers T t v sz js (Suc k)))"

text \<open>A parameter of reference type takes the address of the argument, which is copied into the debuggee when it has none.\<close>

definition reference_argument :: "'k tools \<Rightarrow> 'k evaluator \<Rightarrow> typed_data \<Rightarrow> ('k, byte list) dbg" where
  "reference_argument T E arg =
     (case td_address arg of
        Some a \<Rightarrow> op_return (word_bytes a)
      | None \<Rightarrow>
          op_bind (inferior_malloc E (word_of_nat (length (td_data arg)))) (\<lambda>slot.
          op_bind (write_bytes T slot (td_data arg)) (\<lambda>_. op_return (word_bytes slot))))"

definition push_argument :: "'k tools \<Rightarrow> nat \<Rightarrow> die \<Rightarrow> byte list \<Rightarrow> argument_state \<Rightarrow> ('k, argument_state) dbg" where
  "push_argument T i type v st =
     op_bind (in_file i (\<lambda>obj cus. alignment (tl_fuel T) obj cus type)) (\<lambda>al.
     op_return (st\<lparr>on_stack := on_stack st @ [\<lparr>sv_bytes = v, sv_alignment = max 1 (min al 16)\<rparr>]\<rparr>))"

definition place_value :: "'k tools \<Rightarrow> 'k evaluator \<Rightarrow> int \<Rightarrow> nat \<Rightarrow> die \<Rightarrow> arm64_hfa option \<Rightarrow> byte list \<Rightarrow> u64 \<Rightarrow> argument_state \<Rightarrow>
    ('k, argument_state) dbg" where
  "place_value T E t i type hfa v sz st =
     (case hfa of
        Some h \<Rightarrow>
          if next_floating st + length (hfa_offsets h) \<le> 8 then
            op_bind (floating_registers T t v (element_size h) (hfa_offsets h) (next_floating st)) (\<lambda>k.
            op_return (st\<lparr>next_floating := k\<rparr>))
          else push_argument T i type v st
      | None \<Rightarrow>
          if sz \<le> 16 \<and> next_integer st + unat ((sz + 7) div 8) \<le> 8 then
            op_bind (integer_registers T t v sz [0..<unat ((sz + 7) div 8)] (next_integer st)) (\<lambda>k.
            op_return (st\<lparr>next_integer := k\<rparr>))
          else if sz > 16 then
            op_bind (inferior_malloc E sz) (\<lambda>slot.
            op_bind (write_bytes T slot v) (\<lambda>_.
            if next_integer st < 8 then
              op_bind (write_named_reg T t ''x'' (next_integer st) (V_u64 slot)) (\<lambda>_.
              op_return (st\<lparr>next_integer := Suc (next_integer st)\<rparr>))
            else push_argument T i type (word_bytes slot) st))
          else push_argument T i type v st)"

definition place_argument :: "'k tools \<Rightarrow> 'k evaluator \<Rightarrow> int \<Rightarrow> nat \<Rightarrow> die \<Rightarrow> nat \<times> typed_data \<Rightarrow> argument_state \<Rightarrow>
    ('k, argument_state) dbg" where
  "place_argument T E t i type = (\<lambda>(j, arg) st.
     op_bind (type_size T (i, From_dwarf type)) (\<lambda>n.
     op_bind (in_file i (\<lambda>obj cus. is_reference_type (tl_fuel T) obj cus type)) (\<lambda>by_reference.
     op_bind (if by_reference then reference_argument T E arg else op_return (td_data arg)) (\<lambda>v.
     let sz = (if by_reference then 8 else n) in
     op_bind (in_file i (\<lambda>obj cus. classify_arm64_hfa (tl_fuel T) obj cus (From_dwarf type))) (\<lambda>hfa.
     op_bind (case hfa of
         Some h \<Rightarrow>
           if element_size h = 4 \<and> length (hfa_offsets h) = 1 then
             op_bind (type_size T (j, td_type arg)) (\<lambda>m.
             if m = 8 then op_lift (bind_res (front_bytes 8 v) (\<lambda>bs. Inr (ev_to_float E bs))) else op_return v)
           else op_return v
       | None \<Rightarrow> op_return v) (\<lambda>v'.
     place_value T E t i type hfa v' sz st))))))"

fun place_arguments :: "'k tools \<Rightarrow> 'k evaluator \<Rightarrow> int \<Rightarrow> nat \<Rightarrow> die list \<Rightarrow> (nat \<times> typed_data) list \<Rightarrow> argument_state \<Rightarrow>
    ('k, argument_state) dbg" where
  "place_arguments T E t i [] args st = op_return st"
| "place_arguments T E t i (type # types) [] st = op_lift (undefined_behaviour ''vector index out of range'')"
| "place_arguments T E t i (type # types) (arg # args) st =
     op_bind (place_argument T E t i type arg st) (place_arguments T E t i types args)"

definition align_up :: "u64 \<Rightarrow> u64 \<Rightarrow> u64" where
  "align_up a al = (a + al - 1) AND NOT (al - 1)"

definition stack_count :: "stack_value list \<Rightarrow> u64" where
  "stack_count vs = foldl (\<lambda>count v. align_up count (sv_alignment v) + word_of_nat (length (sv_bytes v))) 0 vs"

fun write_stack :: "'k tools \<Rightarrow> stack_value list \<Rightarrow> u64 \<Rightarrow> ('k, unit) dbg" where
  "write_stack T [] at = op_return ()"
| "write_stack T (v # vs) at =
     op_bind (write_bytes T (align_up at (sv_alignment v)) (sv_bytes v)) (\<lambda>_.
     write_stack T vs (align_up at (sv_alignment v) + word_of_nat (length (sv_bytes v))))"

definition setup_arguments :: "'k tools \<Rightarrow> 'k evaluator \<Rightarrow> int \<Rightarrow> nat \<times> die \<Rightarrow> (nat \<times> typed_data) list \<Rightarrow> u64 option \<Rightarrow> ('k, unit) dbg" where
  "setup_arguments T E t = (\<lambda>(i, func) args ret.
     op_bind (in_file i (\<lambda>obj cus. parameter_types (tl_fuel T) obj cus func)) (\<lambda>params.
     op_bind (sp_of T t) (\<lambda>sp.
     op_bind (case ret of None \<Rightarrow> op_return () | Some a \<Rightarrow> write_register (tl_mach T) t (X 8) (V_u64 a)) (\<lambda>_.
     op_bind (place_arguments T E t i params args \<lparr>next_integer = 0, next_floating = 0, on_stack = []\<rparr>) (\<lambda>st.
     let sp' = (sp - stack_count (on_stack st)) AND NOT 15 in
     op_bind (write_stack T (on_stack st) sp') (\<lambda>_.
     write_register (tl_mach T) t SP (V_u64 sp')))))))"

section \<open>The return value\<close>

fun hfa_result :: "native \<Rightarrow> registers \<Rightarrow> u64 \<Rightarrow> u64 list \<Rightarrow> nat \<Rightarrow> byte list \<Rightarrow> byte list result" where
  "hfa_result m rs es [] k bytes = Inr bytes"
| "hfa_result m rs es (off # offs) k bytes =
     bind_res (register_info_by_name m (''v'' @ decimal k)) (\<lambda>ri.
     bind_res (reg_read m rs ri) (\<lambda>v.
     case v of
       V_byte128 bs \<Rightarrow>
         if unat es \<le> length bs \<and> unat off + unat es \<le> length bytes
         then hfa_result m rs es offs (Suc k) (overwrite (unat off) (take (unat es) bs) bytes)
         else undefined_behaviour ''copy past the end of the data''
     | _ \<Rightarrow> Inl Bad_Variant_Access))"

definition integer_result :: "native \<Rightarrow> registers \<Rightarrow> nat \<Rightarrow> byte list result" where
  "integer_result m rs n =
     bind_res (read_by_id_as_u64 m rs (X 0)) (\<lambda>x0.
     bind_res (read_by_id_as_u64 m rs (X 1)) (\<lambda>x1.
     Inr (take n (word_bytes x0 @ word_bytes x1))))"

definition read_return_value :: "'k tools \<Rightarrow> nat \<times> die \<Rightarrow> u64 \<Rightarrow> registers \<Rightarrow> ('k, nat \<times> typed_data) dbg" where
  "read_return_value T = (\<lambda>(i, func) slot rs.
     op_bind (in_file i (\<lambda>obj cus. type_of_die obj cus func)) (\<lambda>type.
     op_bind (type_size T (i, From_dwarf type)) (\<lambda>n.
     op_bind (in_file i (\<lambda>obj cus. classify_arm64_hfa (tl_fuel T) obj cus (From_dwarf type))) (\<lambda>hfa.
     op_bind (case hfa of
         Some h \<Rightarrow> op_lift (hfa_result (mach_native (tl_mach T)) rs (element_size h) (hfa_offsets h) 0 (replicate (unat n) 0))
       | None \<Rightarrow>
           if n > 16 then op_bind (op_gets (\<lambda>p. read_memory (tl_mach T) p slot (unat n))) op_lift
           else op_lift (integer_result (mach_native (tl_mach T)) rs (unat n))) (\<lambda>bytes.
     op_bind (write_bytes T slot bytes) (\<lambda>_.
     op_return (i, \<lparr>td_data = bytes, td_type = From_dwarf type, td_address = Some slot\<rparr>)))))))"

section \<open>The call\<close>

definition call_address :: "'k tools \<Rightarrow> nat \<times> die \<Rightarrow> ('k, u64) dbg" where
  "call_address T = (\<lambda>(i, func).
     op_bind (op_lift (die_has_range func)) (\<lambda>has_range.
     op_bind (if has_range then op_return func
              else
                op_bind (with_index i (\<lambda>dw. get_member_function_definition (tl_fuel T) dw func)) (\<lambda>def.
                case def of None \<Rightarrow> op_send ''No function definition found'' | Some d \<Rightarrow> op_return d)) (\<lambda>d.
     in_file i (\<lambda>obj cus. bind_res (low_pc obj d) (to_virt_addr obj)))))"

definition inferior_call_from_dwarf :: "'k tools \<Rightarrow> 'k loader \<Rightarrow> 'k evaluator \<Rightarrow> nat \<times> die \<Rightarrow> (nat \<times> typed_data) list \<Rightarrow> u64 \<Rightarrow> int \<Rightarrow>
    ('k, (nat \<times> typed_data) option) dbg" where
  "inferior_call_from_dwarf T L E func args ret t =
     op_bind (op_bind (op_gets (\<lambda>p. registers_at p t)) op_lift) (\<lambda>saved.
     op_bind (call_address T func) (\<lambda>a.
     op_bind (op_lift (die_contains (snd func) DW_AT_type)) (\<lambda>returns.
     op_bind (if returns then
                op_bind (in_file (fst func) (\<lambda>obj cus. type_of_die obj cus (snd func))) (\<lambda>type.
                op_bind (type_size T (fst func, From_dwarf type)) (\<lambda>n.
                op_bind (inferior_malloc E n) (\<lambda>slot. op_return (Some slot))))
              else op_return None) (\<lambda>slot.
     op_bind (setup_arguments T E t func args slot) (\<lambda>_.
     op_bind (inferior_call (tl_rounds T) (tl_fuel T) (tl_mach T) (target_hooks T L) a ret saved (Some t)) (\<lambda>rs.
     case slot of
       None \<Rightarrow> op_return None
     | Some s \<Rightarrow> op_bind (read_return_value T func s rs) (\<lambda>v. op_return (Some v))))))))"

definition entry_point :: "('k, u64) dbg" where
  "entry_point =
     op_bind (op_gets (\<lambda>p. loaded_elf (loaded_elves (session p) ! main_elf (session p)))) (\<lambda>e.
     op_lift (to_virt_addr e (elf_file_addr e (e_entry e))))"

definition evaluate_expression :: "'k tools \<Rightarrow> 'k loader \<Rightarrow> 'k evaluator \<Rightarrow> string \<Rightarrow> int option \<Rightarrow>
    ('k, ((nat \<times> typed_data) \<times> u64) option) dbg" where
  "evaluate_expression T L E expr tid =
     op_bind (thread_or_current tid) (\<lambda>t.
     op_bind (get_pc_file_address T (Some t)) (\<lambda>pc.
     let paren_pos = find_from (\<lambda>c. c = CHR ''('') expr 0 in
     if paren_pos = npos then op_send ''Invalid expression''
     else
       op_bind (op_lift (substr expr 0 (paren_pos + 1))) (\<lambda>name.
       op_bind (resolve_indirect_name T name pc) (\<lambda>(variable, funcs).
       if funcs = [] then op_send ''Invalid expression''
       else
         op_bind entry_point (\<lambda>entry.
         op_bind (op_lift (substr expr paren_pos npos)) (\<lambda>arg_string.
         op_bind (collect_arguments T E t arg_string funcs variable) (\<lambda>args.
         op_bind (resolve_overload T funcs args) (\<lambda>func.
         op_bind (inferior_call_from_dwarf T L E func args entry t) (\<lambda>ret.
         case ret of
           None \<Rightarrow> op_return None
         | Some v \<Rightarrow>
             op_bind (op_gets (\<lambda>p. length (expression_results (session p)))) (\<lambda>k.
             op_bind (dbg_modify (\<lambda>d. d\<lparr>expression_results := expression_results d @ [v]\<rparr>)) (\<lambda>_.
             op_return (Some (v, word_of_nat k)))))))))))))"

section \<open>Overloads by their matches\<close>

lemma in_file_state: "snd (in_file i f p) = p"
  by (simp add: in_file_def loaded_at_def op_simps)

lemma all_same_state: "snd (all_same T xs ys p) = p"
proof (induction T xs ys rule: all_same.induct)
  case (1 T x xs y ys)
  have "snd (same_type T x y p) = p"
    by (simp add: same_type_def loaded_at_def op_simps split: prod.splits)
  then obtain r where r: "same_type T x y p = (r, p)" by (metis prod.collapse)
  show ?case
  proof (cases "r = Inr True")
    case True
    with r 1 show ?thesis by (simp add: op_bind_run)
  next
    case False
    with r show ?thesis by (auto simp: op_bind_run op_basic split: sum.splits)
  qed
qed (simp_all add: op_basic)

lemma accepts_state: "snd (accepts T args f p) = p"
proof -
  obtain i func where f: "f = (i, func)" by (cases f)
  have "snd (in_file i (\<lambda>obj cus. parameter_types (tl_fuel T) obj cus func) p) = p" by (rule in_file_state)
  then show ?thesis
    unfolding f accepts_def using all_same_state
    by (auto simp: op_bind_run op_basic split: prod.splits sum.splits)
qed

definition matching :: "'k tools \<Rightarrow> (nat \<times> typed_data) list \<Rightarrow> 'k debugger process \<Rightarrow> (nat \<times> die) list \<Rightarrow> (nat \<times> die) list" where
  "matching T args p funcs = filter (\<lambda>f. fst (accepts T args f p) = Inr True) funcs"

lemma accepts_cases:
  assumes "fst (accepts T args f p) \<in> range Inr"
  obtains "accepts T args f p = (Inr True, p)" | "accepts T args f p = (Inr False, p)"
  using assms accepts_state [of T args f p] by (cases "accepts T args f p") auto

lemma overload_loop_found:
  "\<forall>f \<in> set funcs. fst (accepts T args f p) \<in> range Inr \<Longrightarrow>
   overload_loop T args funcs (Some g) p =
     (if matching T args p funcs = [] then (Inr (Some g), p) else (send ''Ambiguous function call'', p))"
proof (induction funcs)
  case (Cons f funcs)
  show ?case
    by (rule accepts_cases [of T args f p]) (use Cons in \<open>auto simp: op_simps matching_def send_def\<close>)
qed (simp add: op_simps matching_def)

lemma overload_loop_none:
  "\<forall>f \<in> set funcs. fst (accepts T args f p) \<in> range Inr \<Longrightarrow>
   overload_loop T args funcs None p =
     (case matching T args p funcs of
        [] \<Rightarrow> (Inr None, p)
      | f # fs \<Rightarrow> if fs = [] then (Inr (Some f), p) else (send ''Ambiguous function call'', p))"
proof (induction funcs)
  case (Cons f funcs)
  have rest: "overload_loop T args funcs (Some f) p =
     (if matching T args p funcs = [] then (Inr (Some f), p) else (send ''Ambiguous function call'', p))"
    by (rule overload_loop_found) (use Cons.prems in simp)
  show ?case
    by (rule accepts_cases [of T args f p]) (use Cons rest in \<open>auto simp: op_simps matching_def\<close>)
qed (simp add: op_simps matching_def)

section \<open>Arguments on the stack\<close>

lemma and_not_mask: "w AND NOT (mask k) = push_bit k (drop_bit k (w :: 'a :: len word))"
  by (rule bit_word_eqI) (auto simp: bit_simps)

lemma unat_and_not_mask:
  "k < LENGTH('a) \<Longrightarrow> unat (w AND NOT (mask k) :: 'a :: len word) = (unat w div 2 ^ k) * 2 ^ k"
proof -
  assume "k < LENGTH('a)"
  have "(unat w div 2 ^ k) * 2 ^ k \<le> unat w" by (rule div_times_less_eq_dividend)
  then have "(unat w div 2 ^ k) * 2 ^ k < 2 ^ LENGTH('a)" by (rule order_le_less_trans) (rule unsigned_less)
  then show ?thesis
    by (simp only: and_not_mask unsigned_push_bit_eq unat_drop_bit_eq)
      (simp add: push_bit_eq_mult drop_bit_eq_div take_bit_nat_eq_self)
qed

definition round_up :: "nat \<Rightarrow> nat \<Rightarrow> nat" where
  "round_up a al = ((a + al - 1) div al) * al"

lemma align_up_unat:
  assumes "al \<in> {1, 2, 4, 8, 16}" "unat a + 16 < 2 ^ 64"
  shows "unat (align_up a al) = round_up (unat a) (unat al)"
proof -
  obtain k where k: "al = 2 ^ k" "k \<le> 4" "unat al = 2 ^ k"
    using assms(1) by (auto intro: that [of 0] that [of 1] that [of 2] that [of 3] that [of 4])
  have "(2 :: nat) ^ k \<le> 2 ^ 4" by (rule power_increasing) (use k in auto)
  then have small: "1 \<le> unat al" "unat al \<le> 16" using k(3) by auto
  have "unat (a + al) = unat a + unat al" using small assms(2) by (simp add: unat_word_ariths)
  then have "unat (a + al - 1) = unat a + unat al - 1"
    using small by (subst unat_minus_one) (auto simp: unat_eq_zero [symmetric])
  then show ?thesis
    using k unat_and_not_mask [of k "a + al - 1"] by (simp add: align_up_def mask_eq_exp_minus_1 round_up_def)
qed

lemma round_up_bounds: "0 < al \<Longrightarrow> a \<le> round_up a al" "0 < al \<Longrightarrow> round_up a al < a + al" "al dvd round_up a al"
proof -
  assume al: "0 < al"
  have "(a + al - 1) div al * al + (a + al - 1) mod al = a + al - 1" by simp
  moreover have "(a + al - 1) mod al < al" using al by simp
  ultimately show "a \<le> round_up a al" unfolding round_up_def by linarith
  have "(a + al - 1) div al * al \<le> a + al - 1" by simp
  with al show "round_up a al < a + al" unfolding round_up_def by linarith
qed (simp add: round_up_def)

lemma round_up_shift: "al dvd b \<Longrightarrow> 0 < al \<Longrightarrow> round_up (b + a) al = b + round_up a al"
proof -
  assume "al dvd b" "0 < al"
  then obtain c where "b = al * c" by auto
  then have "b + a + al - 1 = a + al - 1 + al * c" using \<open>0 < al\<close> by simp
  then show ?thesis using \<open>b = al * c\<close> \<open>0 < al\<close> by (simp only: round_up_def div_mult_self2) (simp add: algebra_simps)
qed

text \<open>The writes of \<open>write_stack\<close>, and where they end counted from the start of the area.\<close>

fun stack_writes :: "stack_value list \<Rightarrow> u64 \<Rightarrow> (u64 \<times> stack_value) list" where
  "stack_writes [] at = []"
| "stack_writes (v # vs) at =
     (let a = align_up at (sv_alignment v) in (a, v) # stack_writes vs (a + word_of_nat (length (sv_bytes v))))"

lemma write_stack_each: "write_stack T vs at = op_each (\<lambda>(a, v). write_bytes T a (sv_bytes v)) (stack_writes vs at)"
  by (induction vs arbitrary: at) (simp_all add: Let_def)

definition area_end :: "nat \<Rightarrow> stack_value list \<Rightarrow> nat" where
  "area_end c vs = foldl (\<lambda>c v. round_up c (unat (sv_alignment v)) + length (sv_bytes v)) c vs"

definition alignments_ok :: "stack_value list \<Rightarrow> bool" where
  "alignments_ok vs \<longleftrightarrow> sv_alignment ` set vs \<subseteq> {1, 2, 4, 8, 16}"

lemma alignment_divides: "al \<in> {1, 2, 4, 8, 16 :: u64} \<Longrightarrow> 0 < unat al \<and> unat al dvd 16"
  by auto

lemma area_end_mono: "alignments_ok vs \<Longrightarrow> c \<le> area_end c vs"
proof (induction vs arbitrary: c)
  case (Cons v vs)
  have "c \<le> round_up c (unat (sv_alignment v))"
    using Cons.prems alignment_divides [of "sv_alignment v"] by (intro round_up_bounds) (simp add: alignments_ok_def)
  also have "\<dots> \<le> area_end (round_up c (unat (sv_alignment v)) + length (sv_bytes v)) vs"
    using Cons.IH [of "round_up c (unat (sv_alignment v)) + length (sv_bytes v)"] Cons.prems by (simp add: alignments_ok_def)
  finally show ?case by (simp add: area_end_def)
qed (simp add: area_end_def)

definition writes_ok :: "nat \<Rightarrow> nat \<Rightarrow> (u64 \<times> stack_value) list \<Rightarrow> bool" where
  "writes_ok low high ws \<longleftrightarrow>
     (\<forall>(a, v) \<in> set ws. low \<le> unat a \<and> unat a + length (sv_bytes v) \<le> high \<and> unat (sv_alignment v) dvd unat a) \<and>
     sorted_wrt (\<lambda>(a, v) (b, _). unat a + length (sv_bytes v) \<le> unat b) ws"

lemma one_write:
  assumes "al \<in> {1, 2, 4, 8, 16}" "unat at = B + c" "16 dvd B" "B + round_up c (unat al) + n + 16 < 2 ^ 64"
  shows "unat (align_up at al) = B + round_up c (unat al)" "unat al dvd unat (align_up at al)"
    "unat (align_up at al + word_of_nat n) = B + (round_up c (unat al) + n)"
proof -
  have al: "0 < unat al" "unat al dvd B" using alignment_divides [OF assms(1)] assms(3) dvd_trans by blast+
  have "c \<le> round_up c (unat al)" using al by (intro round_up_bounds) simp
  then have "unat at + 16 < 2 ^ 64" using assms(2,4) by simp
  then show a: "unat (align_up at al) = B + round_up c (unat al)"
    using align_up_unat [OF assms(1)] assms(2) round_up_shift [OF al(2,1), of c] by simp
  show "unat al dvd unat (align_up at al)" unfolding a using al(2) round_up_bounds(3) by (simp add: dvd_add)
  have "unat (word_of_nat n :: u64) = n" using assms(4) by (simp add: unat_of_nat)
  then show "unat (align_up at al + word_of_nat n) = B + (round_up c (unat al) + n)"
    using a assms(4) by (simp add: unat_word_ariths)
qed

lemma stack_writes_ok:
  assumes "alignments_ok vs" "16 dvd B" "unat at = B + c" "B + area_end c vs + 16 < 2 ^ 64"
  shows "writes_ok (B + c) (B + area_end c vs) (stack_writes vs at)"
  using assms(1,3,4)
proof (induction vs arbitrary: at c)
  case (Cons v vs)
  let ?al = "sv_alignment v" and ?n = "length (sv_bytes v)"
  let ?c = "round_up c (unat ?al) + ?n"
  have al: "?al \<in> {1, 2, 4, 8, 16}" "alignments_ok vs" using Cons.prems(1) by (auto simp: alignments_ok_def)
  have end_eq: "area_end c (v # vs) = area_end ?c vs" by (simp add: area_end_def)
  have "?c \<le> area_end ?c vs" by (rule area_end_mono [OF al(2)])
  with Cons.prems(3) end_eq have "B + round_up c (unat ?al) + ?n + 16 < 2 ^ 64" by simp
  note one = one_write [OF al(1) Cons.prems(2) assms(2) this]
  have rest: "writes_ok (B + ?c) (B + area_end ?c vs) (stack_writes vs (align_up at ?al + word_of_nat ?n))"
    by (rule Cons.IH [OF al(2) one(3)]) (use Cons.prems(3) end_eq in simp)
  have "c \<le> round_up c (unat ?al)" using alignment_divides [OF al(1)] by (intro round_up_bounds) simp
  with rest one(1,2) \<open>?c \<le> area_end ?c vs\<close> show ?case
    by (auto simp: writes_ok_def Let_def end_eq)
qed (simp add: writes_ok_def)

lemma stack_count_unat:
  assumes "alignments_ok vs" "unat at = c" "area_end c vs + 16 < 2 ^ 64"
  shows "unat (foldl (\<lambda>count v. align_up count (sv_alignment v) + word_of_nat (length (sv_bytes v))) at vs) = area_end c vs"
  using assms
proof (induction vs arbitrary: at c)
  case (Cons v vs)
  let ?c = "round_up c (unat (sv_alignment v)) + length (sv_bytes v)"
  have al: "sv_alignment v \<in> {1, 2, 4, 8, 16}" "alignments_ok vs" using Cons.prems(1) by (auto simp: alignments_ok_def)
  have end_eq: "area_end c (v # vs) = area_end ?c vs" by (simp add: area_end_def)
  have "?c \<le> area_end ?c vs" by (rule area_end_mono [OF al(2)])
  with Cons.prems(3) end_eq have "0 + round_up c (unat (sv_alignment v)) + length (sv_bytes v) + 16 < 2 ^ 64" by simp
  from one_write(3) [OF al(1) _ _ this, of at] Cons.prems(2)
  have "unat (align_up at (sv_alignment v) + word_of_nat (length (sv_bytes v))) = ?c" by simp
  from Cons.IH [OF al(2) this] Cons.prems(3) end_eq show ?case by simp
qed (simp add: area_end_def)

section \<open>Properties\<close>


definition demo_callee :: "nat \<times> die" where
  "demo_callee = (0, null_die\<lparr>die_abbrev := Some \<lparr>ab_code = 1, ab_tag = DW_TAG_inlined_subroutine, ab_has_children = False, ab_specs = []\<rparr>\<rparr>)"



definition demo_stack_values :: "stack_value list" where
  "demo_stack_values = [\<lparr>sv_bytes = [1], sv_alignment = 1\<rparr>, \<lparr>sv_bytes = replicate 8 2, sv_alignment = 8\<rparr>]"

end
