(* ===== verification/Console.thy ===== *)
theory Console
  imports Evaluate Syscalls
begin

text \<open>
  What the command line prints (\<^verbatim>\<open>tools/sdb.cpp\<close>): source lines, disassembly, stop reasons, the stack, and the help texts.

  The terminal is a part of the system outside the debugger.  A session of the command line has the text printed so far beside the state
  of the rest of the system, so that printing, which the process also causes when a thread comes or goes, is an operation on the session.
  What the formatting library makes of a number, the names of signals, the texts of standard exceptions and the contents of source files
  are parameters.
\<close>

section \<open>The terminal\<close>

datatype console_output = Stdout string | Stderr string

record 'j terminal =
  rest_of_system :: 'j
  printed :: "console_output list"

type_synonym ('j, 'a) cmd = "('j terminal, 'a) dbg"

text \<open>
  \<open>cl_fmt\<close> and the view of the session stand for \<^verbatim>\<open>{:#0<width>x}\<close>, \<^verbatim>\<open>{:#x}\<close> and \<^verbatim>\<open>{}\<close>, \<open>cl_byte\<close> for \<^verbatim>\<open>{:02x}\<close>, \<open>cl_right\<close> for \<^verbatim>\<open>{:>{}}\<close>;
  \<open>cl_source\<close> is the text of a file, empty if it cannot be opened.
\<close>

record console_lib =
  cl_fmt :: fmt_lib
  cl_byte :: "byte \<Rightarrow> string"
  cl_right :: "nat \<Rightarrow> u32 \<Rightarrow> string"
  cl_strsignal :: "byte \<Rightarrow> string"
  cl_from_chars_float :: "string \<Rightarrow> (byte list \<times> string) option"
  cl_source :: "string \<Rightarrow> string"
  cl_what :: "failure \<Rightarrow> string"

definition NL :: char where "NL = CHR 0x0A"

definition append_output :: "console_output \<Rightarrow> 'j terminal \<Rightarrow> 'j terminal" where
  "append_output text t = t\<lparr>printed := printed t @ [text]\<rparr>"

definition put :: "console_output \<Rightarrow> ('j, unit) cmd" where
  "put text = dbg_modify (\<lambda>d. d\<lparr>kernel := append_output text (kernel d)\<rparr>)"

abbreviation out :: "string \<Rightarrow> ('j, unit) cmd" where "out s \<equiv> put (Stdout s)"

abbreviation err :: "string \<Rightarrow> ('j, unit) cmd" where "err s \<equiv> put (Stderr s)"

definition unlines :: "string list \<Rightarrow> string" where
  "unlines ls = concat (map (\<lambda>l. l @ [NL]) ls)"

section \<open>Source code\<close>

text \<open>The first loop of \<open>print_source\<close>: characters are dropped until the line is reached.\<close>

fun skip_to_line :: "u64 \<Rightarrow> u32 \<Rightarrow> string \<Rightarrow> u32 \<times> string" where
  "skip_to_line start_line current_line [] = (current_line, [])"
| "skip_to_line start_line current_line (c # file) =
     (if ucast current_line = start_line then (current_line, c # file)
      else skip_to_line start_line (if c = NL then current_line + 1 else current_line) file)"

text \<open>The second: characters are printed as long as the line is not behind the last.\<close>

fun print_to_line :: "(u32 \<Rightarrow> string) \<Rightarrow> u64 \<Rightarrow> u32 \<Rightarrow> string \<Rightarrow> string" where
  "print_to_line line_start end_line current_line [] = []"
| "print_to_line line_start end_line current_line (c # file) =
     (if ucast current_line \<le> end_line then
        if c = NL then c # line_start (current_line + 1) @ print_to_line line_start end_line (current_line + 1) file
        else c # print_to_line line_start end_line current_line file
      else [])"

text \<open>\<open>floor(log10(n)) + 1\<close>, the number of decimal digits.\<close>

fun dec_width :: "nat \<Rightarrow> nat" where
  "dec_width n = (if n < 10 then 1 else Suc (dec_width (n div 10)))"

declare dec_width.simps [simp del]

definition print_line_start :: "console_lib \<Rightarrow> u64 \<Rightarrow> u64 \<Rightarrow> u32 \<Rightarrow> string" where
  "print_line_start C line end_line current_line =
     (if ucast current_line = line then ''>'' else '' '') @ '' '' @ cl_right C (dec_width (unat end_line)) current_line @ '' ''"

definition source_text :: "console_lib \<Rightarrow> string \<Rightarrow> u64 \<Rightarrow> u64 \<Rightarrow> string result" where
  "source_text C file line n_lines_context =
     (let start_line = (if line \<le> n_lines_context then 1 else line - n_lines_context);
          end_line = line + n_lines_context + 1;
          (current_line, rest) = skip_to_line start_line 1 file
      in if end_line = 0 then undefined_behaviour ''logarithm of zero as an integer''
         else Inr (print_line_start C line end_line current_line @
                   print_to_line (print_line_start C line end_line) end_line current_line rest @ [NL]))"

definition print_source :: "console_lib \<Rightarrow> string \<Rightarrow> u64 \<Rightarrow> u64 \<Rightarrow> ('j, unit) cmd" where
  "print_source C path line n_lines_context =
     op_bind (op_lift (source_text C (cl_source C path) line n_lines_context)) out"

definition print_disassembly :: "'j terminal tools \<Rightarrow> console_lib \<Rightarrow> u64 \<Rightarrow> nat \<Rightarrow> ('j, unit) cmd" where
  "print_disassembly T C address n_instructions =
     op_bind (op_gets (\<lambda>p. disassemble (tl_mach T) (tl_llvm T) p n_instructions (Some address))) (\<lambda>found.
     op_bind (op_lift found)
       (op_each (\<lambda>(a, text). out (fmt_hex (cl_fmt C) 18 (int (unat a)) @ '': '' @ text @ [NL]))))"

section \<open>Why the process stopped\<close>

definition thread_lifecycle_callback :: "(int \<Rightarrow> string) \<Rightarrow> stop_reason \<Rightarrow> 'j terminal \<Rightarrow> 'j terminal" where
  "thread_lifecycle_callback fmt r =
     (let say = (\<lambda>action. append_output (Stdout (''Thread '' @ fmt (stop_tid r) @ '' '' @ action @ [NL]))) in
      case reason r of
        Exited \<Rightarrow> say ''exited''
      | Terminated \<Rightarrow> say ''terminated''
      | Stopped \<Rightarrow> say ''created''
      | Running \<Rightarrow> (\<lambda>t. t))"

definition hardware_message :: "'j terminal tools \<Rightarrow> int + int \<Rightarrow> ('j, string) cmd" where
  "hardware_message T found =
     (let fmt = print_int (tl_view T); hex = print_hex (tl_view T) in
      case found of
        Inl k \<Rightarrow> op_return ('' (breakpoint '' @ fmt k @ '')'')
      | Inr k \<Rightarrow>
          op_bind (op_bind (op_gets (\<lambda>p. get_by_id watchpoint_class k (watchpoints p))) op_lift) (\<lambda>i.
          op_bind (op_gets (\<lambda>p. watchpoints p ! i)) (\<lambda>point.
          op_return ('' (watchpoint '' @ fmt (wp_id point) @ '')'' @
            (if wp_data point = wp_previous_data point then NL # ''Value: '' @ hex (wp_data point)
             else NL # ''Old value: '' @ hex (wp_previous_data point) @ NL # ''New value: '' @ hex (wp_data point))))))"

text \<open>Reading the member of the union that was not written is undefined; the result of a call is signed.\<close>

definition syscall_message :: "'j terminal tools \<Rightarrow> console_lib \<Rightarrow> syscall_information \<Rightarrow> string result" where
  "syscall_message T C s =
     (case (syscall_entry s, syscall_payload s) of
        (True, Syscall_args args) \<Rightarrow>
          bind_res (syscall_id_to_name (int (unat (syscall_id s)))) (\<lambda>name.
          Inr (''(syscall entry)'' @ NL # ''syscall: '' @ name @ ''('' @ join (map (print_hex (tl_view T)) args) @ '')''))
      | (False, Syscall_ret r) \<Rightarrow>
          Inr (''(syscall exit)'' @ NL # ''syscall returned: '' @ fmt_hex (cl_fmt C) 0 (sint r))
      | _ \<Rightarrow> undefined_behaviour ''inactive member of a union'')"

definition get_sigtrap_info :: "'j terminal tools \<Rightarrow> console_lib \<Rightarrow> stop_reason \<Rightarrow> ('j, string) cmd" where
  "get_sigtrap_info T C r =
     (if trap_reason r = Some Software_break then
        op_bind (pc_of T (Some (stop_tid r))) (\<lambda>pc.
        op_bind (op_bind (op_gets (\<lambda>p. get_by_address site_class pc (breakpoint_sites p))) op_lift) (\<lambda>i.
        op_gets (\<lambda>p. '' (breakpoint '' @ print_int (tl_view T) (site_id (breakpoint_sites p ! i)) @ '')'')))
      else if trap_reason r = Some Hardware_break then
        op_bind (op_bind (op_gets (\<lambda>p. get_current_hardware_stoppoint (tl_mach T) p (Some (stop_tid r)))) op_lift) (hardware_message T)
      else if trap_reason r = Some Single_step then op_return '' (single step)''
      else if trap_reason r = Some Syscall then
        (case syscall_info r of
           None \<Rightarrow> op_lift (undefined_behaviour ''empty optional dereferenced'')
         | Some s \<Rightarrow> op_lift (syscall_message T C s))
      else op_return '''')"

definition line_message :: "'j terminal tools \<Rightarrow> line_place option \<Rightarrow> string result" where
  "line_message T place =
     (case place of
        None \<Rightarrow> Inr ''''
      | Some (i, u, it) \<Rightarrow>
          (case loc_file (row_location (unit_lines u) (li_current it)) of
             None \<Rightarrow> undefined_behaviour ''null file entry''
           | Some f \<Rightarrow> Inr ('', '' @ path_filename (lf_path f) @ '':'' @ print_int (tl_view T) (int (unat (le_line (li_current it)))))))"

definition get_signal_stop_reason :: "'j terminal tools \<Rightarrow> console_lib \<Rightarrow> stop_reason \<Rightarrow> ('j, string) cmd" where
  "get_signal_stop_reason T C r =
     op_bind (pc_of T (Some (stop_tid r))) (\<lambda>pc.
     op_bind (line_entry_at_pc T (Some (stop_tid r))) (\<lambda>place.
     op_bind (op_lift (line_message T place)) (\<lambda>line.
     op_bind (function_name_at_address T pc) (\<lambda>func_name.
     op_bind (if info r = SIGTRAP then get_sigtrap_info T C r else op_return '''') (\<lambda>trap.
     op_return (''stopped with signal '' @ cl_strsignal C (info r) @ '' at '' @ print_hex (tl_view T) pc @ line @
       (if func_name = '''' then '''' else '' ('' @ func_name @ '')'') @ trap))))))"

definition print_stop_reason :: "'j terminal tools \<Rightarrow> console_lib \<Rightarrow> stop_reason \<Rightarrow> ('j, unit) cmd" where
  "print_stop_reason T C r =
     (let fmt = print_int (tl_view T) in
      case reason r of
        Running \<Rightarrow> op_return ()
      | Exited \<Rightarrow>
          op_bind (op_gets pid) (\<lambda>k. out (''Process '' @ fmt k @ '' exited with status '' @ fmt (int (unat (info r))) @ [NL]))
      | Terminated \<Rightarrow>
          op_bind (op_gets pid) (\<lambda>k. out (''Process '' @ fmt k @ '' terminated with signal '' @ cl_strsignal C (info r) @ [NL]))
      | Stopped \<Rightarrow>
          op_bind (get_signal_stop_reason T C r) (\<lambda>text. out (''Thread '' @ fmt (stop_tid r) @ '' '' @ text @ [NL])))"

definition print_code_location :: "'j terminal tools \<Rightarrow> console_lib \<Rightarrow> ('j, unit) cmd" where
  "print_code_location T C =
     op_bind (get_stack None) (\<lambda>s.
     if stack_frames s \<noteq> [] then
       op_bind (op_lift (selected_frame s)) (\<lambda>f.
       case loc_file (fr_location f) of
         None \<Rightarrow> op_lift (undefined_behaviour ''null file entry'')
       | Some file \<Rightarrow> print_source C (lf_path file) (loc_line (fr_location f)) 3)
     else op_bind (pc_of T None) (\<lambda>pc. print_disassembly T C pc 5))"

definition handle_stop :: "'j terminal tools \<Rightarrow> console_lib \<Rightarrow> stop_reason \<Rightarrow> ('j, unit) cmd" where
  "handle_stop T C r =
     op_bind (print_stop_reason T C r) (\<lambda>_.
     if reason r = Stopped then print_code_location T C else op_return ())"

section \<open>The stack\<close>

text \<open>The entry of an inlined frame is in the file of the address the frame reports.\<close>

definition inlined_name :: "'j terminal tools \<Rightarrow> stack_frame \<Rightarrow> ('j, string) cmd" where
  "inlined_name T f =
     op_bind (op_gets (\<lambda>p. to_file_addr_in (all_elves p) (fr_report_address f))) (\<lambda>a.
     op_bind (file_of a) (\<lambda>i.
     op_bind (in_file i (\<lambda>obj cus. die_name (tl_fuel T) obj cus (fr_func_die f))) (\<lambda>name.
     case name of
       None \<Rightarrow> op_lift (undefined_behaviour ''empty optional dereferenced'')
     | Some s \<Rightarrow> op_return s)))"

definition print_frame :: "'j terminal tools \<Rightarrow> u64 \<Rightarrow> nat \<times> stack_frame \<Rightarrow> ('j, unit) cmd" where
  "print_frame T selected = (\<lambda>(i, f).
     op_bind (function_name_at_address T (fr_report_address f)) (\<lambda>func_name.
     op_bind (if fr_inlined f then op_bind (inlined_name T f) (\<lambda>s. op_return ('' [inlined] '' @ s)) else op_return '''') (\<lambda>inlined.
     out ((if word_of_nat i = selected then ''*'' else '' '') @ ''['' @ print_int (tl_view T) (int i) @ '']: '' @
          print_hex (tl_view T) (fr_report_address f) @ '' '' @ func_name @ inlined @ [NL]))))"

definition print_backtrace :: "'j terminal tools \<Rightarrow> ('j, unit) cmd" where
  "print_backtrace T =
     op_bind (get_stack None) (\<lambda>s.
     op_bind (op_lift (visible_frames s)) (\<lambda>frames.
     op_each (print_frame T (current_frame_index s)) (enumerate 0 frames)))"

section \<open>Help\<close>

definition general_help :: string where
  "general_help = unlines [''Available commands:'',
     ''    breakpoint  - Commands for operating on breakpoints'',
     ''    catchpoint  - Commands for operating on catchpoints'',
     '''',
     ''    continue    - Resume the process'',
     ''    disassemble - Disassemble machine code to assembly'',
     ''    down        - Select the stack frame below the current one'',
     ''    finish      - Step-out'',
     ''    memory      - Commands for operating on memory'',
     ''    next        - Step-over'',
     ''    register    - Commands for operating on registers'',
     ''    step        - Step-in'',
     ''    stepi       - Single instruction step'',
     CHR 0x09 # ''thread      - Commands for operating on threads'',
     ''    up          - Select the stack frame above the current one'',
     ''    variable    - Commands for operating on variables'',
     ''    watchpoint  - Commands for operating on watchpoints'']"

definition help_text :: "string \<Rightarrow> string" where
  "help_text topic =
     (if is_prefix topic ''memory'' then
        unlines [''Available commands:'', ''    read <address>'', ''    read <address> <number of bytes>'', ''    write <address> <bytes>'']
      else if is_prefix topic ''breakpoint'' then
        unlines [''Available commands:'', ''    list'', ''    delete <id>'', ''    disable <id>'', ''    enable <id>'', ''    set <address>'',
          ''    set <address> -h'']
      else if is_prefix topic ''register'' then
        unlines [''Available commands:'', ''    read'', ''    read <register>'', ''    read all'', ''    write <register> <value>'']
      else if is_prefix topic ''watchpoint'' then
        unlines [''Available commands:'', ''    list'', ''    delete <id>'', ''    disable <id>'', ''    enable <id>'',
          ''    set <address> <write|rw|execute> <size>'']
      else if is_prefix topic ''disassemble'' then
        unlines [''Available options:'', ''    -c <number of instructions>'', ''    -a <start address>'']
      else if is_prefix topic ''catchpoint'' then
        unlines [''Available commands:'', ''    syscall'', ''    syscall none'', ''    syscall <list of syscall IDs or names>'']
      else if is_prefix topic ''thread'' then
        unlines [''Available commands:'', ''    list'', ''    select <thread ID>'']
      else if is_prefix topic ''variable'' then
        unlines [''Available commands:'', ''    read <variable>'']
      else ''No help available on that'' @ [NL])"

definition print_help :: "string list \<Rightarrow> ('j, unit) cmd" where
  "print_help args =
     (if length args = 1 then err general_help
      else if length args = 0 then op_lift (undefined_behaviour ''vector index out of range'')
      else err (help_text (args ! 1)))"

end
