(* ===== verification/Commands.thy ===== *)
theory Commands
  imports Console
begin

text \<open>
  The commands of the debugger (\<^verbatim>\<open>tools/sdb.cpp\<close>): one handler per command, the choice of the handler by the first word of a line, and the
  loop that reads lines.  The words of a line are what stands between its spaces; a command may be shortened to any prefix.
\<close>

section \<open>Shared\<close>

text \<open>\<open>catch (sdb::error& err)\<close>: other exceptions pass.\<close>

definition catch_error :: "('s, 'a) op \<Rightarrow> (string \<Rightarrow> ('s, 'a) op) \<Rightarrow> ('s, 'a) op" where
  "catch_error m h = op_catch m (\<lambda>e. case e of Sdb_Error what \<Rightarrow> h what | _ \<Rightarrow> op_fail e)"

definition int32_type :: int_type where
  "int32_type = \<lparr>int_signed = True, int_bits = 32\<rparr>"

definition hex_address :: "string \<Rightarrow> u64 option" where
  "hex_address s = map_option word_of_int (to_integral (uint_type 64) s 16)"

definition decimal_size :: "string \<Rightarrow> u64 option" where
  "decimal_size s = map_option word_of_int (to_integral (uint_type 64) s 10)"

section \<open>Registers\<close>

definition say_register :: "'j terminal tools \<Rightarrow> console_lib \<Rightarrow> registers \<Rightarrow> register_info \<Rightarrow> ('j, unit) cmd" where
  "say_register T C regs i = op_bind (op_lift (print_register_value (mach_native (tl_mach T)) (cl_fmt C) regs i)) out"

definition handle_register_read :: "'j terminal tools \<Rightarrow> console_lib \<Rightarrow> string list \<Rightarrow> ('j, unit) cmd" where
  "handle_register_read T C args =
     (let m = mach_native (tl_mach T) in
      op_bind (op_bind (thread_or_current None) stack_regs) (\<lambda>regs.
      if length args = 2 \<or> (length args = 3 \<and> args ! 2 = ''all'') then
        op_each (say_register T C regs) (filter (\<lambda>i. length args = 3 \<or> reg_type i = Gpr) (g_register_infos m))
      else if length args = 3 then
        catch_error (op_bind (op_lift (register_info_by_name m (args ! 2))) (say_register T C regs))
          (\<lambda>_. err (''No such register'' @ [NL]))
      else print_help [''help'', ''register'']))"

definition handle_register_write :: "'j terminal tools \<Rightarrow> console_lib \<Rightarrow> string list \<Rightarrow> ('j, unit) cmd" where
  "handle_register_write T C args =
     (if length args \<noteq> 4 then print_help [''help'', ''register'']
      else
        catch_error
          (op_bind (op_lift (register_info_by_name (mach_native (tl_mach T)) (args ! 2))) (\<lambda>i.
           op_bind (op_lift (parse_register_value (cl_from_chars_float C) i (args ! 3))) (\<lambda>v.
           op_bind (thread_or_current None) (\<lambda>t. write_reg T t i v))))
          (\<lambda>what. err (what @ [NL])))"

definition handle_register_command :: "'j terminal tools \<Rightarrow> console_lib \<Rightarrow> string list \<Rightarrow> ('j, unit) cmd" where
  "handle_register_command T C args =
     (if length args < 2 then print_help [''help'', ''register'']
      else if is_prefix (args ! 1) ''read'' then handle_register_read T C args
      else if is_prefix (args ! 1) ''write'' then handle_register_write T C args
      else print_help [''help'', ''register''])"

section \<open>Breakpoints\<close>

definition on_off :: "bool \<Rightarrow> string" where
  "on_off enabled = (if enabled then ''enabled'' else ''disabled'')"

definition describe_kind :: "'j terminal tools \<Rightarrow> breakpoint_kind \<Rightarrow> string" where
  "describe_kind T kind =
     (case kind of
        Function_breakpoint name \<Rightarrow> ''function = '' @ name
      | Line_breakpoint file line \<Rightarrow> ''file = '' @ file @ '', line = '' @ print_int (tl_view T) (int (unat line))
      | Address_breakpoint a \<Rightarrow> ''address = '' @ print_hex (tl_view T) a)"

definition list_site :: "'j terminal tools \<Rightarrow> u64 \<Rightarrow> ('j, unit) cmd" where
  "list_site T a =
     op_bind (site_of a) (\<lambda>i.
     op_bind (op_gets (\<lambda>p. breakpoint_sites p ! i)) (\<lambda>s.
     out (''    .'' @ print_int (tl_view T) (site_id s) @ '': address = '' @ print_hex (tl_view T) (site_address s) @ '', '' @
          on_off (site_enabled s) @ [NL])))"

definition list_breakpoint :: "'j terminal tools \<Rightarrow> breakpoint \<Rightarrow> ('j, unit) cmd" where
  "list_breakpoint T b =
     (if bp_internal b then op_return ()
      else
        op_bind (out (print_int (tl_view T) (bp_id b) @ '': '')) (\<lambda>_.
        op_bind (out (describe_kind T (bp_kind b))) (\<lambda>_.
        op_bind (out ('', '' @ on_off (bp_enabled b) @ '':'' @ [NL])) (\<lambda>_.
        op_each (list_site T) (bp_sites b)))))"

definition handle_breakpoint_list_command :: "'j terminal tools \<Rightarrow> ('j, unit) cmd" where
  "handle_breakpoint_list_command T =
     op_bind (op_gets (\<lambda>p. breakpoints (session p))) (\<lambda>bs.
     if bs = [] then out (''No breakpoints set'' @ [NL])
     else op_bind (out (''Current breakpoints:'' @ [NL])) (\<lambda>_. op_each (list_breakpoint T) bs))"

definition set_breakpoint :: "'j terminal tools \<Rightarrow> breakpoint_kind \<Rightarrow> bool \<Rightarrow> ('j, unit) cmd" where
  "set_breakpoint T kind hardware = op_bind (create_breakpoint T kind hardware False) (enable_breakpoint T)"

definition handle_breakpoint_set_command :: "'j terminal tools \<Rightarrow> string list \<Rightarrow> ('j, unit) cmd" where
  "handle_breakpoint_set_command T args =
     op_bind (if length args = 4 then
                if args ! 3 = ''-h'' then op_return True else op_send ''Invalid breakpoint command argument''
              else op_return False) (\<lambda>hardware.
     if is_prefix ''0x'' (args ! 2) then
       (case hex_address (args ! 2) of
          None \<Rightarrow> err (''Breakpoint command expects address in hexadecimal, prefixed with '' @ [CHR 0x27] @ ''0x'' @ [CHR 0x27, NL])
        | Some a \<Rightarrow> set_breakpoint T (Address_breakpoint a) hardware)
     else if CHR '':'' \<in> set (args ! 2) then
       (let data = split (args ! 2) CHR '':'' in
        op_bind (op_lift (vec_at data 0)) (\<lambda>path.
        op_bind (op_lift (vec_at data 1)) (\<lambda>number.
        case decimal_size number of
          None \<Rightarrow> err (''Line number should be an integer'' @ [NL])
        | Some line \<Rightarrow> set_breakpoint T (Line_breakpoint path line) hardware)))
     else set_breakpoint T (Function_breakpoint (args ! 2)) False)"

text \<open>\<open>get_by_id\<close> on the sites of a breakpoint, which are pointers to sites of the process.\<close>

fun site_with_id :: "int \<Rightarrow> u64 list \<Rightarrow> ('j, nat) cmd" where
  "site_with_id k [] = op_send ''Invalid stoppoint id''"
| "site_with_id k (a # as) =
     op_bind (site_of a) (\<lambda>i.
     op_bind (op_gets (\<lambda>p. site_id (breakpoint_sites p ! i))) (\<lambda>j.
     if j = k then op_return i else site_with_id k as))"

definition toggle_site :: "'j terminal tools \<Rightarrow> string \<Rightarrow> breakpoint \<Rightarrow> int \<Rightarrow> ('j, unit) cmd" where
  "toggle_site T command b k =
     (if is_prefix command ''enable'' then op_bind (site_with_id k (bp_sites b)) (enable_site (tl_fuel T) (tl_mach T))
      else if is_prefix command ''disable'' then op_bind (site_with_id k (bp_sites b)) (disable_site (tl_fuel T) (tl_mach T))
      else op_return ())"

definition handle_breakpoint_toggle :: "'j terminal tools \<Rightarrow> string list \<Rightarrow> ('j, unit) cmd" where
  "handle_breakpoint_toggle T args =
     (let command = args ! 1;
          dot_pos = find_from (\<lambda>c. c = CHR ''.'') (args ! 2) 0 in
      op_bind (op_lift (substr (args ! 2) 0 dot_pos)) (\<lambda>id_str.
      case to_integral int32_type id_str 10 of
        None \<Rightarrow> err ''Command expects breakpoint id''
      | Some k \<Rightarrow>
          op_bind (op_bind (op_gets (\<lambda>p. get_by_id breakpoint_class k (breakpoints (session p)))) op_lift) (\<lambda>i.
          op_bind (op_gets (\<lambda>p. breakpoints (session p) ! i)) (\<lambda>b.
          if dot_pos \<noteq> npos then
            op_bind (op_lift (substr (args ! 2) (dot_pos + 1) npos)) (\<lambda>site_id_str.
            case to_integral int32_type site_id_str 10 of
              None \<Rightarrow> err ''Command expects breakpoint site id''
            | Some j \<Rightarrow> toggle_site T command b j)
          else if is_prefix command ''enable'' then enable_breakpoint T (bp_key b)
          else if is_prefix command ''disable'' then disable_breakpoint T (bp_key b)
          else if is_prefix command ''delete'' then delete_breakpoint T k
          else op_return ()))))"

definition handle_breakpoint_command :: "'j terminal tools \<Rightarrow> string list \<Rightarrow> ('j, unit) cmd" where
  "handle_breakpoint_command T args =
     (if length args < 2 then print_help [''help'', ''breakpoint'']
      else if is_prefix (args ! 1) ''list'' then handle_breakpoint_list_command T
      else if length args < 3 then print_help [''help'', ''breakpoint'']
      else if is_prefix (args ! 1) ''set'' then handle_breakpoint_set_command T args
      else handle_breakpoint_toggle T args)"

section \<open>Memory\<close>

text \<open>The number of bytes goes through a variable of type \<open>int\<close> on its way from one \<open>size_t\<close> to another.\<close>

definition through_int :: "u64 \<Rightarrow> u64" where
  "through_int n = scast (ucast n :: u32)"

fun spaced :: "string list \<Rightarrow> string" where
  "spaced [] = []"
| "spaced [x] = x"
| "spaced (x # y # xs) = x @ '' '' @ spaced (y # xs)"

function memory_lines :: "console_lib \<Rightarrow> u64 \<Rightarrow> byte list \<Rightarrow> string list" where
  "memory_lines C a data =
     (if data = [] then []
      else (fmt_hex (cl_fmt C) 16 (int (unat a)) @ '': '' @ spaced (map (cl_byte C) (take 16 data)) @ [NL]) # memory_lines C (a + 16) (drop 16 data))"
  by pat_completeness auto
termination
  by (relation "measure (\<lambda>(C, a, data). length data)") auto

declare memory_lines.simps [simp del]

definition handle_memory_read_command :: "'j terminal tools \<Rightarrow> console_lib \<Rightarrow> string list \<Rightarrow> ('j, unit) cmd" where
  "handle_memory_read_command T C args =
     (case hex_address (args ! 2) of
        None \<Rightarrow> op_send ''Invalid address format''
      | Some address \<Rightarrow>
          op_bind (if length args = 4 then
                     (case decimal_size (args ! 3) of None \<Rightarrow> op_send ''Invalid number of bytes'' | Some n \<Rightarrow> op_return (through_int n))
                   else op_return 32) (\<lambda>n_bytes.
          op_bind (op_bind (op_gets (\<lambda>p. read_memory (tl_mach T) p address (unat n_bytes))) op_lift) (\<lambda>data.
          op_each out (memory_lines C address data))))"

definition handle_memory_write_command :: "'j terminal tools \<Rightarrow> string list \<Rightarrow> ('j, unit) cmd" where
  "handle_memory_write_command T args =
     (if length args \<noteq> 4 then print_help [''help'', ''memory'']
      else
        case hex_address (args ! 2) of
          None \<Rightarrow> op_send ''Invalid address format''
        | Some address \<Rightarrow> op_bind (op_lift (parse_vector (args ! 3))) (write_bytes T address))"

definition handle_memory_command :: "'j terminal tools \<Rightarrow> console_lib \<Rightarrow> string list \<Rightarrow> ('j, unit) cmd" where
  "handle_memory_command T C args =
     (if length args < 3 then print_help [''help'', ''memory'']
      else if is_prefix (args ! 1) ''read'' then handle_memory_read_command T C args
      else if is_prefix (args ! 1) ''write'' then handle_memory_write_command T args
      else print_help [''help'', ''memory''])"

section \<open>Disassembly\<close>

text \<open>The loop over the options: the address and the number of instructions, or nothing when help is printed instead.\<close>

fun disassemble_options :: "string list \<Rightarrow> u64 \<Rightarrow> u64 \<Rightarrow> (u64 \<times> u64) option result" where
  "disassemble_options [] address n = Inr (Some (address, n))"
| "disassemble_options [opt] address n = Inr None"
| "disassemble_options (opt # arg # rest) address n =
     (if opt = ''-a'' then
        (case hex_address arg of None \<Rightarrow> send ''Invalid address format'' | Some a \<Rightarrow> disassemble_options rest a n)
      else if opt = ''-c'' then
        (case decimal_size arg of None \<Rightarrow> send ''Invalid instruction count'' | Some k \<Rightarrow> disassemble_options rest address k)
      else Inr None)"

definition handle_disassemble_command :: "'j terminal tools \<Rightarrow> console_lib \<Rightarrow> string list \<Rightarrow> ('j, unit) cmd" where
  "handle_disassemble_command T C args =
     op_bind (pc_of T None) (\<lambda>pc.
     op_bind (op_lift (disassemble_options (tl args) pc 5)) (\<lambda>found.
     case found of
       None \<Rightarrow> print_help [''help'', ''disassemble'']
     | Some (address, n) \<Rightarrow> print_disassembly T C address (unat n)))"

section \<open>Watchpoints\<close>

fun stoppoint_mode_to_string :: "stoppoint_mode \<Rightarrow> string" where
  "stoppoint_mode_to_string Execute = ''execute''"
| "stoppoint_mode_to_string Write = ''write''"
| "stoppoint_mode_to_string Read_write = ''read_write''"

definition list_watchpoint :: "'j terminal tools \<Rightarrow> watchpoint \<Rightarrow> ('j, unit) cmd" where
  "list_watchpoint T w =
     out (print_int (tl_view T) (wp_id w) @ '': address = '' @ print_hex (tl_view T) (wp_address w) @ '', mode = '' @
          stoppoint_mode_to_string (wp_mode w) @ '', size = '' @ print_int (tl_view T) (int (unat (wp_size w))) @ '', '' @
          on_off (wp_enabled w) @ [NL])"

definition handle_watchpoint_list :: "'j terminal tools \<Rightarrow> ('j, unit) cmd" where
  "handle_watchpoint_list T =
     op_bind (op_gets watchpoints) (\<lambda>ws.
     if ws = [] then out (''No watchpoints set'' @ [NL])
     else op_bind (out (''Current watchpoints:'' @ [NL])) (\<lambda>_. op_each (list_watchpoint T) ws))"

definition mode_of_text :: "string \<Rightarrow> stoppoint_mode option" where
  "mode_of_text s =
     (if s = ''write'' then Some Write else if s = ''rw'' then Some Read_write else if s = ''execute'' then Some Execute else None)"

definition handle_watchpoint_set :: "'j terminal tools \<Rightarrow> string list \<Rightarrow> ('j, unit) cmd" where
  "handle_watchpoint_set T args =
     (if length args \<noteq> 5 then print_help [''help'', ''watchpoint'']
      else
        case (hex_address (args ! 2), mode_of_text (args ! 3), decimal_size (args ! 4)) of
          (Some address, Some mode, Some sz) \<Rightarrow>
            op_bind (create_watchpoint (tl_mach T) address mode sz) (enable_watchpoint (tl_mach T))
        | _ \<Rightarrow> print_help [''help'', ''watchpoint''])"

definition watchpoint_numbered :: "int \<Rightarrow> ('j, nat) cmd" where
  "watchpoint_numbered k = op_bind (op_gets (\<lambda>p. get_by_id watchpoint_class k (watchpoints p))) op_lift"

definition handle_watchpoint_command :: "'j terminal tools \<Rightarrow> string list \<Rightarrow> ('j, unit) cmd" where
  "handle_watchpoint_command T args =
     (if length args < 2 then print_help [''help'', ''watchpoint'']
      else if is_prefix (args ! 1) ''list'' then handle_watchpoint_list T
      else if is_prefix (args ! 1) ''set'' then handle_watchpoint_set T args
      else if length args < 3 then print_help [''help'', ''watchpoint'']
      else
        case to_integral int32_type (args ! 2) 10 of
          None \<Rightarrow> err ''Command expects watchpoint id''
        | Some k \<Rightarrow>
            if is_prefix (args ! 1) ''enable'' then op_bind (watchpoint_numbered k) (enable_watchpoint (tl_mach T))
            else if is_prefix (args ! 1) ''disable'' then op_bind (watchpoint_numbered k) (disable_watchpoint (tl_mach T))
            else if is_prefix (args ! 1) ''delete'' then remove_watchpoint_by_id (tl_mach T) k
            else op_return ())"

section \<open>Catchpoints\<close>

definition is_digit :: "char \<Rightarrow> bool" where
  "is_digit c \<longleftrightarrow> (let n = (of_char c :: nat) in 48 \<le> n \<and> n \<le> 57)"

definition syscall_number :: "string \<Rightarrow> int result" where
  "syscall_number s =
     (if s \<noteq> [] \<and> is_digit (hd s) then opt_value (to_integral int32_type s 10) else syscall_name_to_id s)"

definition catch_policy_of :: "string list \<Rightarrow> syscall_catch_policy result" where
  "catch_policy_of args =
     (if length args = 3 \<and> args ! 2 = ''none'' then Inr catch_none
      else if length args \<ge> 3 then bind_res (map_res syscall_number (split (args ! 2) CHR '','')) (\<lambda>ids. Inr (catch_some ids))
      else Inr catch_all)"

definition handle_syscall_catchpoint_command :: "string list \<Rightarrow> ('j, unit) cmd" where
  "handle_syscall_catchpoint_command args =
     op_bind (op_lift (catch_policy_of args)) (\<lambda>policy. op_modify (\<lambda>p. p\<lparr>catch_policy := policy\<rparr>))"

definition handle_catchpoint_command :: "string list \<Rightarrow> ('j, unit) cmd" where
  "handle_catchpoint_command args =
     (if length args < 2 then print_help [''help'', ''catchpoint'']
      else if is_prefix (args ! 1) ''syscall'' then handle_syscall_catchpoint_command args
      else op_return ())"

section \<open>Threads\<close>

definition list_thread :: "'j terminal tools \<Rightarrow> console_lib \<Rightarrow> int \<Rightarrow> ('j, unit) cmd" where
  "list_thread T C t =
     op_bind (op_gets (\<lambda>p. (current_thread p, map_of (threads p) t))) (\<lambda>(current, state).
     case state of
       None \<Rightarrow> op_lift (undefined_behaviour ''thread destroyed'')
     | Some s \<Rightarrow>
         op_bind (get_signal_stop_reason T C (thread_reason s)) (\<lambda>text.
         out ((if t = current then ''*'' else '' '') @ ''Thread '' @ print_int (tl_view T) t @ '': '' @ text @ [NL])))"

definition handle_thread_command :: "'j terminal tools \<Rightarrow> console_lib \<Rightarrow> string list \<Rightarrow> ('j, unit) cmd" where
  "handle_thread_command T C args =
     (if length args < 2 then print_help [''help'', ''thread'']
      else if is_prefix (args ! 1) ''list'' then
        op_bind (op_gets (\<lambda>p. visit (tl_mach T) (map fst (stacks (session p))))) (op_each (list_thread T C))
      else if is_prefix (args ! 1) ''select'' then
        if length args \<noteq> 3 then print_help [''help'', ''thread'']
        else
          (case to_integral int32_type (args ! 2) 10 of
             None \<Rightarrow> err (''Invalid thread id'' @ [NL])
           | Some t \<Rightarrow> op_modify (\<lambda>p. p\<lparr>current_thread := t\<rparr>))
      else op_return ())"

section \<open>Variables\<close>

definition show_value :: "'j terminal tools \<Rightarrow> nat \<times> typed_data \<Rightarrow> ('j, string) cmd" where
  "show_value T = (\<lambda>(i, td). with_view T i (\<lambda>v obj cus. visualize (tl_fuel T) v obj cus 0 td))"

text \<open>The location of a variable in the selected frame.\<close>

definition locate_variable :: "'j terminal tools \<Rightarrow> nat \<Rightarrow> die \<Rightarrow> ('j, expr_result) cmd" where
  "locate_variable T i d =
     op_bind (op_lift (die_attr d DW_AT_location)) (\<lambda>a.
     op_bind (get_stack None) (\<lambda>s.
     op_bind (op_lift (selected_frame s)) (\<lambda>f.
     evaluate_location T i a (fr_regs f))))"

text \<open>One entry of a scope.  As \<open>and\<close> binds tighter than \<open>or\<close>, only parameters are checked for a name that was seen.\<close>

definition show_local :: "'j terminal tools \<Rightarrow> nat \<Rightarrow> die \<Rightarrow> string list \<Rightarrow> ('j, string list) cmd" where
  "show_local T i d seen =
     op_bind (in_file i (\<lambda>obj cus. die_name (tl_fuel T) obj cus d)) (\<lambda>found.
     let name = (case found of None \<Rightarrow> '''' | Some s \<Rightarrow> s) in
     op_bind (op_lift (die_tag d)) (\<lambda>tag.
     if tag = DW_TAG_variable \<or> (tag = DW_TAG_formal_parameter \<and> name \<noteq> '''' \<and> name \<notin> set seen) then
       op_bind (locate_variable T i d) (\<lambda>loc.
       op_bind (in_file i (\<lambda>obj cus. type_of_die obj cus d)) (\<lambda>t.
       op_bind (type_size T (i, From_dwarf t)) (\<lambda>n.
       op_bind (read_location_data T i loc n None) (\<lambda>value.
       op_bind (show_value T (i, \<lparr>td_data = value, td_type = From_dwarf t, td_address = None\<rparr>)) (\<lambda>str.
       op_bind (out (name @ '': '' @ str @ [NL])) (\<lambda>_.
       op_return (name # seen)))))))
     else op_return seen))"

fun show_locals_from :: "nat \<Rightarrow> 'j terminal tools \<Rightarrow> nat \<Rightarrow> die \<Rightarrow> string list \<Rightarrow> ('j, string list) cmd" where
  "show_locals_from 0 T i d seen = op_fail Out_Of_Fuel"
| "show_locals_from (Suc n) T i d seen =
     (if die_abbrev d = None then op_return seen
      else
        op_bind (show_local T i d seen) (\<lambda>seen'.
        op_bind (in_file i (\<lambda>obj cus. sibling (tl_fuel T) obj d)) (\<lambda>d'.
        show_locals_from n T i d' seen')))"

fun show_scopes :: "'j terminal tools \<Rightarrow> nat \<Rightarrow> die list \<Rightarrow> string list \<Rightarrow> ('j, unit) cmd" where
  "show_scopes T i [] seen = op_return ()"
| "show_scopes T i (scope # scopes) seen =
     op_bind (in_file i (\<lambda>obj cus. first_child obj scope)) (\<lambda>d.
     op_bind (show_locals_from (tl_fuel T) T i d seen) (show_scopes T i scopes))"

definition handle_variable_locals_command :: "'j terminal tools \<Rightarrow> ('j, unit) cmd" where
  "handle_variable_locals_command T =
     op_bind (get_pc_file_address T None) (\<lambda>pc.
     op_bind (file_of pc) (\<lambda>i.
     op_bind (with_index i (\<lambda>dw. scopes_at_address (tl_fuel T) dw pc)) (\<lambda>scopes.
     show_scopes T i scopes [])))"

definition handle_variable_read_command :: "'j terminal tools \<Rightarrow> string list \<Rightarrow> ('j, unit) cmd" where
  "handle_variable_read_command T args =
     op_bind (get_pc_file_address T None) (\<lambda>pc.
     op_bind (resolve_indirect_name T (args ! 2) pc) (\<lambda>(variable, funcs).
     case variable of
       None \<Rightarrow> op_lift (undefined_behaviour ''empty optional dereferenced'')
     | Some data \<Rightarrow> op_bind (show_value T data) (\<lambda>str. out (''Value: '' @ str @ [NL]))))"

definition print_simple_location :: "'j terminal tools \<Rightarrow> simple_location \<Rightarrow> ('j, unit) cmd" where
  "print_simple_location T loc =
     (case loc of
        Register_result r \<Rightarrow>
          op_bind (op_lift (register_info_by_dwarf (mach_native (tl_mach T)) (sint (ucast r :: u32)))) (\<lambda>i.
          out (''Register: '' @ reg_name i @ [NL]))
      | Address_result a \<Rightarrow> out (''Address: '' @ print_hex (tl_view T) a @ [NL])
      | _ \<Rightarrow> out ''None'')"

definition print_piece :: "'j terminal tools \<Rightarrow> piece \<Rightarrow> ('j, unit) cmd" where
  "print_piece T pc =
     (let fmt = (\<lambda>w :: u64. print_int (tl_view T) (int (unat w))) in
      op_bind (out (''Piece: offset = '' @ fmt (piece_offset pc) @ '', bit size = '' @ fmt (piece_bit_size pc) @ '', location = '')) (\<lambda>_.
      print_simple_location T (piece_location pc)))"

definition handle_variable_location_command :: "'j terminal tools \<Rightarrow> string list \<Rightarrow> ('j, unit) cmd" where
  "handle_variable_location_command T args =
     op_bind (get_pc_file_address T None) (\<lambda>pc.
     op_bind (find_variable T (args ! 2) pc) (\<lambda>var.
     case var of
       None \<Rightarrow> err (''Variable not found'' @ [NL])
     | Some (i, d) \<Rightarrow>
         op_bind (locate_variable T i d) (\<lambda>loc.
         case loc of
           Simple s \<Rightarrow> print_simple_location T s
         | Pieces ps \<Rightarrow> op_each (print_piece T) ps)))"

definition handle_variable_command :: "'j terminal tools \<Rightarrow> string list \<Rightarrow> ('j, unit) cmd" where
  "handle_variable_command T args =
     (if length args < 2 then print_help [''help'', ''variable'']
      else if is_prefix (args ! 1) ''locals'' then handle_variable_locals_command T
      else if length args < 3 then print_help [''help'', ''variable'']
      else if is_prefix (args ! 1) ''read'' then handle_variable_read_command T args
      else if is_prefix (args ! 1) ''location'' then handle_variable_location_command T args
      else op_return ())"

section \<open>The choice of the command\<close>

definition and_stop :: "'j terminal tools \<Rightarrow> console_lib \<Rightarrow> ('j, stop_reason) cmd \<Rightarrow> ('j, unit) cmd" where
  "and_stop T C m = op_bind m (handle_stop T C)"

definition step_one :: "'j terminal tools \<Rightarrow> 'j terminal loader \<Rightarrow> ('j, stop_reason) cmd" where
  "step_one T L = step_instruction (tl_rounds T) (tl_fuel T) (tl_mach T) (target_hooks T L) None"

definition select_frame :: "'j terminal tools \<Rightarrow> console_lib \<Rightarrow> (stack \<Rightarrow> stack result) \<Rightarrow> ('j, unit) cmd" where
  "select_frame T C move =
     op_bind (thread_or_current None) (\<lambda>t.
     op_bind (stack_at t) (\<lambda>s.
     op_bind (op_lift (move s)) (\<lambda>s'.
     op_bind (modify_stack t (\<lambda>_. s')) (\<lambda>_.
     print_code_location T C))))"

definition handle_expression :: "'j terminal tools \<Rightarrow> 'j terminal loader \<Rightarrow> 'j terminal evaluator \<Rightarrow> string \<Rightarrow> ('j, unit) cmd" where
  "handle_expression T L E line =
     op_bind (op_lift (substr line (find_from (\<lambda>c. c = CHR '' '') line 0 + 1) npos)) (\<lambda>expr.
     op_bind (evaluate_expression T L E expr None) (\<lambda>ret.
     case ret of
       None \<Rightarrow> op_return ()
     | Some (value, k) \<Rightarrow>
         op_bind (show_value T value) (\<lambda>str.
         out (''$'' @ print_int (tl_view T) (int (unat k)) @ '': '' @ str @ [NL]))))"

definition handle_command ::
  "'j terminal tools \<Rightarrow> 'j terminal loader \<Rightarrow> 'j terminal evaluator \<Rightarrow> console_lib \<Rightarrow> string \<Rightarrow> ('j, unit) cmd" where
  "handle_command T L E C line =
     (let args = split line CHR '' '' in
      op_bind (op_lift (vec_at args 0)) (\<lambda>command.
      if is_prefix command ''continue'' then
        and_stop T C (op_bind (target_resume T L None) (\<lambda>_. target_wait T L))
      else if is_prefix command ''next'' then and_stop T C (step_over T L None)
      else if is_prefix command ''finish'' then and_stop T C (step_out T L None)
      else if is_prefix command ''step'' then and_stop T C (step_in T L None)
      else if is_prefix command ''stepi'' then and_stop T C (step_one T L)
      else if is_prefix command ''memory'' then handle_memory_command T C args
      else if is_prefix command ''register'' then handle_register_command T C args
      else if is_prefix command ''breakpoint'' then handle_breakpoint_command T args
      else if is_prefix command ''watchpoint'' then handle_watchpoint_command T args
      else if is_prefix command ''step'' then and_stop T C (step_one T L)
      else if is_prefix command ''disassemble'' then handle_disassemble_command T C args
      else if is_prefix command ''catchpoint'' then handle_catchpoint_command args
      else if is_prefix command ''thread'' then handle_thread_command T C args
      else if is_prefix command ''up'' then select_frame T C frame_up
      else if is_prefix command ''down'' then select_frame T C frame_down
      else if is_prefix command ''backtrace'' then print_backtrace T
      else if is_prefix command ''variable'' then handle_variable_command T args
      else if is_prefix command ''expression'' then handle_expression T L E line
      else if is_prefix command ''help'' then print_help args
      else err (''Unknown command'' @ [NL])))"

section \<open>The loop\<close>

definition exception_text :: "console_lib \<Rightarrow> failure \<Rightarrow> string" where
  "exception_text C e = (case e of Sdb_Error what \<Rightarrow> what | _ \<Rightarrow> cl_what C e)"

definition run_line ::
  "'j terminal tools \<Rightarrow> 'j terminal loader \<Rightarrow> 'j terminal evaluator \<Rightarrow> console_lib \<Rightarrow> string \<Rightarrow> ('j, unit) cmd" where
  "run_line T L E C line = op_catch (handle_command T L E C line) (\<lambda>e. out (exception_text C e @ [NL]))"

text \<open>The lines that are typed until the input ends, the number of lines in the history, and the previous line.\<close>

fun main_loop ::
  "'j terminal tools \<Rightarrow> 'j terminal loader \<Rightarrow> 'j terminal evaluator \<Rightarrow> console_lib \<Rightarrow> nat \<Rightarrow> string \<Rightarrow> string list \<Rightarrow> ('j, unit) cmd" where
  "main_loop T L E C history_length previous [] = op_return ()"
| "main_loop T L E C history_length previous (line # lines) =
     (let line_str = (if line = [] then if history_length > 0 then previous else [] else line);
          previous' = (if line = [] then previous else line_str);
          history_length' = (if line = [] then history_length else Suc history_length) in
      if line_str = ''quit'' \<or> line_str = ''q'' \<or> line_str = ''exit'' then op_return ()
      else
        op_bind (if line_str = [] then op_return () else run_line T L E C line_str) (\<lambda>_.
        main_loop T L E C history_length' previous' lines))"

end
