(* ===== verification/Command_Laws.thy ===== *)
theory Command_Laws
  imports Commands
begin

text \<open>
  What the command line does with the lines typed into it: how a line becomes words, which handler a word selects, which lines run, and
  what the source listing and the memory dump show.
\<close>

section \<open>Words\<close>

lemma takeWhile_word: "d \<notin> set w \<Longrightarrow> takeWhile (\<lambda>c. c \<noteq> d) (w @ d # rest) = w"
  and dropWhile_word: "d \<notin> set w \<Longrightarrow> dropWhile (\<lambda>c. c \<noteq> d) (w @ d # rest) = d # rest"
  by (induction w) auto

lemma split_word: "d \<notin> set w \<Longrightarrow> split (w @ d # rest) d = w # split rest d"
  by (subst split.simps) (simp add: takeWhile_word dropWhile_word del: dropWhile_append3)

lemma split_last_word:
  assumes "d \<notin> set w" "w \<noteq> []"
  shows "split w d = [w]"
proof -
  have "dropWhile (\<lambda>c. c \<noteq> d) w = []" using assms(1) by (induction w) auto
  then show ?thesis using assms(2) by (subst split.simps) (simp del: dropWhile_eq_Nil_conv)
qed

lemma split_Nil [simp]: "split [] d = []"
  by (subst split.simps) simp

lemma split_nonempty: "str \<noteq> [] \<Longrightarrow> split str d \<noteq> []"
  by (subst split.simps) (simp split: list.splits)

lemma split_spaced: "list_all (\<lambda>w. CHR '' '' \<notin> set w) ws \<Longrightarrow> ws \<noteq> [] \<Longrightarrow> last ws \<noteq> [] \<Longrightarrow> split (spaced ws) CHR '' '' = ws"
proof (induction ws rule: spaced.induct)
  case (2 x)
  then show ?case by (simp add: split_last_word)
next
  case (3 x y xs)
  then show ?case by (simp add: split_word)
qed simp

section \<open>Prefixes\<close>

lemma is_prefix_iff: "is_prefix s t \<longleftrightarrow> (\<exists>u. t = s @ u)"
  by (auto simp: is_prefix_def) (metis append_take_drop_id)

lemma is_prefix_Nil [simp]: "is_prefix [] t" by (simp add: is_prefix_def)

lemma is_prefix_self [simp]: "is_prefix s s" by (simp add: is_prefix_def)

section \<open>The listing of the source\<close>

lemma unlines_simps [simp]: "unlines [] = []" "unlines (l # ls) = l @ NL # unlines ls"
  by (simp_all add: unlines_def)

lemma skip_line: "NL \<notin> set l \<Longrightarrow> ucast cur \<noteq> start \<Longrightarrow> skip_to_line start cur (l @ NL # rest) = skip_to_line start (cur + 1) rest"
  by (induction l) auto

lemma skip_here: "ucast cur = start \<Longrightarrow> skip_to_line start cur cs = (cur, cs)"
  by (cases cs) auto

lemma ucast_line:
  assumes "n < 2 ^ 32"
  shows "unat (ucast (word_of_nat n :: u32) :: u64) = n"
  using assms by (simp add: unsigned_ucast_eq unat_of_nat take_bit_nat_eq_self_iff)

lemma skip_lines:
  assumes "list_all (\<lambda>l. NL \<notin> set l) ls" "c + length ls < 2 ^ 32" "c \<le> unat start"
  shows "skip_to_line start (word_of_nat c) (unlines ls) =
    (word_of_nat (min (unat start) (c + length ls)), unlines (drop (unat start - c) ls))"
  using assms
proof (induction ls arbitrary: c)
  case Nil
  then show ?case by simp
next
  case (Cons l ls)
  show ?case
  proof (cases "c = unat start")
    case True
    then have "ucast (word_of_nat c :: u32) = start" using Cons.prems ucast_line [of c] by (simp add: word_unat_eq_iff)
    then show ?thesis using True by (simp add: skip_here)
  next
    case False
    then have "ucast (word_of_nat c :: u32) \<noteq> start" using Cons.prems ucast_line [of c] by auto
    then have "skip_to_line start (word_of_nat c) (unlines (l # ls)) = skip_to_line start (word_of_nat (Suc c)) (unlines ls)"
      using Cons.prems by (simp add: skip_line add.commute)
    also have "\<dots> = (word_of_nat (min (unat start) (Suc c + length ls)), unlines (drop (unat start - Suc c) ls))"
      using False Cons.prems by (intro Cons.IH) auto
    also have "unat start - c = Suc (unat start - Suc c)" using False Cons.prems by simp
    then have "drop (unat start - Suc c) ls = drop (unat start - c) (l # ls)" by simp
    finally show ?thesis by simp
  qed
qed

lemma print_line:
  "NL \<notin> set l \<Longrightarrow> ucast cur \<le> last_line \<Longrightarrow>
   print_to_line f last_line cur (l @ NL # rest) = l @ NL # f (cur + 1) @ print_to_line f last_line (cur + 1) rest"
  by (induction l) auto

lemma print_past: "\<not> ucast cur \<le> last_line \<Longrightarrow> print_to_line f last_line cur cs = []"
  by (cases cs) auto

text \<open>Lines with their numbers in front, and one more number behind them.\<close>

definition numbered :: "(nat \<Rightarrow> string) \<Rightarrow> nat \<Rightarrow> string list \<Rightarrow> string" where
  "numbered f c ls = concat (map (\<lambda>(i, l). f i @ l @ [NL]) (enumerate c ls)) @ f (c + length ls)"

lemma numbered_Cons: "numbered f c (l # ls) = f c @ l @ NL # numbered f (Suc c) ls"
  by (simp add: numbered_def)

lemma print_lines:
  assumes "list_all (\<lambda>l. NL \<notin> set l) ls" "c + length ls < 2 ^ 32"
  shows "f (word_of_nat c) @ print_to_line f last_line (word_of_nat c) (unlines ls) =
    numbered (\<lambda>i. f (word_of_nat i)) c (take (Suc (unat last_line) - c) ls)"
  using assms
proof (induction ls arbitrary: c)
  case Nil
  then show ?case by (simp add: numbered_def)
next
  case (Cons l ls)
  have here: "ucast (word_of_nat c :: u32) \<le> last_line \<longleftrightarrow> c \<le> unat last_line"
    using Cons.prems ucast_line [of c] by (simp add: word_le_nat_alt)
  show ?case
  proof (cases "c \<le> unat last_line")
    case True
    have "f (word_of_nat (Suc c)) @ print_to_line f last_line (word_of_nat (Suc c)) (unlines ls) =
        numbered (\<lambda>i. f (word_of_nat i)) (Suc c) (take (Suc (unat last_line) - Suc c) ls)"
      using Cons.prems by (intro Cons.IH) auto
    moreover have "Suc (unat last_line) - c = Suc (Suc (unat last_line) - Suc c)" using True by simp
    ultimately show ?thesis
      using True here Cons.prems by (simp add: print_line numbered_Cons add.commute)
  next
    case False
    then show ?thesis using here by (simp add: print_past numbered_def)
  qed
qed

text \<open>
  C14: the source listing is a window of the file.  For a file of lines, the listing around line \<open>n\<close> with \<open>k\<close> lines of context shows, in
  order and each with its number, the lines from \<open>n - k\<close> (or the first) to \<open>n + k + 1\<close>, as far as the file has them, and then the number
  of the line that follows with nothing behind it.  A file that ends before the window shows only that number.
\<close>

theorem source_window:
  assumes "list_all (\<lambda>l. NL \<notin> set l) ls" "length ls < 2 ^ 32 - 1" "unat line + unat k + 1 < 2 ^ 64"
    "first = (if line \<le> k then 1 else unat line - unat k)" "c = min first (Suc (length ls))"
  shows "source_text C (unlines ls) line k =
    Inr (numbered (\<lambda>i. print_line_start C line (line + k + 1) (word_of_nat i)) c
           (take (unat line + unat k + 2 - c) (drop (first - 1) ls)) @ [NL])"
proof -
  define start where "start = (if line \<le> k then 1 else line - k :: u64)"
  define last_line where "last_line = line + k + 1"
  have last: "unat last_line = unat line + unat k + 1"
    using assms(3) unfolding last_line_def by (simp add: unat_word_ariths(1))
  have start: "unat start = first" "1 \<le> first"
    using assms(4) by (auto simp: start_def unat_sub word_le_nat_alt)
  have skip: "skip_to_line start 1 (unlines ls) = (word_of_nat c, unlines (drop (first - 1) ls))"
    using skip_lines [of ls 1 start] assms(1,2,5) start by simp
  have len: "c + length (drop (first - 1) ls) < 2 ^ 32" using assms(2,5) start by auto
  have all: "list_all (\<lambda>l. NL \<notin> set l) (drop (first - 1) ls)" using assms(1) by (auto simp: list_all_iff dest: in_set_dropD)
  have "last_line \<noteq> 0" using last by (metis add_is_0 one_neq_zero unat_0)
  then have "source_text C (unlines ls) line k =
      Inr ((print_line_start C line last_line (word_of_nat c) @
            print_to_line (print_line_start C line last_line) last_line (word_of_nat c) (unlines (drop (first - 1) ls))) @ [NL])"
    using skip unfolding source_text_def last_line_def start_def by (simp add: Let_def)
  then show ?thesis
    unfolding last_line_def [symmetric] print_lines [OF all len] last by simp
qed

text \<open>A file of three lines around its second line: the last number stands alone.\<close>

definition demo_console :: console_lib where
  "demo_console = \<lparr>cl_fmt = demo_fmt, cl_byte = (\<lambda>b. []), cl_right = (\<lambda>w n. replicate (w - length (decimal (unat n))) CHR '' '' @ decimal (unat n)),
     cl_strsignal = (\<lambda>s. []), cl_from_chars_float = (\<lambda>s. None), cl_source = (\<lambda>path. []), cl_what = (\<lambda>e. [])\<rparr>"

theorem source_window_witness:
  "source_text demo_console (unlines [''int main() {'', ''  return 0;'', ''}'']) 2 3 =
   Inr (unlines [''  1 int main() {'', ''> 2   return 0;'', ''  3 }'', ''  4 ''])"
proof -
  have start: "print_line_start demo_console 2 6 (word_of_nat i) =
      (if i = 2 then ''>'' else '' '') @ '' '' @ decimal i @ '' ''" if "i \<in> {1, 2, 3, 4}" for i
  proof -
    have "dec_width 6 = 1" "length (decimal i) = 1" using that by (auto simp: dec_width.simps decimal.simps)
    with that show ?thesis by (auto simp: print_line_start_def demo_console_def)
  qed
  have digits: "decimal 1 = ''1''" "decimal 2 = ''2''" "decimal 3 = ''3''" "decimal 4 = ''4''" by code_simp+
  have "source_text demo_console (unlines [''int main() {'', ''  return 0;'', ''}'']) 2 3 =
    Inr (numbered (\<lambda>i. print_line_start demo_console 2 6 (word_of_nat i)) 1 [''int main() {'', ''  return 0;'', ''}''] @ [NL])"
    using source_window [of "[''int main() {'', ''  return 0;'', ''}'']" 2 3 1 1 demo_console] by (simp add: NL_def)
  also have "numbered (\<lambda>i. print_line_start demo_console 2 6 (word_of_nat i)) 1 [''int main() {'', ''  return 0;'', ''}''] @ [NL] =
    unlines [''  1 int main() {'', ''> 2   return 0;'', ''  3 }'', ''  4 '']"
    unfolding numbered_def using start [of 1] start [of 2] start [of 3] start [of 4] by (simp add: digits [simplified] digits)
  finally show ?thesis .
qed

section \<open>The choice of a command\<close>

text \<open>The commands with their names, in the order in which a word is tried on them.\<close>

definition command_table ::
  "'j terminal tools \<Rightarrow> 'j terminal loader \<Rightarrow> 'j terminal evaluator \<Rightarrow> console_lib \<Rightarrow> string \<Rightarrow> (string \<times> ('j, unit) cmd) list" where
  "command_table T L E C line =
     (let args = split line CHR '' '' in
      [(''continue'', and_stop T C (op_bind (target_resume T L None) (\<lambda>_. target_wait T L))),
       (''next'', and_stop T C (step_over T L None)),
       (''finish'', and_stop T C (step_out T L None)),
       (''step'', and_stop T C (step_in T L None)),
       (''stepi'', and_stop T C (step_one T L)),
       (''memory'', handle_memory_command T C args),
       (''register'', handle_register_command T C args),
       (''breakpoint'', handle_breakpoint_command T args),
       (''watchpoint'', handle_watchpoint_command T args),
       (''disassemble'', handle_disassemble_command T C args),
       (''catchpoint'', handle_catchpoint_command args),
       (''thread'', handle_thread_command T C args),
       (''up'', select_frame T C frame_up),
       (''down'', select_frame T C frame_down),
       (''backtrace'', print_backtrace T),
       (''variable'', handle_variable_command T args),
       (''expression'', handle_expression T L E line),
       (''help'', print_help args)])"

definition chosen :: "(string \<times> 'a) list \<Rightarrow> string \<Rightarrow> (string \<times> 'a) option" where
  "chosen table word = find (\<lambda>(name, _). is_prefix word name) table"

lemma chosen_Cons:
  "chosen [] word = None"
  "chosen ((name, run) # table) word = (if is_prefix word name then Some (name, run) else chosen table word)"
  by (simp_all add: chosen_def)

lemma handle_command_chosen:
  assumes "line \<noteq> []"
  shows "handle_command T L E C line =
    (case chosen (command_table T L E C line) (hd (split line CHR '' '')) of
       Some (name, run) \<Rightarrow> run | None \<Rightarrow> err (''Unknown command'' @ [NL]))"
proof -
  have "vec_at (split line CHR '' '') 0 = Inr (hd (split line CHR '' ''))"
    using split_nonempty [OF assms] by (simp add: vec_at_def hd_conv_nth)
  then show ?thesis
    unfolding handle_command_def command_table_def Let_def
    by (intro ext) (simp add: op_bind_run op_basic chosen_Cons)
qed


section \<open>The lines that run\<close>

definition is_quit :: "string \<Rightarrow> bool" where
  "is_quit l \<longleftrightarrow> l = ''quit'' \<or> l = ''q'' \<or> l = ''exit''"

text \<open>What the line typed at a position stands for: itself, or the last line that was not empty when it is empty.\<close>

definition meant :: "string list \<Rightarrow> nat \<Rightarrow> string" where
  "meant lines i = last ([] # filter (\<lambda>l. l \<noteq> []) (take (Suc i) lines))"

definition executed :: "string list \<Rightarrow> string list" where
  "executed lines = takeWhile (\<lambda>l. \<not> is_quit l) (filter (\<lambda>l. l \<noteq> []) (map (meant lines) [0..<length lines]))"

fun repeated :: "string \<Rightarrow> string list \<Rightarrow> string list" where
  "repeated previous [] = []"
| "repeated previous (l # ls) = (let l' = if l = [] then previous else l in l' # repeated l' ls)"

lemma repeated_meant:
  "repeated previous lines = map (\<lambda>i. last (previous # filter (\<lambda>l. l \<noteq> []) (take (Suc i) lines))) [0..<length lines]"
proof (induction lines arbitrary: previous)
  case (Cons l ls)
  show ?case
    unfolding repeated.simps Let_def Cons.IH length_Cons
    by (subst upt_conv_Cons) (auto simp: map_Suc_upt [symmetric] simp del: upt_Suc map_Suc_upt)
qed simp

lemma bind_unit: "op_bind (op_return ()) f = f ()"
  by (intro ext) (simp add: op_bind_def op_return_def)

lemma main_loop_repeated:
  assumes "h = 0 \<Longrightarrow> previous = []"
  shows "main_loop T L E C h previous lines =
    op_each (run_line T L E C) (takeWhile (\<lambda>l. \<not> is_quit l) (filter (\<lambda>l. l \<noteq> []) (repeated previous lines)))"
  using assms
proof (induction lines arbitrary: h previous)
  case (Cons l ls)
  define l' where "l' = (if l = [] then previous else l)"
  have str: "(if l = [] then if h > 0 then previous else [] else l) = l'" using Cons.prems by (auto simp: l'_def)
  have "main_loop T L E C (if l = [] then h else Suc h) (if l = [] then previous else l') ls =
      op_each (run_line T L E C) (takeWhile (\<lambda>l. \<not> is_quit l) (filter (\<lambda>l. l \<noteq> []) (repeated l' ls)))"
    using Cons.IH [of "if l = [] then h else Suc h" l'] Cons.prems by (auto simp: l'_def)
  moreover have "repeated previous (l # ls) = l' # repeated l' ls" by (simp add: l'_def Let_def)
  ultimately show ?case
    unfolding main_loop.simps Let_def str by (auto simp: bind_unit is_quit_def)
qed simp

lemma put_returns: "fst (put text p) = Inr ()"
  by (simp add: put_def dbg_modify_def op_modify_def)

lemma run_line_fails: "fst (run_line T L E C line p) \<notin> Inl ` {e. is_exception e}"
  by (auto simp: run_line_def op_catch_def put_returns split: prod.splits sum.splits)

lemma each_fails:
  assumes "\<And>x p. fst (f x p) \<notin> Inl ` A"
  shows "fst (op_each f xs p) \<notin> Inl ` A"
proof (induction xs arbitrary: p)
  case (Cons x xs)
  then show ?case using assms [of x p] by (auto simp: op_bind_run split: prod.splits sum.splits)
qed (simp add: op_basic image_iff)

text \<open>
  C7: which lines run.  The loop runs, in order, the lines typed before the first one that means \<open>quit\<close>, \<open>q\<close> or \<open>exit\<close>; an empty line
  means the last line that was not empty and is skipped when there is none.  No exception of a command ends the loop.
\<close>

theorem session_lines:
  "main_loop T L E C 0 [] lines = op_each (run_line T L E C) (executed lines) \<and>
   fst (main_loop T L E C 0 [] lines p) \<notin> Inl ` {e. is_exception e}"
proof -
  have "main_loop T L E C 0 [] lines = op_each (run_line T L E C) (executed lines)"
    using main_loop_repeated [of 0 "[]" T L E C lines]
    by (simp add: repeated_meant executed_def meant_def [abs_def])
  then show ?thesis using each_fails [of "run_line T L E C", OF run_line_fails] by simp
qed

section \<open>The memory dump\<close>

definition dump_line :: "console_lib \<Rightarrow> u64 \<Rightarrow> byte list \<Rightarrow> string" where
  "dump_line C a bs = fmt_hex (cl_fmt C) 16 (int (unat a)) @ '': '' @ spaced (map (cl_byte C) bs) @ [NL]"

lemma memory_lines_dump:
  "memory_lines C a data =
   map (\<lambda>i. dump_line C (a + word_of_nat (16 * i)) (take 16 (drop (16 * i) data))) [0..<(length data + 15) div 16]"
proof (induction C a data rule: memory_lines.induct)
  case (1 C a data)
  show ?case
  proof (cases "data = []")
    case True
    then show ?thesis by (subst memory_lines.simps) simp
  next
    case False
    then have "(length data + 15) div 16 = Suc ((length (drop 16 data) + 15) div 16)"
      by (cases "16 \<le> length data") (auto simp: div_eq_0_iff Suc_le_eq neq_Nil_conv intro!: div_nat_eqI)
    moreover have "drop (16 * i) (drop 16 data) = drop (16 * Suc i) data" for i by (simp add: add.commute)
    ultimately show ?thesis
      using False "1.IH"
      by (subst memory_lines.simps, simp only: if_False)
        (subst upt_conv_Cons, auto simp: dump_line_def map_Suc_upt [symmetric] add.assoc simp del: upt_Suc map_Suc_upt)
  qed
qed

text \<open>The session with more text printed.\<close>

definition with_output :: "console_output list \<Rightarrow> 'j terminal debugger process \<Rightarrow> 'j terminal debugger process" where
  "with_output os p = p\<lparr>world := (world p)\<lparr>kernel := (kernel (world p))\<lparr>printed := printed (kernel (world p)) @ os\<rparr>\<rparr>\<rparr>"

lemma put_output: "put text p = (Inr (), with_output [text] p)"
  by (simp add: put_def dbg_modify_def op_modify_def append_output_def with_output_def)

lemma with_output_append: "with_output ps (with_output os p) = with_output (os @ ps) p"
  by (simp add: with_output_def)

lemma with_output_Nil: "with_output [] p = p"
  by (simp add: with_output_def)

lemma each_output: "op_each out ls p = (Inr (), with_output (map Stdout ls) p)"
  by (induction ls arbitrary: p) (simp_all add: op_basic op_bind_run put_output with_output_append with_output_Nil)

lemma signed_take_31: "uint (n :: u64) < 2 ^ 31 \<Longrightarrow> signed_take_bit 31 (uint n) = uint n"
  by (rule signed_take_bit_int_eq_self) (auto intro: order_trans [OF _ unsigned_greater_eq])

lemma through_int_small:
  assumes "unat n < 2 ^ 31"
  shows "through_int n = n"
proof -
  have "int (unat n) < int (2 ^ 31)" using assms by (simp only: of_nat_less_iff)
  then have small: "uint n < 2 ^ 31" by simp
  have "sint (ucast n :: u32) = signed_take_bit 31 (uint n)" by (simp add: signed_ucast_eq)
  also have "\<dots> = uint n" by (rule signed_take_31 [OF small])
  finally have "sint (ucast n :: u32) = uint n" .
  then have "scast (ucast n :: u32) = (word_of_int (uint n) :: u64)" by (simp only: scast_eq)
  then show ?thesis unfolding through_int_def by simp
qed

text \<open>
  \<open>memory read\<close> with a number of bytes below \<open>2\<^sup>3\<^sup>1\<close> prints all of them, sixteen to a line, each line with the address of its first byte,
  and changes nothing else.
\<close>

theorem memory_read_prints:
  assumes "length args = 4" "hex_address (args ! 2) = Some a" "decimal_size (args ! 3) = Some n" "unat n < 2 ^ 31"
    "read_memory (tl_mach T) p a (unat n) = Inr data"
  shows "handle_memory_read_command T C args p =
    (Inr (), with_output (map (\<lambda>i. Stdout (dump_line C (a + word_of_nat (16 * i)) (take 16 (drop (16 * i) data))))
       [0..<(length data + 15) div 16]) p)"
  using assms
  by (simp add: handle_memory_read_command_def op_basic op_bind_run through_int_small each_output memory_lines_dump comp_def)

text \<open>The number wraps at \<open>2\<^sup>3\<^sup>2\<close>: a request for four gigabytes reads nothing and says nothing.\<close>

lemma memory_read_wraps:
  assumes "hex_address address = Some a"
  shows "handle_memory_read_command T C [m, r, address, ''4294967296''] p = (Inr (), p)"
proof -
  have "decimal_size ''4294967296'' = Some 4294967296" 
    by (simp add: decimal_size_def to_integral_def from_chars_def uint_type_def digits_value_def digit_of_def fits_def Let_def)
  moreover have "through_int 4294967296 = 0" by (simp add: through_int_def)
  ultimately show ?thesis
    using assms by (simp add: handle_memory_read_command_def op_basic op_bind_run read_memory_def memory_lines.simps)
qed

text \<open>A dump of two bytes.\<close>

definition demo_terminal_kernel :: "unit terminal mach" where
  "demo_terminal_kernel = \<lparr>mach_native = darwin_arm64,
     vm_read = (\<lambda>w a n. Inr (map word_of_nat [1..<Suc n])), vm_region = (\<lambda>w a. Inr \<lparr>rgn_start = a, rgn_size = 1, rgn_protection = 5\<rparr>),
     vm_protect = (\<lambda>w a k prot. (None, w)), vm_write = (\<lambda>w a bs. (None, w)),
     set_debug = (\<lambda>w port d. (None, w)), set_gprs = (\<lambda>w port bs. (None, w)), set_fprs = (\<lambda>w port bs. (None, w)),
     get_gprs = (\<lambda>w port. Inr (replicate 272 0)), get_fprs = (\<lambda>w port. Inr (replicate 528 0)), get_exception = (\<lambda>w port. None),
     suspend_thread = (\<lambda>w port. (None, w)), resume_thread = (\<lambda>w port. (None, w)),
     ptrace = (\<lambda>w req sig. (None, w)), wait_pid = (\<lambda>w. (Inr 0, w)),
     task_for_pid = (\<lambda>w k. (None, w)), task_threads = (\<lambda>w. Inr [(7, Some 1)]),
     deallocate_port = (\<lambda>w port. (None, w)), visit = (\<lambda>ts. ts)\<rparr>"

definition demo_terminal_tools :: "unit terminal tools" where
  "demo_terminal_tools = \<lparr>tl_fuel = 8, tl_rounds = 8, tl_mach = on_kernel demo_terminal_kernel, tl_compact = apple_abi, tl_order = (\<lambda>rs. rs),
     tl_llvm = \<lparr>llvm_ready = True, llvm_decode = (\<lambda>bs a. None)\<rparr>, tl_view = demo_view\<rparr>"

lemma demo_dump_words: "hex_address ''0x1000'' = Some 0x1000" "decimal_size ''2'' = Some 2"
  by (simp_all add: hex_address_def decimal_size_def to_integral_def from_chars_def uint_type_def digits_value_def digit_of_def fits_def Let_def)

theorem memory_read_prints_witness:
  "\<forall>p. handle_memory_read_command demo_terminal_tools demo_console [''memory'', ''read'', ''0x1000'', ''2''] p =
     (Inr (), with_output [Stdout (dump_line demo_console 0x1000 [1, 2])] p)"
proof
  fix p :: "unit terminal debugger process"
  have "read_memory (tl_mach demo_terminal_tools) p 0x1000 (unat (2 :: u64)) = Inr [1, 2]"
    by (simp add: read_memory_def demo_terminal_tools_def on_kernel_def demo_terminal_kernel_def upt_rec)
  from memory_read_prints [OF _ _ _ _ this, of "[''memory'', ''read'', ''0x1000'', ''2'']" demo_console] demo_dump_words
  show "handle_memory_read_command demo_terminal_tools demo_console [''memory'', ''read'', ''0x1000'', ''2''] p =
     (Inr (), with_output [Stdout (dump_line demo_console 0x1000 [1, 2])] p)"
    by simp
qed


section \<open>Lines that go wrong\<close>

text \<open>A line that begins with a space has an empty first word, which is a prefix of every name: the process is resumed.\<close>

lemma blank_line_continues:
  "handle_command T L E C (CHR '' '' # rest) = and_stop T C (op_bind (target_resume T L None) (\<lambda>_. target_wait T L))"
  using handle_command_chosen [of "CHR '' '' # rest" T L E C] split_word [of "CHR '' ''" "[]" rest]
  by (simp add: command_table_def Let_def chosen_Cons)

text \<open>A breakpoint on a line whose number is missing reads past the end of the vector of words.\<close>

lemma missing_line_number:
  assumes "CHR '':'' \<notin> set path" "\<not> is_prefix ''0x'' (path @ '':'')"
  shows "handle_breakpoint_set_command T [b, s, path @ '':''] p = (undefined_behaviour ''vector index out of range'', p)"
  using assms split_word [of "CHR '':''" path "[]"]
  by (simp add: handle_breakpoint_set_command_def op_basic op_bind_run vec_at_def undefined_behaviour_def Let_def)

text \<open>The request for a hardware breakpoint is dropped when the breakpoint is on a function.\<close>

lemma function_hardware_ignored:
  assumes "\<not> is_prefix ''0x'' name" "CHR '':'' \<notin> set name"
  shows "handle_breakpoint_set_command T [b, s, name, ''-h''] = handle_breakpoint_set_command T [b, s, name]"
  using assms by (intro ext) (simp add: handle_breakpoint_set_command_def op_basic op_bind_run)

section \<open>Catchpoints by name\<close>

lemma split_join: "list_all (\<lambda>w. CHR '','' \<notin> set w) ws \<Longrightarrow> ws \<noteq> [] \<Longrightarrow> last ws \<noteq> [] \<Longrightarrow> split (join ws) CHR '','' = ws"
proof (induction ws rule: join.induct)
  case (2 x)
  then show ?case by (simp add: split_last_word)
next
  case (3 x y xs)
  then show ?case by (simp add: split_word)
qed simp

lemma call_names: "list_all (\<lambda>(n, k). n \<noteq> [] \<and> \<not> is_digit (hd n) \<and> CHR '','' \<notin> set n \<and> n \<noteq> ''none'') calls"
  by code_simp

lemma syscall_number_name:
  assumes "n \<in> fst ` set calls"
  shows "\<exists>k. syscall_name_to_id n = Inr k \<and> syscall_number n = Inr k"
proof -
  obtain k where "(n, k) \<in> set calls" using assms by auto
  then obtain m j where "find (\<lambda>(n', i). n' = n) calls = Some (m, j)"
    by (cases "find (\<lambda>(n', i). n' = n) calls") (auto simp: find_None_iff)
  then have "syscall_name_to_id n = Inr j" by (simp add: syscall_name_to_id_def)
  moreover have "n \<noteq> []" "\<not> is_digit (hd n)" using call_names \<open>(n, k) \<in> set calls\<close> by (auto simp: list_all_iff)
  ultimately show ?thesis by (simp add: syscall_number_def)
qed

lemma map_res_numbers:
  "set names \<subseteq> fst ` set calls \<Longrightarrow> \<exists>ks. map syscall_name_to_id names = map Inr ks \<and> map_res syscall_number names = Inr ks"
proof (induction names)
  case (Cons n names)
  then obtain ks k where "map syscall_name_to_id names = map Inr ks" "map_res syscall_number names = Inr ks"
      "syscall_name_to_id n = Inr k" "syscall_number n = Inr k"
    using syscall_number_name [of n] by auto
  then show ?case by (intro exI [of _ "k # ks"]) (simp add: res_simps)
qed simp

text \<open>
  C23: \<open>catchpoint syscall\<close> with a list of names of the system call table catches exactly the calls of these names, in the order given.
\<close>

theorem catch_by_names:
  assumes "set names \<subseteq> fst ` set calls" "names \<noteq> []"
  shows "\<exists>ks. map syscall_name_to_id names = map Inr ks \<and>
    handle_syscall_catchpoint_command [c, s, join names] p = (Inr (), p\<lparr>catch_policy := catch_some ks\<rparr>)"
proof -
  have names: "CHR '','' \<notin> set n" "n \<noteq> []" "n \<noteq> ''none''" if "n \<in> set names" for n
  proof -
    have "n \<in> fst ` set calls" using assms(1) that by blast
    then obtain k where "(n, k) \<in> set calls" by auto
    with call_names show "CHR '','' \<notin> set n" "n \<noteq> []" "n \<noteq> ''none''" by (auto simp: list_all_iff)
  qed
  have split: "split (join names) CHR '','' = names"
    using names assms(2) by (intro split_join) (auto simp: list_all_iff)
  have "join names \<noteq> ''none''"
  proof
    assume "join names = ''none''"
    with split have "split ''none'' CHR '','' = names" by simp
    moreover have "split ''none'' CHR '','' = [''none'']" by (rule split_last_word) simp_all
    ultimately show False using names(3) [of "''none''"] by auto
  qed
  moreover obtain ks where "map syscall_name_to_id names = map Inr ks" "map_res syscall_number names = Inr ks"
    using map_res_numbers [OF assms(1)] by blast
  ultimately show ?thesis
    by (intro exI [of _ ks]) (simp add: handle_syscall_catchpoint_command_def catch_policy_of_def op_basic op_bind_run split res_simps)
qed

theorem catch_by_names_witness:
  "\<forall>p :: unit terminal debugger process. handle_syscall_catchpoint_command [''catchpoint'', ''syscall'', ''read,write''] p =
     (Inr (), p\<lparr>catch_policy := catch_some [3, 4]\<rparr>)"
proof
  fix p :: "unit terminal debugger process"
  have ids: "syscall_name_to_id ''read'' = Inr 3" "syscall_name_to_id ''write'' = Inr 4" by code_simp+
  have "list_all (\<lambda>n. n \<in> fst ` set calls) [''read'', ''write'']" by code_simp
  then have "set [''read'', ''write''] \<subseteq> fst ` set calls" by (simp add: list_all_iff)
  from catch_by_names [OF this, of "''catchpoint''" "''syscall''" p] ids
  show "handle_syscall_catchpoint_command [''catchpoint'', ''syscall'', ''read,write''] p =
     (Inr (), p\<lparr>catch_policy := catch_some [3, 4]\<rparr>)"
    by (auto simp: Cons_eq_map_conv)
qed

end
