(* ===== verification/Main_Program.thy ===== *)
theory Main_Program
  imports Creation Command_Laws
begin

text \<open>
  The program as a whole (\<open>attach\<close> and \<open>main\<close> of \<^verbatim>\<open>tools/sdb.cpp\<close>): a target is made from a new or a running process, the lines typed are
  run, and the process is let go.  The handler that stops the process on an interrupt from the keyboard runs at any moment and is not
  modelled.
\<close>

section \<open>Targets\<close>

text \<open>
  A target that is made from a process: when that fails with an exception, the process is destroyed on the way out.
\<close>

definition own_process ::
  "nat \<Rightarrow> 'k debugger posix \<Rightarrow> 'k tools \<Rightarrow> ('k, unit) dbg \<Rightarrow> 'k debugger process \<Rightarrow> 'k debugger process outcome result \<times> 'k debugger" where
  "own_process n P T m p =
     (case m p of
        (Inr _, q) \<Rightarrow> (Inr (In_parent q), world q)
      | (Inl e, q) \<Rightarrow>
          if is_exception e then
            (case destroy_process n (tl_fuel T) P (tl_mach T) q of (Inr _, u) \<Rightarrow> (Inl e, world u) | (Inl e', u) \<Rightarrow> (Inl e', world u))
          else (Inl e, world q))"

definition launch_target ::
  "nat \<Rightarrow> 'k debugger posix \<Rightarrow> 'k tools \<Rightarrow> 'k loader \<Rightarrow> string \<Rightarrow> int option \<Rightarrow> string list \<Rightarrow>
   ('k debugger, 'k debugger process outcome) op" where
  "launch_target n P T L path output arguments =
     op_bind (launch n P (tl_mach T) path True output arguments) (\<lambda>result.
     case result of
       In_parent p \<Rightarrow> (\<lambda>_. own_process n P T (target_launch T L) p)
     | Child_runs \<Rightarrow> op_return Child_runs
     | Child_exits code \<Rightarrow> op_return (Child_exits code))"

definition attach_target ::
  "nat \<Rightarrow> 'k debugger posix \<Rightarrow> 'k tools \<Rightarrow> 'k loader \<Rightarrow> int \<Rightarrow> ('k debugger, 'k debugger process outcome) op" where
  "attach_target n P T L k =
     op_bind (attach n P (tl_mach T) k) (\<lambda>p. \<lambda>_. own_process n P T (target_attach T L) p)"

section \<open>The command line of the program\<close>

definition is_space :: "char \<Rightarrow> bool" where
  "is_space c \<longleftrightarrow> c = CHR '' '' \<or> (9 \<le> (of_char c :: nat) \<and> (of_char c :: nat) \<le> 13)"

text \<open>\<open>std::atoi\<close>: blanks, a sign, digits; a number that does not fit is undefined.\<close>

definition atoi :: "string \<Rightarrow> int result" where
  "atoi str =
     (let s = dropWhile is_space str;
          neg = (s \<noteq> [] \<and> hd s = CHR ''-'');
          body = (if s \<noteq> [] \<and> (hd s = CHR ''-'' \<or> hd s = CHR ''+'') then tl s else s);
          v = int (digits_value 10 (takeWhile is_digit body));
          k = (if neg then - v else v)
      in if fits int32_type k then Inr k else undefined_behaviour ''atoi out of range'')"

definition print_line :: "string \<Rightarrow> ('j terminal debugger, unit) op" where
  "print_line s = op_modify (\<lambda>d. d\<lparr>kernel := append_output (Stdout (s @ [NL])) (kernel d)\<rparr>)"

definition start_program ::
  "nat \<Rightarrow> 'j terminal debugger posix \<Rightarrow> 'j terminal tools \<Rightarrow> 'j terminal loader \<Rightarrow> string list \<Rightarrow>
   ('j terminal debugger, 'j terminal debugger process outcome) op" where
  "start_program n P T L argv =
     (if length argv = 3 \<and> argv ! 1 = ''-p'' then op_bind (op_lift (atoi (argv ! 2))) (attach_target n P T L)
      else if length argv < 2 then op_lift (undefined_behaviour ''null program path'')
      else
        op_bind (launch_target n P T L (argv ! 1) None (drop 2 argv)) (\<lambda>result.
        case result of
          In_parent p \<Rightarrow>
            (\<lambda>w. let text = ''Launched process with PID '' @ print_int (tl_view T) (pid p);
                     w' = snd (print_line text w) in (Inr (In_parent (p\<lparr>world := w'\<rparr>)), w'))
        | _ \<Rightarrow> op_return result))"

definition run_session ::
  "nat \<Rightarrow> 'j terminal debugger posix \<Rightarrow> 'j terminal tools \<Rightarrow> 'j terminal loader \<Rightarrow> 'j terminal evaluator \<Rightarrow> console_lib \<Rightarrow> string list \<Rightarrow>
   'j terminal debugger process \<Rightarrow> unit result \<times> 'j terminal debugger" where
  "run_session n P T L E C input p =
     (let L' = L\<lparr>lo_thread_callback := thread_lifecycle_callback (print_int (tl_view T))\<rparr> in
      case op_bind (main_loop T L' E C 0 [] input) (\<lambda>_. destroy_process n (tl_fuel T) P (tl_mach T)) p of
        (r, q) \<Rightarrow> (r, world q))"

definition sdb_main ::
  "nat \<Rightarrow> 'j terminal debugger posix \<Rightarrow> 'j terminal tools \<Rightarrow> 'j terminal loader \<Rightarrow> 'j terminal evaluator \<Rightarrow> console_lib \<Rightarrow>
   string list \<Rightarrow> string list \<Rightarrow> ('j terminal debugger, unit) op" where
  "sdb_main n P T L E C argv input =
     op_catch
       (op_bind (start_program n P T L argv) (\<lambda>result.
        case result of
          In_parent p \<Rightarrow> (\<lambda>_. run_session n P T L E C input p)
        | _ \<Rightarrow> op_return ()))
       (\<lambda>e. print_line (exception_text C e))"

section \<open>Properties\<close>

lemma no_exception_main_loop: "no_exception (main_loop T L E C 0 [] input)"
proof -
  have "no_exception (op_each (run_line T L E C) (executed input))"
    by (intro nothrow) (simp add: no_exception_def run_line_fails)
  then show ?thesis using main_loop_repeated [of 0 "[]" T L E C input] by (simp add: executed_def meant_def [abs_def] repeated_meant)
qed

text \<open>
  Once a session has begun, no exception reaches \<open>main\<close>: neither the lines typed nor letting the process go afterwards throws.
\<close>

theorem session_survives: "fst (run_session n P T L E C input p) \<notin> Inl ` {e. is_exception e}"
proof -
  let ?loop = "main_loop T (L\<lparr>lo_thread_callback := thread_lifecycle_callback (print_int (tl_view T))\<rparr>) E C 0 [] input"
  have "no_exception (op_bind ?loop (\<lambda>_. destroy_process n (tl_fuel T) P (tl_mach T)))"
    by (intro nothrow no_exception_main_loop no_exception_destroy)
  then show ?thesis by (simp add: no_exception_def run_session_def split: prod.splits) (metis fst_conv)
qed

text \<open>Started without arguments, the program uses a null pointer as the path of the program to debug.\<close>

lemma no_arguments_undefined: "start_program n P T L [name] w = (undefined_behaviour ''null program path'', w)"
  by (simp add: start_program_def op_basic)

end
