(* ===== verification/Spec2Isabelle.thy ===== *)
theory Spec2Isabelle
  imports Stepping Main_Program
begin

text \<open>
  A verification library for sdb, a source-level debugger for macOS on ARM64 (sources under \<^verbatim>\<open>src/\<close>).

  \<^bold>\<open>The program.\<close>  The debugger reads Mach-O files and their DWARF information, controls a process through ptrace and the Mach calls,
  and answers commands typed at a prompt.  From the bottom to the top:

  \<^item> \<^emph>\<open>Object files\<close> (\<^verbatim>\<open>src/macho.cpp\<close>, \<^verbatim>\<open>elf.hpp\<close>, \<^verbatim>\<open>types.cpp\<close>): sections, symbols, and the conversion between addresses in a file
    and addresses in the process.
  \<^item> \<^emph>\<open>DWARF\<close> (\<^verbatim>\<open>src/dwarf.cpp\<close>, \<^verbatim>\<open>dwarf.hpp\<close>): a cursor over bytes; abbreviation tables, entries and attributes; line tables; the index of
    functions and variables; expressions and location lists; call frame information.
  \<^item> \<^emph>\<open>Registers and unwinding\<close> (\<^verbatim>\<open>src/registers.cpp\<close>, \<^verbatim>\<open>src/unwind.cpp\<close>): the register file of a thread, and the registers of its caller.
  \<^item> \<^emph>\<open>Types and values\<close> (\<^verbatim>\<open>src/type.cpp\<close>, \<^verbatim>\<open>src/abi.cpp\<close>, \<^verbatim>\<open>bit.hpp\<close>, \<^verbatim>\<open>parse.hpp\<close>).
  \<^item> \<^emph>\<open>The process\<close> (\<^verbatim>\<open>src/process.cpp\<close>, \<^verbatim>\<open>src/pipe.cpp\<close>, \<^verbatim>\<open>breakpoint_site.cpp\<close>, \<^verbatim>\<open>watchpoint.cpp\<close>, \<^verbatim>\<open>stoppoint_collection.hpp\<close>): its creation,
    memory, traps, debug registers, threads, stepping, waiting and end.
  \<^item> \<^emph>\<open>The target\<close> (\<^verbatim>\<open>src/target.cpp\<close>, \<^verbatim>\<open>src/stack.cpp\<close>, \<^verbatim>\<open>src/breakpoint.cpp\<close>, \<^verbatim>\<open>src/disassembler.cpp\<close>): the loaded files, the stacks of the threads,
    the breakpoints, source-level stepping, variables, and calls of functions of the debuggee.
  \<^item> \<^emph>\<open>The command line\<close> (\<^verbatim>\<open>tools/sdb.cpp\<close>).

  The process calls back into the target when it stops, when a thread comes or goes and when a breakpoint is hit; the target calls the process
  for everything else.  Breakpoints own sites of the process, stacks refer to entries of the loaded files.

  \<^bold>\<open>How code becomes definitions.\<close>  A function that only computes returns a \<open>result\<close>: \<open>Inr\<close> its value or \<open>Inl\<close> a \<open>failure\<close> (\<open>Sdb_Prelude\<close>), which
  is an exception of the program or of the standard library, \<open>Terminate\<close> for a failed assertion, \<open>Undefined\<close> for what C++ leaves undefined (a
  read outside an array, a null pointer, an empty optional), or \<open>Out_Of_Fuel\<close>.  A function that changes an object is an operation (\<open>Stateful\<close>)
  that returns its result with the object afterwards; when it throws, what it changed before stays changed.  The target lives inside the
  state of the process it owns (\<open>Debugger\<close>), so that both directions of calls are operations on one state.  Integers keep their width as
  words, pointers into a file are offsets, a pointer to an object file is its position in the list of files, one to a breakpoint site its
  address, one to a breakpoint a key.  What is not part of the repository is a parameter, a field of a record: the Mach and ptrace calls
  (\<open>mach\<close>), the other calls of the operating system (\<open>posix\<close>), the layout of the structures of the system (\<open>macho_abi\<close>, \<open>native\<close>, \<open>compact_abi\<close>,
  \<open>loader\<close>), the instruction decoder (\<open>llvm\<close>), number formats (\<open>fmt_lib\<close>, \<open>view\<close>, \<open>console_lib\<close>), and the order in which an unordered map is
  visited.  Theorems that need documented behaviour of such code name it as a hypothesis (\<open>kernel_memory\<close>, \<open>fmt_documented\<close>, \<open>layout_ok\<close>), and
  their witnesses give an instance of it.

  \<^bold>\<open>The theories.\<close>

  \<^item> \<open>Sdb_Prelude\<close>, \<open>Stateful\<close>: results, operations, loops over lists, what an operation preserves.
  \<^item> \<open>Dwarf_Constants\<close>, \<open>Cursor\<close>, \<open>Cursor_Laws\<close>: the readers of the cursor, and the contract the parsers rely on as a locale over the bytes left
    to read; LEB128 numbers are read back as they were written (C21), and no reader leaves the span.
  \<^item> \<open>Elf\<close>, \<open>Macho\<close>: every section that the reader of a Mach-O file accepts lies inside the file, and reading never runs into undefined behaviour
    (C1); the symbol found for an address is the one that covers it (C24).
  \<^item> \<open>Dwarf_Info\<close>, \<open>Dwarf_Tree\<close>: tables of abbreviations and trees of entries are read back from their encodings (C2, C3), and range lists mean
    the union of their ranges (C4).
  \<^item> \<open>Line_Table\<close>: the interpreter of line programs against the list of rows they encode; lookup by address (C25).
  \<^item> \<open>Dwarf_Index\<close>: the function and the inlined calls at an address (C26, C27), scopes, variables.
  \<^item> \<open>Registers\<close>: reading after writing, through aliasing registers too (C28).
  \<^item> \<open>Dwarf_Expr\<close>, \<open>Cfi\<close>, \<open>Unwind\<close>: expressions and location lists (C29, C30), call frame programs against an abstract machine (C31), the rules
    applied to a frame (C32), and the compact unwind tables (C33).
  \<^item> \<open>Bits\<close>, \<open>Parse\<close>, \<open>Types\<close>, \<open>Syscalls\<close>: bit-wise copies (C38), the grammar of byte vectors (C39), parameter classes (C40), bit fields,
    register values printed and parsed, the table of system calls.
  \<^item> \<open>Stoppoints\<close>, \<open>Process\<close>: the collections as a locale, interpreted for sites and watchpoints, and the operations on memory and debug
    registers.  \<open>Process_Traps\<close>: whatever sequence of operations on sites, memory read without traps is the original memory (C34); the locales
    \<open>system_frame\<close> and \<open>stoppoint_frame\<close> say what these operations leave alone.  \<open>Process_Hardware\<close>: no two stoppoints share a debug register
    (C35).  \<open>Process_Control\<close>: threads, stop reasons, stepping, waiting and calls; a step puts the breakpoint under it back (C36), and the table
    of threads is what the system lists (C37).
  \<^item> \<open>Creation\<close>: the pipe, launching and attaching, the destructor.  A process that is let go has its original memory (C5), the reason of a
    failed start reaches the caller (C16), the destructor does not throw (C22).
  \<^item> \<open>Disassembler\<close>: the listing shows the program and not the traps (C15).
  \<^item> \<open>Debugger\<close>, \<open>Stack\<close>: frames of an activation and of the calls inlined in it (C12), unwinding ends (C13).
  \<^item> \<open>Breakpoints\<close>: a function breakpoint covers every function of the name (C10), and its sites are its own (C11).
  \<^item> \<open>Loader\<close>: no object file is read twice and none moves (C9).  \<open>Target\<close>, \<open>Stepping\<close>: running to an address leaves no site behind (C8), with the
    invariant that no two sites share an address carried through the whole run control.
  \<^item> \<open>Variables\<close>, \<open>Evaluate\<close>: values made of pieces (C19), names on which the resolver never ends (C20), arguments on the stack (C17), the choice
    among overloads (C18).
  \<^item> \<open>Console\<close>, \<open>Commands\<close>, \<open>Command_Laws\<close>, \<open>Main_Program\<close>: everything the command line prints and does.  Which command a word selects (C6), which
    lines run (C7), what the source listing shows (C14), and catchpoints by name (C23).

  \<^bold>\<open>Fuel.\<close>  Loops over the bytes of a span end by a measure and need no fuel.  Loops that follow references in debug information, or that depend
  on answers of the system, carry fuel and fail with \<open>Out_Of_Fuel\<close> when it is used up: \<open>tl_fuel\<close> bounds walks over debug information and
  memory, \<open>tl_rounds\<close> the rounds of run control, the number at \<open>wait_child\<close> the interrupted waits.  Enough fuel is proved where the program
  ends: twice the size of a tree of entries (\<open>children_of_tree\<close>), five units for writing an instruction, 257 for unwinding, one more than the
  number of interruptions for a wait (\<open>wait_child_returns\<close>).  Where the program does not end, this is a theorem (\<open>call_behind_element_hangs\<close>,
  \<open>parse_compile_units_diverges\<close>).

  \<^bold>\<open>Not modelled.\<close>  The handler of the keyboard interrupt, which may run between any two steps; the first version of \<open>handle_command\<close> in
  \<^verbatim>\<open>tools/sdb.cpp\<close> with its helpers \<open>resume\<close> and \<open>wait_on_signal\<close>, which nothing calls; failures to allocate memory; the caches of type sizes,
  which do not change results; members that are declared and nowhere defined; the enumerators of \<^verbatim>\<open>detail/dwarf.h\<close> that the program does not use;
  and the tests.
\<close>

end
